(* ===== verification/Subly_Prelude.thy ===== *)
theory Subly_Prelude
  imports "HOL-Library.Word"
begin

text \<open>
  The vocabulary the component theories share: Rust's fixed-width integers with checked,
  saturating and little-endian operations, results with an error on the left, byte strings
  cut out of a message by offset, association lists for the maps the program iterates over,
  and the interface locale of fixed-length codecs.

  Every crate of the workspace is built with \<^verbatim>\<open>overflow-checks = true\<close>
  (\<^verbatim>\<open>src/Cargo.toml\<close>), so a plain \<^verbatim>\<open>+\<close> or \<^verbatim>\<open>-\<close> on an integer either returns the exact
  result or panics; it never wraps around.  The models therefore use
  \<^verbatim>\<open>checked_add\<close> and \<^verbatim>\<open>checked_sub\<close> below for plain arithmetic too, with a panic
  as the error.
\<close>

section \<open>Types\<close>

type_synonym u8 = "8 word"
type_synonym u16 = "16 word"
type_synonym u32 = "32 word"
type_synonym u64 = "64 word"

text \<open>\<^verbatim>\<open>i64\<close> values keep their 64 bits; \<^const>\<open>sint\<close> reads them.\<close>
type_synonym i64 = "64 word"

type_synonym bytes = "u8 list"

text \<open>A \<^verbatim>\<open>Pubkey\<close> and a \<^verbatim>\<open>[u8; 32]\<close> are byte lists; where the length matters it is part of the
  well-formedness predicate of the record that holds them.\<close>
type_synonym pubkey = bytes

text \<open>A fallible computation: \<^const>\<open>Inl\<close> carries the error, \<^const>\<open>Inr\<close> the value.\<close>
type_synonym ('e, 'a) result = "'e + 'a"

named_theorems result_simps \<open>when a fallible computation succeeds\<close>
named_theorems codec_simps \<open>lengths and slices of encoded fields\<close>
named_theorems arith_defs \<open>definitions of the checked operations\<close>

section \<open>Results\<close>

definition rbind :: "('e, 'a) result \<Rightarrow> ('a \<Rightarrow> ('e, 'b) result) \<Rightarrow> ('e, 'b) result" where
  "rbind r f = (case r of Inl e \<Rightarrow> Inl e | Inr x \<Rightarrow> f x)"

text \<open>\<^verbatim>\<open>require!(c, e)\<close> followed by the rest of the function.\<close>
definition require :: "bool \<Rightarrow> 'e \<Rightarrow> ('e, 'a) result \<Rightarrow> ('e, 'a) result" where
  "require c e r = (if c then r else Inl e)"

text \<open>\<^verbatim>\<open>opt.ok_or(e)?\<close> followed by the rest of the function.\<close>
definition ok_or :: "'a option \<Rightarrow> 'e \<Rightarrow> ('a \<Rightarrow> ('e, 'b) result) \<Rightarrow> ('e, 'b) result" where
  "ok_or x e f = (case x of None \<Rightarrow> Inl e | Some v \<Rightarrow> f v)"

definition is_ok :: "('e, 'a) result \<Rightarrow> bool" where
  "is_ok r = (case r of Inl _ \<Rightarrow> False | Inr _ \<Rightarrow> True)"

lemma rbind_simps [simp]: "rbind (Inl e) f = Inl e" "rbind (Inr x) f = f x"
  by (simp_all add: rbind_def)

lemma require_simps [simp]: "require True e r = r" "require False e r = Inl e"
  by (simp_all add: require_def)

lemma ok_or_simps [simp]: "ok_or None e f = Inl e" "ok_or (Some x) e f = f x"
  by (simp_all add: ok_or_def)

lemma rbind_ok [result_simps]: "rbind r f = Inr y \<longleftrightarrow> (\<exists>x. r = Inr x \<and> f x = Inr y)"
  by (cases r) simp_all

lemma require_ok [result_simps]: "require c e r = Inr y \<longleftrightarrow> c \<and> r = Inr y"
  by (simp add: require_def)

lemma ok_or_ok [result_simps]: "ok_or x e f = Inr y \<longleftrightarrow> (\<exists>v. x = Some v \<and> f v = Inr y)"
  by (cases x) simp_all

lemma is_ok_iff: "is_ok r \<longleftrightarrow> (\<exists>x. r = Inr x)"
  by (simp add: is_ok_def split: sum.splits)

lemma require_err: "require c e r = Inl e' \<longleftrightarrow> (\<not> c \<and> e' = e) \<or> (c \<and> r = Inl e')"
  by (auto simp: require_def)

section \<open>Checked and saturating arithmetic\<close>

lemma unat_less_pow: "unat w < 2 ^ LENGTH('a)" for w :: "('a::len) word"
  by (rule unsigned_less)

lemma word_of_unat: "word_of_nat (unat w) = w" for w :: "('a::len) word"
  by simp

lemma unsigned_word_eq_iff: "unat a = unat b \<longleftrightarrow> a = b" for a b :: "('a::len) word"
  by (metis word_of_unat)

definition u64_max :: nat where "u64_max = 2 ^ 64 - 1"

definition checked_add :: "('a::len) word \<Rightarrow> 'a word \<Rightarrow> 'a word option" where
  "checked_add a b = (if unat a + unat b < 2 ^ LENGTH('a) then Some (a + b) else None)"

definition checked_sub :: "('a::len) word \<Rightarrow> 'a word \<Rightarrow> 'a word option" where
  "checked_sub a b = (if b \<le> a then Some (a - b) else None)"

definition saturating_sub :: "('a::len) word \<Rightarrow> 'a word \<Rightarrow> 'a word" where
  "saturating_sub a b = (if b \<le> a then a - b else 0)"

definition checked_add_i64 :: "i64 \<Rightarrow> i64 \<Rightarrow> i64 option" where
  "checked_add_i64 a b =
    (let s = sint a + sint b in if - (2 ^ 63) \<le> s \<and> s < 2 ^ 63 then Some (a + b) else None)"

lemma checked_add_Some:
  "checked_add a b = Some c \<longleftrightarrow> unat a + unat b < 2 ^ LENGTH('a) \<and> c = a + b"
  for a b :: "('a::len) word"
  by (auto simp: checked_add_def)

lemma unat_checked_add: "checked_add a b = Some c \<Longrightarrow> unat c = unat a + unat b"
  by (auto simp: checked_add_def unat_word_ariths split: if_splits)

lemma checked_add_None: "checked_add a b = None \<longleftrightarrow> 2 ^ LENGTH('a) \<le> unat a + unat b"
  for a b :: "('a::len) word"
  by (auto simp: checked_add_def)

lemma unat_sub_le: "b \<le> a \<Longrightarrow> unat (a - b) = unat a - unat b"
  for a b :: "('a::len) word"
  by (metis unat_sub)

lemma unat_checked_sub: "checked_sub a b = Some c \<Longrightarrow> unat a = unat c + unat b"
  by (auto simp: checked_sub_def unat_sub_le word_le_nat_alt split: if_splits)

lemma checked_sub_None: "checked_sub a b = None \<longleftrightarrow> a < b"
  by (auto simp: checked_sub_def not_le)

lemma unat_saturating_sub: "unat (saturating_sub a b) = unat a - unat b"
  by (auto simp: saturating_sub_def unat_sub_le word_le_nat_alt)

lemma checked_add_then_sub: "checked_add a b = Some c \<Longrightarrow> saturating_sub c b = a"
  by (metis add_diff_cancel_right' unat_checked_add unat_saturating_sub unsigned_word_eq_iff)

lemma checked_add_then_checked_sub: "checked_add a b = Some c \<Longrightarrow> checked_sub c b = Some a"
  using unat_checked_add [of a b c]
  by (auto simp: checked_sub_def checked_add_Some word_le_nat_alt)

lemma checked_sub_then_add: "checked_sub a b = Some c \<Longrightarrow> checked_add c b = Some a"
  using unat_checked_sub [of a b c] unat_less_pow [of a]
  by (auto simp: checked_sub_def checked_add_def split: if_splits)

lemma sint_checked_add_i64:
  assumes "checked_add_i64 a b = Some c"
  shows "sint c = sint a + sint b"
proof -
  have "c = a + b" "- (2 ^ 63) \<le> sint a + sint b" "sint a + sint b < 2 ^ 63"
    using assms by (auto simp: checked_add_i64_def Let_def split: if_splits)
  then show ?thesis
    by (simp add: sint_word_ariths signed_take_bit_int_eq_self)
qed

section \<open>Little-endian integers\<close>

primrec nat_to_le :: "nat \<Rightarrow> nat \<Rightarrow> bytes" where
  "nat_to_le 0 x = []"
| "nat_to_le (Suc n) x = word_of_nat (x mod 256) # nat_to_le n (x div 256)"

primrec nat_from_le :: "bytes \<Rightarrow> nat" where
  "nat_from_le [] = 0"
| "nat_from_le (b # bs) = unat b + 256 * nat_from_le bs"

definition to_le_bytes :: "u64 \<Rightarrow> bytes" where
  "to_le_bytes x = nat_to_le 8 (unat x)"

definition from_le_bytes :: "bytes \<Rightarrow> u64" where
  "from_le_bytes bs = word_of_nat (nat_from_le bs)"

definition u16_to_le :: "u16 \<Rightarrow> bytes" where
  "u16_to_le x = nat_to_le 2 (unat x)"

definition u16_from_le :: "bytes \<Rightarrow> u16" where
  "u16_from_le bs = word_of_nat (nat_from_le bs)"

definition u32_to_le :: "u32 \<Rightarrow> bytes" where
  "u32_to_le x = nat_to_le 4 (unat x)"

definition u32_from_le :: "bytes \<Rightarrow> u32" where
  "u32_from_le bs = word_of_nat (nat_from_le bs)"

lemma length_nat_to_le [simp]: "length (nat_to_le n x) = n"
  by (induction n arbitrary: x) simp_all

lemma nat_from_to_le: "nat_from_le (nat_to_le n x) = x mod 256 ^ n"
proof (induction n arbitrary: x)
  case (Suc n)
  have "unat (word_of_nat (x mod 256) :: u8) = x mod 256"
    by (simp add: unat_of_nat)
  then show ?case
    using Suc by (simp add: mod_mult2_eq)
qed simp

lemma nat_from_le_bound: "nat_from_le bs < 256 ^ length bs"
proof (induction bs)
  case (Cons b bs)
  have "unat b < 256" using unat_less_pow [of b] by simp
  with Cons show ?case by simp
qed simp

lemma nat_to_from_le: "nat_to_le (length bs) (nat_from_le bs) = bs"
proof (induction bs)
  case (Cons b bs)
  have "unat b < 256" using unat_less_pow [of b] by simp
  with Cons show ?case by (simp add: word_of_unat)
qed simp

lemma length_to_le_bytes [simp, codec_simps]: "length (to_le_bytes x) = 8"
  by (simp add: to_le_bytes_def)

lemma length_u16_to_le [simp, codec_simps]: "length (u16_to_le x) = 2"
  by (simp add: u16_to_le_def)

lemma length_u32_to_le [simp, codec_simps]: "length (u32_to_le x) = 4"
  by (simp add: u32_to_le_def)

lemma from_to_le_bytes [simp]: "from_le_bytes (to_le_bytes x) = x"
  using unat_less_pow [of x]
  by (simp add: from_le_bytes_def to_le_bytes_def nat_from_to_le word_of_unat)

lemma u16_from_to_le [simp]: "u16_from_le (u16_to_le x) = x"
  using unat_less_pow [of x]
  by (simp add: u16_from_le_def u16_to_le_def nat_from_to_le word_of_unat)

lemma u32_from_to_le [simp]: "u32_from_le (u32_to_le x) = x"
  using unat_less_pow [of x]
  by (simp add: u32_from_le_def u32_to_le_def nat_from_to_le word_of_unat)

lemma to_from_le_bytes: "length bs = 8 \<Longrightarrow> to_le_bytes (from_le_bytes bs) = bs"
  using nat_from_le_bound [of bs] nat_to_from_le [of bs]
  by (simp add: from_le_bytes_def to_le_bytes_def unat_of_nat)

lemma to_le_bytes_inject [simp]: "to_le_bytes x = to_le_bytes y \<longleftrightarrow> x = y"
  by (metis from_to_le_bytes)

section \<open>Slices\<close>

text \<open>\<^verbatim>\<open>&data[offset..offset + n]\<close>, used where the bounds have been checked.\<close>
definition slice :: "bytes \<Rightarrow> nat \<Rightarrow> nat \<Rightarrow> bytes" where
  "slice bs off n = take n (drop off bs)"

lemma length_slice [simp]: "length (slice bs off n) = min n (length bs - off)"
  by (simp add: slice_def)

lemma take_here: "length a = n \<Longrightarrow> take n (a @ b) = a"
  by simp

lemma drop_here: "length a = n \<Longrightarrow> drop n (a @ b) = b"
  by simp

lemma slice_append_left:
  "length a \<le> off \<Longrightarrow> slice (a @ b) off n = slice b (off - length a) n"
  by (simp add: slice_def)

lemma slice_here: "length a = n \<Longrightarrow> slice (a @ b) 0 n = a"
  by (simp add: slice_def)

lemma slice_all: "length a = n \<Longrightarrow> slice a 0 n = a"
  by (simp add: slice_def)

lemma slice_Suc: "0 < off \<Longrightarrow> slice (x # xs) off n = slice xs (off - 1) n"
  by (cases off) (simp_all add: slice_def)

lemmas slice_simps = slice_append_left slice_here slice_all slice_Suc

lemma slice_split: "slice bs off n @ slice bs (off + n) m = slice bs off (n + m)"
  by (simp add: slice_def take_add drop_drop add.commute [of off n])

lemma slice_step: "slice bs off n @ drop (off + n) bs = drop off bs"
  by (metis add.commute append_take_drop_id drop_drop slice_def)

text \<open>ASCII strings as bytes.\<close>
definition str_bytes :: "string \<Rightarrow> bytes" where
  "str_bytes s = map (\<lambda>c. word_of_nat (of_char c)) s"

lemma length_str_bytes [simp]: "length (str_bytes s) = length s"
  by (simp add: str_bytes_def)

section \<open>Fixed-length codecs\<close>

text \<open>
  The contract of a binary message format: an encoder and a partial decoder, the values the
  encoder is used on, and the length of the encoding.  The decoder inverts the encoder, and
  accepts nothing but encodings.
\<close>
locale fixed_codec =
  fixes enc :: "'a \<Rightarrow> bytes"
    and dec :: "bytes \<Rightarrow> 'a option"
    and wf :: "'a \<Rightarrow> bool"
    and len :: nat
  assumes dec_enc: "wf x \<Longrightarrow> dec (enc x) = Some x"
    and enc_length: "wf x \<Longrightarrow> length (enc x) = len"
    and enc_dec: "dec bs = Some x \<Longrightarrow> wf x \<and> enc x = bs"
begin

lemma enc_inject: "wf x \<Longrightarrow> wf y \<Longrightarrow> enc x = enc y \<longleftrightarrow> x = y"
  by (metis dec_enc option.inject)

lemma dec_Some_iff: "dec bs = Some x \<longleftrightarrow> wf x \<and> enc x = bs"
  using dec_enc enc_dec by blast

lemma dec_inject: "dec bs = Some x \<Longrightarrow> dec bs' = Some x \<Longrightarrow> bs = bs'"
  using enc_dec by blast

lemma dec_length: "dec bs = Some x \<Longrightarrow> length bs = len"
  using enc_dec enc_length by blast

lemma enc_inject_prefix:
  "wf x \<Longrightarrow> wf y \<Longrightarrow> enc x @ xs = enc y @ ys \<longleftrightarrow> x = y \<and> xs = ys"
  by (metis append_eq_append_conv enc_inject enc_length)

lemma concat_inject:
  assumes "\<forall>x\<in>set xs. wf x" "\<forall>y\<in>set ys. wf y" "length xs = length ys"
  shows "concat (map enc xs) @ as = concat (map enc ys) @ bs \<longleftrightarrow> xs = ys \<and> as = bs"
  using assms(3,1,2)
proof (induction xs ys rule: list_induct2)
  case (Cons x xs y ys)
  then show ?case by (auto simp: enc_inject_prefix)
qed simp

lemma concat_length: "\<forall>x\<in>set xs. wf x \<Longrightarrow> length (concat (map enc xs)) = len * length xs"
  by (induction xs) (auto simp: enc_length)

end

text \<open>The eight little-endian bytes of a \<^verbatim>\<open>u64\<close> are the first codec.\<close>

definition u64_decode :: "bytes \<Rightarrow> u64 option" where
  "u64_decode bs = (if length bs = 8 then Some (from_le_bytes bs) else None)"

interpretation u64_codec: fixed_codec to_le_bytes u64_decode "\<lambda>_. True" 8
  by unfold_locales (auto simp: u64_decode_def to_from_le_bytes split: if_splits)

section \<open>Association lists\<close>

text \<open>
  The concurrent hash maps of the enclave are iterated over as well as looked up.  They are
  association lists with distinct keys; \<^verbatim>\<open>entry\<close>-style updates keep the position of a key that
  is present and append a new one.
\<close>
type_synonym ('k, 'v) amap = "('k \<times> 'v) list"

primrec aget :: "('k, 'v) amap \<Rightarrow> 'k \<Rightarrow> 'v option" where
  "aget [] k = None"
| "aget (p # m) k = (if fst p = k then Some (snd p) else aget m k)"

primrec aput :: "'k \<Rightarrow> 'v \<Rightarrow> ('k, 'v) amap \<Rightarrow> ('k, 'v) amap" where
  "aput k v [] = [(k, v)]"
| "aput k v (p # m) = (if fst p = k then (k, v) # m else p # aput k v m)"

definition adel :: "'k \<Rightarrow> ('k, 'v) amap \<Rightarrow> ('k, 'v) amap" where
  "adel k m = filter (\<lambda>p. fst p \<noteq> k) m"

definition akeys :: "('k, 'v) amap \<Rightarrow> 'k list" where
  "akeys m = map fst m"

definition avals :: "('k, 'v) amap \<Rightarrow> 'v list" where
  "avals m = map snd m"

definition adistinct :: "('k, 'v) amap \<Rightarrow> bool" where
  "adistinct m = distinct (map fst m)"

lemma aget_aput [simp]: "aget (aput k v m) k' = (if k = k' then Some v else aget m k')"
  by (induction m) auto

lemma aget_adel [simp]: "aget (adel k m) k' = (if k = k' then None else aget m k')"
  by (induction m) (auto simp: adel_def)

lemma aget_None: "aget m k = None \<longleftrightarrow> k \<notin> fst ` set m"
  by (induction m) auto

lemma aget_in_set: "aget m k = Some v \<Longrightarrow> (k, v) \<in> set m"
  by (induction m) (auto split: if_splits)

lemma in_set_aget: "adistinct m \<Longrightarrow> (k, v) \<in> set m \<Longrightarrow> aget m k = Some v"
  by (induction m) (auto simp: adistinct_def image_iff)

lemma set_aput_keys: "fst ` set (aput k v m) = insert k (fst ` set m)"
  by (induction m) auto

lemma adistinct_aput [simp]: "adistinct m \<Longrightarrow> adistinct (aput k v m)"
proof (induction m)
  case (Cons p m)
  then show ?case
    using set_aput_keys [of k v m] by (auto simp: adistinct_def)
qed (simp add: adistinct_def)

lemma adistinct_adel [simp]: "adistinct m \<Longrightarrow> adistinct (adel k m)"
  by (induction m) (auto simp: adistinct_def adel_def)

lemma adistinct_Nil [simp]: "adistinct []"
  by (simp add: adistinct_def)

lemma aput_same: "adistinct m \<Longrightarrow> aget m k = Some v \<Longrightarrow> aput k v m = m"
  by (induction m) (auto simp: adistinct_def)

lemma aput_aput: "aput k v (aput k w m) = aput k v m"
  by (induction m) auto

lemma filter_idem_ne: "\<forall>x\<in>set m. k \<noteq> fst x \<Longrightarrow> filter (\<lambda>p. fst p \<noteq> k) m = m"
  by (induction m) auto

lemma adel_fresh: "aget m k = None \<Longrightarrow> adel k m = m"
  by (induction m) (auto simp: adel_def split: if_splits)

lemma adel_aput_fresh: "aget m k = None \<Longrightarrow> adel k (aput k v m) = m"
  by (induction m) (auto simp: adel_def filter_id_conv split: if_splits dest: aget_in_set)

text \<open>Sums over the values of a map, and how an update changes them.\<close>
definition asum :: "('v \<Rightarrow> nat) \<Rightarrow> ('k, 'v) amap \<Rightarrow> nat" where
  "asum f m = sum_list (map (f \<circ> snd) m)"

lemma asum_Nil [simp]: "asum f [] = 0"
  by (simp add: asum_def)

lemma asum_Cons [simp]: "asum f (p # m) = f (snd p) + asum f m"
  by (simp add: asum_def)

lemma asum_aput_fresh: "aget m k = None \<Longrightarrow> asum f (aput k v m) = asum f m + f v"
  by (induction m) (auto split: if_splits)

lemma asum_aput: "aget m k = Some w \<Longrightarrow> asum f (aput k v m) + f w = asum f m + f v"
  by (induction m) (auto split: if_splits)

lemma asum_member: "aget m k = Some w \<Longrightarrow> f w \<le> asum f m"
  by (induction m) (auto split: if_splits simp: trans_le_add2)

lemma asum_adel: "adistinct m \<Longrightarrow> aget m k = Some w \<Longrightarrow> asum f (adel k m) + f w = asum f m"
proof (induction m)
  case (Cons p m)
  then show ?case
    by (cases "fst p = k")
      (auto simp: adel_def adistinct_def image_iff filter_idem_ne split: if_splits)
qed simp

section \<open>Runs of a labelled transition system\<close>

inductive run :: "('e \<Rightarrow> 's \<Rightarrow> 's \<Rightarrow> bool) \<Rightarrow> 'e list \<Rightarrow> 's \<Rightarrow> 's \<Rightarrow> bool"
  for step :: "'e \<Rightarrow> 's \<Rightarrow> 's \<Rightarrow> bool" where
  run_nil: "run step [] s s"
| run_snoc: "run step es s t \<Longrightarrow> step e t u \<Longrightarrow> run step (es @ [e]) s u"

text \<open>What every step keeps, every run keeps; a relation that is reflexive, transitive and
  contains every step relates the ends of every run.\<close>
lemma run_invariant:
  assumes "run step es s t" "I s" "\<And>e s t. step e s t \<Longrightarrow> I s \<Longrightarrow> I t"
  shows "I t"
  using assms(1,2) by (induction rule: run.induct) (auto intro: assms(3))

lemma run_relates:
  assumes "run step es s t" "I s"
    and "\<And>e s t. step e s t \<Longrightarrow> I s \<Longrightarrow> I t \<and> R s t"
    and "\<And>s. R s s" "\<And>s t u. R s t \<Longrightarrow> R t u \<Longrightarrow> R s u"
  shows "I t \<and> R s t"
  using assms(1,2) by (induction rule: run.induct) (use assms(3-5) in blast)+

lemma run_single: "step e s t \<Longrightarrow> run step [e] s t"
  using run_snoc [OF run_nil] by fastforce

end
