(* ===== verification/Enclave_State.thy ===== *)
theory Enclave_State
  imports Subly_Prelude
begin

text \<open>
  The enclave's balances (\<^verbatim>\<open>src/enclave/src/state.rs\<close>): the data the enclave keeps, and the
  operations of \<^verbatim>\<open>VaultState\<close> on it.

  An operation is a function from the state to a result and the state it leaves.  Unlike a
  transaction on chain, an operation that fails keeps what it has changed before it failed, and
  the model keeps it too.  Plain arithmetic panics on overflow; \<^const>\<open>saturating_sub\<close> is used where the code
  uses it.  Unix times are \<^typ>\<open>int\<close>; amounts are 64-bit words.  The concurrent maps are association
  lists, in an order that no operation depends on.
\<close>

section \<open>Errors\<close>

datatype EnclaveError =
    InsufficientBalance | ClientNotFound | ProviderNotFound | ProviderAuthFailed
  | UnsupportedProviderAuthMode | InvalidProviderAuthConfig | MtlsNotEnabled | InvalidScheme
  | PaymentDetailsRequired | InvalidPaymentDetails | VerifyWindowSecRequired
  | InvalidVerifyWindowSec | InvalidClientSignature | ClientAuthExpired | InvalidClientAuthWindow
  | PaymentExpired | PaymentIdReused | ReservationNotFound | ReservationExpired
  | SettlementNotFound | InvalidReservationStatus string | VaultNotActive | VaultPaused
  | VaultMigrating | VaultRetired | VaultStatusUnavailable | DepositSyncInProgress
  | RequestHashMismatch | PaymentDetailsHashMismatch | ProviderIdMismatch
  | ProviderAlreadyRegistered | ChannelNotFound | InvalidChannelStatus string
  | ChannelRequestExpired | ChannelRequestIdReused | InvalidAdaptorSignature
  | ReceiptWatchtowerUnavailable | InvalidProviderParticipant | ProviderParticipantRequired
  | ProviderParticipantAttestationRequired | ProviderParticipantMismatch
  | InvalidProviderParticipantAttestation string | PayToMismatch | AssetMintMismatch
  | NetworkMismatch | OriginNotAllowed | AdminPrivacyBypassDisabled | Internal string

text \<open>An operation returns an error or panics.\<close>
datatype fault = Err EnclaveError | Panic

section \<open>Data\<close>

datatype ChannelStatus = Open | Locked | Pending | Closed

record ChannelBalance =
  client_free :: u64
  client_locked :: u64
  provider_earned :: u64

record AdaptorPreSignature =
  r_prime :: bytes
  s_prime :: bytes

record ChannelRequest =
  cr_request_id :: string
  cr_amount :: u64
  cr_request_hash :: bytes
  cr_provider_pubkey :: "bytes option"
  cr_adaptor_point :: "bytes option"
  cr_provider_pre_sig :: "AdaptorPreSignature option"
  cr_encrypted_result :: "bytes option"
  cr_result_hash :: "bytes option"
  cr_created_at :: int
  cr_expires_at :: int

record ChannelState =
  ch_channel_id :: string
  ch_client :: pubkey
  ch_provider_id :: string
  ch_balance :: ChannelBalance
  ch_status :: ChannelStatus
  ch_nonce :: u64
  ch_created_at :: int
  ch_updated_at :: int
  ch_used_request_ids :: "string set"
  ch_active_request :: "ChannelRequest option"

datatype ReservationStatus = Reserved | SettledOffchain | Cancelled | Expired | BatchedOnchain

record ClientBalance =
  cb_free :: u64
  cb_locked :: u64
  cb_max_lock_expires_at :: int
  cb_total_deposited :: u64
  cb_total_withdrawn :: u64

definition client_balance_default :: ClientBalance where
  "client_balance_default = \<lparr>cb_free = 0, cb_locked = 0, cb_max_lock_expires_at = 0,
    cb_total_deposited = 0, cb_total_withdrawn = 0\<rparr>"

record ProviderRegistration =
  rg_provider_id :: string
  rg_display_name :: string
  rg_participant_pubkey :: "pubkey option"
  rg_participant_attestation_policy_hash :: "bytes option"
  rg_participant_attestation_verified_at_ms :: "int option"
  rg_participant_attestation_mode :: "string option"
  rg_settlement_token_account :: pubkey
  rg_network :: string
  rg_asset_mint :: pubkey
  rg_allowed_origins :: "string list"
  rg_auth_mode :: string
  rg_api_key_hash :: "bytes option"
  rg_mtls_cert_fingerprint :: "bytes option"

record Reservation =
  rv_verification_id :: string
  rv_reservation_id :: string
  rv_payment_id :: string
  rv_client :: pubkey
  rv_provider_id :: string
  rv_amount :: u64
  rv_request_hash :: bytes
  rv_payment_details_hash :: bytes
  rv_status :: ReservationStatus
  rv_created_at :: int
  rv_expires_at :: int
  rv_settlement_id :: "string option"
  rv_settled_at :: "int option"

record ProviderCredit =
  pc_provider_id :: string
  pc_settlement_token_account :: pubkey
  pc_credited_amount :: u64
  pc_oldest_credit_at :: int
  pc_settlement_ids :: "string list"

record PendingWithdrawal =
  pw_client :: pubkey
  pw_recipient_ata :: pubkey
  pw_amount :: u64
  pw_withdraw_nonce :: u64
  pw_issued_at :: int
  pw_expires_at :: int

record VaultLifecycle =
  lc_status :: u8
  lc_successor_vault :: pubkey
  lc_exit_deadline :: int
  lc_synced_at_ms :: int

record SettlementRecord =
  sr_settlement_id :: string
  sr_client :: pubkey
  sr_provider :: pubkey
  sr_amount :: u64
  sr_timestamp :: int

record SettlementBatchInfo =
  bi_batch_id :: u64
  bi_tx_signature :: string

text \<open>The signing key and the RPC configuration stay outside the model; signatures are a
  parameter where they are needed.\<close>
record VaultState =
  es_vault_config :: pubkey
  es_vault_signer_pubkey :: pubkey
  es_usdc_mint :: pubkey
  es_attestation_policy_hash :: bytes
  es_auditor_master_secret :: bytes
  es_auditor_epoch :: u32
  es_client_balances :: "(pubkey, ClientBalance) amap"
  es_reservations :: "(string, Reservation) amap"
  es_payment_id_index :: "(string, string) amap"
  es_provider_credits :: "(string, ProviderCredit) amap"
  es_providers :: "(string, ProviderRegistration) amap"
  es_settlement_history :: "(string, SettlementRecord) amap"
  es_settlement_batches :: "(string, SettlementBatchInfo) amap"
  es_pending_withdrawals :: "(u64, PendingWithdrawal) amap"
  es_active_channels :: "(string, ChannelState) amap"
  es_receipt_nonce :: u64
  es_withdraw_nonce :: u64
  es_snapshot_seqno :: u64
  es_last_batch_at :: int
  es_last_finalized_slot :: u64
  es_lifecycle :: VaultLifecycle

definition new_vault_state :: "pubkey \<Rightarrow> pubkey \<Rightarrow> pubkey \<Rightarrow> bytes \<Rightarrow> VaultState" where
  "new_vault_state vault_config vault_signer_pubkey usdc_mint attestation_policy_hash =
    \<lparr>es_vault_config = vault_config, es_vault_signer_pubkey = vault_signer_pubkey,
     es_usdc_mint = usdc_mint, es_attestation_policy_hash = attestation_policy_hash,
     es_auditor_master_secret = replicate 32 0, es_auditor_epoch = 0, es_client_balances = [],
     es_reservations = [], es_payment_id_index = [], es_provider_credits = [], es_providers = [],
     es_settlement_history = [], es_settlement_batches = [], es_pending_withdrawals = [],
     es_active_channels = [], es_receipt_nonce = 1, es_withdraw_nonce = 1, es_snapshot_seqno = 0,
     es_last_batch_at = 0, es_last_finalized_slot = 0,
     es_lifecycle = \<lparr>lc_status = 0, lc_successor_vault = replicate 32 0, lc_exit_deadline = 0,
       lc_synced_at_ms = 0\<rparr>\<rparr>"

section \<open>Sequencing\<close>

text \<open>Computations on a state \<open>'s\<close>: a result or a fault, and the state they leave.\<close>
type_synonym ('s, 'a) stm = "'s \<Rightarrow> (fault, 'a) result \<times> 's"

type_synonym 'a est = "(VaultState, 'a) stm"

definition sret :: "'a \<Rightarrow> ('s, 'a) stm" where
  "sret x st = (Inr x, st)"

definition sfail :: "fault \<Rightarrow> ('s, 'a) stm" where
  "sfail e st = (Inl e, st)"

definition sbind :: "('s, 'a) stm \<Rightarrow> ('a \<Rightarrow> ('s, 'b) stm) \<Rightarrow> ('s, 'b) stm" where
  "sbind m f st = (case m st of (Inl e, st1) \<Rightarrow> (Inl e, st1) | (Inr x, st1) \<Rightarrow> f x st1)"

text \<open>\<^verbatim>\<open>if !c { return Err(e) }\<close>\<close>
definition srequire :: "bool \<Rightarrow> EnclaveError \<Rightarrow> ('s, 'a) stm \<Rightarrow> ('s, 'a) stm" where
  "srequire c e m st = (if c then m st else (Inl (Err e), st))"

text \<open>\<^verbatim>\<open>lookup.ok_or(e)?\<close>\<close>
definition sfind :: "('s \<Rightarrow> 'a option) \<Rightarrow> EnclaveError \<Rightarrow> ('s, 'a) stm" where
  "sfind f e st = (case f st of None \<Rightarrow> (Inl (Err e), st) | Some x \<Rightarrow> (Inr x, st))"

definition sok_or :: "'a option \<Rightarrow> EnclaveError \<Rightarrow> ('a \<Rightarrow> ('s, 'b) stm) \<Rightarrow> ('s, 'b) stm" where
  "sok_or x e f = (case x of None \<Rightarrow> sfail (Err e) | Some v \<Rightarrow> f v)"

definition sget :: "('s \<Rightarrow> 'a) \<Rightarrow> ('s, 'a) stm" where
  "sget f st = (Inr (f st), st)"

definition smodify :: "('s \<Rightarrow> 's) \<Rightarrow> ('s, unit) stm" where
  "smodify f st = (Inr (), f st)"

text \<open>Plain addition and subtraction, which panic on overflow.\<close>
definition sadd :: "u64 \<Rightarrow> u64 \<Rightarrow> ('s, u64) stm" where
  "sadd a b st = (case checked_add a b of None \<Rightarrow> (Inl Panic, st) | Some c \<Rightarrow> (Inr c, st))"

definition ssub :: "u64 \<Rightarrow> u64 \<Rightarrow> ('s, u64) stm" where
  "ssub a b st = (case checked_sub a b of None \<Rightarrow> (Inl Panic, st) | Some c \<Rightarrow> (Inr c, st))"

text \<open>\<^verbatim>\<open>let _ = m;\<close>: an error is dropped, a panic is not.\<close>
definition sattempt :: "('s, 'a) stm \<Rightarrow> ('s, unit) stm" where
  "sattempt m st = (case m st of (Inl Panic, st1) \<Rightarrow> (Inl Panic, st1) | (_, st1) \<Rightarrow> (Inr (), st1))"

definition put_balance :: "pubkey \<Rightarrow> ClientBalance \<Rightarrow> unit est" where
  "put_balance client b =
    smodify (\<lambda>st. st\<lparr>es_client_balances := aput client b (es_client_balances st)\<rparr>)"

definition get_balance :: "pubkey \<Rightarrow> EnclaveError \<Rightarrow> ClientBalance est" where
  "get_balance client e = sfind (\<lambda>st. aget (es_client_balances st) client) e"

lemma sbind_ok [result_simps]:
  "sbind m f st = (Inr y, st') \<longleftrightarrow> (\<exists>x st1. m st = (Inr x, st1) \<and> f x st1 = (Inr y, st'))"
  by (auto simp: sbind_def split: prod.splits sum.splits)

lemma sret_ok [result_simps]: "sret x st = (Inr y, st') \<longleftrightarrow> y = x \<and> st' = st"
  by (auto simp: sret_def)

lemma sfail_ok [result_simps]: "sfail e st = (Inr y, st') \<longleftrightarrow> False"
  by (simp add: sfail_def)

lemma srequire_ok [result_simps]: "srequire c e m st = (Inr y, st') \<longleftrightarrow> c \<and> m st = (Inr y, st')"
  by (simp add: srequire_def)

lemma sfind_ok [result_simps]: "sfind f e st = (Inr y, st') \<longleftrightarrow> f st = Some y \<and> st' = st"
  by (auto simp: sfind_def split: option.splits)

lemma sok_or_ok [result_simps]:
  "sok_or x e f st = (Inr y, st') \<longleftrightarrow> (\<exists>v. x = Some v \<and> f v st = (Inr y, st'))"
  by (auto simp: sok_or_def sfail_def split: option.splits)

lemma sget_ok [result_simps]: "sget f st = (Inr y, st') \<longleftrightarrow> y = f st \<and> st' = st"
  by (auto simp: sget_def)

lemma smodify_ok [result_simps]: "smodify f st = (Inr y, st') \<longleftrightarrow> st' = f st"
  by (auto simp: smodify_def)

lemma sadd_ok [result_simps]: "sadd a b st = (Inr c, st') \<longleftrightarrow> checked_add a b = Some c \<and> st' = st"
  by (auto simp: sadd_def split: option.splits)

lemma ssub_ok [result_simps]: "ssub a b st = (Inr c, st') \<longleftrightarrow> checked_sub a b = Some c \<and> st' = st"
  by (auto simp: ssub_def split: option.splits)

lemmas state_op_defs = sbind_def sret_def sfail_def srequire_def sfind_def sok_or_def sget_def
  smodify_def sadd_def ssub_def sattempt_def put_balance_def get_balance_def

section \<open>Operations\<close>

text \<open>\<^verbatim>\<open>AtomicU64::fetch_add\<close> wraps around.\<close>
definition next_receipt_nonce :: "u64 est" where
  "next_receipt_nonce st = (Inr (es_receipt_nonce st), st\<lparr>es_receipt_nonce := es_receipt_nonce st + 1\<rparr>)"

definition next_withdraw_nonce :: "u64 est" where
  "next_withdraw_nonce st =
    (Inr (es_withdraw_nonce st), st\<lparr>es_withdraw_nonce := es_withdraw_nonce st + 1\<rparr>)"

definition apply_deposit :: "pubkey \<Rightarrow> u64 \<Rightarrow> unit est" where
  "apply_deposit client amount st =
    (let b = (case aget (es_client_balances st) client of
                None \<Rightarrow> client_balance_default | Some b \<Rightarrow> b)
     in sbind (put_balance client b) (\<lambda>_.
        sbind (sadd (cb_free b) amount) (\<lambda>free.
        sbind (put_balance client (b\<lparr>cb_free := free\<rparr>)) (\<lambda>_.
        sbind (sadd (cb_total_deposited b) amount) (\<lambda>deposited.
        put_balance client (b\<lparr>cb_free := free, cb_total_deposited := deposited\<rparr>))))) st)"

definition rollback_deposit :: "pubkey \<Rightarrow> u64 \<Rightarrow> unit est" where
  "rollback_deposit client amount =
    sbind (get_balance client ClientNotFound) (\<lambda>b.
    put_balance client (b\<lparr>cb_free := saturating_sub (cb_free b) amount,
      cb_total_deposited := saturating_sub (cb_total_deposited b) amount\<rparr>))"

definition reserve_balance :: "pubkey \<Rightarrow> u64 \<Rightarrow> unit est" where
  "reserve_balance client amount =
    sbind (get_balance client InsufficientBalance) (\<lambda>b.
    srequire (amount \<le> cb_free b) InsufficientBalance (
    let b1 = b\<lparr>cb_free := cb_free b - amount\<rparr> in
    sbind (put_balance client b1) (\<lambda>_.
    sbind (sadd (cb_locked b) amount) (\<lambda>locked.
    put_balance client (b1\<lparr>cb_locked := locked\<rparr>)))))"

definition release_balance :: "pubkey \<Rightarrow> u64 \<Rightarrow> unit est" where
  "release_balance client amount =
    sbind (get_balance client ClientNotFound) (\<lambda>b.
    let b1 = b\<lparr>cb_locked := saturating_sub (cb_locked b) amount\<rparr> in
    sbind (put_balance client b1) (\<lambda>_.
    sbind (sadd (cb_free b) amount) (\<lambda>free.
    put_balance client (b1\<lparr>cb_free := free\<rparr>))))"

text \<open>\<^verbatim>\<open>iter.max().unwrap_or(0)\<close>\<close>
fun max_or_zero :: "int list \<Rightarrow> int" where
  "max_or_zero [] = 0"
| "max_or_zero (x # xs) = foldl max x xs"

definition client_max_lock :: "pubkey \<Rightarrow> VaultState \<Rightarrow> int" where
  "client_max_lock client st =
    max (max
      (max_or_zero (map rv_expires_at
        (filter (\<lambda>r. rv_client r = client \<and> rv_status r = Reserved) (avals (es_reservations st)))))
      (max_or_zero (map pw_expires_at
        (filter (\<lambda>w. pw_client w = client) (avals (es_pending_withdrawals st))))))
      (max_or_zero (map cr_expires_at
        (List.map_filter ch_active_request
          (filter (\<lambda>c. ch_client c = client) (avals (es_active_channels st))))))"

definition refresh_client_max_lock_expires_at :: "pubkey \<Rightarrow> int est" where
  "refresh_client_max_lock_expires_at client =
    sbind (sget (client_max_lock client)) (\<lambda>t.
    sbind (get_balance client ClientNotFound) (\<lambda>b.
    sbind (put_balance client (b\<lparr>cb_max_lock_expires_at := t\<rparr>)) (\<lambda>_.
    sret t)))"

definition put_withdrawal :: "PendingWithdrawal \<Rightarrow> unit est" where
  "put_withdrawal w = smodify (\<lambda>st. st\<lparr>es_pending_withdrawals :=
    aput (pw_withdraw_nonce w) w (es_pending_withdrawals st)\<rparr>)"

definition take_withdrawal :: "u64 \<Rightarrow> PendingWithdrawal est" where
  "take_withdrawal withdraw_nonce =
    sbind (sfind (\<lambda>st. aget (es_pending_withdrawals st) withdraw_nonce) ReservationNotFound) (\<lambda>w.
    sbind (smodify (\<lambda>st. st\<lparr>es_pending_withdrawals :=
      adel withdraw_nonce (es_pending_withdrawals st)\<rparr>)) (\<lambda>_. sret w))"

definition authorize_withdrawal :: "PendingWithdrawal \<Rightarrow> unit est" where
  "authorize_withdrawal withdrawal =
    sbind (get_balance (pw_client withdrawal) ClientNotFound) (\<lambda>b.
    srequire (pw_amount withdrawal \<le> cb_free b) InsufficientBalance (
    let b1 = b\<lparr>cb_free := cb_free b - pw_amount withdrawal\<rparr> in
    sbind (put_balance (pw_client withdrawal) b1) (\<lambda>_.
    sbind (sadd (cb_locked b) (pw_amount withdrawal)) (\<lambda>locked.
    sbind (put_balance (pw_client withdrawal) (b1\<lparr>cb_locked := locked\<rparr>)) (\<lambda>_.
    put_withdrawal withdrawal)))))"

definition expire_pending_withdrawal :: "u64 \<Rightarrow> PendingWithdrawal est" where
  "expire_pending_withdrawal withdraw_nonce =
    sbind (take_withdrawal withdraw_nonce) (\<lambda>w.
    sbind (get_balance (pw_client w) ClientNotFound) (\<lambda>b.
    let b1 = b\<lparr>cb_locked := saturating_sub (cb_locked b) (pw_amount w)\<rparr> in
    sbind (put_balance (pw_client w) b1) (\<lambda>_.
    sbind (sadd (cb_free b) (pw_amount w)) (\<lambda>free.
    sbind (put_balance (pw_client w) (b1\<lparr>cb_free := free\<rparr>)) (\<lambda>_.
    sret w)))))"

definition rollback_authorized_withdrawal :: "u64 \<Rightarrow> PendingWithdrawal est" where
  "rollback_authorized_withdrawal withdraw_nonce = expire_pending_withdrawal withdraw_nonce"

definition apply_withdrawal :: "u64 \<Rightarrow> PendingWithdrawal est" where
  "apply_withdrawal withdraw_nonce =
    sbind (take_withdrawal withdraw_nonce) (\<lambda>w.
    sbind (get_balance (pw_client w) ClientNotFound) (\<lambda>b.
    let b1 = b\<lparr>cb_locked := saturating_sub (cb_locked b) (pw_amount w)\<rparr> in
    sbind (put_balance (pw_client w) b1) (\<lambda>_.
    case checked_add (cb_total_withdrawn b) (pw_amount w) of
      None \<Rightarrow> sfail (Err (Internal ''Withdrawal total overflow''))
    | Some t \<Rightarrow>
        sbind (put_balance (pw_client w) (b1\<lparr>cb_total_withdrawn := t\<rparr>)) (\<lambda>_. sret w))))"

definition rollback_applied_withdrawal :: "PendingWithdrawal \<Rightarrow> unit est" where
  "rollback_applied_withdrawal withdrawal =
    sbind (get_balance (pw_client withdrawal) ClientNotFound) (\<lambda>b.
    sbind (sadd (cb_locked b) (pw_amount withdrawal)) (\<lambda>locked.
    sbind (put_balance (pw_client withdrawal) (b\<lparr>cb_locked := locked,
      cb_total_withdrawn := saturating_sub (cb_total_withdrawn b) (pw_amount withdrawal)\<rparr>)) (\<lambda>_.
    put_withdrawal withdrawal)))"

definition put_credit :: "string \<Rightarrow> ProviderCredit \<Rightarrow> unit est" where
  "put_credit provider_id credit = smodify (\<lambda>st. st\<lparr>es_provider_credits :=
    aput provider_id credit (es_provider_credits st)\<rparr>)"

text \<open>\<^verbatim>\<open>entry(provider_id).or_insert_with(...)\<close>: the credit, inserted when it is missing.\<close>
definition credit_entry :: "string \<Rightarrow> pubkey \<Rightarrow> int \<Rightarrow> ProviderCredit est" where
  "credit_entry provider_id account now st =
    (case aget (es_provider_credits st) provider_id of
       Some c \<Rightarrow> (Inr c, st)
     | None \<Rightarrow>
         let c = \<lparr>pc_provider_id = provider_id, pc_settlement_token_account = account,
                  pc_credited_amount = 0, pc_oldest_credit_at = now, pc_settlement_ids = []\<rparr>
         in sbind (put_credit provider_id c) (\<lambda>_. sret c) st)"

definition settle_payment :: "pubkey \<Rightarrow> u64 \<Rightarrow> string \<Rightarrow> string \<Rightarrow> int \<Rightarrow> unit est" where
  "settle_payment client amount provider_id settlement_id now =
    sbind (get_balance client ClientNotFound) (\<lambda>b.
    sbind (put_balance client (b\<lparr>cb_locked := saturating_sub (cb_locked b) amount\<rparr>)) (\<lambda>_.
    sbind (sfind (\<lambda>st. aget (es_providers st) provider_id) ProviderNotFound) (\<lambda>provider.
    sbind (credit_entry provider_id (rg_settlement_token_account provider) now) (\<lambda>credit.
    sbind (sadd (pc_credited_amount credit) amount) (\<lambda>credited.
    put_credit provider_id (credit\<lparr>pc_credited_amount := credited,
      pc_settlement_ids := pc_settlement_ids credit @ [settlement_id]\<rparr>))))))"

definition rollback_settle_payment :: "pubkey \<Rightarrow> u64 \<Rightarrow> string \<Rightarrow> string \<Rightarrow> unit est" where
  "rollback_settle_payment client amount provider_id settlement_id =
    sbind (get_balance client ClientNotFound) (\<lambda>b.
    sbind (sadd (cb_locked b) amount) (\<lambda>locked.
    sbind (put_balance client (b\<lparr>cb_locked := locked\<rparr>)) (\<lambda>_.
    sbind (sfind (\<lambda>st. aget (es_provider_credits st) provider_id) ProviderNotFound) (\<lambda>credit.
    let credit1 = credit\<lparr>
      pc_credited_amount := saturating_sub (pc_credited_amount credit) amount,
      pc_settlement_ids := filter (\<lambda>v. v \<noteq> settlement_id) (pc_settlement_ids credit)\<rparr> in
    sbind (put_credit provider_id credit1) (\<lambda>_.
    if pc_credited_amount credit1 = 0 \<or> pc_settlement_ids credit1 = []
    then smodify (\<lambda>st. st\<lparr>es_provider_credits := adel provider_id (es_provider_credits st)\<rparr>)
    else sret ())))))"

text \<open>The first reservation that carries a settlement identifier, with its key.\<close>
definition reservation_of :: "string \<Rightarrow> VaultState \<Rightarrow> (string \<times> Reservation) option" where
  "reservation_of settlement_id st =
    find (\<lambda>(k, r). rv_settlement_id r = Some settlement_id) (es_reservations st)"

definition remove_settlement_id :: "string \<Rightarrow> ProviderCredit \<Rightarrow> ProviderCredit" where
  "remove_settlement_id settlement_id credit =
    credit\<lparr>pc_settlement_ids := filter (\<lambda>v. v \<noteq> settlement_id) (pc_settlement_ids credit)\<rparr>"

text \<open>One iteration of the confirmation loop: the state and the providers affected so far.\<close>
definition confirm_settlement ::
  "u64 \<Rightarrow> string \<Rightarrow> VaultState \<times> string list \<Rightarrow> string \<Rightarrow> VaultState \<times> string list" where
  "confirm_settlement batch_id tx_signature = (\<lambda>(st, affected) settlement_id.
    let st1 = st\<lparr>es_settlement_history := adel settlement_id (es_settlement_history st),
                 es_settlement_batches := aput settlement_id
                   \<lparr>bi_batch_id = batch_id, bi_tx_signature = tx_signature\<rparr> (es_settlement_batches st)\<rparr>
    in case reservation_of settlement_id st1 of
      Some (vid, r) \<Rightarrow>
        let st2 = (case aget (es_provider_credits st1) (rv_provider_id r) of
                     None \<Rightarrow> st1
                   | Some credit \<Rightarrow> st1\<lparr>es_provider_credits := aput (rv_provider_id r)
                       (remove_settlement_id settlement_id
                         (credit\<lparr>pc_credited_amount :=
                           saturating_sub (pc_credited_amount credit) (rv_amount r)\<rparr>))
                       (es_provider_credits st1)\<rparr>)
        in (st2\<lparr>es_reservations := aput vid (r\<lparr>rv_status := BatchedOnchain\<rparr>) (es_reservations st2)\<rparr>,
            rv_provider_id r # affected)
    | None \<Rightarrow>
        (case find (\<lambda>(p, credit). settlement_id \<in> set (pc_settlement_ids credit))
            (es_provider_credits st1) of
           None \<Rightarrow> (st1, affected)
         | Some (p, credit) \<Rightarrow>
             (st1\<lparr>es_provider_credits := aput p (remove_settlement_id settlement_id credit)
                (es_provider_credits st1)\<rparr>, pc_provider_id credit # affected)))"

fun min_opt :: "int list \<Rightarrow> int option" where
  "min_opt [] = None"
| "min_opt (x # xs) = Some (foldl min x xs)"

text \<open>After the loop: an affected credit that is empty is removed, any other gets the time of the
  oldest settlement that is left in the history.\<close>
definition close_credit :: "string \<Rightarrow> VaultState \<Rightarrow> VaultState" where
  "close_credit p st =
    (case aget (es_provider_credits st) p of
       None \<Rightarrow> st
     | Some credit \<Rightarrow>
         if pc_credited_amount credit = 0 \<or> pc_settlement_ids credit = []
         then st\<lparr>es_provider_credits := adel p (es_provider_credits st)\<rparr>
         else (case min_opt (map sr_timestamp (List.map_filter
                   (\<lambda>sid. aget (es_settlement_history st) sid) (pc_settlement_ids credit))) of
                 None \<Rightarrow> st
               | Some t \<Rightarrow> st\<lparr>es_provider_credits :=
                   aput p (credit\<lparr>pc_oldest_credit_at := t\<rparr>) (es_provider_credits st)\<rparr>))"

definition apply_batch_confirmation :: "string list \<Rightarrow> u64 \<Rightarrow> string \<Rightarrow> VaultState \<Rightarrow> VaultState" where
  "apply_batch_confirmation settlement_ids batch_id tx_signature st =
    (let (st1, affected) = foldl (confirm_settlement batch_id tx_signature) (st, []) settlement_ids
     in fold close_credit (remdups affected) st1)"

section \<open>Effects of the operations\<close>

text \<open>What a successful operation does to the maps it changes.  The second lemma of a pair says that
  an operation that returns an error has changed nothing.\<close>

lemma apply_deposit_ok:
  "apply_deposit c a st = (Inr u, st') \<longleftrightarrow>
    (\<exists>b free dep. b = (case aget (es_client_balances st) c of None \<Rightarrow> client_balance_default | Some b \<Rightarrow> b) \<and>
      checked_add (cb_free b) a = Some free \<and> checked_add (cb_total_deposited b) a = Some dep \<and>
      st' = st\<lparr>es_client_balances := aput c (b\<lparr>cb_free := free, cb_total_deposited := dep\<rparr>)
        (es_client_balances st)\<rparr>)"
  by (auto simp: apply_deposit_def state_op_defs Let_def aput_aput split: option.splits)

lemma apply_deposit_no_err: "apply_deposit c a st \<noteq> (Inl (Err e), st')"
  by (auto simp: apply_deposit_def state_op_defs Let_def split: option.splits)

lemma rollback_deposit_ok:
  "rollback_deposit c a st = (Inr u, st') \<longleftrightarrow>
    (\<exists>b. aget (es_client_balances st) c = Some b \<and>
      st' = st\<lparr>es_client_balances := aput c (b\<lparr>cb_free := saturating_sub (cb_free b) a,
        cb_total_deposited := saturating_sub (cb_total_deposited b) a\<rparr>) (es_client_balances st)\<rparr>)"
  by (auto simp: rollback_deposit_def state_op_defs split: option.splits)

lemma reserve_balance_ok:
  "reserve_balance c a st = (Inr u, st') \<longleftrightarrow>
    (\<exists>b locked. aget (es_client_balances st) c = Some b \<and> a \<le> cb_free b \<and>
      checked_add (cb_locked b) a = Some locked \<and>
      st' = st\<lparr>es_client_balances :=
        aput c (b\<lparr>cb_free := cb_free b - a, cb_locked := locked\<rparr>) (es_client_balances st)\<rparr>)"
  by (auto simp: reserve_balance_def state_op_defs Let_def aput_aput split: option.splits if_splits)

lemma reserve_balance_err: "reserve_balance c a st = (Inl (Err e), st') \<Longrightarrow> st' = st"
  by (auto simp: reserve_balance_def state_op_defs Let_def split: option.splits if_splits)

lemma release_balance_ok:
  "release_balance c a st = (Inr u, st') \<longleftrightarrow>
    (\<exists>b free. aget (es_client_balances st) c = Some b \<and> checked_add (cb_free b) a = Some free \<and>
      st' = st\<lparr>es_client_balances := aput c (b\<lparr>cb_locked := saturating_sub (cb_locked b) a,
        cb_free := free\<rparr>) (es_client_balances st)\<rparr>)"
  by (auto simp: release_balance_def state_op_defs Let_def aput_aput split: option.splits if_splits)

lemma release_balance_err: "release_balance c a st = (Inl (Err e), st') \<Longrightarrow> st' = st"
  by (auto simp: release_balance_def state_op_defs Let_def split: option.splits if_splits)

lemma refresh_ok:
  "refresh_client_max_lock_expires_at c st = (Inr t, st') \<longleftrightarrow>
    (\<exists>b. aget (es_client_balances st) c = Some b \<and> t = client_max_lock c st \<and>
      st' = st\<lparr>es_client_balances :=
        aput c (b\<lparr>cb_max_lock_expires_at := t\<rparr>) (es_client_balances st)\<rparr>)"
  by (auto simp: refresh_client_max_lock_expires_at_def state_op_defs split: option.splits)

lemma refresh_fault:
  "refresh_client_max_lock_expires_at c st = (Inl e, st') \<longleftrightarrow>
    e = Err ClientNotFound \<and> aget (es_client_balances st) c = None \<and> st' = st"
  by (auto simp: refresh_client_max_lock_expires_at_def state_op_defs split: option.splits)

lemma authorize_withdrawal_ok:
  "authorize_withdrawal w st = (Inr u, st') \<longleftrightarrow>
    (\<exists>b locked. aget (es_client_balances st) (pw_client w) = Some b \<and> pw_amount w \<le> cb_free b \<and>
      checked_add (cb_locked b) (pw_amount w) = Some locked \<and>
      st' = st\<lparr>es_client_balances := aput (pw_client w) (b\<lparr>cb_free := cb_free b - pw_amount w,
          cb_locked := locked\<rparr>) (es_client_balances st),
        es_pending_withdrawals := aput (pw_withdraw_nonce w) w (es_pending_withdrawals st)\<rparr>)"
  by (auto simp: authorize_withdrawal_def put_withdrawal_def state_op_defs Let_def aput_aput
      split: option.splits if_splits)

lemma authorize_withdrawal_err: "authorize_withdrawal w st = (Inl (Err e), st') \<Longrightarrow> st' = st"
  by (auto simp: authorize_withdrawal_def put_withdrawal_def state_op_defs Let_def
      split: option.splits if_splits)

lemma expire_pending_withdrawal_ok:
  "expire_pending_withdrawal n st = (Inr w, st') \<longleftrightarrow>
    (\<exists>b free. aget (es_pending_withdrawals st) n = Some w \<and>
      aget (es_client_balances st) (pw_client w) = Some b \<and>
      checked_add (cb_free b) (pw_amount w) = Some free \<and>
      st' = st\<lparr>es_pending_withdrawals := adel n (es_pending_withdrawals st),
        es_client_balances := aput (pw_client w) (b\<lparr>cb_locked :=
          saturating_sub (cb_locked b) (pw_amount w), cb_free := free\<rparr>) (es_client_balances st)\<rparr>)"
  by (auto simp: expire_pending_withdrawal_def take_withdrawal_def state_op_defs Let_def aput_aput
      split: option.splits if_splits)

lemma expire_pending_withdrawal_err:
  "expire_pending_withdrawal n st = (Inl (Err e), st') \<Longrightarrow>
    aget (es_pending_withdrawals st) n = None \<and> st' = st \<or>
    (\<exists>w. aget (es_pending_withdrawals st) n = Some w \<and>
      aget (es_client_balances st) (pw_client w) = None)"
  by (auto simp: expire_pending_withdrawal_def take_withdrawal_def state_op_defs Let_def
      split: option.splits if_splits)

lemma apply_withdrawal_ok:
  "apply_withdrawal n st = (Inr w, st') \<longleftrightarrow>
    (\<exists>b t. aget (es_pending_withdrawals st) n = Some w \<and>
      aget (es_client_balances st) (pw_client w) = Some b \<and>
      checked_add (cb_total_withdrawn b) (pw_amount w) = Some t \<and>
      st' = st\<lparr>es_pending_withdrawals := adel n (es_pending_withdrawals st),
        es_client_balances := aput (pw_client w) (b\<lparr>cb_locked :=
          saturating_sub (cb_locked b) (pw_amount w), cb_total_withdrawn := t\<rparr>)
          (es_client_balances st)\<rparr>)"
  by (auto simp: apply_withdrawal_def take_withdrawal_def state_op_defs Let_def aput_aput
      split: option.splits if_splits)

lemma apply_withdrawal_err:
  "apply_withdrawal n st = (Inl e, st') \<Longrightarrow>
    aget (es_pending_withdrawals st) n = None \<and> st' = st \<or>
    (\<exists>w. aget (es_pending_withdrawals st) n = Some w \<and>
      (case aget (es_client_balances st) (pw_client w) of None \<Rightarrow> True
       | Some b \<Rightarrow> checked_add (cb_total_withdrawn b) (pw_amount w) = None))"
  by (auto simp: apply_withdrawal_def take_withdrawal_def state_op_defs Let_def
      split: option.splits if_splits)

lemma rollback_applied_withdrawal_ok:
  "rollback_applied_withdrawal w st = (Inr u, st') \<longleftrightarrow>
    (\<exists>b locked. aget (es_client_balances st) (pw_client w) = Some b \<and>
      checked_add (cb_locked b) (pw_amount w) = Some locked \<and>
      st' = st\<lparr>es_client_balances := aput (pw_client w) (b\<lparr>cb_locked := locked,
          cb_total_withdrawn := saturating_sub (cb_total_withdrawn b) (pw_amount w)\<rparr>)
          (es_client_balances st),
        es_pending_withdrawals := aput (pw_withdraw_nonce w) w (es_pending_withdrawals st)\<rparr>)"
  by (auto simp: rollback_applied_withdrawal_def put_withdrawal_def state_op_defs Let_def
      split: option.splits if_splits)

text \<open>The credit that a provider has, or the empty one it would be given.\<close>
definition credit_or_new :: "VaultState \<Rightarrow> string \<Rightarrow> pubkey \<Rightarrow> int \<Rightarrow> ProviderCredit" where
  "credit_or_new st provider_id account now =
    (case aget (es_provider_credits st) provider_id of
       Some c \<Rightarrow> c
     | None \<Rightarrow> \<lparr>pc_provider_id = provider_id, pc_settlement_token_account = account,
         pc_credited_amount = 0, pc_oldest_credit_at = now, pc_settlement_ids = []\<rparr>)"

lemma settle_payment_ok:
  "settle_payment c a p sid now st = (Inr u, st') \<longleftrightarrow>
    (\<exists>b reg credit credited. aget (es_client_balances st) c = Some b \<and>
      aget (es_providers st) p = Some reg \<and>
      credit = credit_or_new st p (rg_settlement_token_account reg) now \<and>
      checked_add (pc_credited_amount credit) a = Some credited \<and>
      st' = st\<lparr>es_client_balances := aput c (b\<lparr>cb_locked := saturating_sub (cb_locked b) a\<rparr>)
          (es_client_balances st),
        es_provider_credits := aput p (credit\<lparr>pc_credited_amount := credited,
          pc_settlement_ids := pc_settlement_ids credit @ [sid]\<rparr>) (es_provider_credits st)\<rparr>)"
  by (auto simp: settle_payment_def credit_entry_def credit_or_new_def put_credit_def state_op_defs
      Let_def aput_aput split: option.splits if_splits)

lemma settle_payment_err:
  "settle_payment c a p sid now st = (Inl (Err e), st') \<Longrightarrow>
    aget (es_client_balances st) c = None \<and> st' = st \<or> aget (es_providers st) p = None"
  by (auto simp: settle_payment_def credit_entry_def put_credit_def state_op_defs Let_def
      split: option.splits if_splits)

end
