(* ===== verification/Adaptor_Sig.thy ===== *)
theory Adaptor_Sig
  imports Enclave_State
begin

text \<open>
  Adaptor signatures (\<^verbatim>\<open>src/enclave/src/adaptor_sig.rs\<close>) and the encryption of audit records
  (\<^verbatim>\<open>src/enclave/src/audit.rs\<close>).

  The curve library is a parameter: points form an additive group \<open>'p\<close>, scalars a commutative ring
  \<open>'s\<close>, and the record \<open>curve\<close> has the operations the code calls.  The predicate \<open>curve_laws\<close> states
  what the library documents of them and the code relies on.  Multiplication of the base point is
  additive in the scalar; the same is not assumed for other points, which on the Edwards curve may
  have a component outside the prime-order subgroup.
\<close>

unbundle bit_operations_syntax

section \<open>The curve library\<close>

record ('p, 's) curve =
  mul_base :: "'s \<Rightarrow> 'p"
  mul_point :: "'s \<Rightarrow> 'p \<Rightarrow> 'p"
  compress :: "'p \<Rightarrow> bytes"
  decompress :: "bytes \<Rightarrow> 'p option"
  scalar_to_bytes :: "'s \<Rightarrow> bytes"
  from_canonical_bytes :: "bytes \<Rightarrow> 's option"
  from_bytes_mod_order :: "bytes \<Rightarrow> 's"
  from_bytes_mod_order_wide :: "bytes \<Rightarrow> 's"
  sha512 :: "bytes \<Rightarrow> bytes"

definition curve_laws :: "('p::ab_group_add, 's::comm_ring_1) curve \<Rightarrow> bool" where
  "curve_laws C \<longleftrightarrow>
    (\<forall>a b. mul_base C (a + b) = mul_base C a + mul_base C b) \<and>
    (\<forall>a b. mul_point C a (mul_base C b) = mul_base C (a * b)) \<and>
    (\<forall>P. decompress C (compress C P) = Some P) \<and>
    (\<forall>P. length (compress C P) = 32) \<and>
    (\<forall>a. from_canonical_bytes C (scalar_to_bytes C a) = Some a) \<and>
    (\<forall>a. length (scalar_to_bytes C a) = 32)"

section \<open>Adaptor signatures\<close>

record AdaptedSignature =
  r_bytes :: bytes
  s_bytes :: bytes

record ('p, 's) AdaptorKeyPair =
  ak_secret :: 's
  ak_public :: 'p
  ak_public_compressed :: bytes

definition from_secret ::
  "('p::ab_group_add, 's::comm_ring_1) curve \<Rightarrow> 's \<Rightarrow> ('p, 's) AdaptorKeyPair" where
  "from_secret C secret =
    (let public = mul_base C secret
     in \<lparr>ak_secret = secret, ak_public = public, ak_public_compressed = compress C public\<rparr>)"

definition clamp :: "bytes \<Rightarrow> bytes" where
  "clamp bs = (let b0 = bs[0 := bs ! 0 AND 248]; b1 = b0[31 := b0 ! 31 AND 127]
               in b1[31 := b1 ! 31 OR 64])"

definition expand_secret_key ::
  "('p::ab_group_add, 's::comm_ring_1) curve \<Rightarrow> bytes \<Rightarrow> 's \<times> bytes" where
  "expand_secret_key C secret_key =
    (let hash = sha512 C secret_key
     in (from_bytes_mod_order C (clamp (slice hash 0 32)), slice hash 32 64))"

definition challenge_hash ::
  "('p::ab_group_add, 's::comm_ring_1) curve \<Rightarrow> bytes \<Rightarrow> bytes \<Rightarrow> bytes \<Rightarrow> 's" where
  "challenge_hash C nonce_bytes pk_bytes message =
    from_bytes_mod_order_wide C (sha512 C (nonce_bytes @ pk_bytes @ message))"

definition derive_nonce ::
  "('p::ab_group_add, 's::comm_ring_1) curve \<Rightarrow> bytes \<Rightarrow> bytes \<Rightarrow> bytes \<Rightarrow> 's" where
  "derive_nonce C prefix adaptor_point message =
    from_bytes_mod_order_wide C (sha512 C (prefix @ adaptor_point @ message))"

definition pre_sign ::
  "('p::ab_group_add, 's::comm_ring_1) curve \<Rightarrow> bytes \<Rightarrow> bytes \<Rightarrow> 'p \<Rightarrow> AdaptorPreSignature" where
  "pre_sign C secret_key message adaptor_point =
    (let (a, prefix) = expand_secret_key C secret_key;
         pk = compress C (mul_base C a);
         t_bytes = compress C adaptor_point;
         r = derive_nonce C prefix t_bytes message;
         r_prime_point = mul_base C r;
         adapted_r = r_prime_point + adaptor_point;
         c = challenge_hash C (compress C adapted_r) pk message;
         s = r + c * a
     in \<lparr>r_prime = compress C r_prime_point, s_prime = scalar_to_bytes C s\<rparr>)"

definition pre_verify ::
  "('p::ab_group_add, 's::comm_ring_1) curve \<Rightarrow> bytes \<Rightarrow> bytes \<Rightarrow> 'p \<Rightarrow> AdaptorPreSignature \<Rightarrow> bool" where
  "pre_verify C public_key message adaptor_point pre_sig =
    (case decompress C (r_prime pre_sig) of
       None \<Rightarrow> False
     | Some rp \<Rightarrow>
         (case decompress C public_key of
            None \<Rightarrow> False
          | Some pk_point \<Rightarrow>
              let adapted_r = rp + adaptor_point;
                  c = challenge_hash C (compress C adapted_r) public_key message
              in (case from_canonical_bytes C (s_prime pre_sig) of
                    None \<Rightarrow> False
                  | Some sp \<Rightarrow> mul_base C sp = rp + mul_point C c pk_point)))"

definition adapt ::
  "('p::ab_group_add, 's::comm_ring_1) curve \<Rightarrow> AdaptorPreSignature \<Rightarrow> 's \<Rightarrow> 'p \<Rightarrow>
    AdaptedSignature option" where
  "adapt C pre_sig adaptor_secret adaptor_point =
    (case decompress C (r_prime pre_sig) of
       None \<Rightarrow> None
     | Some rp \<Rightarrow>
         (case from_canonical_bytes C (s_prime pre_sig) of
            None \<Rightarrow> None
          | Some sp \<Rightarrow> Some \<lparr>r_bytes = compress C (rp + adaptor_point),
                            s_bytes = scalar_to_bytes C (sp + adaptor_secret)\<rparr>))"

definition extract_secret ::
  "('p::ab_group_add, 's::comm_ring_1) curve \<Rightarrow> AdaptedSignature \<Rightarrow> AdaptorPreSignature \<Rightarrow> 's option" where
  "extract_secret C full_sig pre_sig =
    (case from_canonical_bytes C (s_bytes full_sig) of
       None \<Rightarrow> None
     | Some s \<Rightarrow>
         (case from_canonical_bytes C (s_prime pre_sig) of
            None \<Rightarrow> None
          | Some sp \<Rightarrow> Some (s - sp)))"

definition verify_adapted ::
  "('p::ab_group_add, 's::comm_ring_1) curve \<Rightarrow> bytes \<Rightarrow> bytes \<Rightarrow> AdaptedSignature \<Rightarrow> bool" where
  "verify_adapted C public_key message sig =
    (case decompress C (r_bytes sig) of
       None \<Rightarrow> False
     | Some r \<Rightarrow>
         (case decompress C public_key of
            None \<Rightarrow> False
          | Some pk_point \<Rightarrow>
              (case from_canonical_bytes C (s_bytes sig) of
                 None \<Rightarrow> False
               | Some s \<Rightarrow>
                   let c = challenge_hash C (r_bytes sig) public_key message
                   in mul_base C s = r + mul_point C c pk_point)))"

section \<open>Encrypted audit records\<close>

text \<open>\<^verbatim>\<open>Hkdf::<Sha256>\<close> and SHA-256 are parameters: \<open>hkdf salt ikm info n\<close> and \<open>sha256\<close>.  The
  randomness of the two encryptions of a record is an argument.\<close>
definition derive_provider_key ::
  "('p::ab_group_add, 's::comm_ring_1) curve \<Rightarrow> (bytes \<Rightarrow> bytes \<Rightarrow> bytes \<Rightarrow> nat \<Rightarrow> bytes) \<Rightarrow>
    bytes \<Rightarrow> pubkey \<Rightarrow> ('p, 's) AdaptorKeyPair" where
  "derive_provider_key C hkdf master_secret provider =
    (let okm = hkdf (str_bytes ''subly402-audit-v1'') master_secret provider 64;
         secret = from_bytes_mod_order_wide C okm;
         public = mul_base C secret
     in \<lparr>ak_secret = secret, ak_public = public, ak_public_compressed = compress C public\<rparr>)"

definition kdf_mask :: "(bytes \<Rightarrow> bytes) \<Rightarrow> bytes \<Rightarrow> bytes" where
  "kdf_mask sha256 shared_secret_bytes =
    sha256 (str_bytes ''subly402-elgamal-mask-v1'' @ shared_secret_bytes)"

definition xor_bytes :: "bytes \<Rightarrow> bytes \<Rightarrow> bytes" where
  "xor_bytes xs ys = map2 (\<lambda>x y. x XOR y) xs ys"

definition elgamal_encrypt ::
  "('p::ab_group_add, 's::comm_ring_1) curve \<Rightarrow> (bytes \<Rightarrow> bytes) \<Rightarrow> 's \<Rightarrow> 'p \<Rightarrow> bytes \<Rightarrow> bytes" where
  "elgamal_encrypt C sha256 r public_key plaintext =
    (let c1 = compress C (mul_base C r);
         shared_secret = mul_point C r public_key;
         mask = kdf_mask sha256 (compress C shared_secret)
     in c1 @ xor_bytes plaintext mask)"

definition elgamal_decrypt ::
  "('p::ab_group_add, 's::comm_ring_1) curve \<Rightarrow> (bytes \<Rightarrow> bytes) \<Rightarrow> 's \<Rightarrow> bytes \<Rightarrow> bytes option" where
  "elgamal_decrypt C sha256 secret_key ciphertext =
    (case decompress C (slice ciphertext 0 32) of
       None \<Rightarrow> None
     | Some c1_point \<Rightarrow>
         let mask = kdf_mask sha256 (compress C (mul_point C secret_key c1_point))
         in Some (xor_bytes (slice ciphertext 32 64) mask))"

record EncryptedAuditRecord =
  ea_encrypted_sender :: bytes
  ea_encrypted_amount :: bytes
  ea_provider :: pubkey
  ea_timestamp :: int
  ea_auditor_epoch :: u32

definition generate_audit_record_at ::
  "('p::ab_group_add, 's::comm_ring_1) curve \<Rightarrow> (bytes \<Rightarrow> bytes \<Rightarrow> bytes \<Rightarrow> nat \<Rightarrow> bytes) \<Rightarrow>
    (bytes \<Rightarrow> bytes) \<Rightarrow> 's \<times> 's \<Rightarrow> pubkey \<Rightarrow> pubkey \<Rightarrow> u64 \<Rightarrow> u32 \<Rightarrow> bytes \<Rightarrow> int \<Rightarrow>
    EncryptedAuditRecord" where
  "generate_audit_record_at C hkdf sha256 rnd client provider amount auditor_epoch master timestamp =
    (let provider_key = derive_provider_key C hkdf master provider;
         amount_bytes = to_le_bytes amount @ replicate 24 0
     in \<lparr>ea_encrypted_sender = elgamal_encrypt C sha256 (fst rnd) (ak_public provider_key) client,
         ea_encrypted_amount =
           elgamal_encrypt C sha256 (snd rnd) (ak_public provider_key) amount_bytes,
         ea_provider = provider, ea_timestamp = timestamp, ea_auditor_epoch = auditor_epoch\<rparr>)"

definition decrypt_sender ::
  "('p::ab_group_add, 's::comm_ring_1) curve \<Rightarrow> (bytes \<Rightarrow> bytes) \<Rightarrow> 's \<Rightarrow> bytes \<Rightarrow> pubkey option" where
  "decrypt_sender C sha256 secret_key encrypted_sender =
    elgamal_decrypt C sha256 secret_key encrypted_sender"

definition decrypt_amount ::
  "('p::ab_group_add, 's::comm_ring_1) curve \<Rightarrow> (bytes \<Rightarrow> bytes) \<Rightarrow> 's \<Rightarrow> bytes \<Rightarrow> u64 option" where
  "decrypt_amount C sha256 secret_key encrypted_amount =
    map_option (\<lambda>bs. from_le_bytes (slice bs 0 8))
      (elgamal_decrypt C sha256 secret_key encrypted_amount)"

definition export_provider_key ::
  "('p::ab_group_add, 's::comm_ring_1) curve \<Rightarrow> (bytes \<Rightarrow> bytes \<Rightarrow> bytes \<Rightarrow> nat \<Rightarrow> bytes) \<Rightarrow>
    bytes \<Rightarrow> pubkey \<Rightarrow> bytes" where
  "export_provider_key C hkdf master_secret provider =
    scalar_to_bytes C (ak_secret (derive_provider_key C hkdf master_secret provider))"

section \<open>Lemmas\<close>

lemma curve_lawsD:
  assumes "curve_laws C"
  shows mul_base_add: "mul_base C (a + b) = mul_base C a + mul_base C b"
    and mul_point_base: "mul_point C a (mul_base C b) = mul_base C (a * b)"
    and decompress_compress: "decompress C (compress C P) = Some P"
    and length_compress: "length (compress C P) = 32"
    and canonical_scalar: "from_canonical_bytes C (scalar_to_bytes C a) = Some a"
    and length_scalar: "length (scalar_to_bytes C a) = 32"
  using assms by (simp_all add: curve_laws_def)

lemma mul_base_diff:
  assumes "curve_laws C"
  shows "mul_base C (a - b) = mul_base C a - mul_base C b"
  using mul_base_add [OF assms, of "a - b" b] by simp

lemma pre_verify_iff:
  "pre_verify C pk m T pre \<longleftrightarrow>
    (\<exists>rp A sp. decompress C (r_prime pre) = Some rp \<and> decompress C pk = Some A \<and>
      from_canonical_bytes C (s_prime pre) = Some sp \<and>
      mul_base C sp = rp + mul_point C (challenge_hash C (compress C (rp + T)) pk m) A)"
  by (auto simp: pre_verify_def Let_def split: option.splits)

lemma verify_adapted_iff:
  "verify_adapted C pk m sig \<longleftrightarrow>
    (\<exists>r A s. decompress C (r_bytes sig) = Some r \<and> decompress C pk = Some A \<and>
      from_canonical_bytes C (s_bytes sig) = Some s \<and>
      mul_base C s = r + mul_point C (challenge_hash C (r_bytes sig) pk m) A)"
  by (auto simp: verify_adapted_def Let_def split: option.splits)

lemma pre_sign_verifies:
  assumes "curve_laws C"
  shows "pre_verify C (compress C (mul_base C (fst (expand_secret_key C sk)))) m T (pre_sign C sk m T)"
  by (auto simp: pre_verify_iff pre_sign_def Let_def split_beta curve_lawsD [OF assms])

lemma adapt_Some:
  "adapt C pre t T = Some full \<longleftrightarrow>
    (\<exists>rp sp. decompress C (r_prime pre) = Some rp \<and> from_canonical_bytes C (s_prime pre) = Some sp \<and>
      full = \<lparr>r_bytes = compress C (rp + T), s_bytes = scalar_to_bytes C (sp + t)\<rparr>)"
  by (auto simp: adapt_def split: option.splits)

text \<open>A verified pre-signature becomes a valid signature with the secret of the adaptor point.\<close>
lemma adapt_verifies:
  assumes "curve_laws C" "pre_verify C pk m (mul_base C t) pre"
  shows "\<exists>full. adapt C pre t (mul_base C t) = Some full \<and> verify_adapted C pk m full \<and>
    extract_secret C full pre = Some t"
  using assms(2)
  by (auto simp: pre_verify_iff verify_adapted_iff adapt_def extract_secret_def
      curve_lawsD [OF assms(1)] add.assoc add.commute)

text \<open>Any valid signature with the adapted nonce yields the secret of the adaptor point.\<close>
lemma extract_recovers:
  assumes "curve_laws C" "pre_verify C pk m T pre" "verify_adapted C pk m full"
    and "decompress C (r_prime pre) = Some rp" "r_bytes full = compress C (rp + T)"
  obtains t where "extract_secret C full pre = Some t" "mul_base C t = T"
  using assms(2-5)
  by (auto simp: pre_verify_iff verify_adapted_iff extract_secret_def mul_base_diff [OF assms(1)]
      decompress_compress [OF assms(1)] intro!: that)

lemma xor_bytes_involution: "length xs \<le> length ys \<Longrightarrow> xor_bytes (xor_bytes xs ys) ys = xs"
  by (induction xs ys rule: list_induct2')
    (simp_all add: xor_bytes_def xor.assoc)

lemma length_xor_bytes [simp]: "length (xor_bytes xs ys) = min (length xs) (length ys)"
  by (simp add: xor_bytes_def)

lemma elgamal_round_trip:
  assumes "curve_laws C" "\<And>x. length (sha256 x) = 32" "length m = 32"
  shows "elgamal_decrypt C sha256 sk (elgamal_encrypt C sha256 r (mul_base C sk) m) = Some m"
  using assms(2,3)
  by (simp add: elgamal_decrypt_def elgamal_encrypt_def Let_def slice_def kdf_mask_def
      curve_lawsD [OF assms(1)] mult.commute xor_bytes_involution)

section \<open>Properties\<close>

text \<open>C26. A pre-signature made for a message and an adaptor point verifies under the signer's public
  key.  With the secret of the adaptor point it adapts to a signature that verifies as an ordinary
  one, and extracting from that signature gives the secret back.\<close>
theorem adaptor_signature_correct:
  fixes C :: "('p::ab_group_add, 's::comm_ring_1) curve"
  assumes "curve_laws C"
  shows "let pk = compress C (mul_base C (fst (expand_secret_key C sk)));
             T = ak_public (from_secret C t);
             pre = pre_sign C sk message T
         in pre_verify C pk message T pre \<and>
            (\<exists>full. adapt C pre t T = Some full \<and> verify_adapted C pk message full \<and>
              extract_secret C full pre = Some t)"
  using adapt_verifies [OF assms pre_sign_verifies [OF assms], of sk message t]
    pre_sign_verifies [OF assms]
  by (auto simp: Let_def from_secret_def)

text \<open>Payment and delivery are atomic: whoever publishes a valid signature of the payment message
  over the adapted nonce of a verified pre-signature reveals the secret of the adaptor point, because
  \<^const>\<open>extract_secret\<close> computes it from the two signatures.\<close>
theorem adaptor_secret_revealed:
  fixes C :: "('p::ab_group_add, 's::comm_ring_1) curve"
  assumes "curve_laws C" "pre_verify C pk message T pre" "verify_adapted C pk message full"
    and "decompress C (r_prime pre) = Some rp" "r_bytes full = compress C (rp + T)"
  shows "\<exists>t. extract_secret C full pre = Some t \<and> ak_public (from_secret C t) = T"
  using extract_recovers [OF assms] by (metis from_secret_def AdaptorKeyPair.select_convs(2))

text \<open>The holder of the exported key of a provider reads exactly the sender and the amount that an
  audit record of that provider was generated from, whatever randomness the record used.\<close>
theorem audit_record_disclosure:
  fixes C :: "('p::ab_group_add, 's::comm_ring_1) curve"
  assumes "curve_laws C" "\<And>x. length (sha256 x) = 32" "length client = 32"
    and "from_canonical_bytes C (export_provider_key C hkdf master provider) = Some sk"
  shows "let record = generate_audit_record_at C hkdf sha256 rnd client provider amount epoch master ts
         in decrypt_sender C sha256 sk (ea_encrypted_sender record) = Some client \<and>
            decrypt_amount C sha256 sk (ea_encrypted_amount record) = Some amount"
proof -
  have sk: "sk = ak_secret (derive_provider_key C hkdf master provider)"
    using assms(4) by (simp add: export_provider_key_def canonical_scalar [OF assms(1)])
  have pub: "ak_public (derive_provider_key C hkdf master provider) = mul_base C sk"
    by (simp add: sk derive_provider_key_def Let_def)
  show ?thesis
    using assms(3)
    by (simp add: Let_def generate_audit_record_at_def pub decrypt_sender_def decrypt_amount_def
        elgamal_round_trip [OF assms(1,2)] slice_simps codec_simps)
qed

end
