(* ===== verification/Vault_Types.thy ===== *)
theory Vault_Types
  imports Subly_Prelude
begin

text \<open>
  The data of the on-chain vault program (\<^verbatim>\<open>src/programs/subly402_vault/src\<close>): its constants,
  its error codes, the five account types of \<^verbatim>\<open>state/\<close>, and the part of the Solana runtime the
  handlers call.  The runtime is not part of the repository: SHA-256, program-derived addresses,
  program identifiers and the SPL token transfer are the fields of the record \<^verbatim>\<open>solana\<close>, which
  every handler takes as its first argument.  What the handlers rely on of the token program is
  the locale \<^verbatim>\<open>token_program\<close>, interpreted below on a concrete transfer function.

  A transaction that fails leaves the chain as it was, so a handler is a function from the chain
  to an error or the new chain.
\<close>

section \<open>Constants and errors\<close>

definition MAX_SETTLEMENTS_PER_TX :: nat where "MAX_SETTLEMENTS_PER_TX = 20"
definition MAX_ATOMIC_AUDITS_PER_TX :: nat where "MAX_ATOMIC_AUDITS_PER_TX = 5"
definition DISPUTE_WINDOW_SEC :: i64 where "DISPUTE_WINDOW_SEC = 86400"
definition VAULT_STATUS_ACTIVE :: u8 where "VAULT_STATUS_ACTIVE = 0"
definition VAULT_STATUS_PAUSED :: u8 where "VAULT_STATUS_PAUSED = 1"
definition VAULT_STATUS_MIGRATING :: u8 where "VAULT_STATUS_MIGRATING = 2"
definition VAULT_STATUS_RETIRED :: u8 where "VAULT_STATUS_RETIRED = 3"

lemmas status_defs = VAULT_STATUS_ACTIVE_def VAULT_STATUS_PAUSED_def
  VAULT_STATUS_MIGRATING_def VAULT_STATUS_RETIRED_def

datatype VaultError =
    VaultInactive | VaultPaused | VaultAlreadyPaused | VaultRetired | VaultAlreadyRetired
  | VaultMigrating | ExitDeadlineExceeded | ExitDeadlineNotReached | VaultInsolvent
  | InvalidVaultSigner | InvalidParticipantReceipt | InvalidReceiptMessage | StaleReceiptNonce
  | DisputeWindowActive | DisputeWindowExpired | NonceAlreadyUsed | WithdrawExpired
  | AtomicChunkHashMismatch | BatchIdMismatch | AuditRecordIndexOutOfOrder
  | RecordAuditWithoutSettle | SettleVaultWithoutAudit | InvalidAmount | ArithmeticOverflow
  | InvalidEd25519Instruction | AlreadyResolved | InvalidStatusTransition | TooManySettlements
  | InvalidAscCloseClaim | InvalidAscClaimVoucher

text \<open>
  What a transaction can fail with: an error code of the program, a check of the Anchor account
  macros (by the name Anchor gives it), the system program refusing to create an account that is
  in use, or the token program refusing a transfer.
\<close>
datatype tx_error =
    Vault VaultError
  | ConstraintRaw | ConstraintAddress | ConstraintSeeds | ConstraintTokenOwner
  | AccountNotInitialized | AccountAlreadyInUse
  | TokenTransferFailed

section \<open>Accounts\<close>

record VaultConfig =
  vc_bump :: u8
  vc_vault_id :: u64
  vc_governance :: pubkey
  vc_status :: u8
  vc_vault_signer_pubkey :: pubkey
  vc_usdc_mint :: pubkey
  vc_vault_token_account :: pubkey
  vc_auditor_master_pubkey :: bytes
  vc_auditor_epoch :: u32
  vc_attestation_policy_hash :: bytes
  vc_successor_vault :: pubkey
  vc_exit_deadline :: i64
  vc_lifetime_deposited :: u64
  vc_lifetime_withdrawn :: u64
  vc_lifetime_settled :: u64

record ForceSettleRequest =
  fs_bump :: u8
  fs_vault :: pubkey
  fs_participant :: pubkey
  fs_participant_kind :: u8
  fs_recipient_ata :: pubkey
  fs_free_balance_due :: u64
  fs_locked_balance_due :: u64
  fs_max_lock_expires_at :: i64
  fs_receipt_nonce :: u64
  fs_receipt_signature :: bytes
  fs_initiated_at :: i64
  fs_dispute_deadline :: i64
  fs_is_resolved :: bool

record UsedWithdrawNonce =
  un_bump :: u8
  un_vault :: pubkey
  un_client :: pubkey
  un_withdraw_nonce :: u64

record AuditRecord =
  au_bump :: u8
  au_vault :: pubkey
  au_batch_id :: u64
  au_index :: u8
  au_encrypted_sender :: bytes
  au_encrypted_amount :: bytes
  au_provider :: pubkey
  au_timestamp :: i64
  au_auditor_epoch :: u32

record AscCloseClaim =
  ac_bump :: u8
  ac_vault :: pubkey
  ac_channel_id_hash :: bytes
  ac_request_id_hash :: bytes
  ac_request_hash :: bytes
  ac_provider_pubkey :: bytes
  ac_full_sig_r :: bytes
  ac_full_sig_s :: bytes
  ac_amount :: u64
  ac_voucher_issued_at :: i64
  ac_claimed_at :: i64

text \<open>The fields of an SPL token account the program reads.\<close>
record TokenAccount =
  ta_mint :: pubkey
  ta_owner :: pubkey
  ta_amount :: u64

type_synonym tokens = "pubkey \<rightharpoonup> TokenAccount"

text \<open>An instruction of the current transaction, and what the instructions sysvar shows of it.
  The current index is absent when it cannot be loaded.\<close>
record instruction =
  ix_program_id :: pubkey
  ix_accounts :: "pubkey list"
  ix_data :: bytes

record sysvar =
  sv_current_index :: "u16 option"
  sv_instructions :: "instruction list"

definition load_instruction_at_checked :: "nat \<Rightarrow> sysvar \<Rightarrow> instruction option" where
  "load_instruction_at_checked i sv =
    (if i < length (sv_instructions sv) then Some (sv_instructions sv ! i) else None)"

text \<open>The accounts the program owns, by address, the token accounts, and the clock.\<close>
record chain =
  vaults :: "pubkey \<rightharpoonup> VaultConfig"
  requests :: "pubkey \<rightharpoonup> ForceSettleRequest"
  used_nonces :: "pubkey \<rightharpoonup> UsedWithdrawNonce"
  audits :: "pubkey \<rightharpoonup> AuditRecord"
  claims :: "pubkey \<rightharpoonup> AscCloseClaim"
  tokens :: tokens
  unix_timestamp :: i64

text \<open>The runtime: hash function, program-derived address with its bump, identifiers, and the
  transfer of the token program (source, destination, authority, amount).\<close>
record solana =
  sol_sha256 :: "bytes \<Rightarrow> bytes"
  sol_pda :: "bytes list \<Rightarrow> pubkey \<times> u8"
  sol_program_id :: pubkey
  sol_ed25519_program :: pubkey
  sol_transfer :: "pubkey \<Rightarrow> pubkey \<Rightarrow> pubkey \<Rightarrow> u64 \<Rightarrow> tokens \<Rightarrow> tokens option"

type_synonym 'a tx = "(tx_error, 'a) result"

text \<open>An address holds at most one account, whatever its type.\<close>
definition in_use :: "chain \<Rightarrow> pubkey \<Rightarrow> bool" where
  "in_use c k = (vaults c k \<noteq> None \<or> requests c k \<noteq> None \<or> used_nonces c k \<noteq> None \<or>
    audits c k \<noteq> None \<or> claims c k \<noteq> None \<or> tokens c k \<noteq> None)"

text \<open>\<^verbatim>\<open>token::transfer(...)?\<close> on the chain.\<close>
definition token_transfer ::
  "solana \<Rightarrow> pubkey \<Rightarrow> pubkey \<Rightarrow> pubkey \<Rightarrow> u64 \<Rightarrow> chain \<Rightarrow> chain tx" where
  "token_transfer S src dst auth amt c =
    ok_or (sol_transfer S src dst auth amt (tokens c)) TokenTransferFailed
      (\<lambda>T. Inr (c\<lparr>tokens := T\<rparr>))"

definition balance :: "tokens \<Rightarrow> pubkey \<Rightarrow> nat" where
  "balance T k = (case T k of None \<Rightarrow> 0 | Some a \<Rightarrow> unat (ta_amount a))"

section \<open>The token program\<close>

text \<open>
  What the vault relies on of an SPL token transfer: a transfer that succeeds takes the amount
  out of a source that holds it and adds it to a destination that exists, without overflow; a
  transfer of an account to itself changes nothing; no other account changes, and no account
  changes its mint or owner, appears or disappears.
\<close>
locale token_program =
  fixes transfer :: "pubkey \<Rightarrow> pubkey \<Rightarrow> pubkey \<Rightarrow> u64 \<Rightarrow> tokens \<Rightarrow> tokens option"
  assumes transfer_exists: "transfer s d a n T = Some T' \<Longrightarrow> T s \<noteq> None \<and> T d \<noteq> None"
    and transfer_source: "transfer s d a n T = Some T' \<Longrightarrow> unat n \<le> balance T s"
    and transfer_debit:
      "transfer s d a n T = Some T' \<Longrightarrow> s \<noteq> d \<Longrightarrow> balance T' s = balance T s - unat n"
    and transfer_credit:
      "transfer s d a n T = Some T' \<Longrightarrow> s \<noteq> d \<Longrightarrow> balance T' d = balance T d + unat n"
    and transfer_self: "transfer s s a n T = Some T' \<Longrightarrow> T' = T"
    and transfer_frame: "transfer s d a n T = Some T' \<Longrightarrow> k \<noteq> s \<Longrightarrow> k \<noteq> d \<Longrightarrow> T' k = T k"
    and transfer_owner:
      "transfer s d a n T = Some T' \<Longrightarrow> map_option ta_owner (T' k) = map_option ta_owner (T k)"
    and transfer_mint:
      "transfer s d a n T = Some T' \<Longrightarrow> map_option ta_mint (T' k) = map_option ta_mint (T k)"
begin

lemma balance_other:
  "transfer s d a n T = Some T' \<Longrightarrow> k \<noteq> s \<Longrightarrow> k \<noteq> d \<Longrightarrow> balance T' k = balance T k"
  by (simp add: balance_def transfer_frame)

text \<open>An account that is not the source never loses tokens, and the source loses at most the
  amount.\<close>
lemma balance_not_source:
  "transfer s d a n T = Some T' \<Longrightarrow> k \<noteq> s \<Longrightarrow> balance T k \<le> balance T' k"
  by (cases "k = d") (simp_all add: transfer_credit balance_other)

lemma balance_loss: "transfer s d a n T = Some T' \<Longrightarrow> balance T k \<le> balance T' k + unat n"
proof (cases "k = s")
  case True
  assume t: "transfer s d a n T = Some T'"
  then show ?thesis
    using transfer_debit [OF t] transfer_source [OF t] transfer_self [of s a n T T'] True
    by (cases "s = d") auto
next
  case False
  assume "transfer s d a n T = Some T'"
  then show ?thesis using balance_not_source [OF _ False] by fastforce
qed

text \<open>A transfer between two accounts keeps the sum of their balances.\<close>
lemma transfer_conserves:
  "transfer s d a n T = Some T' \<Longrightarrow> s \<noteq> d \<Longrightarrow>
    balance T' s + balance T' d = balance T s + balance T d"
  using transfer_debit transfer_credit transfer_source by fastforce

lemma transfer_dom: "transfer s d a n T = Some T' \<Longrightarrow> T' k = None \<longleftrightarrow> T k = None"
  using transfer_owner by (metis option.map_disc_iff)

end

text \<open>A transfer function with this behaviour: the source's owner signs, both accounts have the
  same mint, the source holds the amount and the destination does not overflow.\<close>
definition spl_transfer ::
  "pubkey \<Rightarrow> pubkey \<Rightarrow> pubkey \<Rightarrow> u64 \<Rightarrow> tokens \<Rightarrow> tokens option" where
  "spl_transfer s d auth n T =
    (case (T s, T d) of
      (Some a, Some b) \<Rightarrow>
        if ta_owner a \<noteq> auth \<or> ta_mint a \<noteq> ta_mint b \<or> ta_amount a < n then None
        else if s = d then Some T
        else (case checked_add (ta_amount b) n of
                None \<Rightarrow> None
              | Some m \<Rightarrow> Some (T(s \<mapsto> a\<lparr>ta_amount := ta_amount a - n\<rparr>, d \<mapsto> b\<lparr>ta_amount := m\<rparr>)))
    | _ \<Rightarrow> None)"

interpretation spl: token_program spl_transfer
  by unfold_locales
    (auto simp: spl_transfer_def balance_def unat_sub_le word_le_nat_alt word_less_nat_alt
      unat_checked_add split: option.splits if_splits)

end
