(* ===== verification/Messages.thy ===== *)
theory Messages
  imports Vault_Types
begin

text \<open>
  The byte strings the enclave signs and the vault program reads back
  (\<^verbatim>\<open>ed25519_utils.rs\<close>, \<^verbatim>\<open>asc_claim.rs\<close>, the message builders of \<^verbatim>\<open>enclave/src/state.rs\<close>,
  and the Ed25519 instruction the watchtower builds): encoders, decoders, the inspection of the
  Ed25519 precompile instruction, and the lemmas that these formats are unambiguous.
\<close>

section \<open>Participant receipts\<close>

definition PARTICIPANT_RECEIPT_MESSAGE_LEN :: nat where "PARTICIPANT_RECEIPT_MESSAGE_LEN = 145"

record VerifiedEd25519Signature =
  ve_signature :: bytes
  ve_message :: bytes

record ParticipantReceiptMessage =
  pr_participant :: pubkey
  pr_participant_kind :: u8
  pr_recipient_ata :: pubkey
  pr_free_balance :: u64
  pr_locked_balance :: u64
  pr_max_lock_expires_at :: i64
  pr_nonce :: u64
  pr_timestamp :: i64
  pr_snapshot_seqno :: u64
  pr_vault_config :: pubkey

definition build_participant_receipt_message ::
  "pubkey \<Rightarrow> pubkey \<Rightarrow> u8 \<Rightarrow> pubkey \<Rightarrow> u64 \<Rightarrow> u64 \<Rightarrow> i64 \<Rightarrow> u64 \<Rightarrow> i64 \<Rightarrow> u64 \<Rightarrow> bytes" where
  "build_participant_receipt_message vault_config participant participant_kind recipient_ata
      free_balance locked_balance max_lock_expires_at nonce timestamp snapshot_seqno =
    participant @ [participant_kind] @ recipient_ata @ to_le_bytes free_balance @
    to_le_bytes locked_balance @ to_le_bytes max_lock_expires_at @ to_le_bytes nonce @
    to_le_bytes timestamp @ to_le_bytes snapshot_seqno @ vault_config"

definition decode_participant_receipt_message ::
  "bytes \<Rightarrow> (VaultError, ParticipantReceiptMessage) result" where
  "decode_participant_receipt_message message =
    require (length message = PARTICIPANT_RECEIPT_MESSAGE_LEN) InvalidReceiptMessage
      (Inr \<lparr>pr_participant = slice message 0 32,
            pr_participant_kind = message ! 32,
            pr_recipient_ata = slice message 33 32,
            pr_free_balance = from_le_bytes (slice message 65 8),
            pr_locked_balance = from_le_bytes (slice message 73 8),
            pr_max_lock_expires_at = from_le_bytes (slice message 81 8),
            pr_nonce = from_le_bytes (slice message 89 8),
            pr_timestamp = from_le_bytes (slice message 97 8),
            pr_snapshot_seqno = from_le_bytes (slice message 105 8),
            pr_vault_config = slice message 113 32\<rparr>)"

text \<open>The receipt of a record, the records whose keys are 32 bytes long, and the decoder without
  its error code.\<close>
definition receipt_bytes :: "ParticipantReceiptMessage \<Rightarrow> bytes" where
  "receipt_bytes m = build_participant_receipt_message (pr_vault_config m) (pr_participant m)
    (pr_participant_kind m) (pr_recipient_ata m) (pr_free_balance m) (pr_locked_balance m)
    (pr_max_lock_expires_at m) (pr_nonce m) (pr_timestamp m) (pr_snapshot_seqno m)"

definition receipt_wf :: "ParticipantReceiptMessage \<Rightarrow> bool" where
  "receipt_wf m = (length (pr_participant m) = 32 \<and> length (pr_recipient_ata m) = 32 \<and>
    length (pr_vault_config m) = 32)"

definition result_option :: "('e, 'a) result \<Rightarrow> 'a option" where
  "result_option r = (case r of Inl _ \<Rightarrow> None | Inr x \<Rightarrow> Some x)"

section \<open>Withdraw authorizations and verification receipts\<close>

definition build_withdraw_authorization_message ::
  "pubkey \<Rightarrow> pubkey \<Rightarrow> pubkey \<Rightarrow> u64 \<Rightarrow> u64 \<Rightarrow> i64 \<Rightarrow> bytes" where
  "build_withdraw_authorization_message vault_config client recipient_ata amount withdraw_nonce
      expires_at =
    client @ recipient_ata @ to_le_bytes amount @ to_le_bytes withdraw_nonce @
    to_le_bytes expires_at @ vault_config"

text \<open>Decimal rendering of \<^verbatim>\<open>u64\<close> and \<^verbatim>\<open>i64\<close> values by \<^verbatim>\<open>format!\<close>.\<close>
fun show_nat :: "nat \<Rightarrow> string" where
  "show_nat n = (if n < 10 then [char_of (48 + n)]
                 else show_nat (n div 10) @ [char_of (48 + n mod 10)])"

definition show_u64 :: "u64 \<Rightarrow> string" where
  "show_u64 x = show_nat (unat x)"

definition show_i64 :: "i64 \<Rightarrow> string" where
  "show_i64 x = (if sint x < 0 then ''-'' @ show_nat (nat (- sint x)) else show_nat (nat (sint x)))"

definition newline :: string where
  "newline = [CHR 0x0A]"

text \<open>\<^verbatim>\<open>base58\<close> is the display form of a public key, from the Solana SDK.\<close>
definition build_verification_receipt_message ::
  "(pubkey \<Rightarrow> string) \<Rightarrow> pubkey \<Rightarrow> string \<Rightarrow> string \<Rightarrow> string \<Rightarrow> pubkey \<Rightarrow> string \<Rightarrow> u64 \<Rightarrow>
    string \<Rightarrow> string \<Rightarrow> i64 \<Rightarrow> bytes" where
  "build_verification_receipt_message base58 vault_config verification_id reservation_id
      payment_id client provider_id amount request_hash_hex payment_details_hash_hex
      reservation_expires_at =
    str_bytes (''SUBLY402-VERIFY-RECEIPT'' @ newline @ verification_id @ newline @
      reservation_id @ newline @ payment_id @ newline @ base58 client @ newline @
      provider_id @ newline @ show_u64 amount @ newline @ request_hash_hex @ newline @
      payment_details_hash_hex @ newline @ show_i64 reservation_expires_at @ newline @
      base58 vault_config @ newline)"

section \<open>Claim vouchers and payment messages of adaptor-signature channels\<close>

definition ASC_CLAIM_VOUCHER_PREFIX :: string where
  "ASC_CLAIM_VOUCHER_PREFIX = ''SUBLY402-ASC-CLAIM-VOUCHER''"

definition ASC_PAYMENT_MESSAGE_PREFIX :: string where
  "ASC_PAYMENT_MESSAGE_PREFIX = ''subly402-asc-pay-v1''"

definition ASC_CLAIM_VOUCHER_PREFIX_WITH_NUL_LEN :: nat where
  "ASC_CLAIM_VOUCHER_PREFIX_WITH_NUL_LEN = length ASC_CLAIM_VOUCHER_PREFIX + 1"

definition ASC_CLAIM_VOUCHER_MESSAGE_LEN :: nat where
  "ASC_CLAIM_VOUCHER_MESSAGE_LEN =
    ASC_CLAIM_VOUCHER_PREFIX_WITH_NUL_LEN + 32 + 32 + 8 + 32 + 32 + 8 + 32"

record AscClaimVoucherFields =
  cv_channel_id_hash :: bytes
  cv_request_id_hash :: bytes
  cv_amount :: u64
  cv_request_hash :: bytes
  cv_provider_pubkey :: bytes
  cv_issued_at :: i64
  cv_vault_config :: bytes

definition hash_identifier :: "(bytes \<Rightarrow> bytes) \<Rightarrow> string \<Rightarrow> bytes" where
  "hash_identifier sha256 v = sha256 (str_bytes v)"

definition build_asc_payment_message_from_hashes ::
  "bytes \<Rightarrow> bytes \<Rightarrow> u64 \<Rightarrow> bytes \<Rightarrow> bytes" where
  "build_asc_payment_message_from_hashes channel_id_hash request_id_hash amount request_hash =
    str_bytes ASC_PAYMENT_MESSAGE_PREFIX @ channel_id_hash @ request_id_hash @
    to_le_bytes amount @ request_hash"

definition build_asc_payment_message ::
  "(bytes \<Rightarrow> bytes) \<Rightarrow> string \<Rightarrow> string \<Rightarrow> u64 \<Rightarrow> bytes \<Rightarrow> bytes" where
  "build_asc_payment_message sha256 channel_id request_id amount request_hash =
    build_asc_payment_message_from_hashes (hash_identifier sha256 channel_id)
      (hash_identifier sha256 request_id) amount request_hash"

definition build_asc_claim_voucher_message :: "AscClaimVoucherFields \<Rightarrow> bytes" where
  "build_asc_claim_voucher_message v =
    str_bytes ASC_CLAIM_VOUCHER_PREFIX @ [0] @ cv_channel_id_hash v @ cv_request_id_hash v @
    to_le_bytes (cv_amount v) @ cv_request_hash v @ cv_provider_pubkey v @
    to_le_bytes (cv_issued_at v) @ cv_vault_config v"

text \<open>\<^verbatim>\<open>rest.get(offset..offset + n)\<close>\<close>
definition get_slice :: "bytes \<Rightarrow> nat \<Rightarrow> nat \<Rightarrow> bytes option" where
  "get_slice bs off n = (if off + n \<le> length bs then Some (slice bs off n) else None)"

definition parse_asc_claim_voucher_message :: "bytes \<Rightarrow> AscClaimVoucherFields option" where
  "parse_asc_claim_voucher_message message =
    (if length message \<noteq> ASC_CLAIM_VOUCHER_MESSAGE_LEN then None
     else let expected_prefix = str_bytes ASC_CLAIM_VOUCHER_PREFIX @ [0];
              prefix = take ASC_CLAIM_VOUCHER_PREFIX_WITH_NUL_LEN message;
              rest = drop ASC_CLAIM_VOUCHER_PREFIX_WITH_NUL_LEN message
     in if prefix \<noteq> expected_prefix then None
     else Option.bind (get_slice rest 0 32) (\<lambda>channel_id_hash.
          Option.bind (get_slice rest 32 32) (\<lambda>request_id_hash.
          Option.bind (get_slice rest 64 8) (\<lambda>amount.
          Option.bind (get_slice rest 72 32) (\<lambda>request_hash.
          Option.bind (get_slice rest 104 32) (\<lambda>provider_pubkey.
          Option.bind (get_slice rest 136 8) (\<lambda>issued_at.
          Option.bind (get_slice rest 144 32) (\<lambda>vault_config.
          Some \<lparr>cv_channel_id_hash = channel_id_hash, cv_request_id_hash = request_id_hash,
                cv_amount = from_le_bytes amount, cv_request_hash = request_hash,
                cv_provider_pubkey = provider_pubkey, cv_issued_at = from_le_bytes issued_at,
                cv_vault_config = vault_config\<rparr>))))))))"

definition voucher_wf :: "AscClaimVoucherFields \<Rightarrow> bool" where
  "voucher_wf v = (length (cv_channel_id_hash v) = 32 \<and> length (cv_request_id_hash v) = 32 \<and>
    length (cv_request_hash v) = 32 \<and> length (cv_provider_pubkey v) = 32 \<and>
    length (cv_vault_config v) = 32)"

section \<open>The Ed25519 precompile instruction\<close>

definition u16_MAX :: u16 where "u16_MAX = - 1"

definition instruction_index_refs_embedded_data :: "u16 \<Rightarrow> u16 \<Rightarrow> bool" where
  "instruction_index_refs_embedded_data instruction_index ed25519_index =
    (instruction_index = u16_MAX \<or> instruction_index = ed25519_index)"

text \<open>The two bytes at an offset as a \<^verbatim>\<open>u16\<close>.\<close>
definition u16_at :: "bytes \<Rightarrow> nat \<Rightarrow> u16" where
  "u16_at d i = u16_from_le (slice d i 2)"

definition verify_ed25519_signature_details_relative ::
  "solana \<Rightarrow> sysvar \<Rightarrow> nat \<Rightarrow> bytes \<Rightarrow> (VaultError, VerifiedEd25519Signature) result" where
  "verify_ed25519_signature_details_relative S sv offset_from_current expected_pubkey =
    ok_or (sv_current_index sv) InvalidEd25519Instruction (\<lambda>current_index.
    require (offset_from_current \<le> unat current_index) InvalidEd25519Instruction (
    let target_index = current_index - word_of_nat offset_from_current in
    ok_or (load_instruction_at_checked (unat target_index) sv) InvalidEd25519Instruction
      (\<lambda>ed25519_ix.
    require (ix_program_id ed25519_ix = sol_ed25519_program S) InvalidEd25519Instruction (
    let d = ix_data ed25519_ix; ed25519_index = target_index in
    require (16 \<le> length d) InvalidEd25519Instruction (
    require (d ! 0 = 1) InvalidEd25519Instruction (
    require (instruction_index_refs_embedded_data (u16_at d 4) ed25519_index)
      InvalidEd25519Instruction (
    let signature_offset = unat (u16_at d 2) in
    require (signature_offset + 64 \<le> length d) InvalidEd25519Instruction (
    let signature = slice d signature_offset 64; pubkey_offset = unat (u16_at d 6) in
    require (pubkey_offset + 32 \<le> length d) InvalidEd25519Instruction (
    require (instruction_index_refs_embedded_data (u16_at d 8) ed25519_index)
      InvalidEd25519Instruction (
    require (slice d pubkey_offset 32 = expected_pubkey) InvalidVaultSigner (
    require (instruction_index_refs_embedded_data (u16_at d 14) ed25519_index)
      InvalidEd25519Instruction (
    let message_offset = unat (u16_at d 10); message_size = unat (u16_at d 12) in
    require (message_offset + message_size \<le> length d) InvalidEd25519Instruction (
    Inr \<lparr>ve_signature = signature, ve_message = slice d message_offset message_size\<rparr>)))))))))))))"

definition verify_ed25519_signature_details ::
  "solana \<Rightarrow> sysvar \<Rightarrow> pubkey \<Rightarrow> (VaultError, VerifiedEd25519Signature) result" where
  "verify_ed25519_signature_details S sv expected_pubkey =
    verify_ed25519_signature_details_relative S sv 1 expected_pubkey"

definition verify_ed25519_signature ::
  "solana \<Rightarrow> sysvar \<Rightarrow> pubkey \<Rightarrow> (VaultError, bytes) result" where
  "verify_ed25519_signature S sv expected_pubkey =
    rbind (verify_ed25519_signature_details S sv expected_pubkey) (\<lambda>v. Inr (ve_message v))"

text \<open>The instruction the watchtower puts in front of its challenge.\<close>
definition build_ed25519_verify_instruction ::
  "solana \<Rightarrow> bytes \<Rightarrow> bytes \<Rightarrow> bytes \<Rightarrow> instruction" where
  "build_ed25519_verify_instruction S pubkey signature message =
    (let pubkey_offset = 16 :: u16; signature_offset = pubkey_offset + 32;
         message_offset = signature_offset + 64;
         message_size = word_of_nat (length message) :: u16
     in \<lparr>ix_program_id = sol_ed25519_program S, ix_accounts = [],
         ix_data = [1, 0] @ u16_to_le signature_offset @ u16_to_le u16_MAX @
           u16_to_le pubkey_offset @ u16_to_le u16_MAX @ u16_to_le message_offset @
           u16_to_le message_size @ u16_to_le u16_MAX @ pubkey @ signature @ message\<rparr>)"

text \<open>
  What the runtime checks before it runs a transaction: every signature that an instruction of the
  Ed25519 program lists verifies, where each of the signature, the key and the message is read
  from the instruction the entry names (\<^verbatim>\<open>u16::MAX\<close> is the instruction itself).
\<close>
definition precompile_source :: "sysvar \<Rightarrow> bytes \<Rightarrow> u16 \<Rightarrow> bytes option" where
  "precompile_source sv d i =
    (if i = u16_MAX then Some d
     else map_option ix_data (load_instruction_at_checked (unat i) sv))"

definition precompile_entry_ok ::
  "(bytes \<Rightarrow> bytes \<Rightarrow> bytes \<Rightarrow> bool) \<Rightarrow> sysvar \<Rightarrow> bytes \<Rightarrow> nat \<Rightarrow> bool" where
  "precompile_entry_ok verify sv d j =
    (let o0 = 2 + 14 * j in
     case (precompile_source sv d (u16_at d (o0 + 2)), precompile_source sv d (u16_at d (o0 + 6)),
           precompile_source sv d (u16_at d (o0 + 12))) of
       (Some s, Some k, Some m) \<Rightarrow>
         verify (slice k (unat (u16_at d (o0 + 4))) 32) (slice s (unat (u16_at d o0)) 64)
           (slice m (unat (u16_at d (o0 + 8))) (unat (u16_at d (o0 + 10))))
     | _ \<Rightarrow> False)"

definition precompile_ok ::
  "solana \<Rightarrow> (bytes \<Rightarrow> bytes \<Rightarrow> bytes \<Rightarrow> bool) \<Rightarrow> sysvar \<Rightarrow> bool" where
  "precompile_ok S verify sv =
    list_all (\<lambda>ix. ix_program_id ix = sol_ed25519_program S \<longrightarrow>
      list_all (precompile_entry_ok verify sv (ix_data ix)) [0..<unat (ix_data ix ! 0)])
    (sv_instructions sv)"

section \<open>Round trips\<close>

lemma slice_join: "b = a + n \<Longrightarrow> slice bs a n @ slice bs b m = slice bs a (n + m)"
  by (simp add: slice_split)

lemma slice_join_rest: "b = a + n \<Longrightarrow> slice bs a n @ slice bs b m @ r = slice bs a (n + m) @ r"
  by (simp flip: append_assoc add: slice_split)

lemma slice_one: "i < length bs \<Longrightarrow> [bs ! i] = slice bs i 1"
  by (simp add: slice_def take_Suc_conv_app_nth hd_drop_conv_nth take_Suc)

lemma slice_full: "slice bs 0 (length bs) = bs"
  by (simp add: slice_def)

lemma to_from_le_slice: "i + 8 \<le> length bs \<Longrightarrow> to_le_bytes (from_le_bytes (slice bs i 8)) = slice bs i 8"
  by (simp add: to_from_le_bytes)

lemmas join_simps = slice_join slice_join_rest to_from_le_slice

lemma nth_append_singleton: "length a = n \<Longrightarrow> (a @ x # b) ! n = x"
  by (simp add: nth_append)

lemma decode_build_receipt:
  assumes "receipt_wf m"
  shows "decode_participant_receipt_message (receipt_bytes m) = Inr m"
  using assms
  by (cases m) (simp add: receipt_wf_def receipt_bytes_def build_participant_receipt_message_def
      decode_participant_receipt_message_def PARTICIPANT_RECEIPT_MESSAGE_LEN_def slice_simps
      nth_append_singleton)

lemma build_decode_receipt:
  assumes "decode_participant_receipt_message bs = Inr m"
  shows "receipt_wf m \<and> receipt_bytes m = bs"
proof -
  have len: "length bs = 145"
    and m: "m = \<lparr>pr_participant = slice bs 0 32, pr_participant_kind = bs ! 32,
            pr_recipient_ata = slice bs 33 32, pr_free_balance = from_le_bytes (slice bs 65 8),
            pr_locked_balance = from_le_bytes (slice bs 73 8),
            pr_max_lock_expires_at = from_le_bytes (slice bs 81 8),
            pr_nonce = from_le_bytes (slice bs 89 8),
            pr_timestamp = from_le_bytes (slice bs 97 8),
            pr_snapshot_seqno = from_le_bytes (slice bs 105 8),
            pr_vault_config = slice bs 113 32\<rparr>"
    using assms by (auto simp: decode_participant_receipt_message_def result_simps
        PARTICIPANT_RECEIPT_MESSAGE_LEN_def)
  have "[bs ! 32] = slice bs 32 1" using len by (intro slice_one) simp
  then have "receipt_bytes m = slice bs 0 32 @ slice bs 32 1 @ slice bs 33 32 @ slice bs 65 8 @
      slice bs 73 8 @ slice bs 81 8 @ slice bs 89 8 @ slice bs 97 8 @ slice bs 105 8 @
      slice bs 113 32"
    using len by (simp add: m receipt_bytes_def build_participant_receipt_message_def
        to_from_le_slice)
  also have "\<dots> = bs" using len slice_full [of bs] by (simp add: slice_join slice_join_rest)
  finally show ?thesis using len by (simp add: m receipt_wf_def)
qed

interpretation receipt_codec: fixed_codec receipt_bytes
  "\<lambda>bs. result_option (decode_participant_receipt_message bs)" receipt_wf 145
proof unfold_locales
  fix x bs
  show "receipt_wf x \<Longrightarrow> result_option (decode_participant_receipt_message (receipt_bytes x)) = Some x"
    by (simp add: decode_build_receipt result_option_def)
  show "receipt_wf x \<Longrightarrow> length (receipt_bytes x) = 145"
    by (simp add: receipt_wf_def receipt_bytes_def build_participant_receipt_message_def)
  show "result_option (decode_participant_receipt_message bs) = Some x \<Longrightarrow>
      receipt_wf x \<and> receipt_bytes x = bs"
    using build_decode_receipt by (auto simp: result_option_def split: sum.splits)
qed

lemmas voucher_len_defs = ASC_CLAIM_VOUCHER_MESSAGE_LEN_def ASC_CLAIM_VOUCHER_PREFIX_WITH_NUL_LEN_def
  ASC_CLAIM_VOUCHER_PREFIX_def

lemma parse_build_voucher:
  assumes "voucher_wf v"
  shows "parse_asc_claim_voucher_message (build_asc_claim_voucher_message v) = Some v"
proof -
  let ?p = "str_bytes ASC_CLAIM_VOUCHER_PREFIX @ [0]"
  let ?r = "cv_channel_id_hash v @ cv_request_id_hash v @ to_le_bytes (cv_amount v) @
    cv_request_hash v @ cv_provider_pubkey v @ to_le_bytes (cv_issued_at v) @ cv_vault_config v"
  have b: "build_asc_claim_voucher_message v = ?p @ ?r"
    by (simp add: build_asc_claim_voucher_message_def)
  have p: "length ?p = ASC_CLAIM_VOUCHER_PREFIX_WITH_NUL_LEN"
    by (simp add: ASC_CLAIM_VOUCHER_PREFIX_WITH_NUL_LEN_def)
  have r: "length ?r = 176" using assms by (simp add: voucher_wf_def)
  have l: "length (?p @ ?r) = ASC_CLAIM_VOUCHER_MESSAGE_LEN"
    using p r by (simp only: length_append ASC_CLAIM_VOUCHER_MESSAGE_LEN_def)
  have t: "take ASC_CLAIM_VOUCHER_PREFIX_WITH_NUL_LEN (?p @ ?r) = ?p"
    and d: "drop ASC_CLAIM_VOUCHER_PREFIX_WITH_NUL_LEN (?p @ ?r) = ?r"
    using p by (rule take_here, rule drop_here)
  show ?thesis
    unfolding parse_asc_claim_voucher_message_def b t d l Let_def
    using assms by (cases v) (simp add: voucher_wf_def get_slice_def slice_simps)
qed

lemma build_parse_voucher:
  assumes "parse_asc_claim_voucher_message bs = Some v"
  shows "voucher_wf v \<and> build_asc_claim_voucher_message v = bs"
proof -
  define r where "r = drop ASC_CLAIM_VOUCHER_PREFIX_WITH_NUL_LEN bs"
  have len: "length bs = ASC_CLAIM_VOUCHER_MESSAGE_LEN"
    and pre: "take ASC_CLAIM_VOUCHER_PREFIX_WITH_NUL_LEN bs = str_bytes ASC_CLAIM_VOUCHER_PREFIX @ [0]"
    and v: "v = \<lparr>cv_channel_id_hash = slice r 0 32, cv_request_id_hash = slice r 32 32,
      cv_amount = from_le_bytes (slice r 64 8), cv_request_hash = slice r 72 32,
      cv_provider_pubkey = slice r 104 32, cv_issued_at = from_le_bytes (slice r 136 8),
      cv_vault_config = slice r 144 32\<rparr>"
    using assms by (auto simp: parse_asc_claim_voucher_message_def Let_def get_slice_def r_def
        bind_eq_Some_conv split: if_splits)
  have rl: "length r = 176"
    using len by (simp add: r_def ASC_CLAIM_VOUCHER_MESSAGE_LEN_def)
  have "build_asc_claim_voucher_message v = (str_bytes ASC_CLAIM_VOUCHER_PREFIX @ [0]) @
      slice r 0 32 @ slice r 32 32 @ slice r 64 8 @ slice r 72 32 @ slice r 104 32 @
      slice r 136 8 @ slice r 144 32"
    using rl by (simp add: v build_asc_claim_voucher_message_def to_from_le_slice)
  also have "\<dots> = take ASC_CLAIM_VOUCHER_PREFIX_WITH_NUL_LEN bs @ r"
    using rl slice_full [of r] by (simp add: slice_join slice_join_rest pre)
  also have "\<dots> = bs" by (simp add: r_def)
  finally show ?thesis using rl by (simp add: v voucher_wf_def)
qed

interpretation voucher_codec: fixed_codec build_asc_claim_voucher_message
  parse_asc_claim_voucher_message voucher_wf 203
proof unfold_locales
  fix x bs
  show "voucher_wf x \<Longrightarrow>
      parse_asc_claim_voucher_message (build_asc_claim_voucher_message x) = Some x"
    by (rule parse_build_voucher)
  show "voucher_wf x \<Longrightarrow> length (build_asc_claim_voucher_message x) = 203"
    by (simp add: voucher_wf_def build_asc_claim_voucher_message_def ASC_CLAIM_VOUCHER_PREFIX_def)
  show "parse_asc_claim_voucher_message bs = Some x \<Longrightarrow>
      voucher_wf x \<and> build_asc_claim_voucher_message x = bs"
    by (rule build_parse_voucher)
qed

section \<open>The signature check\<close>

text \<open>What a successful inspection says of the instruction it looked at.\<close>
lemma verify_details_ok:
  assumes "verify_ed25519_signature_details_relative S sv off pk = Inr v"
  obtains ci ix where "sv_current_index sv = Some ci" "off \<le> unat ci"
    "load_instruction_at_checked (unat (ci - word_of_nat off)) sv = Some ix"
    "ix_program_id ix = sol_ed25519_program S" "16 \<le> length (ix_data ix)" "ix_data ix ! 0 = 1"
    "\<forall>i\<in>{4, 8, 14}. u16_at (ix_data ix) i = u16_MAX \<or>
      u16_at (ix_data ix) i = ci - word_of_nat off"
    "slice (ix_data ix) (unat (u16_at (ix_data ix) 6)) 32 = pk"
    "v = \<lparr>ve_signature = slice (ix_data ix) (unat (u16_at (ix_data ix) 2)) 64,
          ve_message = slice (ix_data ix) (unat (u16_at (ix_data ix) 10))
            (unat (u16_at (ix_data ix) 12))\<rparr>"
  using assms unfolding verify_ed25519_signature_details_relative_def Let_def
  by (auto simp: result_simps instruction_index_refs_embedded_data_def)

lemma precompile_source_self:
  "load_instruction_at_checked (unat i) sv = Some ix \<Longrightarrow> x = u16_MAX \<or> x = i \<Longrightarrow>
    precompile_source sv (ix_data ix) x = Some (ix_data ix)"
  by (auto simp: precompile_source_def)

lemma load_instruction_in_set:
  "load_instruction_at_checked i sv = Some ix \<Longrightarrow> ix \<in> set (sv_instructions sv)"
  by (auto simp: load_instruction_at_checked_def split: if_splits)

lemma verified_signature_genuine:
  assumes ok: "verify_ed25519_signature_details_relative S sv off pk = Inr v"
    and pre: "precompile_ok S verify sv"
  shows "verify pk (ve_signature v) (ve_message v)"
proof -
  obtain ci ix where ix: "load_instruction_at_checked (unat (ci - word_of_nat off)) sv = Some ix"
      "ix_program_id ix = sol_ed25519_program S" "ix_data ix ! 0 = 1"
      "\<forall>i\<in>{4, 8, 14}. u16_at (ix_data ix) i = u16_MAX \<or>
        u16_at (ix_data ix) i = ci - word_of_nat off"
      "slice (ix_data ix) (unat (u16_at (ix_data ix) 6)) 32 = pk"
      "v = \<lparr>ve_signature = slice (ix_data ix) (unat (u16_at (ix_data ix) 2)) 64,
          ve_message = slice (ix_data ix) (unat (u16_at (ix_data ix) 10))
            (unat (u16_at (ix_data ix) 12))\<rparr>"
    using ok by (rule verify_details_ok) blast
  have "list_all (precompile_entry_ok verify sv (ix_data ix)) [0..<unat (ix_data ix ! 0)]"
    using pre ix(2) load_instruction_in_set [OF ix(1)] by (auto simp: precompile_ok_def list_all_iff)
  then have "precompile_entry_ok verify sv (ix_data ix) 0"
    using ix(3) by (simp add: list_all_iff)
  then show ?thesis
    using ix(4,5,6) precompile_source_self [OF ix(1)]
    by (simp add: precompile_entry_ok_def Let_def)
qed

lemma u16_at_prefix:
  "length a = n \<Longrightarrow> u16_at (a @ u16_to_le x @ b) n = x"
  by (simp add: u16_at_def slice_simps)

text \<open>The fields of the watchtower's instruction.\<close>
lemma build_ed25519_fields:
  fixes S :: solana
  assumes "length pk = 32" "length sig = 64" "length msg < 2 ^ 16"
  defines "d \<equiv> ix_data (build_ed25519_verify_instruction S pk sig msg)"
  shows "u16_at d 2 = 48" "u16_at d 4 = u16_MAX" "u16_at d 6 = 16" "u16_at d 8 = u16_MAX"
    "u16_at d 10 = 112" "unat (u16_at d 12) = length msg" "u16_at d 14 = u16_MAX"
    "slice d 48 64 = sig" "slice d 16 32 = pk" "slice d 112 (length msg) = msg"
    "length d = 112 + length msg" "d ! 0 = 1"
proof -
  have d: "d = [1, 0] @ u16_to_le 48 @ u16_to_le u16_MAX @ u16_to_le 16 @ u16_to_le u16_MAX @
    u16_to_le 112 @ u16_to_le (word_of_nat (length msg)) @ u16_to_le u16_MAX @ pk @ sig @ msg"
    by (simp add: d_def build_ed25519_verify_instruction_def Let_def)
  show "u16_at d 2 = 48" "u16_at d 4 = u16_MAX" "u16_at d 6 = 16" "u16_at d 8 = u16_MAX"
      "u16_at d 10 = 112" "u16_at d 14 = u16_MAX"
    by (simp_all add: d u16_at_def slice_simps)
  show "unat (u16_at d 12) = length msg"
    using assms(3) by (simp add: d u16_at_def slice_simps unat_of_nat)
  show "slice d 48 64 = sig" "slice d 16 32 = pk" "slice d 112 (length msg) = msg"
    using assms(1,2) by (simp_all add: d slice_simps)
  show "length d = 112 + length msg" "d ! 0 = 1" using assms(1,2) by (simp_all add: d)
qed

text \<open>Placed right before the current instruction it passes the check, and the check yields the
  signature and the message it was built from; the runtime verifies exactly that signature.\<close>
lemma verify_build_ed25519_relative:
  assumes len: "length pk = 32" "length sig = 64" "length msg < 2 ^ 16"
    and cur: "sv_current_index sv = Some ci" "off \<le> unat ci"
    and load: "load_instruction_at_checked (unat (ci - word_of_nat off)) sv =
      Some (build_ed25519_verify_instruction S pk sig msg)"
  shows "verify_ed25519_signature_details_relative S sv off pk =
    Inr \<lparr>ve_signature = sig, ve_message = msg\<rparr>"
proof -
  have "ix_program_id (build_ed25519_verify_instruction S pk sig msg) = sol_ed25519_program S"
    by (simp add: build_ed25519_verify_instruction_def Let_def)
  then show ?thesis
    unfolding verify_ed25519_signature_details_relative_def
    using cur load
    by (simp add: Let_def build_ed25519_fields [OF len] instruction_index_refs_embedded_data_def)
qed

lemma verify_build_ed25519:
  assumes "length pk = 32" "length sig = 64" "length msg < 2 ^ 16"
    and "sv_current_index sv = Some ci" "1 \<le> unat ci"
    and "load_instruction_at_checked (unat (ci - 1)) sv =
      Some (build_ed25519_verify_instruction S pk sig msg)"
  shows "verify_ed25519_signature_details S sv pk = Inr \<lparr>ve_signature = sig, ve_message = msg\<rparr>"
  unfolding verify_ed25519_signature_details_def
  using assms by (intro verify_build_ed25519_relative [where off = 1]) simp_all

lemma precompile_build:
  assumes "length pk = 32" "length sig = 64" "length msg < 2 ^ 16"
  shows "list_all (precompile_entry_ok verify sv
      (ix_data (build_ed25519_verify_instruction S pk sig msg)))
      [0..<unat (ix_data (build_ed25519_verify_instruction S pk sig msg) ! 0)] \<longleftrightarrow>
    verify pk sig msg"
  by (simp add: build_ed25519_fields [OF assms] precompile_entry_ok_def precompile_source_def Let_def)

section \<open>Unambiguous signed messages\<close>

lemma withdraw_authorization_length:
  "length c = 32 \<Longrightarrow> length r = 32 \<Longrightarrow> length v = 32 \<Longrightarrow>
    length (build_withdraw_authorization_message v c r a n e) = 120"
  by (simp add: build_withdraw_authorization_message_def)

lemma withdraw_authorization_inject:
  assumes "length v = 32" "length c = 32" "length r = 32"
    and "length v' = 32" "length c' = 32" "length r' = 32"
  shows "build_withdraw_authorization_message v c r a n e =
      build_withdraw_authorization_message v' c' r' a' n' e' \<longleftrightarrow>
    v = v' \<and> c = c' \<and> r = r' \<and> a = a' \<and> n = n' \<and> e = e'"
  using assms by (auto simp: build_withdraw_authorization_message_def)

lemma verification_receipt_length:
  assumes "length rh = 64" "length ph = 64" "\<forall>k. 32 \<le> length (base58 k)"
  shows "226 < length (build_verification_receipt_message base58 v vid rid pid c p a rh ph e)"
proof -
  have "1 \<le> length (show_nat n)" for n by (subst show_nat.simps) simp
  then have "1 \<le> length (show_u64 a)" by (simp add: show_u64_def)
  moreover have "32 \<le> length (base58 c)" "32 \<le> length (base58 v)" using assms(3) by auto
  ultimately show ?thesis
    using assms(1,2) by (simp add: build_verification_receipt_message_def newline_def)
qed

lemma asc_payment_message_inject:
  assumes "length c = 32" "length r = 32" "length c' = 32" "length r' = 32"
  shows "build_asc_payment_message_from_hashes c r a h =
      build_asc_payment_message_from_hashes c' r' a' h' \<longleftrightarrow>
    c = c' \<and> r = r' \<and> a = a' \<and> h = h'"
  using assms by (auto simp: build_asc_payment_message_from_hashes_def)

section \<open>Properties\<close>

text \<open>C33. The program's check of the Ed25519 precompile instruction is sound: if it returns a
  signature and a message for a key, then the runtime, which verified every signature that
  the transaction's Ed25519 instructions list, verified exactly this signature of this key over
  this message.  The instruction indexes in the data cannot redirect the runtime to
  other bytes than the program reads.\<close>
theorem ed25519_check_sound:
  assumes "verify_ed25519_signature_details_relative S sv offset pk = Inr v"
    and "precompile_ok S verify sv"
  shows "verify pk (ve_signature v) (ve_message v)"
  using verified_signature_genuine [OF assms] .

text \<open>Participant receipts: the decoder of the vault program inverts the encoder of the
  enclave on every receipt with 32-byte keys, accepts nothing but such encodings, and rejects every other
  message with \<^verbatim>\<open>InvalidReceiptMessage\<close>.\<close>
theorem receipt_round_trip:
  "(decode_participant_receipt_message bs = Inr m \<longleftrightarrow> receipt_wf m \<and> receipt_bytes m = bs) \<and>
    (length bs \<noteq> 145 \<longleftrightarrow> decode_participant_receipt_message bs = Inl InvalidReceiptMessage)"
  using decode_build_receipt build_decode_receipt
  by (auto simp: decode_participant_receipt_message_def PARTICIPANT_RECEIPT_MESSAGE_LEN_def
      require_err)

text \<open>Claim vouchers: parsing inverts building on every voucher with 32-byte fields, and a
  message parses to a voucher only if it is that voucher's encoding.\<close>
theorem voucher_round_trip:
  "parse_asc_claim_voucher_message bs = Some v \<longleftrightarrow>
    voucher_wf v \<and> build_asc_claim_voucher_message v = bs"
  by (rule voucher_codec.dec_Some_iff)


end
