(* ===== verification/Asc_Manager.thy ===== *)
theory Asc_Manager
  imports Adaptor_Sig Messages
begin

text \<open>
  The lifecycle of a service channel (\<^verbatim>\<open>src/enclave/src/asc_manager.rs\<close>): a client opens a channel with
  a deposit, submits a request, the provider delivers an adaptor pre-signature with the encrypted
  result, and the request is finalized with the adaptor secret, off chain or from a claim on chain.

  The wall clock is the argument \<open>now\<close>, the identifiers the code draws at random are arguments, and
  the curve and SHA-256 are the parameters \<open>C\<close> and \<open>sha256\<close>.
\<close>

definition REQUEST_EXPIRY_SEC :: int where "REQUEST_EXPIRY_SEC = 120"

record FinalizeOutcome =
  fo_request_id :: string
  fo_result_bytes :: bytes
  fo_amount :: u64
  fo_request :: ChannelRequest

record CloseOutcome =
  co_client :: pubkey
  co_provider_id :: string
  co_returned_to_client :: u64
  co_provider_earned :: u64
  co_settlement_id :: "string option"
  co_closed_channel :: ChannelState
  co_previous_provider_credit :: "ProviderCredit option"

record ExpiredRequestOutcome =
  eo_channel_id :: string
  eo_client :: pubkey
  eo_previous_status :: ChannelStatus
  eo_request :: ChannelRequest

fun debug_status :: "ChannelStatus \<Rightarrow> string" where
  "debug_status Open = ''Open''"
| "debug_status Locked = ''Locked''"
| "debug_status Pending = ''Pending''"
| "debug_status Closed = ''Closed''"

definition get_channel :: "string \<Rightarrow> ChannelState est" where
  "get_channel channel_id = sfind (\<lambda>st. aget (es_active_channels st) channel_id) ChannelNotFound"

definition put_channel :: "string \<Rightarrow> ChannelState \<Rightarrow> unit est" where
  "put_channel channel_id channel = smodify (\<lambda>st. st\<lparr>es_active_channels :=
    aput channel_id channel (es_active_channels st)\<rparr>)"

definition remove_channel :: "string \<Rightarrow> unit est" where
  "remove_channel channel_id = smodify (\<lambda>st. st\<lparr>es_active_channels :=
    adel channel_id (es_active_channels st)\<rparr>)"

definition expect_status :: "string \<Rightarrow> ChannelStatus \<Rightarrow> ChannelState \<Rightarrow> 'a est \<Rightarrow> 'a est" where
  "expect_status expected status channel =
    srequire (ch_status channel = status)
      (InvalidChannelStatus (''expected '' @ expected @ '', got '' @ debug_status (ch_status channel)))"

lemma expect_status_ok [result_simps]:
  "expect_status s status channel m st = (Inr y, st') \<longleftrightarrow>
    ch_status channel = status \<and> m st = (Inr y, st')"
  by (simp add: expect_status_def srequire_ok)

definition channel_total :: "ChannelState \<Rightarrow> nat" where
  "channel_total c = unat (client_free (ch_balance c)) + unat (client_locked (ch_balance c)) +
    unat (provider_earned (ch_balance c))"

section \<open>Opening\<close>

definition open_channel_with_id ::
  "string \<Rightarrow> pubkey \<Rightarrow> string \<Rightarrow> u64 \<Rightarrow> int \<Rightarrow> unit est" where
  "open_channel_with_id channel_id client provider_id initial_deposit now =
    sbind (sfind (\<lambda>st. aget (es_providers st) provider_id) ProviderNotFound) (\<lambda>_.
    sbind (get_balance client InsufficientBalance) (\<lambda>balance.
    srequire (initial_deposit \<le> cb_free balance) InsufficientBalance (
    let channel =
      \<lparr>ch_channel_id = channel_id, ch_client = client, ch_provider_id = provider_id,
       ch_balance = \<lparr>client_free = initial_deposit, client_locked = 0, provider_earned = 0\<rparr>,
       ch_status = Open, ch_nonce = 0, ch_created_at = now, ch_updated_at = now,
       ch_used_request_ids = {}, ch_active_request = None\<rparr> in
    sbind (reserve_balance client initial_deposit) (\<lambda>_.
    put_channel channel_id channel))))"

definition open_channel :: "string \<Rightarrow> pubkey \<Rightarrow> string \<Rightarrow> u64 \<Rightarrow> int \<Rightarrow> string est" where
  "open_channel uuid client provider_id initial_deposit now =
    (let channel_id = ''ch_'' @ uuid in
     sbind (open_channel_with_id channel_id client provider_id initial_deposit now) (\<lambda>_.
     sret channel_id))"

definition rollback_open_channel :: "string \<Rightarrow> unit est" where
  "rollback_open_channel channel_id =
    sbind (get_channel channel_id) (\<lambda>channel.
    sbind (remove_channel channel_id) (\<lambda>_.
    sbind (sadd (client_free (ch_balance channel)) (client_locked (ch_balance channel))) (\<lambda>a.
    sbind (sadd a (provider_earned (ch_balance channel))) (\<lambda>total_channel_amount.
    if total_channel_amount > 0 then release_balance (ch_client channel) total_channel_amount
    else sret ()))))"

section \<open>Requests\<close>

definition submit_request :: "string \<Rightarrow> string \<Rightarrow> u64 \<Rightarrow> bytes \<Rightarrow> int \<Rightarrow> unit est" where
  "submit_request channel_id request_id amount request_hash now =
    sbind (get_channel channel_id) (\<lambda>channel.
    expect_status ''Open'' Open channel (
    srequire (request_id \<notin> ch_used_request_ids channel) ChannelRequestIdReused (
    let b = ch_balance channel in
    srequire (amount \<le> client_free b) InsufficientBalance (
    let b1 = b\<lparr>client_free := client_free b - amount\<rparr> in
    sbind (put_channel channel_id (channel\<lparr>ch_balance := b1\<rparr>)) (\<lambda>_.
    sbind (sadd (client_locked b) amount) (\<lambda>locked.
    let channel1 = channel\<lparr>ch_balance := b1\<lparr>client_locked := locked\<rparr>, ch_status := Locked\<rparr> in
    sbind (put_channel channel_id channel1) (\<lambda>_.
    sbind (sadd (ch_nonce channel) 1) (\<lambda>nonce.
    put_channel channel_id (channel1\<lparr>ch_nonce := nonce, ch_updated_at := now,
      ch_used_request_ids := insert request_id (ch_used_request_ids channel),
      ch_active_request := Some
        \<lparr>cr_request_id = request_id, cr_amount = amount, cr_request_hash = request_hash,
         cr_provider_pubkey = None, cr_adaptor_point = None, cr_provider_pre_sig = None,
         cr_encrypted_result = None, cr_result_hash = None, cr_created_at = now,
         cr_expires_at = now + REQUEST_EXPIRY_SEC\<rparr>\<rparr>)))))))))"

definition rollback_submit_request :: "string \<Rightarrow> string \<Rightarrow> int \<Rightarrow> unit est" where
  "rollback_submit_request channel_id request_id now =
    sbind (get_channel channel_id) (\<lambda>channel.
    sok_or (ch_active_request channel) ChannelNotFound (\<lambda>request.
    srequire (cr_request_id request = request_id) ChannelNotFound (
    let b = ch_balance channel; amount = cr_amount request;
        b1 = b\<lparr>client_locked := saturating_sub (client_locked b) amount\<rparr> in
    sbind (put_channel channel_id (channel\<lparr>ch_balance := b1\<rparr>)) (\<lambda>_.
    sbind (sadd (client_free b) amount) (\<lambda>free.
    put_channel channel_id (channel\<lparr>ch_balance := b1\<lparr>client_free := free\<rparr>, ch_status := Open,
      ch_active_request := None, ch_nonce := saturating_sub (ch_nonce channel) 1,
      ch_updated_at := now, ch_used_request_ids := ch_used_request_ids channel - {request_id}\<rparr>))))))"

definition build_payment_message ::
  "(bytes \<Rightarrow> bytes) \<Rightarrow> string \<Rightarrow> string \<Rightarrow> u64 \<Rightarrow> bytes \<Rightarrow> bytes" where
  "build_payment_message sha256 channel_id request_id amount request_hash =
    build_asc_payment_message sha256 channel_id request_id amount request_hash"

definition deliver_adaptor ::
  "('p::ab_group_add, 's::comm_ring_1) curve \<Rightarrow> (bytes \<Rightarrow> bytes) \<Rightarrow> string \<Rightarrow> bytes \<Rightarrow>
    AdaptorPreSignature \<Rightarrow> bytes \<Rightarrow> bytes \<Rightarrow> bytes \<Rightarrow> int \<Rightarrow> unit est" where
  "deliver_adaptor C sha256 channel_id adaptor_point_bytes pre_sig encrypted_result result_hash
      provider_pubkey now =
    sbind (get_channel channel_id) (\<lambda>channel.
    expect_status ''Locked'' Locked channel (
    sok_or (ch_active_request channel) ChannelNotFound (\<lambda>request.
    srequire (now \<le> cr_expires_at request) ChannelRequestExpired (
    sok_or (decompress C adaptor_point_bytes) InvalidAdaptorSignature (\<lambda>adaptor_point.
    let message = build_payment_message sha256 (ch_channel_id channel) (cr_request_id request)
      (cr_amount request) (cr_request_hash request) in
    srequire (pre_verify C provider_pubkey message adaptor_point pre_sig) InvalidAdaptorSignature (
    let channel1 = channel\<lparr>ch_active_request := Some (request\<lparr>
        cr_provider_pubkey := Some provider_pubkey, cr_adaptor_point := Some adaptor_point_bytes,
        cr_provider_pre_sig := Some pre_sig, cr_encrypted_result := Some encrypted_result,
        cr_result_hash := Some result_hash\<rparr>), ch_status := Pending\<rparr> in
    sbind (put_channel channel_id channel1) (\<lambda>_.
    sbind (sadd (ch_nonce channel) 1) (\<lambda>nonce.
    put_channel channel_id (channel1\<lparr>ch_nonce := nonce, ch_updated_at := now\<rparr>)))))))))"

definition rollback_deliver_adaptor :: "string \<Rightarrow> string \<Rightarrow> int \<Rightarrow> unit est" where
  "rollback_deliver_adaptor channel_id request_id now =
    sbind (get_channel channel_id) (\<lambda>channel.
    expect_status ''Pending'' Pending channel (
    sok_or (ch_active_request channel) ChannelNotFound (\<lambda>request.
    srequire (cr_request_id request = request_id) ChannelNotFound (
    put_channel channel_id (channel\<lparr>ch_active_request := Some (request\<lparr>
        cr_provider_pubkey := None, cr_adaptor_point := None, cr_provider_pre_sig := None,
        cr_encrypted_result := None, cr_result_hash := None\<rparr>),
      ch_status := Locked, ch_nonce := saturating_sub (ch_nonce channel) 1,
      ch_updated_at := now\<rparr>)))))"

section \<open>Finalization\<close>

text \<open>The SHA-256 key stream, a block of 32 bytes per block index.\<close>
function stream_xor :: "(bytes \<Rightarrow> bytes) \<Rightarrow> bytes \<Rightarrow> u64 \<Rightarrow> bytes \<Rightarrow> bytes" where
  "stream_xor sha256 key_bytes block_idx text =
    (if text = [] then []
     else xor_bytes (take 32 text)
            (sha256 (str_bytes ''subly402-asc-enc-v1'' @ key_bytes @ to_le_bytes block_idx))
          @ stream_xor sha256 key_bytes (block_idx + 1) (drop 32 text))"
  by pat_completeness auto
termination by (relation "measure (\<lambda>(_, _, _, text). length text)") auto

declare stream_xor.simps [simp del]

definition decrypt_with_scalar :: "(bytes \<Rightarrow> bytes) \<Rightarrow> bytes \<Rightarrow> bytes \<Rightarrow> bytes" where
  "decrypt_with_scalar sha256 ciphertext key_bytes = stream_xor sha256 key_bytes 0 ciphertext"

definition encrypt_with_scalar :: "(bytes \<Rightarrow> bytes) \<Rightarrow> bytes \<Rightarrow> bytes \<Rightarrow> bytes" where
  "encrypt_with_scalar sha256 plaintext key_bytes = decrypt_with_scalar sha256 plaintext key_bytes"

text \<open>The key is the encoding of the secret: both callers pass it as \<^verbatim>\<open>secret_bytes_override\<close>.\<close>
definition finalize_with_secret ::
  "('p::ab_group_add, 's::comm_ring_1) curve \<Rightarrow> (bytes \<Rightarrow> bytes) \<Rightarrow> string \<Rightarrow> 's \<Rightarrow> bytes option \<Rightarrow>
    int \<Rightarrow> FinalizeOutcome est" where
  "finalize_with_secret C sha256 channel_id adaptor_secret secret_bytes_override now =
    sbind (get_channel channel_id) (\<lambda>channel.
    expect_status ''Pending'' Pending channel (
    sok_or (ch_active_request channel) ChannelNotFound (\<lambda>request.
    sok_or (cr_provider_pre_sig request) InvalidAdaptorSignature (\<lambda>pre_sig.
    sok_or (cr_adaptor_point request) InvalidAdaptorSignature (\<lambda>adaptor_point_bytes.
    sok_or (decompress C adaptor_point_bytes) InvalidAdaptorSignature (\<lambda>adaptor_point.
    sok_or (cr_provider_pubkey request) InvalidAdaptorSignature (\<lambda>provider_pubkey.
    srequire (adaptor_point = mul_base C adaptor_secret) InvalidAdaptorSignature (
    sok_or (adapt C pre_sig adaptor_secret adaptor_point) InvalidAdaptorSignature (\<lambda>full_sig.
    let message = build_payment_message sha256 (ch_channel_id channel) (cr_request_id request)
      (cr_amount request) (cr_request_hash request) in
    srequire (verify_adapted C provider_pubkey message full_sig) InvalidAdaptorSignature (
    sok_or (cr_encrypted_result request) ChannelNotFound (\<lambda>encrypted_result.
    let secret_bytes = (case secret_bytes_override of
          Some bs \<Rightarrow> bs | None \<Rightarrow> scalar_to_bytes C adaptor_secret);
        decrypted = decrypt_with_scalar sha256 encrypted_result secret_bytes in
    srequire (case cr_result_hash request of None \<Rightarrow> True | Some h \<Rightarrow> sha256 decrypted = h)
      (Internal ''Result hash mismatch after decryption'') (
    let b = ch_balance channel; amount = cr_amount request in
    sbind (ssub (client_locked b) amount) (\<lambda>locked.
    let b1 = b\<lparr>client_locked := locked\<rparr> in
    sbind (put_channel channel_id (channel\<lparr>ch_balance := b1\<rparr>)) (\<lambda>_.
    sbind (sadd (provider_earned b) amount) (\<lambda>earned.
    let channel1 = channel\<lparr>ch_balance := b1\<lparr>provider_earned := earned\<rparr>, ch_status := Open,
      ch_active_request := None\<rparr> in
    sbind (put_channel channel_id channel1) (\<lambda>_.
    sbind (sadd (ch_nonce channel) 1) (\<lambda>nonce.
    sbind (put_channel channel_id (channel1\<lparr>ch_nonce := nonce, ch_updated_at := now\<rparr>)) (\<lambda>_.
    sret \<lparr>fo_request_id = cr_request_id request, fo_result_bytes = decrypted,
          fo_amount = amount, fo_request = request\<rparr>))))))))))))))))))"

definition finalize_offchain ::
  "('p::ab_group_add, 's::comm_ring_1) curve \<Rightarrow> (bytes \<Rightarrow> bytes) \<Rightarrow> string \<Rightarrow> bytes \<Rightarrow> int \<Rightarrow>
    FinalizeOutcome est" where
  "finalize_offchain C sha256 channel_id adaptor_secret_bytes now =
    sok_or (from_canonical_bytes C adaptor_secret_bytes) InvalidAdaptorSignature (\<lambda>t.
    finalize_with_secret C sha256 channel_id t (Some adaptor_secret_bytes) now)"

record ('p) PendingRequestCryptoMaterial =
  pm_request :: ChannelRequest
  pm_pre_sig :: AdaptorPreSignature
  pm_adaptor_point :: 'p
  pm_provider_pubkey :: bytes

definition pending_request_crypto_materials ::
  "('p::ab_group_add, 's::comm_ring_1) curve \<Rightarrow> string \<Rightarrow> 'p PendingRequestCryptoMaterial est" where
  "pending_request_crypto_materials C channel_id =
    sbind (get_channel channel_id) (\<lambda>channel.
    expect_status ''Pending'' Pending channel (
    sok_or (ch_active_request channel) ChannelNotFound (\<lambda>request.
    sok_or (cr_provider_pre_sig request) InvalidAdaptorSignature (\<lambda>pre_sig.
    sok_or (cr_adaptor_point request) InvalidAdaptorSignature (\<lambda>adaptor_point_bytes.
    sok_or (decompress C adaptor_point_bytes) InvalidAdaptorSignature (\<lambda>adaptor_point.
    sok_or (cr_provider_pubkey request) InvalidAdaptorSignature (\<lambda>provider_pubkey.
    sret \<lparr>pm_request = request, pm_pre_sig = pre_sig, pm_adaptor_point = adaptor_point,
          pm_provider_pubkey = provider_pubkey\<rparr>)))))))"

definition finalize_onchain_claim ::
  "('p::ab_group_add, 's::comm_ring_1) curve \<Rightarrow> (bytes \<Rightarrow> bytes) \<Rightarrow> string \<Rightarrow> bytes \<Rightarrow> bytes \<Rightarrow>
    int \<Rightarrow> FinalizeOutcome est" where
  "finalize_onchain_claim C sha256 channel_id full_sig_r full_sig_s now =
    sbind (pending_request_crypto_materials C channel_id) (\<lambda>pending.
    let full_sig = \<lparr>r_bytes = full_sig_r, s_bytes = full_sig_s\<rparr> in
    sok_or (extract_secret C full_sig (pm_pre_sig pending)) InvalidAdaptorSignature (\<lambda>extracted.
    let secret_bytes = scalar_to_bytes C extracted in
    sok_or (decompress C (r_prime (pm_pre_sig pending))) InvalidAdaptorSignature (\<lambda>rp.
    let expected_r = rp + pm_adaptor_point pending in
    srequire (compress C expected_r = full_sig_r) InvalidAdaptorSignature (
    let payment_message = build_payment_message sha256 channel_id
      (cr_request_id (pm_request pending)) (cr_amount (pm_request pending))
      (cr_request_hash (pm_request pending)) in
    srequire (verify_adapted C (pm_provider_pubkey pending) payment_message full_sig)
      InvalidAdaptorSignature (
    finalize_with_secret C sha256 channel_id extracted (Some secret_bytes) now)))))"

definition rollback_finalize_offchain :: "string \<Rightarrow> ChannelRequest \<Rightarrow> int \<Rightarrow> unit est" where
  "rollback_finalize_offchain channel_id request now =
    sbind (get_channel channel_id) (\<lambda>channel.
    srequire (ch_status channel = Open \<and> ch_active_request channel = None)
      (InvalidChannelStatus (''expected Open without active request, got '' @
        debug_status (ch_status channel))) (
    let b = ch_balance channel in
    sbind (sadd (client_locked b) (cr_amount request)) (\<lambda>locked.
    put_channel channel_id (channel\<lparr>
      ch_balance := b\<lparr>client_locked := locked,
        provider_earned := saturating_sub (provider_earned b) (cr_amount request)\<rparr>,
      ch_status := Pending, ch_active_request := Some request,
      ch_nonce := saturating_sub (ch_nonce channel) 1, ch_updated_at := now\<rparr>))))"

definition finalize_replayed_request :: "string \<Rightarrow> string \<Rightarrow> u64 \<Rightarrow> int \<Rightarrow> unit est" where
  "finalize_replayed_request channel_id request_id amount_paid now =
    sbind (get_channel channel_id) (\<lambda>channel.
    expect_status ''Pending'' Pending channel (
    sok_or (ch_active_request channel) ChannelNotFound (\<lambda>request.
    srequire (cr_request_id request = request_id) ChannelNotFound (
    srequire (cr_amount request = amount_paid)
      (Internal ''WAL replay amount mismatch for finalized channel request'') (
    let b = ch_balance channel;
        b1 = b\<lparr>client_locked := saturating_sub (client_locked b) amount_paid\<rparr> in
    sbind (put_channel channel_id (channel\<lparr>ch_balance := b1\<rparr>)) (\<lambda>_.
    sbind (sadd (provider_earned b) amount_paid) (\<lambda>earned.
    let channel1 = channel\<lparr>ch_balance := b1\<lparr>provider_earned := earned\<rparr>, ch_status := Open,
      ch_active_request := None\<rparr> in
    sbind (put_channel channel_id channel1) (\<lambda>_.
    sbind (sadd (ch_nonce channel) 1) (\<lambda>nonce.
    put_channel channel_id (channel1\<lparr>ch_nonce := nonce, ch_updated_at := now\<rparr>))))))))))"

section \<open>Closing and expiry\<close>

text \<open>The whole channel amount leaves the client's locked balance; what the client has not spent
  becomes free again.\<close>
definition close_release :: "pubkey \<Rightarrow> u64 \<Rightarrow> u64 \<Rightarrow> unit est" where
  "close_release client remaining_free total_channel_amount =
    (if total_channel_amount > 0
     then sbind (get_balance client ClientNotFound) (\<lambda>b.
       let b1 = b\<lparr>cb_locked := saturating_sub (cb_locked b) total_channel_amount\<rparr> in
       sbind (put_balance client b1) (\<lambda>_.
       sbind (sadd (cb_free b) remaining_free) (\<lambda>free.
       put_balance client (b1\<lparr>cb_free := free\<rparr>))))
     else sret ())"

definition close_credit_provider :: "string \<Rightarrow> u64 \<Rightarrow> string \<Rightarrow> int \<Rightarrow> unit est" where
  "close_credit_provider provider_id earned settlement_id now =
    (if earned > 0
     then sbind (sfind (\<lambda>st. aget (es_providers st) provider_id) ProviderNotFound) (\<lambda>provider_reg.
       sbind (sget (\<lambda>st. aget (es_provider_credits st) provider_id)) (\<lambda>entry.
       case entry of
         Some credit \<Rightarrow>
           sbind (sadd (pc_credited_amount credit) earned) (\<lambda>credited.
           put_credit provider_id (credit\<lparr>pc_credited_amount := credited,
             pc_settlement_ids := pc_settlement_ids credit @ [settlement_id]\<rparr>))
       | None \<Rightarrow>
           put_credit provider_id \<lparr>pc_provider_id = provider_id,
             pc_settlement_token_account = rg_settlement_token_account provider_reg,
             pc_credited_amount = earned, pc_oldest_credit_at = now,
             pc_settlement_ids = [settlement_id]\<rparr>))
     else sret ())"

definition close_channel_with_settlement_id ::
  "string \<Rightarrow> string \<Rightarrow> string option \<Rightarrow> int \<Rightarrow> CloseOutcome est" where
  "close_channel_with_settlement_id uuid channel_id settlement_id_override now =
    sbind (get_channel channel_id) (\<lambda>channel.
    srequire (ch_status channel = Open) (InvalidChannelStatus (''expected Open, got '' @
      debug_status (ch_status channel) @ '' (close only from Open)'')) (
    let client = ch_client channel; provider_id = ch_provider_id channel;
        remaining_free = client_free (ch_balance channel);
        earned = provider_earned (ch_balance channel) in
    sbind (sget (\<lambda>st. if earned > 0 then aget (es_provider_credits st) provider_id else None))
      (\<lambda>previous_provider_credit.
    let sid = (case settlement_id_override of Some s \<Rightarrow> s | None \<Rightarrow> ''asc_'' @ uuid);
        settlement_id = (if earned > 0 then Some sid else None) in
    sbind (remove_channel channel_id) (\<lambda>_.
    sbind (sadd remaining_free earned) (\<lambda>total_channel_amount.
    sbind (close_release client remaining_free total_channel_amount) (\<lambda>_.
    sbind (close_credit_provider provider_id earned sid now) (\<lambda>_.
    sret \<lparr>co_client = client, co_provider_id = provider_id,
          co_returned_to_client = remaining_free, co_provider_earned = earned,
          co_settlement_id = settlement_id, co_closed_channel = channel,
          co_previous_provider_credit = previous_provider_credit\<rparr>)))))))"

definition close_channel :: "string \<Rightarrow> string \<Rightarrow> int \<Rightarrow> CloseOutcome est" where
  "close_channel uuid channel_id now = close_channel_with_settlement_id uuid channel_id None now"

definition rollback_close_channel :: "CloseOutcome \<Rightarrow> unit est" where
  "rollback_close_channel outcome =
    sbind (sadd (co_returned_to_client outcome) (co_provider_earned outcome)) (\<lambda>total_channel_amount.
    sbind (if total_channel_amount > 0
      then sbind (get_balance (co_client outcome) ClientNotFound) (\<lambda>b.
        sbind (sadd (cb_locked b) total_channel_amount) (\<lambda>locked.
        put_balance (co_client outcome) (b\<lparr>cb_locked := locked,
          cb_free := saturating_sub (cb_free b) (co_returned_to_client outcome)\<rparr>)))
      else sret ()) (\<lambda>_.
    sbind (if co_provider_earned outcome > 0
      then (case co_previous_provider_credit outcome of
          Some previous_credit \<Rightarrow> put_credit (co_provider_id outcome) previous_credit
        | None \<Rightarrow> smodify (\<lambda>st. st\<lparr>es_provider_credits :=
            adel (co_provider_id outcome) (es_provider_credits st)\<rparr>))
      else sret ()) (\<lambda>_.
    put_channel (ch_channel_id (co_closed_channel outcome)) (co_closed_channel outcome))))"

definition expire_request :: "string \<Rightarrow> int \<Rightarrow> ExpiredRequestOutcome option est" where
  "expire_request channel_id now =
    sbind (get_channel channel_id) (\<lambda>channel.
    if ch_status channel \<noteq> Locked \<and> ch_status channel \<noteq> Pending then sret None
    else (case ch_active_request channel of
        None \<Rightarrow> sret None
      | Some request \<Rightarrow>
          if now \<le> cr_expires_at request then sret None
          else
            let b = ch_balance channel;
                b1 = b\<lparr>client_locked := saturating_sub (client_locked b) (cr_amount request)\<rparr> in
            sbind (put_channel channel_id (channel\<lparr>ch_balance := b1\<rparr>)) (\<lambda>_.
            sbind (sadd (client_free b) (cr_amount request)) (\<lambda>free.
            let channel1 = channel\<lparr>ch_balance := b1\<lparr>client_free := free\<rparr>, ch_status := Open,
              ch_active_request := None\<rparr> in
            sbind (put_channel channel_id channel1) (\<lambda>_.
            sbind (sadd (ch_nonce channel) 1) (\<lambda>nonce.
            sbind (put_channel channel_id (channel1\<lparr>ch_nonce := nonce, ch_updated_at := now\<rparr>)) (\<lambda>_.
            sret (Some \<lparr>eo_channel_id = ch_channel_id channel, eo_client = ch_client channel,
              eo_previous_status = ch_status channel, eo_request = request\<rparr>))))))))"

definition rollback_expire_request :: "ExpiredRequestOutcome \<Rightarrow> int \<Rightarrow> unit est" where
  "rollback_expire_request outcome now =
    sbind (get_channel (eo_channel_id outcome)) (\<lambda>channel.
    srequire (ch_status channel = Open \<and> ch_active_request channel = None)
      (InvalidChannelStatus (''expected Open without active request, got '' @
        debug_status (ch_status channel))) (
    let b = ch_balance channel; amount = cr_amount (eo_request outcome);
        b1 = b\<lparr>client_free := saturating_sub (client_free b) amount\<rparr> in
    sbind (put_channel (eo_channel_id outcome) (channel\<lparr>ch_balance := b1\<rparr>)) (\<lambda>_.
    sbind (sadd (client_locked b) amount) (\<lambda>locked.
    put_channel (eo_channel_id outcome) (channel\<lparr>ch_balance := b1\<lparr>client_locked := locked\<rparr>,
      ch_status := eo_previous_status outcome, ch_active_request := Some (eo_request outcome),
      ch_nonce := saturating_sub (ch_nonce channel) 1, ch_updated_at := now\<rparr>)))))"

definition expire_replayed_request :: "string \<Rightarrow> string \<Rightarrow> u64 \<Rightarrow> int \<Rightarrow> unit est" where
  "expire_replayed_request channel_id request_id amount now =
    sbind (get_channel channel_id) (\<lambda>channel.
    srequire (ch_status channel = Locked \<or> ch_status channel = Pending)
      (InvalidChannelStatus (''expected Locked or Pending, got '' @
        debug_status (ch_status channel))) (
    sok_or (ch_active_request channel) ChannelNotFound (\<lambda>request.
    srequire (cr_request_id request = request_id) ChannelNotFound (
    srequire (cr_amount request = amount)
      (Internal ''WAL replay amount mismatch for expired channel request'') (
    let b = ch_balance channel;
        b1 = b\<lparr>client_locked := saturating_sub (client_locked b) amount\<rparr> in
    sbind (put_channel channel_id (channel\<lparr>ch_balance := b1\<rparr>)) (\<lambda>_.
    sbind (sadd (client_free b) amount) (\<lambda>free.
    let channel1 = channel\<lparr>ch_balance := b1\<lparr>client_free := free\<rparr>, ch_status := Open,
      ch_active_request := None\<rparr> in
    sbind (put_channel channel_id channel1) (\<lambda>_.
    sbind (sadd (ch_nonce channel) 1) (\<lambda>nonce.
    put_channel channel_id (channel1\<lparr>ch_nonce := nonce, ch_updated_at := now\<rparr>))))))))))"

section \<open>Effects of the operations\<close>

lemmas asc_defs = get_channel_def put_channel_def remove_channel_def expect_status_def

text \<open>A channel of the state replaced.\<close>
definition set_channel :: "string \<Rightarrow> ChannelState \<Rightarrow> VaultState \<Rightarrow> VaultState" where
  "set_channel cid ch st = st\<lparr>es_active_channels := aput cid ch (es_active_channels st)\<rparr>"

lemma set_channel_set_channel [simp]: "set_channel k x (set_channel k y st) = set_channel k x st"
  by (simp add: set_channel_def aput_aput)

lemma aget_set_channel [simp]:
  "aget (es_active_channels (set_channel k x st)) j =
    (if k = j then Some x else aget (es_active_channels st) j)"
  by (simp add: set_channel_def)

lemma checked_add_le: "checked_add a b = Some c \<Longrightarrow> a \<le> c" for a :: u64
  by (simp add: word_le_nat_alt unat_checked_add)

lemma checked_add_0 [simp]: "checked_add 0 e = Some e" for e :: u64
  using unat_less_pow [of e] by (simp add: checked_add_def)

lemma get_channel_ok [result_simps]:
  "get_channel cid st = (Inr ch, st') \<longleftrightarrow> aget (es_active_channels st) cid = Some ch \<and> st' = st"
  by (auto simp: get_channel_def sfind_ok)

lemma put_channel_ok [result_simps]: "put_channel cid ch st = (Inr u, st') \<longleftrightarrow> st' = set_channel cid ch st"
  by (auto simp: put_channel_def smodify_ok set_channel_def)

lemma open_channel_with_id_ok:
  assumes "open_channel_with_id cid c p a now st = (Inr u, st')"
  obtains reg b locked where
    "aget (es_providers st) p = Some reg" "aget (es_client_balances st) c = Some b"
    "a \<le> cb_free b" "checked_add (cb_locked b) a = Some locked"
    "st' = set_channel cid
      \<lparr>ch_channel_id = cid, ch_client = c, ch_provider_id = p,
       ch_balance = \<lparr>client_free = a, client_locked = 0, provider_earned = 0\<rparr>,
       ch_status = Open, ch_nonce = 0, ch_created_at = now, ch_updated_at = now,
       ch_used_request_ids = {}, ch_active_request = None\<rparr>
      (st\<lparr>es_client_balances := aput c (b\<lparr>cb_free := cb_free b - a, cb_locked := locked\<rparr>)
        (es_client_balances st)\<rparr>)"
  using assms unfolding open_channel_with_id_def Let_def result_simps reserve_balance_ok
    get_balance_def
  by auto

lemma submit_request_ok:
  "submit_request cid rid a h now st = (Inr u, st') \<longleftrightarrow>
    (\<exists>ch locked nonce. aget (es_active_channels st) cid = Some ch \<and> ch_status ch = Open \<and>
      rid \<notin> ch_used_request_ids ch \<and> a \<le> client_free (ch_balance ch) \<and>
      checked_add (client_locked (ch_balance ch)) a = Some locked \<and>
      checked_add (ch_nonce ch) 1 = Some nonce \<and>
      st' = set_channel cid (ch\<lparr>
        ch_balance := (ch_balance ch)\<lparr>client_free := client_free (ch_balance ch) - a,
          client_locked := locked\<rparr>,
        ch_status := Locked, ch_nonce := nonce, ch_updated_at := now,
        ch_used_request_ids := insert rid (ch_used_request_ids ch),
        ch_active_request := Some
          \<lparr>cr_request_id = rid, cr_amount = a, cr_request_hash = h, cr_provider_pubkey = None,
           cr_adaptor_point = None, cr_provider_pre_sig = None, cr_encrypted_result = None,
           cr_result_hash = None, cr_created_at = now,
           cr_expires_at = now + REQUEST_EXPIRY_SEC\<rparr>\<rparr>) st)"
  by (auto simp: submit_request_def Let_def result_simps)

lemma deliver_adaptor_ok:
  "deliver_adaptor C sha256 cid tb pre enc rh pk now st = (Inr u, st') \<longleftrightarrow>
    (\<exists>ch r T nonce. aget (es_active_channels st) cid = Some ch \<and> ch_status ch = Locked \<and>
      ch_active_request ch = Some r \<and> now \<le> cr_expires_at r \<and> decompress C tb = Some T \<and>
      pre_verify C pk (build_payment_message sha256 (ch_channel_id ch) (cr_request_id r)
        (cr_amount r) (cr_request_hash r)) T pre \<and>
      checked_add (ch_nonce ch) 1 = Some nonce \<and>
      st' = set_channel cid (ch\<lparr>ch_active_request := Some (r\<lparr>cr_provider_pubkey := Some pk,
          cr_adaptor_point := Some tb, cr_provider_pre_sig := Some pre,
          cr_encrypted_result := Some enc, cr_result_hash := Some rh\<rparr>),
        ch_status := Pending, ch_nonce := nonce, ch_updated_at := now\<rparr>) st)"
  by (auto simp: deliver_adaptor_def Let_def result_simps)

lemma finalize_with_secret_ok:
  "finalize_with_secret C sha256 cid t ov now st = (Inr out, st') \<longleftrightarrow>
    (\<exists>ch r pre tb pk full enc locked earned nonce dec.
      aget (es_active_channels st) cid = Some ch \<and> ch_status ch = Pending \<and>
      ch_active_request ch = Some r \<and> cr_provider_pre_sig r = Some pre \<and>
      cr_adaptor_point r = Some tb \<and> decompress C tb = Some (mul_base C t) \<and>
      cr_provider_pubkey r = Some pk \<and> adapt C pre t (mul_base C t) = Some full \<and>
      verify_adapted C pk (build_payment_message sha256 (ch_channel_id ch) (cr_request_id r)
        (cr_amount r) (cr_request_hash r)) full \<and>
      cr_encrypted_result r = Some enc \<and>
      dec = decrypt_with_scalar sha256 enc
        (case ov of Some bs \<Rightarrow> bs | None \<Rightarrow> scalar_to_bytes C t) \<and>
      (case cr_result_hash r of None \<Rightarrow> True | Some h \<Rightarrow> sha256 dec = h) \<and>
      checked_sub (client_locked (ch_balance ch)) (cr_amount r) = Some locked \<and>
      checked_add (provider_earned (ch_balance ch)) (cr_amount r) = Some earned \<and>
      checked_add (ch_nonce ch) 1 = Some nonce \<and>
      out = \<lparr>fo_request_id = cr_request_id r, fo_result_bytes = dec, fo_amount = cr_amount r,
        fo_request = r\<rparr> \<and>
      st' = set_channel cid (ch\<lparr>ch_balance := (ch_balance ch)\<lparr>client_locked := locked,
          provider_earned := earned\<rparr>, ch_status := Open, ch_active_request := None,
        ch_nonce := nonce, ch_updated_at := now\<rparr>) st)"
  by (auto simp: finalize_with_secret_def Let_def result_simps)

lemma finalize_replayed_request_ok:
  "finalize_replayed_request cid rid a now st = (Inr u, st') \<longleftrightarrow>
    (\<exists>ch r earned nonce. aget (es_active_channels st) cid = Some ch \<and> ch_status ch = Pending \<and>
      ch_active_request ch = Some r \<and> cr_request_id r = rid \<and> cr_amount r = a \<and>
      checked_add (provider_earned (ch_balance ch)) a = Some earned \<and>
      checked_add (ch_nonce ch) 1 = Some nonce \<and>
      st' = set_channel cid (ch\<lparr>ch_balance := (ch_balance ch)\<lparr>
          client_locked := saturating_sub (client_locked (ch_balance ch)) a,
          provider_earned := earned\<rparr>, ch_status := Open, ch_active_request := None,
        ch_nonce := nonce, ch_updated_at := now\<rparr>) st)"
  by (auto simp: finalize_replayed_request_def Let_def result_simps)

lemma expire_request_some:
  "expire_request cid now st = (Inr (Some out), st') \<longleftrightarrow>
    (\<exists>ch r free nonce. aget (es_active_channels st) cid = Some ch \<and>
      ch_active_request ch = Some r \<and> (ch_status ch = Locked \<or> ch_status ch = Pending) \<and>
      cr_expires_at r < now \<and>
      checked_add (client_free (ch_balance ch)) (cr_amount r) = Some free \<and>
      checked_add (ch_nonce ch) 1 = Some nonce \<and>
      out = \<lparr>eo_channel_id = ch_channel_id ch, eo_client = ch_client ch,
        eo_previous_status = ch_status ch, eo_request = r\<rparr> \<and>
      st' = set_channel cid (ch\<lparr>ch_balance := (ch_balance ch)\<lparr>
          client_locked := saturating_sub (client_locked (ch_balance ch)) (cr_amount r),
          client_free := free\<rparr>, ch_status := Open, ch_active_request := None,
        ch_nonce := nonce, ch_updated_at := now\<rparr>) st)"
proof (cases "aget (es_active_channels st) cid")
  case (Some ch)
  then show ?thesis
    by (cases "ch_active_request ch") (auto simp: expire_request_def Let_def result_simps)
qed (simp add: expire_request_def result_simps)

lemma expire_request_none: "expire_request cid now st = (Inr None, st') \<Longrightarrow> st' = st"
proof (cases "aget (es_active_channels st) cid")
  case (Some ch)
  then show "expire_request cid now st = (Inr None, st') \<Longrightarrow> st' = st"
    by (cases "ch_active_request ch")
      (auto simp: expire_request_def Let_def result_simps split: if_splits)
qed (simp add: expire_request_def result_simps)

lemma expire_replayed_request_ok:
  "expire_replayed_request cid rid a now st = (Inr u, st') \<longleftrightarrow>
    (\<exists>ch r free nonce. aget (es_active_channels st) cid = Some ch \<and>
      (ch_status ch = Locked \<or> ch_status ch = Pending) \<and>
      ch_active_request ch = Some r \<and> cr_request_id r = rid \<and> cr_amount r = a \<and>
      checked_add (client_free (ch_balance ch)) a = Some free \<and>
      checked_add (ch_nonce ch) 1 = Some nonce \<and>
      st' = set_channel cid (ch\<lparr>ch_balance := (ch_balance ch)\<lparr>
          client_locked := saturating_sub (client_locked (ch_balance ch)) a,
          client_free := free\<rparr>, ch_status := Open, ch_active_request := None,
        ch_nonce := nonce, ch_updated_at := now\<rparr>) st)"
  by (auto simp: expire_replayed_request_def Let_def result_simps)

text \<open>The balances and the credits after a close.\<close>
definition close_balances :: "ChannelState \<Rightarrow> (pubkey, ClientBalance) amap \<Rightarrow>
    (pubkey, ClientBalance) amap \<Rightarrow> bool" where
  "close_balances ch bs bs' \<longleftrightarrow>
    (\<exists>amount. checked_add (client_free (ch_balance ch)) (provider_earned (ch_balance ch)) = Some amount \<and>
      (if amount > 0
       then \<exists>b free. aget bs (ch_client ch) = Some b \<and>
         checked_add (cb_free b) (client_free (ch_balance ch)) = Some free \<and>
         bs' = aput (ch_client ch) (b\<lparr>cb_locked := saturating_sub (cb_locked b) amount,
           cb_free := free\<rparr>) bs
       else bs' = bs))"

definition close_credits :: "ChannelState \<Rightarrow> string \<Rightarrow> int \<Rightarrow> VaultState \<Rightarrow>
    (string, ProviderCredit) amap \<Rightarrow> bool" where
  "close_credits ch sid now st cs' \<longleftrightarrow>
    (if provider_earned (ch_balance ch) > 0
     then \<exists>reg credited. aget (es_providers st) (ch_provider_id ch) = Some reg \<and>
       (let credit = credit_or_new st (ch_provider_id ch) (rg_settlement_token_account reg) now in
        checked_add (pc_credited_amount credit) (provider_earned (ch_balance ch)) = Some credited \<and>
        cs' = aput (ch_provider_id ch) (credit\<lparr>pc_credited_amount := credited,
          pc_settlement_ids := pc_settlement_ids credit @ [sid]\<rparr>) (es_provider_credits st))
     else cs' = es_provider_credits st)"

lemma close_release_ok:
  "close_release c rf amount st = (Inr u, st') \<longleftrightarrow>
    (if amount > 0
     then \<exists>b free. aget (es_client_balances st) c = Some b \<and> checked_add (cb_free b) rf = Some free \<and>
       st' = st\<lparr>es_client_balances := aput c (b\<lparr>cb_locked := saturating_sub (cb_locked b) amount,
         cb_free := free\<rparr>) (es_client_balances st)\<rparr>
     else st' = st)"
  by (auto simp: close_release_def Let_def state_op_defs aput_aput split: option.splits)

lemma close_credit_provider_ok:
  "close_credit_provider p earned sid now st = (Inr u, st') \<longleftrightarrow>
    (if earned > 0
     then \<exists>reg credited. aget (es_providers st) p = Some reg \<and>
       (let credit = credit_or_new st p (rg_settlement_token_account reg) now in
        checked_add (pc_credited_amount credit) earned = Some credited \<and>
        st' = st\<lparr>es_provider_credits := aput p (credit\<lparr>pc_credited_amount := credited,
          pc_settlement_ids := pc_settlement_ids credit @ [sid]\<rparr>) (es_provider_credits st)\<rparr>)
     else st' = st)"
  by (auto simp: close_credit_provider_def credit_or_new_def put_credit_def Let_def state_op_defs
      split: option.splits)

lemma close_channel_ok:
  assumes "close_channel_with_settlement_id uuid cid ov now st = (Inr out, st')"
  obtains ch bs cs sid where
    "sid = (case ov of Some s \<Rightarrow> s | None \<Rightarrow> ''asc_'' @ uuid)"
    "aget (es_active_channels st) cid = Some ch" "ch_status ch = Open"
    "close_balances ch (es_client_balances st) bs" "close_credits ch sid now st cs"
    "st' = st\<lparr>es_active_channels := adel cid (es_active_channels st),
      es_client_balances := bs, es_provider_credits := cs\<rparr>"
    "out = \<lparr>co_client = ch_client ch, co_provider_id = ch_provider_id ch,
      co_returned_to_client = client_free (ch_balance ch),
      co_provider_earned = provider_earned (ch_balance ch),
      co_settlement_id = (if provider_earned (ch_balance ch) > 0 then Some sid else None),
      co_closed_channel = ch,
      co_previous_provider_credit = (if provider_earned (ch_balance ch) > 0
        then aget (es_provider_credits st) (ch_provider_id ch) else None)\<rparr>"
proof -
  define sid where "sid = (case ov of Some s \<Rightarrow> s | None \<Rightarrow> ''asc_'' @ uuid)"
  obtain ch amount st1 st2 where ch: "aget (es_active_channels st) cid = Some ch" "ch_status ch = Open"
    and amount: "checked_add (client_free (ch_balance ch)) (provider_earned (ch_balance ch)) = Some amount"
    and st1: "close_release (ch_client ch) (client_free (ch_balance ch)) amount
        (st\<lparr>es_active_channels := adel cid (es_active_channels st)\<rparr>) = (Inr (), st1)"
    and st2: "close_credit_provider (ch_provider_id ch) (provider_earned (ch_balance ch)) sid now st1
        = (Inr (), st')"
    and out: "out = \<lparr>co_client = ch_client ch, co_provider_id = ch_provider_id ch,
      co_returned_to_client = client_free (ch_balance ch),
      co_provider_earned = provider_earned (ch_balance ch),
      co_settlement_id = (if provider_earned (ch_balance ch) > 0 then Some sid else None),
      co_closed_channel = ch,
      co_previous_provider_credit = (if provider_earned (ch_balance ch) > 0
        then aget (es_provider_credits st) (ch_provider_id ch) else None)\<rparr>"
    using assms unfolding close_channel_with_settlement_id_def Let_def result_simps remove_channel_def
      sid_def [symmetric]
    by auto
  have st1': "st1 = st\<lparr>es_active_channels := adel cid (es_active_channels st),
      es_client_balances := es_client_balances st1\<rparr>"
    "close_balances ch (es_client_balances st) (es_client_balances st1)"
    using st1 amount by (auto simp: close_release_ok close_balances_def split: if_splits)
  have "st' = st1\<lparr>es_provider_credits := es_provider_credits st'\<rparr>"
    "close_credits ch sid now st1 (es_provider_credits st')"
    using st2 by (auto simp: close_credit_provider_ok close_credits_def Let_def split: if_splits)
  moreover have "close_credits ch sid now st1 cs = close_credits ch sid now st cs" for cs
    by (subst st1'(1)) (simp add: close_credits_def credit_or_new_def)
  ultimately show thesis
    using st1' by (intro that [OF sid_def ch st1'(2) _ _ out]) (auto intro: trans)
qed

text \<open>An operation on a request that returns an error has not changed the state.\<close>
lemma submit_request_err: "submit_request cid rid a h now st = (Inl (Err e), st') \<Longrightarrow> st' = st"
  by (auto simp: submit_request_def asc_defs state_op_defs Let_def split: option.splits if_splits)

lemma deliver_adaptor_err:
  "deliver_adaptor C sha256 cid tb pre enc rh pk now st = (Inl (Err e), st') \<Longrightarrow> st' = st"
  by (auto simp: deliver_adaptor_def asc_defs state_op_defs Let_def split: option.splits if_splits)

lemma finalize_with_secret_err:
  "finalize_with_secret C sha256 cid t ov now st = (Inl (Err e), st') \<Longrightarrow> st' = st"
  by (auto simp: finalize_with_secret_def asc_defs state_op_defs Let_def split: option.splits if_splits)

lemma expire_request_err: "expire_request cid now st = (Inl (Err e), st') \<Longrightarrow> st' = st"
  by (auto simp: expire_request_def asc_defs state_op_defs Let_def split: option.splits if_splits)

lemma open_channel_with_id_err:
  "open_channel_with_id cid c p a now st = (Inl (Err e), st') \<Longrightarrow> st' = st"
  by (auto simp: open_channel_with_id_def reserve_balance_def asc_defs state_op_defs Let_def
      split: option.splits if_splits)

section \<open>Invariant of a channel\<close>

text \<open>The locked part of a channel is the amount of its active request; a channel is pending exactly
  when the provider's verified pre-signature is stored.\<close>
definition request_locked :: "ChannelState \<Rightarrow> bool" where
  "request_locked ch = (case ch_active_request ch of
      None \<Rightarrow> False
    | Some r \<Rightarrow> client_locked (ch_balance ch) = cr_amount r \<and>
        cr_request_id r \<in> ch_used_request_ids ch)"

definition request_undelivered :: "ChannelState \<Rightarrow> bool" where
  "request_undelivered ch = (case ch_active_request ch of
      None \<Rightarrow> False
    | Some r \<Rightarrow> cr_provider_pubkey r = None \<and> cr_adaptor_point r = None \<and>
        cr_provider_pre_sig r = None \<and> cr_encrypted_result r = None \<and> cr_result_hash r = None)"

definition request_delivered ::
  "('p::ab_group_add, 's::comm_ring_1) curve \<Rightarrow> (bytes \<Rightarrow> bytes) \<Rightarrow> ChannelState \<Rightarrow> bool" where
  "request_delivered C sha256 ch = (case ch_active_request ch of
      None \<Rightarrow> False
    | Some r \<Rightarrow>
        (case (cr_provider_pubkey r, cr_adaptor_point r, cr_provider_pre_sig r) of
           (Some pk, Some tb, Some pre) \<Rightarrow>
             cr_encrypted_result r \<noteq> None \<and> cr_result_hash r \<noteq> None \<and>
             (case decompress C tb of None \<Rightarrow> False
              | Some T \<Rightarrow> pre_verify C pk (build_payment_message sha256 (ch_channel_id ch)
                  (cr_request_id r) (cr_amount r) (cr_request_hash r)) T pre)
         | _ \<Rightarrow> False))"

lemma request_deliveredE:
  assumes "request_delivered C sha256 ch" "ch_active_request ch = Some r"
  obtains pk tb pre T enc h where "cr_provider_pubkey r = Some pk" "cr_adaptor_point r = Some tb"
    "cr_provider_pre_sig r = Some pre" "decompress C tb = Some T"
    "cr_encrypted_result r = Some enc" "cr_result_hash r = Some h"
    "pre_verify C pk (build_payment_message sha256 (ch_channel_id ch) (cr_request_id r)
      (cr_amount r) (cr_request_hash r)) T pre"
proof -
  obtain pk tb pre where r: "cr_provider_pubkey r = Some pk" "cr_adaptor_point r = Some tb"
    "cr_provider_pre_sig r = Some pre"
    using assms by (auto simp: request_delivered_def split: option.splits prod.splits)
  then obtain T where "decompress C tb = Some T"
    using assms by (auto simp: request_delivered_def split: option.splits)
  with r assms show thesis
    by (auto simp: request_delivered_def intro: that)
qed

definition channel_wf ::
  "('p::ab_group_add, 's::comm_ring_1) curve \<Rightarrow> (bytes \<Rightarrow> bytes) \<Rightarrow> string \<Rightarrow> ChannelState \<Rightarrow> bool" where
  "channel_wf C sha256 cid ch \<longleftrightarrow>
    ch_channel_id ch = cid \<and> channel_total ch < 2 ^ 64 \<and>
    (case ch_status ch of
       Open \<Rightarrow> ch_active_request ch = None \<and> client_locked (ch_balance ch) = 0
     | Locked \<Rightarrow> request_locked ch \<and> request_undelivered ch
     | Pending \<Rightarrow> request_locked ch \<and> request_delivered C sha256 ch
     | Closed \<Rightarrow> False)"

text \<open>What every operation on a request keeps: whose channel it is, the money in it, the identifiers
  it has used, and what the provider has earned.\<close>
definition channel_evolves :: "ChannelState \<Rightarrow> ChannelState \<Rightarrow> bool" where
  "channel_evolves ch ch' \<longleftrightarrow>
    ch_client ch' = ch_client ch \<and> ch_provider_id ch' = ch_provider_id ch \<and>
    channel_total ch' = channel_total ch \<and>
    ch_used_request_ids ch \<subseteq> ch_used_request_ids ch' \<and>
    provider_earned (ch_balance ch) \<le> provider_earned (ch_balance ch')"

lemma submit_request_channel:
  assumes "submit_request cid rid a h now st = (Inr u, st')"
    and "\<And>ch. aget (es_active_channels st) cid = Some ch \<Longrightarrow> channel_wf C sha256 cid ch"
  obtains ch ch' where "aget (es_active_channels st) cid = Some ch" "st' = set_channel cid ch' st"
    "channel_wf C sha256 cid ch'" "channel_evolves ch ch'"
    "rid \<notin> ch_used_request_ids ch" "rid \<in> ch_used_request_ids ch'"
proof -
  obtain ch locked nonce where ch: "aget (es_active_channels st) cid = Some ch" "ch_status ch = Open"
      "rid \<notin> ch_used_request_ids ch" "a \<le> client_free (ch_balance ch)"
      "checked_add (client_locked (ch_balance ch)) a = Some locked"
    and st': "st' = set_channel cid (ch\<lparr>
        ch_balance := (ch_balance ch)\<lparr>client_free := client_free (ch_balance ch) - a,
          client_locked := locked\<rparr>,
        ch_status := Locked, ch_nonce := nonce, ch_updated_at := now,
        ch_used_request_ids := insert rid (ch_used_request_ids ch),
        ch_active_request := Some
          \<lparr>cr_request_id = rid, cr_amount = a, cr_request_hash = h, cr_provider_pubkey = None,
           cr_adaptor_point = None, cr_provider_pre_sig = None, cr_encrypted_result = None,
           cr_result_hash = None, cr_created_at = now,
           cr_expires_at = now + REQUEST_EXPIRY_SEC\<rparr>\<rparr>) st"
    using assms(1) unfolding submit_request_ok by blast
  have wf: "channel_wf C sha256 cid ch" by (rule assms(2) [OF ch(1)])
  show thesis
    using wf ch by (intro that [OF ch(1) st'])
      (auto simp: channel_wf_def channel_evolves_def channel_total_def request_locked_def
        request_undelivered_def unat_sub_le word_le_nat_alt)
qed

lemma deliver_adaptor_channel:
  assumes "deliver_adaptor C sha256 cid tb pre enc rh pk now st = (Inr u, st')"
    and "\<And>ch. aget (es_active_channels st) cid = Some ch \<Longrightarrow> channel_wf C sha256 cid ch"
  obtains ch ch' where "aget (es_active_channels st) cid = Some ch" "st' = set_channel cid ch' st"
    "channel_wf C sha256 cid ch'" "channel_evolves ch ch'"
proof -
  obtain ch r T nonce where ch: "aget (es_active_channels st) cid = Some ch" "ch_status ch = Locked"
      "ch_active_request ch = Some r" "decompress C tb = Some T"
      "pre_verify C pk (build_payment_message sha256 (ch_channel_id ch) (cr_request_id r)
        (cr_amount r) (cr_request_hash r)) T pre"
    and st': "st' = set_channel cid (ch\<lparr>ch_active_request := Some (r\<lparr>cr_provider_pubkey := Some pk,
          cr_adaptor_point := Some tb, cr_provider_pre_sig := Some pre,
          cr_encrypted_result := Some enc, cr_result_hash := Some rh\<rparr>),
        ch_status := Pending, ch_nonce := nonce, ch_updated_at := now\<rparr>) st"
    using assms(1) unfolding deliver_adaptor_ok by blast
  have wf: "channel_wf C sha256 cid ch" by (rule assms(2) [OF ch(1)])
  show thesis
    using wf ch by (intro that [OF ch(1) st'])
      (auto simp: channel_wf_def channel_evolves_def channel_total_def request_locked_def
        request_delivered_def)
qed

lemma finalize_with_secret_channel:
  assumes "finalize_with_secret C sha256 cid t ov now st = (Inr out, st')"
    and "\<And>ch. aget (es_active_channels st) cid = Some ch \<Longrightarrow> channel_wf C sha256 cid ch"
  obtains ch ch' where "aget (es_active_channels st) cid = Some ch" "st' = set_channel cid ch' st"
    "channel_wf C sha256 cid ch'" "channel_evolves ch ch'"
proof -
  obtain ch r locked earned nonce where ch: "aget (es_active_channels st) cid = Some ch"
      "ch_status ch = Pending" "ch_active_request ch = Some r"
      "checked_sub (client_locked (ch_balance ch)) (cr_amount r) = Some locked"
      "checked_add (provider_earned (ch_balance ch)) (cr_amount r) = Some earned"
    and st': "st' = set_channel cid (ch\<lparr>ch_balance := (ch_balance ch)\<lparr>client_locked := locked,
          provider_earned := earned\<rparr>, ch_status := Open, ch_active_request := None,
        ch_nonce := nonce, ch_updated_at := now\<rparr>) st"
    using assms(1) unfolding finalize_with_secret_ok by blast
  have wf: "channel_wf C sha256 cid ch" by (rule assms(2) [OF ch(1)])
  then have "locked = 0" and lk: "client_locked (ch_balance ch) = cr_amount r"
    using ch by (simp_all add: channel_wf_def request_locked_def checked_sub_def split: if_splits)
  then show thesis
    using wf ch unat_checked_add [OF ch(5)] checked_add_le [OF ch(5)] by (intro that [OF ch(1) st'])
      (auto simp: channel_wf_def channel_evolves_def channel_total_def)
qed

lemma expire_request_channel:
  assumes "expire_request cid now st = (Inr (Some out), st')"
    and "\<And>ch. aget (es_active_channels st) cid = Some ch \<Longrightarrow> channel_wf C sha256 cid ch"
  obtains ch ch' where "aget (es_active_channels st) cid = Some ch" "st' = set_channel cid ch' st"
    "channel_wf C sha256 cid ch'" "channel_evolves ch ch'"
    "eo_client out = ch_client ch" "eo_channel_id out = cid"
proof -
  obtain ch r free nonce where ch: "aget (es_active_channels st) cid = Some ch"
      "ch_active_request ch = Some r" "ch_status ch = Locked \<or> ch_status ch = Pending"
      "checked_add (client_free (ch_balance ch)) (cr_amount r) = Some free"
      "out = \<lparr>eo_channel_id = ch_channel_id ch, eo_client = ch_client ch,
        eo_previous_status = ch_status ch, eo_request = r\<rparr>"
    and st': "st' = set_channel cid (ch\<lparr>ch_balance := (ch_balance ch)\<lparr>
          client_locked := saturating_sub (client_locked (ch_balance ch)) (cr_amount r),
          client_free := free\<rparr>, ch_status := Open, ch_active_request := None,
        ch_nonce := nonce, ch_updated_at := now\<rparr>) st"
    using assms(1) unfolding expire_request_some by blast
  have wf: "channel_wf C sha256 cid ch" by (rule assms(2) [OF ch(1)])
  then have lk: "client_locked (ch_balance ch) = cr_amount r"
    using ch by (auto simp: channel_wf_def request_locked_def)
  then show thesis
    using wf ch unat_checked_add [OF ch(4)] by (intro that [OF ch(1) st'])
      (auto simp: channel_wf_def channel_evolves_def channel_total_def saturating_sub_def)
qed

end
