(* ===== verification/Wal.thy ===== *)
theory Wal
  imports Enclave_State
begin

text \<open>
  The write-ahead log (\<^verbatim>\<open>src/enclave/src/wal.rs\<close>): its entries, its two backends and the sequence
  numbers.  Replay is in \<open>Wal_Replay\<close>.

  Keys and hashes stand for their textual encodings, and the encryption of a record is left out: a
  stored record is the record.  Whether a write reaches the storage is an argument.
\<close>

section \<open>Entries\<close>

datatype WalEntry =
    DepositApplied pubkey u64 u64 string
      \<comment> \<open>client, amount, slot, signature of the transaction\<close>
  | WithdrawAuthorized PendingWithdrawal
  | WithdrawApplied pubkey pubkey u64 u64 int u64 string
      \<comment> \<open>client, recipient, amount, nonce, expiry, slot, signature of the transaction\<close>
  | WithdrawExpired pubkey u64
  | ReservationCreated string "string option" string pubkey string u64 "bytes option"
      "bytes option" "int option" "int option"
      \<comment> \<open>verification, reservation, payment, client, provider, amount, request hash, details hash,
        creation, expiry\<close>
  | ReservationCancelled string string
  | ReservationExpired string
  | SettlementCommitted string string string u64 "int option"
      \<comment> \<open>settlement, verification, provider, amount, time\<close>
  | ParticipantReceiptIssued pubkey u8 u64
  | ParticipantReceiptMirrored pubkey u8 u64
  | ProviderRegistered ProviderRegistration
  | ClientBalanceSeeded pubkey ClientBalance
  | BatchSubmitted u64 nat u64
  | BatchConfirmed u64 string "string list"
  | ChannelOpened string pubkey string u64
  | ChannelRequestSubmitted string string u64 "bytes option"
  | ChannelRequestExpired string string u64
  | ChannelAdaptorDelivered string string "bytes option" "bytes option" "bytes option"
      "bytes option" "bytes option" "bytes option"
      \<comment> \<open>channel, request, adaptor point, R', s', encrypted result, result hash, provider key\<close>
  | ChannelFinalized string string u64
  | ChannelClosed string u64 u64 "string option"

record WalRecord =
  wr_seqno :: u64
  wr_timestamp :: int
  wr_entry :: WalEntry

section \<open>Backends\<close>

text \<open>A local file is appended to.  In the snapshot store a record is an object whose key is its
  sequence number, written with twenty digits.\<close>
datatype WalBackend =
    LocalFile "WalRecord list"
  | SnapshotStore "(u64, WalRecord) amap"

record Wal =
  wal_backend :: WalBackend
  wal_seqno :: u64

text \<open>\<open>list_ok\<close>: whether listing the objects of the store succeeds.\<close>
definition new_with_backend :: "bool \<Rightarrow> WalBackend \<Rightarrow> Wal" where
  "new_with_backend list_ok backend =
    \<lparr>wal_backend = backend,
     wal_seqno = (case backend of
         LocalFile records \<Rightarrow> of_nat (length records)
       | SnapshotStore objects \<Rightarrow> if list_ok then of_nat (length objects) else 0)\<rparr>"

text \<open>The sequence number is taken before the write, and is not given back when the write fails.\<close>
definition append_entry :: "bool \<Rightarrow> int \<Rightarrow> WalEntry \<Rightarrow> Wal \<Rightarrow> u64 option \<times> Wal" where
  "append_entry io_ok now entry w =
    (let seqno = wal_seqno w;
         w1 = w\<lparr>wal_seqno := seqno + 1\<rparr>;
         record = \<lparr>wr_seqno = seqno, wr_timestamp = now, wr_entry = entry\<rparr>
     in if io_ok
        then (Some seqno, w1\<lparr>wal_backend := (case wal_backend w of
                LocalFile records \<Rightarrow> LocalFile (records @ [record])
              | SnapshotStore objects \<Rightarrow> SnapshotStore (aput seqno record objects))\<rparr>)
        else (None, w1))"

definition read_records :: "Wal \<Rightarrow> WalRecord list" where
  "read_records w = sort_key wr_seqno (case wal_backend w of
      LocalFile records \<Rightarrow> records
    | SnapshotStore objects \<Rightarrow> avals objects)"

definition read_records_after :: "u64 option \<Rightarrow> Wal \<Rightarrow> WalRecord list" where
  "read_records_after min_exclusive w =
    (case min_exclusive of
       None \<Rightarrow> read_records w
     | Some m \<Rightarrow> filter (\<lambda>r. wr_seqno r > m) (read_records w))"

definition last_seqno :: "Wal \<Rightarrow> u64 option" where
  "last_seqno w = checked_sub (wal_seqno w) 1"

section \<open>Lemmas\<close>

text \<open>The stored records in the order they were written, with every number below the counter.\<close>
definition wal_stored :: "Wal \<Rightarrow> WalRecord list" where
  "wal_stored w = (case wal_backend w of LocalFile records \<Rightarrow> records | SnapshotStore objects \<Rightarrow> avals objects)"

definition wal_wf :: "Wal \<Rightarrow> bool" where
  "wal_wf w \<longleftrightarrow>
    sorted_wrt (<) (map wr_seqno (wal_stored w)) \<and>
    (\<forall>r\<in>set (wal_stored w). wr_seqno r < wal_seqno w) \<and>
    (case wal_backend w of LocalFile _ \<Rightarrow> True
     | SnapshotStore objects \<Rightarrow> map fst objects = map wr_seqno (avals objects))"

lemma read_records_wf: "wal_wf w \<Longrightarrow> read_records w = wal_stored w"
  by (auto simp: wal_wf_def read_records_def wal_stored_def sorted_wrt_map
      intro!: sort_key_id_if_sorted sorted_wrt_mono_rel [of _ "\<lambda>x y. wr_seqno x < wr_seqno y"]
      split: WalBackend.splits)

lemma aput_fresh: "aget m k = None \<Longrightarrow> aput k v m = m @ [(k, v)]"
  by (induction m) (auto split: if_splits)

lemma less_succ_word: "w \<noteq> - 1 \<Longrightarrow> w < w + 1" for w :: "('a::len) word"
  using unatSuc [of w] by (simp add: word_less_nat_alt add.commute eq_neg_iff_add_eq_0)

lemma aget_None_keys: "aget m k = None \<longleftrightarrow> k \<notin> set (map fst m)"
  by (induction m) auto

lemma append_entry_stored:
  assumes "wal_wf w" "wal_seqno w \<noteq> - 1" "append_entry io_ok now e w = (r, w')"
  shows "wal_wf w' \<and> wal_seqno w' = wal_seqno w + 1 \<and>
    r = (if io_ok then Some (wal_seqno w) else None) \<and>
    wal_stored w' = wal_stored w @
      (if io_ok then [\<lparr>wr_seqno = wal_seqno w, wr_timestamp = now, wr_entry = e\<rparr>] else [])"
proof -
  have below: "\<forall>r\<in>set (wal_stored w). wr_seqno r < wal_seqno w + 1"
    using assms(1) less_succ_word [OF assms(2)] by (auto simp: wal_wf_def intro: order.strict_trans)
  show ?thesis
  proof (cases "wal_backend w")
    case (LocalFile records)
    then show ?thesis
      using assms less_succ_word [OF assms(2)] below
      by (auto simp: wal_wf_def wal_stored_def append_entry_def Let_def sorted_wrt_append)
  next
    case (SnapshotStore objects)
    then have "aget objects (wal_seqno w) = None"
      using assms(1) by (auto simp: wal_wf_def wal_stored_def aget_None_keys)
    then show ?thesis
      using assms less_succ_word [OF assms(2)] SnapshotStore below
      by (auto simp: wal_wf_def wal_stored_def append_entry_def Let_def sorted_wrt_append aput_fresh
          avals_def) fastforce+
  qed
qed

text \<open>A sequence of attempts to append: whether the write succeeds, the time and the entry.\<close>
fun append_all :: "(bool \<times> int \<times> WalEntry) list \<Rightarrow> Wal \<Rightarrow> Wal" where
  "append_all [] w = w"
| "append_all ((io_ok, now, e) # es) w = append_all es (snd (append_entry io_ok now e w))"

lemma append_all_stored:
  assumes "wal_wf w" "unat (wal_seqno w) + length es < 2 ^ 64"
  shows "wal_wf (append_all es w) \<and>
    map wr_entry (wal_stored (append_all es w)) =
      map wr_entry (wal_stored w) @ map (snd \<circ> snd) (filter fst es)"
  using assms
proof (induction es arbitrary: w)
  case (Cons a es)
  obtain io_ok now e where a: "a = (io_ok, now, e)" by (cases a)
  obtain r w' where w': "append_entry io_ok now e w = (r, w')" by fastforce
  have ne: "wal_seqno w \<noteq> - 1"
    using Cons.prems(2) by (auto simp: unsigned_minus_1_eq_mask mask_eq_exp_minus_1)
  then have "unat (wal_seqno w + 1) = Suc (unat (wal_seqno w))"
    using unatSuc [of "wal_seqno w"] by (simp add: add.commute eq_neg_iff_add_eq_0)
  then show ?case
    using append_entry_stored [OF Cons.prems(1) ne w'] Cons.IH [of w'] Cons.prems(2)
    by (auto simp: a w')
qed simp

section \<open>Properties\<close>

text \<open>What the log reads back is what was written to it: after any sequence of attempts to append
  to an empty log, with any of the writes failing, on either backend, the records read are those
  whose write succeeded, in the order of the attempts.\<close>
theorem wal_reads_back:
  assumes "backend = LocalFile [] \<or> backend = SnapshotStore []" "length attempts < 2 ^ 64"
  shows "map wr_entry (read_records (append_all attempts (new_with_backend True backend))) =
    map (snd \<circ> snd) (filter fst attempts)"
proof -
  have "wal_wf (new_with_backend True backend)" "wal_stored (new_with_backend True backend) = []"
    "wal_seqno (new_with_backend True backend) = 0"
    using assms(1) by (auto simp: wal_wf_def new_with_backend_def wal_stored_def avals_def)
  then show ?thesis
    using append_all_stored [of "new_with_backend True backend" attempts] assms(2)
    by (simp add: read_records_wf)
qed


text \<open>The hypotheses of the property on reading back hold of a log with a failed write.\<close>
theorem wal_reads_back_witness:
  "map wr_entry (read_records (append_all
      [(True, 5, ReservationExpired ''v1''), (False, 6, ReservationExpired ''v2''),
       (True, 7, WithdrawExpired [] 3)] (new_with_backend True (SnapshotStore [])))) =
    [ReservationExpired ''v1'', WithdrawExpired [] 3]"
  using wal_reads_back [of "SnapshotStore []" "[(True, 5, ReservationExpired ''v1''),
    (False, 6, ReservationExpired ''v2''), (True, 7, WithdrawExpired [] 3)]"]
  by simp

end
