(* ===== verification/Enclave_Handlers.thy ===== *)
theory Enclave_Handlers
  imports Asc_Manager Wal
begin

text \<open>
  The parts of the request handlers that run under the persistence lock
  (\<^verbatim>\<open>src/enclave/src/handlers.rs\<close>, \<^verbatim>\<open>src/enclave/src/deposit_detector.rs\<close> and the confirmation of a
  chunk in \<^verbatim>\<open>src/enclave/src/batch.rs\<close>).  Each is one definition: it changes the balances, appends
  to the log, rolls back when the append fails, and issues receipts.  The lock makes each of them
  atomic, so a history of the enclave is a sequence of them.

  Whether a write to the log or a call of the watchtower succeeds is decided by the outcomes in
  \<open>app_io\<close>, one for each call; once they are used up, calls succeed.  The clock and the fresh
  identifiers are arguments.  Parsing a request, checking its signatures and authenticating its
  sender happen before the lock is taken; what they establish appears as the arguments here.
\<close>

section \<open>The application state\<close>

record App =
  app_vault :: VaultState
  app_wal :: Wal
  app_io :: "bool list"
  app_processed :: "string set"
  app_last_signature :: "string option"

type_synonym 'a app = "(App, 'a) stm"

definition in_vault :: "'a est \<Rightarrow> 'a app" where
  "in_vault m app = (let (r, v) = m (app_vault app) in (r, app\<lparr>app_vault := v\<rparr>))"

text \<open>The outcome of the next call outside the enclave.\<close>
definition next_io :: "bool app" where
  "next_io app = (case app_io app of [] \<Rightarrow> (Inr True, app) | b # bs \<Rightarrow> (Inr b, app\<lparr>app_io := bs\<rparr>))"

definition wal_append :: "int \<Rightarrow> WalEntry \<Rightarrow> bool app" where
  "wal_append now entry =
    sbind next_io (\<lambda>ok.
    sbind (smodify (\<lambda>app. app\<lparr>app_wal := snd (append_entry ok now entry (app_wal app))\<rparr>)) (\<lambda>_.
    sret ok))"

definition wal_error :: fault where
  "wal_error = Err (Internal ''WAL append failed'')"

text \<open>\<^verbatim>\<open>wal.append(...).await.map_err(...)?\<close>\<close>
definition wal_append_or_fail :: "int \<Rightarrow> WalEntry \<Rightarrow> unit app" where
  "wal_append_or_fail now entry =
    sbind (wal_append now entry) (\<lambda>ok. if ok then sret () else sfail wal_error)"

text \<open>An append whose failure is answered by a rollback.\<close>
definition wal_append_or_rollback :: "int \<Rightarrow> WalEntry \<Rightarrow> 'a est \<Rightarrow> unit app" where
  "wal_append_or_rollback now entry rollback =
    sbind (wal_append now entry) (\<lambda>ok.
    if ok then sret () else sbind (sattempt (in_vault rollback)) (\<lambda>_. sfail wal_error))"

section \<open>Receipts\<close>

definition PARTICIPANT_KIND_CLIENT :: u8 where "PARTICIPANT_KIND_CLIENT = 0"

definition PARTICIPANT_KIND_PROVIDER :: u8 where "PARTICIPANT_KIND_PROVIDER = 1"

text \<open>The enclave's surroundings: the vault signer's signatures and the addresses of associated token
  accounts.\<close>
record enclave_env =
  ee_sign :: "bytes \<Rightarrow> bytes"
  ee_ata :: "pubkey \<Rightarrow> pubkey \<Rightarrow> pubkey"

record ReceiptResponse =
  rr_participant :: pubkey
  rr_participant_kind :: u8
  rr_recipient_ata :: pubkey
  rr_free_balance :: u64
  rr_locked_balance :: u64
  rr_max_lock_expires_at :: int
  rr_nonce :: u64
  rr_timestamp :: int
  rr_snapshot_seqno :: u64
  rr_vault_config :: pubkey
  rr_signature :: bytes
  rr_message :: bytes

definition issue_participant_receipt_locked ::
  "enclave_env \<Rightarrow> pubkey \<Rightarrow> u8 \<Rightarrow> pubkey \<Rightarrow> u64 \<Rightarrow> u64 \<Rightarrow> int \<Rightarrow> int \<Rightarrow> ReceiptResponse app" where
  "issue_participant_receipt_locked env participant kind recipient_ata free_balance locked_balance
      max_lock_expires_at now =
    sbind (in_vault next_receipt_nonce) (\<lambda>nonce.
    sbind (sget app_vault) (\<lambda>v.
    let message = build_participant_receipt_message (es_vault_config v) participant kind
          recipient_ata free_balance locked_balance (word_of_int max_lock_expires_at) nonce
          (word_of_int now) (es_snapshot_seqno v);
        receipt = \<lparr>rr_participant = participant, rr_participant_kind = kind,
          rr_recipient_ata = recipient_ata, rr_free_balance = free_balance,
          rr_locked_balance = locked_balance, rr_max_lock_expires_at = max_lock_expires_at,
          rr_nonce = nonce, rr_timestamp = now, rr_snapshot_seqno = es_snapshot_seqno v,
          rr_vault_config = es_vault_config v, rr_signature = ee_sign env message,
          rr_message = message\<rparr> in
    sbind (wal_append_or_fail now (ParticipantReceiptIssued participant kind nonce)) (\<lambda>_.
    sbind next_io (\<lambda>mirrored.
    srequire mirrored ReceiptWatchtowerUnavailable (
    sbind (wal_append_or_fail now (ParticipantReceiptMirrored participant kind nonce)) (\<lambda>_.
    sret receipt))))))"

definition issue_client_receipt_locked :: "enclave_env \<Rightarrow> pubkey \<Rightarrow> int \<Rightarrow> ReceiptResponse app" where
  "issue_client_receipt_locked env client now =
    sbind (sget (es_usdc_mint \<circ> app_vault)) (\<lambda>mint.
    sbind (in_vault (get_balance client ClientNotFound)) (\<lambda>balance.
    issue_participant_receipt_locked env client PARTICIPANT_KIND_CLIENT (ee_ata env client mint)
      (cb_free balance) (cb_locked balance) (cb_max_lock_expires_at balance) now))"

definition issue_provider_receipt_locked :: "enclave_env \<Rightarrow> string \<Rightarrow> int \<Rightarrow> ReceiptResponse app" where
  "issue_provider_receipt_locked env provider_id now =
    sbind (sfind (\<lambda>app. aget (es_providers (app_vault app)) provider_id) ProviderNotFound) (\<lambda>provider.
    let participant = (case rg_participant_pubkey provider of
          Some k \<Rightarrow> k | None \<Rightarrow> rg_settlement_token_account provider) in
    sbind (sget (\<lambda>app. case aget (es_provider_credits (app_vault app)) provider_id of
        None \<Rightarrow> 0 | Some credit \<Rightarrow> pc_credited_amount credit)) (\<lambda>free_balance.
    issue_participant_receipt_locked env participant PARTICIPANT_KIND_PROVIDER
      (rg_settlement_token_account provider) free_balance 0 0 now))"

text \<open>\<^verbatim>\<open>refresh_client_max_lock_expires_at(..)?\<close> followed by the client's receipt.\<close>
definition refresh_and_issue :: "enclave_env \<Rightarrow> pubkey \<Rightarrow> int \<Rightarrow> unit app" where
  "refresh_and_issue env client now =
    sbind (in_vault (refresh_client_max_lock_expires_at client)) (\<lambda>_.
    sbind (issue_client_receipt_locked env client now) (\<lambda>_. sret ()))"

section \<open>Deposits and withdrawals\<close>

record DepositEvent =
  de_signature :: string
  de_client :: pubkey
  de_amount :: u64
  de_slot :: u64

record WithdrawEvent =
  we_signature :: string
  we_client :: pubkey
  we_recipient_ata :: pubkey
  we_amount :: u64
  we_withdraw_nonce :: u64
  we_expires_at :: int
  we_slot :: u64

definition mark_processed :: "string \<Rightarrow> u64 \<Rightarrow> unit app" where
  "mark_processed signature slot = smodify (\<lambda>app. app\<lparr>
    app_processed := insert signature (app_processed app),
    app_last_signature := Some signature,
    app_vault := (app_vault app)\<lparr>es_last_finalized_slot := slot\<rparr>\<rparr>)"

definition detector_apply_deposit :: "enclave_env \<Rightarrow> DepositEvent \<Rightarrow> int \<Rightarrow> unit app" where
  "detector_apply_deposit env d now =
    sbind (sget (\<lambda>app. de_signature d \<in> app_processed app)) (\<lambda>processed.
    if processed then sret () else
    sbind (in_vault (apply_deposit (de_client d) (de_amount d))) (\<lambda>_.
    sbind (wal_append_or_rollback now
      (DepositApplied (de_client d) (de_amount d) (de_slot d) (de_signature d))
      (rollback_deposit (de_client d) (de_amount d))) (\<lambda>_.
    sbind (mark_processed (de_signature d) (de_slot d)) (\<lambda>_.
    sbind (issue_client_receipt_locked env (de_client d) now) (\<lambda>_. sret ())))))"

definition detector_apply_withdrawal :: "enclave_env \<Rightarrow> WithdrawEvent \<Rightarrow> int \<Rightarrow> unit app" where
  "detector_apply_withdrawal env w now =
    sbind (sget (\<lambda>app. we_signature w \<in> app_processed app)) (\<lambda>processed.
    if processed then sret () else
    sbind (in_vault (apply_withdrawal (we_withdraw_nonce w))) (\<lambda>applied.
    srequire (pw_client applied = we_client w \<and> pw_recipient_ata applied = we_recipient_ata w \<and>
        pw_amount applied = we_amount w \<and> pw_expires_at applied = we_expires_at w)
      (Internal ''withdraw event mismatch'') (
    sbind (wal_append_or_rollback now
      (WithdrawApplied (we_client w) (we_recipient_ata w) (we_amount w) (we_withdraw_nonce w)
        (we_expires_at w) (we_slot w) (we_signature w))
      (rollback_applied_withdrawal applied)) (\<lambda>_.
    sbind (mark_processed (we_signature w) (we_slot w)) (\<lambda>_.
    refresh_and_issue env (we_client w) now)))))"

definition withdraw_auth_section ::
  "enclave_env \<Rightarrow> pubkey \<Rightarrow> pubkey \<Rightarrow> u64 \<Rightarrow> int \<Rightarrow> (u64 \<times> int \<times> bytes \<times> bytes) app" where
  "withdraw_auth_section env client recipient_ata amount now =
    sbind (in_vault next_withdraw_nonce) (\<lambda>withdraw_nonce.
    let expires_at = now + 300 in
    sbind (sget (\<lambda>app. build_withdraw_authorization_message (es_vault_config (app_vault app)) client
      recipient_ata amount withdraw_nonce (word_of_int expires_at))) (\<lambda>message.
    let signature = ee_sign env message;
        withdrawal = \<lparr>pw_client = client, pw_recipient_ata = recipient_ata, pw_amount = amount,
          pw_withdraw_nonce = withdraw_nonce, pw_issued_at = now, pw_expires_at = expires_at\<rparr> in
    sbind (in_vault (authorize_withdrawal withdrawal)) (\<lambda>_.
    sbind (wal_append_or_rollback now (WithdrawAuthorized withdrawal)
      (rollback_authorized_withdrawal withdraw_nonce)) (\<lambda>_.
    sbind (refresh_and_issue env client now) (\<lambda>_.
    sret (withdraw_nonce, expires_at, signature, message))))))"

definition expire_pending_withdrawal_section :: "enclave_env \<Rightarrow> u64 \<Rightarrow> int \<Rightarrow> bool app" where
  "expire_pending_withdrawal_section env withdraw_nonce now =
    sbind (sget (\<lambda>app. aget (es_pending_withdrawals (app_vault app)) withdraw_nonce)) (\<lambda>found.
    case found of
      None \<Rightarrow> sret False
    | Some withdrawal \<Rightarrow>
        if now \<le> pw_expires_at withdrawal then sret False
        else
          sbind (wal_append_or_fail now (WithdrawExpired (pw_client withdrawal) withdraw_nonce)) (\<lambda>_.
          sbind (in_vault (expire_pending_withdrawal withdraw_nonce)) (\<lambda>expired.
          sbind (refresh_and_issue env (pw_client expired) now) (\<lambda>_. sret True))))"

section \<open>Payments\<close>

definition put_reservation :: "string \<Rightarrow> Reservation \<Rightarrow> unit est" where
  "put_reservation verification_id r = smodify (\<lambda>st. st\<lparr>es_reservations :=
    aput verification_id r (es_reservations st)\<rparr>)"

definition get_reservation :: "string \<Rightarrow> Reservation est" where
  "get_reservation verification_id =
    sfind (\<lambda>st. aget (es_reservations st) verification_id) ReservationNotFound"

fun debug_reservation_status :: "ReservationStatus \<Rightarrow> string" where
  "debug_reservation_status Reserved = ''Reserved''"
| "debug_reservation_status SettledOffchain = ''SettledOffchain''"
| "debug_reservation_status Cancelled = ''Cancelled''"
| "debug_reservation_status Expired = ''Expired''"
| "debug_reservation_status BatchedOnchain = ''BatchedOnchain''"

text \<open>The reservation of a verified payment (the block of \<^verbatim>\<open>post_verify\<close> under the lock).\<close>
definition verify_section :: "enclave_env \<Rightarrow> Reservation \<Rightarrow> int \<Rightarrow> unit app" where
  "verify_section env r now =
    sbind (in_vault (reserve_balance (rv_client r) (rv_amount r))) (\<lambda>_.
    sbind (wal_append_or_rollback now
      (ReservationCreated (rv_verification_id r) (Some (rv_reservation_id r)) (rv_payment_id r)
        (rv_client r) (rv_provider_id r) (rv_amount r) (Some (rv_request_hash r))
        (Some (rv_payment_details_hash r)) (Some (rv_created_at r)) (Some (rv_expires_at r)))
      (release_balance (rv_client r) (rv_amount r))) (\<lambda>_.
    sbind (in_vault (put_reservation (rv_verification_id r) r)) (\<lambda>_.
    sbind (in_vault (smodify (\<lambda>st. st\<lparr>es_payment_id_index :=
      aput (rv_payment_id r) (rv_verification_id r) (es_payment_id_index st)\<rparr>))) (\<lambda>_.
    refresh_and_issue env (rv_client r) now))))"

definition new_reservation ::
  "string \<Rightarrow> string \<Rightarrow> string \<Rightarrow> pubkey \<Rightarrow> string \<Rightarrow> u64 \<Rightarrow> bytes \<Rightarrow> bytes \<Rightarrow> int \<Rightarrow> int \<Rightarrow> Reservation" where
  "new_reservation verification_id reservation_id payment_id client provider_id amount request_hash
      payment_details_hash now expires_at =
    \<lparr>rv_verification_id = verification_id, rv_reservation_id = reservation_id,
     rv_payment_id = payment_id, rv_client = client, rv_provider_id = provider_id,
     rv_amount = amount, rv_request_hash = request_hash,
     rv_payment_details_hash = payment_details_hash, rv_status = Reserved, rv_created_at = now,
     rv_expires_at = expires_at, rv_settlement_id = None, rv_settled_at = None\<rparr>"

definition expire_reserved_reservation_with_lock :: "enclave_env \<Rightarrow> string \<Rightarrow> int \<Rightarrow> bool app" where
  "expire_reserved_reservation_with_lock env verification_id now =
    sbind (in_vault (get_reservation verification_id)) (\<lambda>r.
    if rv_status r \<noteq> Reserved \<or> now \<le> rv_expires_at r then sret False
    else
      sbind (wal_append_or_fail now (WalEntry.ReservationExpired verification_id)) (\<lambda>_.
      sbind (in_vault (put_reservation verification_id (r\<lparr>rv_status := Expired\<rparr>))) (\<lambda>_.
      sbind (in_vault (release_balance (rv_client r) (rv_amount r))) (\<lambda>_.
      sbind (refresh_and_issue env (rv_client r) now) (\<lambda>_. sret True)))))"

datatype SettleDecision =
    Idempotent string int u64
  | Fresh string int u64 ReceiptResponse

text \<open>The block of \<^verbatim>\<open>post_settle\<close> under the lock.\<close>
definition settle_section ::
  "enclave_env \<Rightarrow> string \<Rightarrow> string \<Rightarrow> string \<Rightarrow> int \<Rightarrow> SettleDecision app" where
  "settle_section env verification_id provider_id settlement_id now =
    sbind (in_vault (get_reservation verification_id)) (\<lambda>r.
    case rv_status r of
      SettledOffchain \<Rightarrow>
        sret (Idempotent (case rv_settlement_id r of None \<Rightarrow> [] | Some s \<Rightarrow> s)
          (case rv_settled_at r of None \<Rightarrow> 0 | Some t \<Rightarrow> t) (rv_amount r))
    | Expired \<Rightarrow> sfail (Err EnclaveError.ReservationExpired)
    | Reserved \<Rightarrow>
        if rv_expires_at r < now
        then sbind (expire_reserved_reservation_with_lock env verification_id now) (\<lambda>_.
          sfail (Err EnclaveError.ReservationExpired))
        else
          let client = rv_client r; amount = rv_amount r in
          sbind (in_vault (settle_payment client amount provider_id settlement_id now)) (\<lambda>_.
          sbind (sget (\<lambda>app. case aget (es_providers (app_vault app)) provider_id of
              None \<Rightarrow> replicate 32 0 | Some p \<Rightarrow> rg_settlement_token_account p)) (\<lambda>provider_pubkey.
          sbind (in_vault (smodify (\<lambda>st. st\<lparr>es_settlement_history := aput settlement_id
            \<lparr>sr_settlement_id = settlement_id, sr_client = client, sr_provider = provider_pubkey,
             sr_amount = amount, sr_timestamp = now\<rparr> (es_settlement_history st)\<rparr>))) (\<lambda>_.
          sbind (wal_append_or_rollback now
            (SettlementCommitted settlement_id verification_id provider_id amount (Some now))
            (sbind (smodify (\<lambda>st. st\<lparr>es_settlement_history :=
                adel settlement_id (es_settlement_history st)\<rparr>)) (\<lambda>_.
             rollback_settle_payment client amount provider_id settlement_id))) (\<lambda>_.
          sbind (in_vault (sbind (get_reservation verification_id) (\<lambda>r1.
            put_reservation verification_id (r1\<lparr>rv_status := SettledOffchain,
              rv_settlement_id := Some settlement_id, rv_settled_at := Some now\<rparr>)))) (\<lambda>_.
          sbind (refresh_and_issue env client now) (\<lambda>_.
          sbind (issue_provider_receipt_locked env provider_id now) (\<lambda>receipt.
          sret (Fresh settlement_id now amount receipt))))))))
    | s \<Rightarrow> sfail (Err (InvalidReservationStatus (debug_reservation_status s))))"

text \<open>The block of \<^verbatim>\<open>post_cancel\<close> under the lock.\<close>
definition cancel_section :: "enclave_env \<Rightarrow> string \<Rightarrow> string \<Rightarrow> int \<Rightarrow> unit app" where
  "cancel_section env verification_id reason now =
    sbind (in_vault (get_reservation verification_id)) (\<lambda>r.
    if rv_status r = Cancelled then sret () else
    srequire (rv_status r = Reserved)
      (InvalidReservationStatus (debug_reservation_status (rv_status r))) (
    sbind (in_vault (release_balance (rv_client r) (rv_amount r))) (\<lambda>_.
    sbind (wal_append_or_rollback now (ReservationCancelled verification_id reason)
      (reserve_balance (rv_client r) (rv_amount r))) (\<lambda>_.
    sbind (in_vault (sbind (get_reservation verification_id) (\<lambda>r1.
      put_reservation verification_id (r1\<lparr>rv_status := Cancelled\<rparr>)))) (\<lambda>_.
    refresh_and_issue env (rv_client r) now)))))"

section \<open>Providers and seeded balances\<close>

text \<open>For a registration that carries no credentials but those of its \<^verbatim>\<open>auth_mode\<close>: the handler drops
  others from the registration, but writes them to the log.\<close>
definition register_provider_section :: "ProviderRegistration \<Rightarrow> int \<Rightarrow> unit app" where
  "register_provider_section registration now =
    sbind (sget (\<lambda>app. aget (es_providers (app_vault app)) (rg_provider_id registration))) (\<lambda>known.
    srequire (known = None) ProviderAlreadyRegistered (
    sbind (wal_append_or_fail now (ProviderRegistered registration)) (\<lambda>_.
    in_vault (smodify (\<lambda>st. st\<lparr>es_providers :=
      aput (rg_provider_id registration) registration (es_providers st)\<rparr>)))))"

text \<open>An unknown open provider is registered from the payment it is named in.\<close>
definition open_provider_section :: "ProviderRegistration \<Rightarrow> int \<Rightarrow> unit app" where
  "open_provider_section registration now =
    sbind (sget (\<lambda>app. aget (es_providers (app_vault app)) (rg_provider_id registration))) (\<lambda>known.
    if known \<noteq> None then sret () else
    sbind (wal_append_or_fail now (ProviderRegistered registration)) (\<lambda>_.
    in_vault (smodify (\<lambda>st. st\<lparr>es_providers :=
      aput (rg_provider_id registration) registration (es_providers st)\<rparr>))))"

definition seed_balance_section :: "enclave_env \<Rightarrow> pubkey \<Rightarrow> ClientBalance \<Rightarrow> int \<Rightarrow> unit app" where
  "seed_balance_section env client seeded now =
    sbind (wal_append_or_fail now (ClientBalanceSeeded client seeded)) (\<lambda>_.
    sbind (in_vault (put_balance client seeded)) (\<lambda>_.
    sbind (issue_client_receipt_locked env client now) (\<lambda>_. sret ())))"

section \<open>Channels\<close>

text \<open>\<open>uuid\<close> is the fresh part of the channel identifier.\<close>
definition channel_open_section ::
  "enclave_env \<Rightarrow> string \<Rightarrow> pubkey \<Rightarrow> string \<Rightarrow> u64 \<Rightarrow> int \<Rightarrow> string app" where
  "channel_open_section env uuid client provider_id initial_deposit now =
    sbind (sfind (\<lambda>app. aget (es_providers (app_vault app)) provider_id) ProviderNotFound) (\<lambda>provider.
    srequire (rg_participant_pubkey provider \<noteq> None) ProviderParticipantRequired (
    sbind (in_vault (open_channel uuid client provider_id initial_deposit now)) (\<lambda>channel_id.
    sbind (wal_append_or_rollback now (ChannelOpened channel_id client provider_id initial_deposit)
      (rollback_open_channel channel_id)) (\<lambda>_.
    sbind (issue_client_receipt_locked env client now) (\<lambda>_.
    sret channel_id)))))"

definition channel_client :: "string \<Rightarrow> pubkey app" where
  "channel_client channel_id =
    sfind (\<lambda>app. map_option ch_client (aget (es_active_channels (app_vault app)) channel_id))
      ChannelNotFound"

definition channel_request_section ::
  "enclave_env \<Rightarrow> string \<Rightarrow> string \<Rightarrow> u64 \<Rightarrow> bytes \<Rightarrow> int \<Rightarrow> unit app" where
  "channel_request_section env channel_id request_id amount request_hash now =
    sbind (in_vault (submit_request channel_id request_id amount request_hash now)) (\<lambda>_.
    sbind (wal_append_or_rollback now
      (ChannelRequestSubmitted channel_id request_id amount (Some request_hash))
      (rollback_submit_request channel_id request_id now)) (\<lambda>_.
    sbind (channel_client channel_id) (\<lambda>client.
    refresh_and_issue env client now)))"

definition expire_stale_channel_request_with_lock :: "enclave_env \<Rightarrow> string \<Rightarrow> int \<Rightarrow> bool app" where
  "expire_stale_channel_request_with_lock env channel_id now =
    sbind (in_vault (expire_request channel_id now)) (\<lambda>expired.
    case expired of
      None \<Rightarrow> sret False
    | Some outcome \<Rightarrow>
        sbind (wal_append_or_rollback now
          (WalEntry.ChannelRequestExpired channel_id (cr_request_id (eo_request outcome))
            (cr_amount (eo_request outcome)))
          (rollback_expire_request outcome now)) (\<lambda>_.
        sbind (refresh_and_issue env (eo_client outcome) now) (\<lambda>_. sret True)))"

text \<open>A delivery that comes too late expires the request and still returns the error.\<close>
definition channel_deliver_section ::
  "enclave_env \<Rightarrow> ('p::ab_group_add, 's::comm_ring_1) curve \<Rightarrow> (bytes \<Rightarrow> bytes) \<Rightarrow> string \<Rightarrow> bytes \<Rightarrow>
    AdaptorPreSignature \<Rightarrow> bytes \<Rightarrow> bytes \<Rightarrow> bytes \<Rightarrow> int \<Rightarrow> unit app" where
  "channel_deliver_section env C sha256 channel_id adaptor_point pre_sig encrypted_result result_hash
      provider_pubkey now =
    sbind (sfind (\<lambda>app. case aget (es_active_channels (app_vault app)) channel_id of
        None \<Rightarrow> None | Some ch \<Rightarrow> Some (ch_provider_id ch)) ChannelNotFound) (\<lambda>provider_id.
    sbind (sfind (\<lambda>app. aget (es_providers (app_vault app)) provider_id) ProviderNotFound) (\<lambda>provider.
    sok_or (rg_participant_pubkey provider) ProviderParticipantRequired (\<lambda>registered.
    srequire (provider_pubkey = registered) ProviderParticipantMismatch (
    sbind (sfind (\<lambda>app. case aget (es_active_channels (app_vault app)) channel_id of
        None \<Rightarrow> None | Some ch \<Rightarrow> ch_active_request ch) ChannelNotFound) (\<lambda>request.
    \<lambda>app. (let (result, app1) = in_vault (deliver_adaptor C sha256 channel_id adaptor_point pre_sig
            encrypted_result result_hash registered now) app in
      if result = Inl (Err EnclaveError.ChannelRequestExpired)
      then sbind (expire_stale_channel_request_with_lock env channel_id now) (\<lambda>_.
        sfail (Err EnclaveError.ChannelRequestExpired)) app1
      else (case result of
          Inl e \<Rightarrow> (Inl e, app1)
        | Inr _ \<Rightarrow>
            wal_append_or_rollback now (ChannelAdaptorDelivered channel_id (cr_request_id request)
              (Some adaptor_point) (Some (r_prime pre_sig)) (Some (s_prime pre_sig))
              (Some encrypted_result) (Some result_hash) (Some provider_pubkey))
              (rollback_deliver_adaptor channel_id (cr_request_id request) now) app1)))))))"

definition channel_finalize_section ::
  "enclave_env \<Rightarrow> ('p::ab_group_add, 's::comm_ring_1) curve \<Rightarrow> (bytes \<Rightarrow> bytes) \<Rightarrow> string \<Rightarrow> bytes \<Rightarrow>
    int \<Rightarrow> FinalizeOutcome app" where
  "channel_finalize_section env C sha256 channel_id adaptor_secret now =
    sbind (in_vault (finalize_offchain C sha256 channel_id adaptor_secret now)) (\<lambda>outcome.
    sbind (wal_append_or_rollback now
      (ChannelFinalized channel_id (fo_request_id outcome) (fo_amount outcome))
      (rollback_finalize_offchain channel_id (fo_request outcome) now)) (\<lambda>_.
    sbind (channel_client channel_id) (\<lambda>client.
    sbind (refresh_and_issue env client now) (\<lambda>_.
    sret outcome))))"

definition channel_close_section :: "enclave_env \<Rightarrow> string \<Rightarrow> string \<Rightarrow> int \<Rightarrow> CloseOutcome app" where
  "channel_close_section env uuid channel_id now =
    sbind (in_vault (close_channel uuid channel_id now)) (\<lambda>outcome.
    sbind (wal_append_or_rollback now
      (ChannelClosed channel_id (co_returned_to_client outcome) (co_provider_earned outcome)
        (co_settlement_id outcome))
      (rollback_close_channel outcome)) (\<lambda>_.
    sbind (refresh_and_issue env (co_client outcome) now) (\<lambda>_.
    sbind (if co_provider_earned outcome > 0
      then sbind (issue_provider_receipt_locked env (co_provider_id outcome) now) (\<lambda>_. sret ())
      else sret ()) (\<lambda>_.
    sret outcome))))"

section \<open>Confirmed chunks\<close>

text \<open>After a chunk was confirmed on chain: the entry of the log, then the state.\<close>
definition batch_confirm_section :: "string list \<Rightarrow> u64 \<Rightarrow> string \<Rightarrow> int \<Rightarrow> unit app" where
  "batch_confirm_section settlement_ids batch_id tx_signature now =
    sbind (wal_append_or_fail now (BatchConfirmed batch_id tx_signature settlement_ids)) (\<lambda>_.
    in_vault (smodify (\<lambda>st. (apply_batch_confirmation settlement_ids batch_id tx_signature st)
      \<lparr>es_last_batch_at := now\<rparr>)))"

end
