(* ===== verification/Ledger.thy ===== *)
theory Ledger
  imports Enclave_Handlers
begin

text \<open>
  The abstract ledger: what the enclave owes to whom, without clocks, counters and the order of its
  maps.  \<open>ledger_of\<close> is the ledger of a state of the enclave.  \<open>lstep\<close> says how one entry of the log
  changes the ledger, and when that is possible at all; it is the specification that the handlers
  (\<open>Ledger_Refine\<close>) and the replay of the log (\<open>Wal_Replay\<close>) both implement.  The invariant of the
  ledger is proved here, once, over \<open>lstep\<close>.
\<close>

section \<open>The ledger of a state\<close>

text \<open>Clocks and counters are erased; the pending withdrawals and the channels become maps, because
  rollbacks reorder them.\<close>
definition erase_balance :: "ClientBalance \<Rightarrow> ClientBalance" where
  "erase_balance b = b\<lparr>cb_max_lock_expires_at := 0\<rparr>"

definition erase_credit :: "ProviderCredit \<Rightarrow> ProviderCredit" where
  "erase_credit c = c\<lparr>pc_oldest_credit_at := 0\<rparr>"

definition erase_request :: "ChannelRequest \<Rightarrow> ChannelRequest" where
  "erase_request r = r\<lparr>cr_created_at := 0, cr_expires_at := 0\<rparr>"

definition erase_channel :: "ChannelState \<Rightarrow> ChannelState" where
  "erase_channel ch = ch\<lparr>ch_created_at := 0, ch_updated_at := 0,
    ch_active_request := map_option erase_request (ch_active_request ch)\<rparr>"

definition map_vals :: "('v \<Rightarrow> 'w) \<Rightarrow> ('k, 'v) amap \<Rightarrow> ('k, 'w) amap" where
  "map_vals f m = map (\<lambda>(k, v). (k, f v)) m"

definition erase :: "VaultState \<Rightarrow> VaultState" where
  "erase v = v\<lparr>es_client_balances := map_vals erase_balance (es_client_balances v),
    es_provider_credits := map_vals erase_credit (es_provider_credits v),
    es_pending_withdrawals := [], es_active_channels := [], es_receipt_nonce := 0,
    es_withdraw_nonce := 0, es_snapshot_seqno := 0, es_last_batch_at := 0,
    es_last_finalized_slot := 0,
    es_lifecycle := \<lparr>lc_status = 0, lc_successor_vault = [], lc_exit_deadline = 0,
      lc_synced_at_ms = 0\<rparr>\<rparr>"

record ledger =
  lg_base :: VaultState
  lg_pending :: "u64 \<Rightarrow> PendingWithdrawal option"
  lg_channels :: "string \<Rightarrow> ChannelState option"

definition ledger_of :: "VaultState \<Rightarrow> ledger" where
  "ledger_of v = \<lparr>lg_base = erase v, lg_pending = aget (es_pending_withdrawals v),
    lg_channels = (\<lambda>k. map_option erase_channel (aget (es_active_channels v) k))\<rparr>"

lemma aget_map_vals [simp]: "aget (map_vals f m) k = map_option f (aget m k)"
  by (induction m) (auto simp: map_vals_def)

lemma map_vals_aput [simp]: "map_vals f (aput k v m) = aput k (f v) (map_vals f m)"
  by (induction m) (auto simp: map_vals_def)

lemma map_vals_adel [simp]: "map_vals f (adel k m) = adel k (map_vals f m)"
  by (induction m) (auto simp: map_vals_def adel_def)

lemma adistinct_map_vals [simp]: "adistinct (map_vals f m) = adistinct m"
  by (simp add: adistinct_def map_vals_def comp_def split_beta)

lemma asum_map_vals [simp]: "asum f (map_vals g m) = asum (f \<circ> g) m"
  by (simp add: asum_def map_vals_def comp_def split_beta)

section \<open>Entries of the log as transactions on the ledger\<close>

abbreviation "lg_balances L \<equiv> es_client_balances (lg_base L)"
abbreviation "lg_reservations L \<equiv> es_reservations (lg_base L)"
abbreviation "lg_credits L \<equiv> es_provider_credits (lg_base L)"
abbreviation "lg_providers L \<equiv> es_providers (lg_base L)"

definition lput_balance :: "pubkey \<Rightarrow> ClientBalance \<Rightarrow> ledger \<Rightarrow> ledger" where
  "lput_balance c b L = L\<lparr>lg_base := (lg_base L)\<lparr>es_client_balances :=
    aput c (erase_balance b) (lg_balances L)\<rparr>\<rparr>"

definition lput_reservation :: "string \<Rightarrow> Reservation \<Rightarrow> ledger \<Rightarrow> ledger" where
  "lput_reservation vid r L = L\<lparr>lg_base := (lg_base L)\<lparr>es_reservations :=
    aput vid r (lg_reservations L)\<rparr>\<rparr>"

definition lput_channel :: "string \<Rightarrow> ChannelState option \<Rightarrow> ledger \<Rightarrow> ledger" where
  "lput_channel cid ch L = L\<lparr>lg_channels := (lg_channels L)(cid := map_option erase_channel ch)\<rparr>"

definition lput_pending :: "u64 \<Rightarrow> PendingWithdrawal option \<Rightarrow> ledger \<Rightarrow> ledger" where
  "lput_pending n w L = L\<lparr>lg_pending := (lg_pending L)(n := w)\<rparr>"

definition lput_credit :: "string \<Rightarrow> ProviderCredit \<Rightarrow> ledger \<Rightarrow> ledger" where
  "lput_credit p c L = L\<lparr>lg_base := (lg_base L)\<lparr>es_provider_credits :=
    aput p (erase_credit c) (lg_credits L)\<rparr>\<rparr>"

text \<open>Money a client owns moves from free to locked, or back.\<close>
definition lock :: "u64 \<Rightarrow> ClientBalance \<Rightarrow> ClientBalance option" where
  "lock a b = (if a \<le> cb_free b
    then map_option (\<lambda>l. b\<lparr>cb_free := cb_free b - a, cb_locked := l\<rparr>) (checked_add (cb_locked b) a)
    else None)"

definition unlock :: "u64 \<Rightarrow> ClientBalance \<Rightarrow> ClientBalance option" where
  "unlock a b = (if a \<le> cb_locked b
    then map_option (\<lambda>f. b\<lparr>cb_locked := cb_locked b - a, cb_free := f\<rparr>) (checked_add (cb_free b) a)
    else None)"

text \<open>Locked money is spent.\<close>
definition spend :: "u64 \<Rightarrow> ClientBalance \<Rightarrow> ClientBalance option" where
  "spend a b = (if a \<le> cb_locked b then Some (b\<lparr>cb_locked := cb_locked b - a\<rparr>) else None)"

definition with_balance ::
  "pubkey \<Rightarrow> (ClientBalance \<Rightarrow> ClientBalance option) \<Rightarrow> (ledger \<Rightarrow> ledger option) \<Rightarrow> ledger \<Rightarrow> ledger option" where
  "with_balance c f k L = (case aget (lg_balances L) c of
      None \<Rightarrow> None
    | Some b \<Rightarrow> (case f b of None \<Rightarrow> None | Some b' \<Rightarrow> k (lput_balance c b' L)))"

text \<open>A provider is credited under a new settlement identifier.\<close>
definition credit_provider ::
  "string \<Rightarrow> u64 \<Rightarrow> string \<Rightarrow> ledger \<Rightarrow> ledger option" where
  "credit_provider p a sid L =
    (case aget (lg_providers L) p of
       None \<Rightarrow> None
     | Some reg \<Rightarrow>
         let credit = credit_or_new (lg_base L) p (rg_settlement_token_account reg) 0
         in if \<exists>c\<in>set (avals (lg_credits L)). sid \<in> set (pc_settlement_ids c) then None
            else map_option (\<lambda>credited. lput_credit p (credit\<lparr>pc_credited_amount := credited,
              pc_settlement_ids := pc_settlement_ids credit @ [sid]\<rparr>) L)
              (checked_add (pc_credited_amount credit) a))"

definition with_channel ::
  "string \<Rightarrow> (ChannelState \<Rightarrow> ChannelState option) \<Rightarrow> ledger \<Rightarrow> ledger option" where
  "with_channel cid f L = (case lg_channels L cid of
      None \<Rightarrow> None
    | Some ch \<Rightarrow> map_option (\<lambda>ch'. lput_channel cid (Some ch') L) (f ch))"

text \<open>The transitions of a channel: submit, deliver, finalize and expire a request.\<close>
definition lch_submit :: "string \<Rightarrow> u64 \<Rightarrow> bytes \<Rightarrow> ChannelState \<Rightarrow> ChannelState option" where
  "lch_submit rid a h ch =
    (let b = ch_balance ch in
     if ch_status ch = Open \<and> rid \<notin> ch_used_request_ids ch \<and> a \<le> client_free b
     then (case (checked_add (client_locked b) a, checked_add (ch_nonce ch) 1) of
         (Some l, Some n) \<Rightarrow> Some (ch\<lparr>ch_balance := b\<lparr>client_free := client_free b - a,
             client_locked := l\<rparr>, ch_status := Locked, ch_nonce := n,
           ch_used_request_ids := insert rid (ch_used_request_ids ch),
           ch_active_request := Some \<lparr>cr_request_id = rid, cr_amount = a, cr_request_hash = h,
             cr_provider_pubkey = None, cr_adaptor_point = None, cr_provider_pre_sig = None,
             cr_encrypted_result = None, cr_result_hash = None, cr_created_at = 0,
             cr_expires_at = 0\<rparr>\<rparr>)
       | _ \<Rightarrow> None)
     else None)"

definition lch_deliver ::
  "('p::ab_group_add, 's::comm_ring_1) curve \<Rightarrow> (bytes \<Rightarrow> bytes) \<Rightarrow> bytes \<Rightarrow> AdaptorPreSignature \<Rightarrow>
    bytes \<Rightarrow> bytes \<Rightarrow> bytes \<Rightarrow> ChannelState \<Rightarrow> ChannelState option" where
  "lch_deliver C sha256 tb pre enc rh pk ch =
    (case (ch_active_request ch, decompress C tb, checked_add (ch_nonce ch) 1) of
       (Some r, Some T, Some n) \<Rightarrow>
         if ch_status ch = Locked \<and> pre_verify C pk (build_payment_message sha256 (ch_channel_id ch)
              (cr_request_id r) (cr_amount r) (cr_request_hash r)) T pre
         then Some (ch\<lparr>ch_active_request := Some (r\<lparr>cr_provider_pubkey := Some pk,
             cr_adaptor_point := Some tb, cr_provider_pre_sig := Some pre,
             cr_encrypted_result := Some enc, cr_result_hash := Some rh\<rparr>),
           ch_status := Pending, ch_nonce := n\<rparr>)
         else None
     | _ \<Rightarrow> None)"

definition lch_finalize :: "string \<Rightarrow> u64 \<Rightarrow> ChannelState \<Rightarrow> ChannelState option" where
  "lch_finalize rid a ch =
    (let b = ch_balance ch in
     case (ch_active_request ch, checked_sub (client_locked b) a,
           checked_add (provider_earned b) a, checked_add (ch_nonce ch) 1) of
       (Some r, Some l, Some e, Some n) \<Rightarrow>
         if ch_status ch = Pending \<and> cr_request_id r = rid \<and> cr_amount r = a
         then Some (ch\<lparr>ch_balance := b\<lparr>client_locked := l, provider_earned := e\<rparr>,
           ch_status := Open, ch_active_request := None, ch_nonce := n\<rparr>)
         else None
     | _ \<Rightarrow> None)"

definition lch_expire :: "string \<Rightarrow> u64 \<Rightarrow> ChannelState \<Rightarrow> ChannelState option" where
  "lch_expire rid a ch =
    (let b = ch_balance ch in
     case (ch_active_request ch, checked_sub (client_locked b) a,
           checked_add (client_free b) a, checked_add (ch_nonce ch) 1) of
       (Some r, Some l, Some f, Some n) \<Rightarrow>
         if (ch_status ch = Locked \<or> ch_status ch = Pending) \<and> cr_request_id r = rid \<and> cr_amount r = a
         then Some (ch\<lparr>ch_balance := b\<lparr>client_locked := l, client_free := f\<rparr>,
           ch_status := Open, ch_active_request := None, ch_nonce := n\<rparr>)
         else None
     | _ \<Rightarrow> None)"

definition lrelease :: "string \<Rightarrow> ReservationStatus \<Rightarrow> ledger \<Rightarrow> ledger option" where
  "lrelease vid status L = (case aget (lg_reservations L) vid of
      None \<Rightarrow> None
    | Some r \<Rightarrow> if rv_status r = Reserved
        then with_balance (rv_client r) (unlock (rv_amount r))
          (\<lambda>L'. Some (lput_reservation vid (r\<lparr>rv_status := status\<rparr>) L')) L
        else None)"

definition lsettle :: "string \<Rightarrow> string \<Rightarrow> string \<Rightarrow> u64 \<Rightarrow> int \<Rightarrow> ledger \<Rightarrow> ledger option" where
  "lsettle sid vid p a t L = (case (aget (lg_reservations L) vid, aget (lg_providers L) p) of
      (Some r, Some reg) \<Rightarrow>
        if rv_status r = Reserved \<and> rv_provider_id r = p \<and> rv_amount r = a \<and>
          aget (es_settlement_history (lg_base L)) sid = None
        then with_balance (rv_client r) (spend a)
          (\<lambda>L1. map_option
            (\<lambda>L2. lput_reservation vid (r\<lparr>rv_status := SettledOffchain,
                rv_settlement_id := Some sid, rv_settled_at := Some t\<rparr>)
              (L2\<lparr>lg_base := (lg_base L2)\<lparr>es_settlement_history := aput sid
                \<lparr>sr_settlement_id = sid, sr_client = rv_client r,
                 sr_provider = rg_settlement_token_account reg, sr_amount = a, sr_timestamp = t\<rparr>
                (es_settlement_history (lg_base L2))\<rparr>\<rparr>))
            (credit_provider p a sid L1)) L
        else None
    | _ \<Rightarrow> None)"

definition lclose :: "string \<Rightarrow> string option \<Rightarrow> ledger \<Rightarrow> ledger option" where
  "lclose cid sid L = (case lg_channels L cid of
      None \<Rightarrow> None
    | Some ch \<Rightarrow>
        let b = ch_balance ch; rf = client_free b; e = provider_earned b in
        if ch_status ch \<noteq> Open then None
        else (case checked_add rf e of
            None \<Rightarrow> None
          | Some amount \<Rightarrow>
              with_balance (ch_client ch)
                (\<lambda>bal. if amount \<le> cb_locked bal
                  then map_option (\<lambda>f. bal\<lparr>cb_locked := cb_locked bal - amount, cb_free := f\<rparr>)
                    (checked_add (cb_free bal) rf)
                  else None)
                (\<lambda>L1. let L2 = lput_channel cid None L1
                  in if e > 0
                     then (case sid of None \<Rightarrow> None | Some s \<Rightarrow> credit_provider (ch_provider_id ch) e s L2)
                     else Some L2)
                L))"

definition lopen :: "string \<Rightarrow> pubkey \<Rightarrow> string \<Rightarrow> u64 \<Rightarrow> ledger \<Rightarrow> ledger option" where
  "lopen cid c p a L =
    (if lg_channels L cid = None \<and> aget (lg_providers L) p \<noteq> None
     then with_balance c (lock a) (\<lambda>L1. Some (lput_channel cid (Some
       \<lparr>ch_channel_id = cid, ch_client = c, ch_provider_id = p,
        ch_balance = \<lparr>client_free = a, client_locked = 0, provider_earned = 0\<rparr>,
        ch_status = Open, ch_nonce = 0, ch_created_at = 0, ch_updated_at = 0,
        ch_used_request_ids = {}, ch_active_request = None\<rparr>) L1)) L
     else None)"

fun lstep ::
  "('p::ab_group_add, 's::comm_ring_1) curve \<Rightarrow> (bytes \<Rightarrow> bytes) \<Rightarrow> WalEntry \<Rightarrow> ledger \<Rightarrow> ledger option" where
  "lstep C sha256 (DepositApplied c a slot sig) L =
    (let b = (case aget (lg_balances L) c of None \<Rightarrow> client_balance_default | Some b \<Rightarrow> b)
     in case (checked_add (cb_free b) a, checked_add (cb_total_deposited b) a) of
          (Some f, Some d) \<Rightarrow> Some (lput_balance c (b\<lparr>cb_free := f, cb_total_deposited := d\<rparr>) L)
        | _ \<Rightarrow> None)"
| "lstep C sha256 (WithdrawAuthorized w) L =
    (if lg_pending L (pw_withdraw_nonce w) = None
     then with_balance (pw_client w) (lock (pw_amount w))
       (\<lambda>L1. Some (lput_pending (pw_withdraw_nonce w) (Some w) L1)) L
     else None)"
| "lstep C sha256 (WithdrawApplied c rcp a n e slot sig) L =
    (case lg_pending L n of
       None \<Rightarrow> None
     | Some w \<Rightarrow>
         if pw_client w = c \<and> pw_recipient_ata w = rcp \<and> pw_amount w = a \<and> pw_expires_at w = e
         then with_balance c (\<lambda>b. if a \<le> cb_locked b
             then map_option (\<lambda>t. b\<lparr>cb_locked := cb_locked b - a, cb_total_withdrawn := t\<rparr>)
               (checked_add (cb_total_withdrawn b) a)
             else None) (\<lambda>L1. Some (lput_pending n None L1)) L
         else None)"
| "lstep C sha256 (WithdrawExpired c n) L =
    (case lg_pending L n of
       None \<Rightarrow> None
     | Some w \<Rightarrow> if pw_client w = c
         then with_balance c (unlock (pw_amount w)) (\<lambda>L1. Some (lput_pending n None L1)) L
         else None)"
| "lstep C sha256 (ReservationCreated vid res pid c p a rh dh ct et) L =
    (case (res, rh, dh, ct, et) of
       (Some res, Some rh, Some dh, Some ct, Some et) \<Rightarrow>
         if aget (lg_reservations L) vid = None \<and> aget (lg_providers L) p \<noteq> None \<and> 0 < a
         then with_balance c (lock a) (\<lambda>L1. Some ((lput_reservation vid
           (new_reservation vid res pid c p a rh dh ct et) L1)
           \<lparr>lg_base := (lg_base (lput_reservation vid
             (new_reservation vid res pid c p a rh dh ct et) L1))
             \<lparr>es_payment_id_index := aput pid vid (es_payment_id_index (lg_base L1))\<rparr>\<rparr>)) L
         else None
     | _ \<Rightarrow> None)"
| "lstep C sha256 (ReservationCancelled vid reason) L = lrelease vid Cancelled L"
| "lstep C sha256 (WalEntry.ReservationExpired vid) L = lrelease vid Expired L"
| "lstep C sha256 (SettlementCommitted sid vid p a t) L =
    (case t of None \<Rightarrow> None | Some t \<Rightarrow> lsettle sid vid p a t L)"
| "lstep C sha256 (ParticipantReceiptIssued p k n) L = Some L"
| "lstep C sha256 (ParticipantReceiptMirrored p k n) L = Some L"
| "lstep C sha256 (ProviderRegistered reg) L =
    (if aget (lg_providers L) (rg_provider_id reg) = None
     then Some (L\<lparr>lg_base := (lg_base L)\<lparr>es_providers := aput (rg_provider_id reg) reg (lg_providers L)\<rparr>\<rparr>)
     else None)"
| "lstep C sha256 (ClientBalanceSeeded c b) L = None"
| "lstep C sha256 (BatchSubmitted b n a) L = Some L"
| "lstep C sha256 (BatchConfirmed b tx sids) L =
    Some (L\<lparr>lg_base := erase (apply_batch_confirmation sids b tx (lg_base L))\<rparr>)"
| "lstep C sha256 (ChannelOpened cid c p a) L = lopen cid c p a L"
| "lstep C sha256 (ChannelRequestSubmitted cid rid a h) L =
    (case h of None \<Rightarrow> None | Some h \<Rightarrow> with_channel cid (lch_submit rid a h) L)"
| "lstep C sha256 (WalEntry.ChannelRequestExpired cid rid a) L = with_channel cid (lch_expire rid a) L"
| "lstep C sha256 (ChannelAdaptorDelivered cid rid tb rp sp enc rh pk) L =
    (case (tb, rp, sp, enc, rh, pk) of
       (Some tb, Some rp, Some sp, Some enc, Some rh, Some pk) \<Rightarrow>
         with_channel cid (lch_deliver C sha256 tb \<lparr>r_prime = rp, s_prime = sp\<rparr> enc rh pk) L
     | _ \<Rightarrow> None)"
| "lstep C sha256 (ChannelFinalized cid rid a) L = with_channel cid (lch_finalize rid a) L"
| "lstep C sha256 (ChannelClosed cid rf e sid) L = lclose cid sid L"

text \<open>A seeded balance is a tool of local development that sets a balance without a deposit; it is
  not a transaction of the ledger.\<close>

fun lsteps ::
  "('p::ab_group_add, 's::comm_ring_1) curve \<Rightarrow> (bytes \<Rightarrow> bytes) \<Rightarrow> WalEntry list \<Rightarrow> ledger \<Rightarrow> ledger option" where
  "lsteps C sha256 [] L = Some L"
| "lsteps C sha256 (e # es) L = (case lstep C sha256 e L of None \<Rightarrow> None | Some L1 \<Rightarrow> lsteps C sha256 es L1)"

lemma lsteps_append:
  "lsteps C sha256 (es @ fs) L = (case lsteps C sha256 es L of None \<Rightarrow> None | Some L1 \<Rightarrow> lsteps C sha256 fs L1)"
  by (induction es arbitrary: L) (auto split: option.splits)

end
