(* ===== verification/Ledger_Inv.thy ===== *)
theory Ledger_Inv
  imports Ledger
begin

text \<open>
  The invariant of the ledger and its preservation by \<open>lstep\<close>.  A client's locked balance is the sum
  of what reservations, pending withdrawals and channels hold of it; a client's balances add up to
  no more than the client's deposits; and all credits of providers are covered by what clients have
  spent.  An entry of the log is a sequence of updates each of which moves one side of these
  equations, so the invariant is stated with the difference that a sequence has left so far.
\<close>

section \<open>Sums over maps\<close>

definition msum :: "('v \<Rightarrow> nat) \<Rightarrow> ('k \<Rightarrow> 'v option) \<Rightarrow> nat" where
  "msum f m = (\<Sum>k\<in>dom m. f (the (m k)))"

lemma msum_empty [simp]: "msum f (\<lambda>k. None) = 0"
  by (simp add: msum_def)

lemma msum_None: "msum f (m(k := None)) + (case m k of None \<Rightarrow> 0 | Some v \<Rightarrow> f v) = msum f m"
  if "finite (dom m)"
proof (cases "m k")
  case (Some v)
  then have "(\<Sum>j\<in>dom m. f (the (m j))) = f (the (m k)) + (\<Sum>j\<in>dom m - {k}. f (the (m j)))"
    using that by (intro sum.remove) auto
  moreover have "(\<Sum>j\<in>dom m - {k}. f (the ((m(k := None)) j))) = (\<Sum>j\<in>dom m - {k}. f (the (m j)))"
    by (intro sum.cong) auto
  ultimately show ?thesis
    using Some by (simp add: msum_def)
next
  case None
  then have "m(k := None) = m" by auto
  with None show ?thesis by simp
qed

lemma msum_Some:
  assumes "finite (dom m)"
  shows "msum f (m(k := Some v)) + (case m k of None \<Rightarrow> 0 | Some w \<Rightarrow> f w) = msum f m + f v"
proof -
  have "msum f ((m(k := Some v))(k := None)) + f v = msum f (m(k := Some v))"
    using msum_None [of "m(k := Some v)" f k] assms by simp
  moreover have "(m(k := Some v))(k := None) = m(k := None)" by simp
  ultimately show ?thesis
    using msum_None [of m f k] assms by simp
qed

lemma finite_dom_aget [simp]: "finite (dom (aget m))"
  by (rule finite_subset [of _ "fst ` set m"]) (auto dest!: aget_in_set intro: rev_image_eqI)

lemma asum_msum: "adistinct m \<Longrightarrow> asum f m = msum f (aget m)"
proof (induction m)
  case (Cons p m)
  obtain k v where p: "p = (k, v)" by (cases p)
  have dist: "adistinct m" and fresh: "aget m k = None"
    using Cons.prems by (auto simp: adistinct_def p aget_None_keys)
  have "aget (p # m) = (aget m)(k := Some v)"
    by (auto simp: p)
  then have "msum f (aget (p # m)) = msum f (aget m) + f v"
    using msum_Some [OF finite_dom_aget, of f m k v] fresh by (simp del: aget.simps)
  then show ?case
    using Cons.IH [OF dist] by (simp add: p del: aget.simps)
qed (simp add: msum_def dom_def)

text \<open>How an update changes a sum, over the integers.\<close>
lemma asum_put_int:
  "int (asum f (aput k v m)) = int (asum f m) + int (f v) -
    (case aget m k of None \<Rightarrow> 0 | Some w \<Rightarrow> int (f w))"
proof (cases "aget m k")
  case (Some w)
  then have "int (asum f (aput k v m) + f w) = int (asum f m + f v)"
    by (simp only: asum_aput)
  with Some show ?thesis by simp
qed (simp add: asum_aput_fresh)

lemma msum_put_int:
  assumes "finite (dom m)"
  shows "int (msum f (m(k := v))) = int (msum f m) + (case v of None \<Rightarrow> 0 | Some v \<Rightarrow> int (f v)) -
    (case m k of None \<Rightarrow> 0 | Some w \<Rightarrow> int (f w))"
proof -
  have "int (msum f (m(k := None))) + (case m k of None \<Rightarrow> 0 | Some w \<Rightarrow> int (f w)) = int (msum f m)"
    using msum_None [OF assms, of f k] by (cases "m k") auto
  moreover have "int (msum f (m(k := Some u))) + (case m k of None \<Rightarrow> 0 | Some w \<Rightarrow> int (f w)) =
      int (msum f m) + int (f u)" for u
    using msum_Some [OF assms, of f k u] by (cases "m k") (auto simp flip: of_nat_add)
  ultimately show ?thesis
    by (cases v) (auto simp: algebra_simps)
qed

section \<open>The invariant\<close>

definition owned :: "ClientBalance \<Rightarrow> nat" where
  "owned b = unat (cb_free b) + unat (cb_locked b) + unat (cb_total_withdrawn b)"

definition spent :: "ClientBalance \<Rightarrow> nat" where
  "spent b = unat (cb_total_deposited b) - owned b"

definition reserved_for :: "pubkey \<Rightarrow> Reservation \<Rightarrow> nat" where
  "reserved_for c r = (if rv_client r = c \<and> rv_status r = Reserved then unat (rv_amount r) else 0)"

definition pending_for :: "pubkey \<Rightarrow> PendingWithdrawal \<Rightarrow> nat" where
  "pending_for c w = (if pw_client w = c then unat (pw_amount w) else 0)"

definition channelled_for :: "pubkey \<Rightarrow> ChannelState \<Rightarrow> nat" where
  "channelled_for c ch = (if ch_client ch = c then channel_total ch else 0)"

definition held :: "ledger \<Rightarrow> pubkey \<Rightarrow> nat" where
  "held L c = asum (reserved_for c) (lg_reservations L) + msum (pending_for c) (lg_pending L) +
    msum (channelled_for c) (lg_channels L)"

definition balance_in :: "ledger \<Rightarrow> pubkey \<Rightarrow> ClientBalance" where
  "balance_in L c = (case aget (lg_balances L) c of None \<Rightarrow> client_balance_default | Some b \<Rightarrow> b)"

definition known_client :: "ledger \<Rightarrow> pubkey \<Rightarrow> bool" where
  "known_client L c \<longleftrightarrow> aget (lg_balances L) c \<noteq> None"

definition known_provider :: "ledger \<Rightarrow> string \<Rightarrow> bool" where
  "known_provider L p \<longleftrightarrow> aget (lg_providers L) p \<noteq> None"

text \<open>What a single record has to satisfy.\<close>
definition reservation_ok :: "ledger \<Rightarrow> Reservation \<Rightarrow> bool" where
  "reservation_ok L r \<longleftrightarrow> known_client L (rv_client r) \<and> known_provider L (rv_provider_id r) \<and>
    0 < rv_amount r \<and> (rv_status r = Reserved \<longrightarrow> rv_settlement_id r = None)"

definition credit_ok :: "string \<Rightarrow> ProviderCredit \<Rightarrow> bool" where
  "credit_ok p c \<longleftrightarrow> pc_provider_id c = p \<and> 0 < pc_credited_amount c \<and> pc_settlement_ids c \<noteq> []"

definition channel_ok ::
  "('p::ab_group_add, 's::comm_ring_1) curve \<Rightarrow> (bytes \<Rightarrow> bytes) \<Rightarrow> ledger \<Rightarrow> string \<Rightarrow> ChannelState \<Rightarrow> bool" where
  "channel_ok C sha256 L cid ch \<longleftrightarrow> channel_wf C sha256 cid ch \<and> known_client L (ch_client ch) \<and>
    known_provider L (ch_provider_id ch)"

text \<open>Everything but the equations.\<close>
definition ledger_wf ::
  "('p::ab_group_add, 's::comm_ring_1) curve \<Rightarrow> (bytes \<Rightarrow> bytes) \<Rightarrow> ledger \<Rightarrow> bool" where
  "ledger_wf C sha256 L \<longleftrightarrow>
    adistinct (lg_balances L) \<and> adistinct (lg_reservations L) \<and> adistinct (lg_credits L) \<and>
    finite (dom (lg_pending L)) \<and> finite (dom (lg_channels L)) \<and>
    (\<forall>c b. aget (lg_balances L) c = Some b \<longrightarrow> owned b \<le> unat (cb_total_deposited b)) \<and>
    (\<forall>k r. aget (lg_reservations L) k = Some r \<longrightarrow> reservation_ok L r) \<and>
    (\<forall>p c. aget (lg_credits L) p = Some c \<longrightarrow> credit_ok p c) \<and>
    (\<forall>n w. lg_pending L n = Some w \<longrightarrow> pw_withdraw_nonce w = n \<and> known_client L (pw_client w)) \<and>
    (\<forall>cid ch. lg_channels L cid = Some ch \<longrightarrow> channel_ok C sha256 L cid ch)"

text \<open>\<open>d c\<close> is the money locked for client \<open>c\<close> that nothing holds, \<open>x\<close> the money spent that no provider
  is credited with.\<close>
definition books ::
  "('p::ab_group_add, 's::comm_ring_1) curve \<Rightarrow> (bytes \<Rightarrow> bytes) \<Rightarrow> (pubkey \<Rightarrow> int) \<Rightarrow> int \<Rightarrow> ledger \<Rightarrow> bool" where
  "books C sha256 d x L \<longleftrightarrow> ledger_wf C sha256 L \<and>
    (\<forall>c. int (held L c) + d c = int (unat (cb_locked (balance_in L c)))) \<and>
    int (asum (unat \<circ> pc_credited_amount) (lg_credits L)) + x \<le> int (asum spent (lg_balances L))"

definition ledger_inv ::
  "('p::ab_group_add, 's::comm_ring_1) curve \<Rightarrow> (bytes \<Rightarrow> bytes) \<Rightarrow> ledger \<Rightarrow> bool" where
  "ledger_inv C sha256 L \<longleftrightarrow> books C sha256 (\<lambda>_. 0) 0 L"

section \<open>Updates of the ledger\<close>

lemma erase_balance_simps [simp]:
  "cb_free (erase_balance b) = cb_free b" "cb_locked (erase_balance b) = cb_locked b"
  "cb_total_deposited (erase_balance b) = cb_total_deposited b"
  "cb_total_withdrawn (erase_balance b) = cb_total_withdrawn b"
  by (simp_all add: erase_balance_def)

lemma owned_erase [simp]: "owned (erase_balance b) = owned b" "spent (erase_balance b) = spent b"
  by (simp_all add: owned_def spent_def)

lemma owned_default [simp]: "owned client_balance_default = 0" "spent client_balance_default = 0"
  by (simp_all add: owned_def spent_def client_balance_default_def)

lemma erase_credit_simps [simp]:
  "pc_provider_id (erase_credit c) = pc_provider_id c"
  "pc_settlement_token_account (erase_credit c) = pc_settlement_token_account c"
  "pc_credited_amount (erase_credit c) = pc_credited_amount c"
  "pc_settlement_ids (erase_credit c) = pc_settlement_ids c"
  by (simp_all add: erase_credit_def)

lemma erase_channel_simps [simp]:
  "ch_channel_id (erase_channel ch) = ch_channel_id ch" "ch_client (erase_channel ch) = ch_client ch"
  "ch_provider_id (erase_channel ch) = ch_provider_id ch"
  "ch_balance (erase_channel ch) = ch_balance ch" "ch_status (erase_channel ch) = ch_status ch"
  "ch_nonce (erase_channel ch) = ch_nonce ch"
  "ch_used_request_ids (erase_channel ch) = ch_used_request_ids ch"
  "ch_active_request (erase_channel ch) = map_option erase_request (ch_active_request ch)"
  by (simp_all add: erase_channel_def)

lemma erase_request_simps [simp]:
  "cr_request_id (erase_request r) = cr_request_id r" "cr_amount (erase_request r) = cr_amount r"
  "cr_request_hash (erase_request r) = cr_request_hash r"
  "cr_provider_pubkey (erase_request r) = cr_provider_pubkey r"
  "cr_adaptor_point (erase_request r) = cr_adaptor_point r"
  "cr_provider_pre_sig (erase_request r) = cr_provider_pre_sig r"
  "cr_encrypted_result (erase_request r) = cr_encrypted_result r"
  "cr_result_hash (erase_request r) = cr_result_hash r"
  by (simp_all add: erase_request_def)

lemma request_erase [simp]:
  "request_locked (erase_channel ch) = request_locked ch"
  "request_undelivered (erase_channel ch) = request_undelivered ch"
  "request_delivered C sha256 (erase_channel ch) = request_delivered C sha256 ch"
  by (cases "ch_active_request ch"; simp only: request_locked_def request_undelivered_def request_delivered_def
      erase_channel_simps erase_request_simps option.map option.case)+

lemma channel_wf_erase [simp]: "channel_wf C sha256 cid (erase_channel ch) = channel_wf C sha256 cid ch"
  by (cases "ch_status ch") (simp_all add: channel_wf_def channel_total_def)

lemma channel_total_erase [simp]: "channel_total (erase_channel ch) = channel_total ch"
  by (simp add: channel_total_def)

lemma lput_balance_simps [simp]:
  "lg_balances (lput_balance c b L) = aput c (erase_balance b) (lg_balances L)"
  "lg_reservations (lput_balance c b L) = lg_reservations L"
  "lg_credits (lput_balance c b L) = lg_credits L" "lg_providers (lput_balance c b L) = lg_providers L"
  "lg_pending (lput_balance c b L) = lg_pending L" "lg_channels (lput_balance c b L) = lg_channels L"
  "es_settlement_history (lg_base (lput_balance c b L)) = es_settlement_history (lg_base L)"
  by (simp_all add: lput_balance_def)

lemma lput_reservation_simps [simp]:
  "lg_balances (lput_reservation k r L) = lg_balances L"
  "lg_reservations (lput_reservation k r L) = aput k r (lg_reservations L)"
  "lg_credits (lput_reservation k r L) = lg_credits L"
  "lg_providers (lput_reservation k r L) = lg_providers L"
  "lg_pending (lput_reservation k r L) = lg_pending L"
  "lg_channels (lput_reservation k r L) = lg_channels L"
  by (simp_all add: lput_reservation_def)

lemma lput_pending_simps [simp]:
  "lg_base (lput_pending n w L) = lg_base L" "lg_pending (lput_pending n w L) = (lg_pending L)(n := w)"
  "lg_channels (lput_pending n w L) = lg_channels L"
  by (simp_all add: lput_pending_def)

lemma lput_channel_simps [simp]:
  "lg_base (lput_channel n w L) = lg_base L" "lg_pending (lput_channel n w L) = lg_pending L"
  "lg_channels (lput_channel n w L) = (lg_channels L)(n := map_option erase_channel w)"
  by (simp_all add: lput_channel_def)

lemma lput_credit_simps [simp]:
  "lg_balances (lput_credit p c L) = lg_balances L"
  "lg_reservations (lput_credit p c L) = lg_reservations L"
  "lg_credits (lput_credit p c L) = aput p (erase_credit c) (lg_credits L)"
  "lg_providers (lput_credit p c L) = lg_providers L" "lg_pending (lput_credit p c L) = lg_pending L"
  "lg_channels (lput_credit p c L) = lg_channels L"
  by (simp_all add: lput_credit_def)

lemma held_simps [simp]:
  "held (lput_balance c b L) j = held L j" "held (lput_credit p cr L) j = held L j"
  by (simp_all add: held_def)

lemma balance_in_simps [simp]:
  "balance_in (lput_balance c b L) j = (if c = j then erase_balance b else balance_in L j)"
  "balance_in (lput_reservation k r L) j = balance_in L j"
  "balance_in (lput_pending n w L) j = balance_in L j"
  "balance_in (lput_channel cid ch L) j = balance_in L j"
  "balance_in (lput_credit p cr L) j = balance_in L j"
  by (simp_all add: balance_in_def)

lemma known_simps [simp]:
  "known_client (lput_balance c b L) j \<longleftrightarrow> c = j \<or> known_client L j"
  "known_client (lput_reservation k r L) j = known_client L j"
  "known_client (lput_pending n w L) j = known_client L j"
  "known_client (lput_channel cid ch L) j = known_client L j"
  "known_client (lput_credit p cr L) j = known_client L j"
  "known_provider (lput_balance c b L) q = known_provider L q"
  "known_provider (lput_reservation k r L) q = known_provider L q"
  "known_provider (lput_pending n w L) q = known_provider L q"
  "known_provider (lput_channel cid ch L) q = known_provider L q"
  "known_provider (lput_credit p cr L) q = known_provider L q"
  by (auto simp: known_client_def known_provider_def)

lemmas record_ok_defs = reservation_ok_def channel_ok_def

lemma wf_balance:
  assumes "ledger_wf C sha256 L" "owned b \<le> unat (cb_total_deposited b)"
  shows "ledger_wf C sha256 (lput_balance c b L)"
  using assms by (auto simp: ledger_wf_def record_ok_defs)

lemma wf_pending:
  assumes "ledger_wf C sha256 L" "pw_withdraw_nonce w = n" "known_client L (pw_client w)"
  shows "ledger_wf C sha256 (lput_pending n (Some w) L)"
  using assms by (auto simp: ledger_wf_def record_ok_defs)

lemma wf_unpending: "ledger_wf C sha256 L \<Longrightarrow> ledger_wf C sha256 (lput_pending n None L)"
  by (auto simp: ledger_wf_def record_ok_defs)

lemma wf_channel:
  "ledger_wf C sha256 L \<Longrightarrow> channel_ok C sha256 L cid ch \<Longrightarrow>
    ledger_wf C sha256 (lput_channel cid (Some ch) L)"
  by (auto simp: ledger_wf_def record_ok_defs)

lemma wf_close: "ledger_wf C sha256 L \<Longrightarrow> ledger_wf C sha256 (lput_channel cid None L)"
  by (auto simp: ledger_wf_def record_ok_defs)

lemma wf_reservation:
  "ledger_wf C sha256 L \<Longrightarrow> reservation_ok L r \<Longrightarrow> ledger_wf C sha256 (lput_reservation k r L)"
  by (auto simp: ledger_wf_def record_ok_defs)

lemma wf_credit:
  "ledger_wf C sha256 L \<Longrightarrow> credit_ok p c \<Longrightarrow> ledger_wf C sha256 (lput_credit p c L)"
  by (auto simp: ledger_wf_def record_ok_defs credit_ok_def)

lemma wf_finite: "ledger_wf C sha256 L \<Longrightarrow> finite (dom (lg_pending L)) \<and> finite (dom (lg_channels L))"
  by (simp add: ledger_wf_def)

lemma held_pending:
  assumes "finite (dom (lg_pending L))"
  shows "int (held (lput_pending n w L) c) = int (held L c) +
    (case w of None \<Rightarrow> 0 | Some w \<Rightarrow> int (pending_for c w)) -
    (case lg_pending L n of None \<Rightarrow> 0 | Some w \<Rightarrow> int (pending_for c w))"
  by (simp add: held_def msum_put_int assms)

lemma held_channel:
  assumes "finite (dom (lg_channels L))"
  shows "int (held (lput_channel cid w L) c) = int (held L c) +
    (case w of None \<Rightarrow> 0 | Some ch \<Rightarrow> int (channelled_for c ch)) -
    (case lg_channels L cid of None \<Rightarrow> 0 | Some ch \<Rightarrow> int (channelled_for c ch))"
proof -
  have "channelled_for c (erase_channel ch) = channelled_for c ch" for ch
    by (simp add: channelled_for_def)
  then show ?thesis
    by (cases w) (simp_all add: held_def msum_put_int assms)
qed

lemma held_reservation:
  "int (held (lput_reservation k r L) c) = int (held L c) + int (reserved_for c r) -
    (case aget (lg_reservations L) k of None \<Rightarrow> 0 | Some r0 \<Rightarrow> int (reserved_for c r0))"
  by (simp add: held_def asum_put_int)

lemma credits_put:
  "int (asum (unat \<circ> pc_credited_amount) (lg_credits (lput_credit p c L))) =
    int (asum (unat \<circ> pc_credited_amount) (lg_credits L)) + int (unat (pc_credited_amount c)) -
    (case aget (lg_credits L) p of None \<Rightarrow> 0 | Some c0 \<Rightarrow> int (unat (pc_credited_amount c0)))"
  by (simp add: asum_put_int comp_def)

lemma spent_put:
  "int (asum spent (lg_balances (lput_balance c b L))) =
    int (asum spent (lg_balances L)) + int (spent b) - int (spent (balance_in L c))"
  by (cases "aget (lg_balances L) c") (simp_all add: balance_in_def asum_put_int)

section \<open>The equations under an update\<close>

lemma booksI:
  "ledger_wf C sha256 L \<Longrightarrow> (\<And>c. int (held L c) + d c = int (unat (cb_locked (balance_in L c)))) \<Longrightarrow>
    int (asum (unat \<circ> pc_credited_amount) (lg_credits L)) + x \<le> int (asum spent (lg_balances L)) \<Longrightarrow>
    books C sha256 d x L"
  by (simp add: books_def)

lemma booksD:
  assumes "books C sha256 d x L"
  shows "ledger_wf C sha256 L" "int (held L c) + d c = int (unat (cb_locked (balance_in L c)))"
    "int (asum (unat \<circ> pc_credited_amount) (lg_credits L)) + x \<le> int (asum spent (lg_balances L))"
    "finite (dom (lg_pending L))" "finite (dom (lg_channels L))"
  using assms by (auto simp: books_def ledger_wf_def)

lemma books_balance:
  assumes "books C sha256 d x L" "owned b \<le> unat (cb_total_deposited b)"
  shows "books C sha256 (d(c := d c + int (unat (cb_locked b)) - int (unat (cb_locked (balance_in L c)))))
    (x + int (spent b) - int (spent (balance_in L c))) (lput_balance c b L)"
proof (rule booksI)
  fix j
  show "int (held (lput_balance c b L) j) +
      (d(c := d c + int (unat (cb_locked b)) - int (unat (cb_locked (balance_in L c))))) j =
    int (unat (cb_locked (balance_in (lput_balance c b L) j)))"
    using booksD(2) [OF assms(1), of c] booksD(2) [OF assms(1), of j] by simp
  show "int (asum (unat \<circ> pc_credited_amount) (lg_credits (lput_balance c b L))) +
      (x + int (spent b) - int (spent (balance_in L c))) \<le> int (asum spent (lg_balances (lput_balance c b L)))"
    unfolding spent_put using booksD(3) [OF assms(1)] by simp
qed (rule wf_balance [OF booksD(1) [OF assms(1)] assms(2)])

lemma books_pending:
  assumes "books C sha256 d x L" "lg_pending L n = None" "pw_withdraw_nonce w = n"
    "known_client L (pw_client w)"
  shows "books C sha256 (\<lambda>c. d c - int (pending_for c w)) x (lput_pending n (Some w) L)"
  using booksD(2-5) [OF assms(1)] assms(2) wf_pending [OF booksD(1) [OF assms(1)] assms(3,4)]
  by (intro booksI) (simp_all add: held_pending)

lemma books_unpending:
  assumes "books C sha256 d x L" "lg_pending L n = Some w"
  shows "books C sha256 (\<lambda>c. d c + int (pending_for c w)) x (lput_pending n None L)"
  using booksD(2-5) [OF assms(1)] assms(2) wf_unpending [OF booksD(1) [OF assms(1)]]
  by (intro booksI) (simp_all add: held_pending)

lemma books_channel:
  assumes "books C sha256 d x L" "channel_ok C sha256 L cid ch"
  shows "books C sha256 (\<lambda>c. d c - int (channelled_for c ch) + (case lg_channels L cid of
    None \<Rightarrow> 0 | Some ch \<Rightarrow> int (channelled_for c ch))) x (lput_channel cid (Some ch) L)"
  using booksD(2-5) [OF assms(1)] wf_channel [OF booksD(1) [OF assms(1)] assms(2)]
  by (intro booksI) (simp_all add: held_channel)

lemma books_close:
  assumes "books C sha256 d x L" "lg_channels L cid = Some ch"
  shows "books C sha256 (\<lambda>c. d c + int (channelled_for c ch)) x (lput_channel cid None L)"
  using booksD(2-5) [OF assms(1)] assms(2) wf_close [OF booksD(1) [OF assms(1)]]
  by (intro booksI) (simp_all add: held_channel)

lemma books_evolve:
  assumes "books C sha256 d x L" "lg_channels L cid = Some ch" "channel_wf C sha256 cid ch'"
    "channel_evolves ch ch'"
  shows "books C sha256 d x (lput_channel cid (Some ch') L)"
proof -
  have "channel_ok C sha256 L cid ch'"
    using assms by (auto simp: books_def ledger_wf_def channel_ok_def channel_evolves_def)
  moreover have "channelled_for c ch' = channelled_for c ch" for c
    using assms(4) by (simp add: channelled_for_def channel_evolves_def)
  ultimately show ?thesis
    using books_channel [OF assms(1), of cid ch'] assms(2) by simp
qed

lemma books_reservation:
  assumes "books C sha256 d x L" "reservation_ok L r"
  shows "books C sha256 (\<lambda>c. d c - int (reserved_for c r) +
      (case aget (lg_reservations L) k of None \<Rightarrow> 0 | Some r0 \<Rightarrow> int (reserved_for c r0))) x
    (lput_reservation k r L)"
  using booksD(2-5) [OF assms(1)] wf_reservation [OF booksD(1) [OF assms(1)] assms(2)]
  by (intro booksI) (simp_all add: held_reservation)

lemma books_credit:
  assumes "books C sha256 d x L" "credit_ok p c"
  shows "books C sha256 d (x - int (unat (pc_credited_amount c)) + (case aget (lg_credits L) p of
      None \<Rightarrow> 0 | Some c0 \<Rightarrow> int (unat (pc_credited_amount c0)))) (lput_credit p c L)"
proof (rule booksI)
  show "int (asum (unat \<circ> pc_credited_amount) (lg_credits (lput_credit p c L))) +
      (x - int (unat (pc_credited_amount c)) + (case aget (lg_credits L) p of
        None \<Rightarrow> 0 | Some c0 \<Rightarrow> int (unat (pc_credited_amount c0))))
    \<le> int (asum spent (lg_balances (lput_credit p c L)))"
    unfolding credits_put using booksD(3) [OF assms(1)] by simp
qed (rule wf_credit [OF booksD(1) [OF assms(1)] assms(2)], use booksD(2) [OF assms(1)] in simp)


section \<open>Moves of a client's money\<close>

lemma with_balance_Some:
  "with_balance c f k L = Some L' \<longleftrightarrow>
    (\<exists>b b'. aget (lg_balances L) c = Some b \<and> f b = Some b' \<and> k (lput_balance c b' L) = Some L')"
  by (auto simp: with_balance_def split: option.splits)

lemma balance_owned:
  "books C sha256 d x L \<Longrightarrow> aget (lg_balances L) c = Some b \<Longrightarrow> owned b \<le> unat (cb_total_deposited b)"
  by (auto simp: books_def ledger_wf_def)

lemma books_move:
  assumes "books C sha256 d x L" "aget (lg_balances L) c = Some b"
    "owned b \<le> owned b' + e" "owned b' + e \<le> owned b"
    "cb_total_deposited b' = cb_total_deposited b"
  shows "books C sha256 (d(c := d c + int (unat (cb_locked b')) - int (unat (cb_locked b)))) (x + int e)
    (lput_balance c b' L)"
proof -
  have "owned b \<le> unat (cb_total_deposited b)"
    by (rule balance_owned [OF assms(1,2)])
  moreover have "balance_in L c = b"
    using assms(2) by (simp add: balance_in_def)
  moreover have "owned b = owned b' + e"
    using assms(3,4) by simp
  ultimately show ?thesis
    using books_balance [OF assms(1), of b' c] assms(5) by (simp add: spent_def)
qed

lemma books_lock:
  assumes "books C sha256 d x L" "aget (lg_balances L) c = Some b" "lock a b = Some b'"
  shows "books C sha256 (d(c := d c + int (unat a))) x (lput_balance c b' L)"
proof -
  obtain l where l: "a \<le> cb_free b" "checked_add (cb_locked b) a = Some l"
    and b': "b' = b\<lparr>cb_free := cb_free b - a, cb_locked := l\<rparr>"
    using assms(3) by (auto simp: lock_def split: if_splits)
  show ?thesis
    using books_move [OF assms(1,2), of b' 0] unat_checked_add [OF l(2)] l(1)
    by (simp add: b' owned_def unat_sub_le word_le_nat_alt)
qed

lemma books_unlock:
  assumes "books C sha256 d x L" "aget (lg_balances L) c = Some b" "unlock a b = Some b'"
  shows "books C sha256 (d(c := d c - int (unat a))) x (lput_balance c b' L)"
proof -
  obtain f where f: "a \<le> cb_locked b" "checked_add (cb_free b) a = Some f"
    and b': "b' = b\<lparr>cb_locked := cb_locked b - a, cb_free := f\<rparr>"
    using assms(3) by (auto simp: unlock_def split: if_splits)
  show ?thesis
    using books_move [OF assms(1,2), of b' 0] unat_checked_add [OF f(2)] f(1)
    by (simp add: b' owned_def unat_sub_le word_le_nat_alt of_nat_diff)
qed

lemma books_spend:
  assumes "books C sha256 d x L" "aget (lg_balances L) c = Some b" "spend a b = Some b'"
  shows "books C sha256 (d(c := d c - int (unat a))) (x + int (unat a)) (lput_balance c b' L)"
proof -
  have a: "a \<le> cb_locked b" and b': "b' = b\<lparr>cb_locked := cb_locked b - a\<rparr>"
    using assms(3) by (auto simp: spend_def split: if_splits)
  show ?thesis
    using books_move [OF assms(1,2), of b' "unat a"] a
    by (simp add: b' owned_def unat_sub_le word_le_nat_alt of_nat_diff)
qed

lemma books_cong: "books C sha256 d x L \<Longrightarrow> d = d' \<Longrightarrow> x = x' \<Longrightarrow> books C sha256 d' x' L"
  by simp

section \<open>Entries keep the invariant\<close>

lemma inv_deposit:
  assumes "ledger_inv C sha256 L" "lstep C sha256 (DepositApplied c a slot sig) L = Some L'"
  shows "ledger_inv C sha256 L'"
proof -
  define b where "b = balance_in L c"
  obtain f t where f: "checked_add (cb_free b) a = Some f" "checked_add (cb_total_deposited b) a = Some t"
    and L': "L' = lput_balance c (b\<lparr>cb_free := f, cb_total_deposited := t\<rparr>) L"
    using assms(2) by (auto simp: b_def balance_in_def Let_def split: option.splits)
  have "owned b \<le> unat (cb_total_deposited b)"
    using balance_owned [of C sha256 _ _ L c] assms(1)
    by (cases "aget (lg_balances L) c") (auto simp: b_def balance_in_def ledger_inv_def)
  then show ?thesis
    using books_balance [of C sha256 _ _ L "b\<lparr>cb_free := f, cb_total_deposited := t\<rparr>" c] assms(1)
      f [THEN unat_checked_add]
    unfolding ledger_inv_def L' b_def [symmetric]
    by (auto simp: owned_def spent_def fun_upd_idem dest!: meta_spec)
qed

lemma inv_withdraw_authorized:
  assumes "ledger_inv C sha256 L" "lstep C sha256 (WithdrawAuthorized w) L = Some L'"
  shows "ledger_inv C sha256 L'"
proof -
  obtain b b' where n: "lg_pending L (pw_withdraw_nonce w) = None"
    and b: "aget (lg_balances L) (pw_client w) = Some b" "lock (pw_amount w) b = Some b'"
    and L': "L' = lput_pending (pw_withdraw_nonce w) (Some w) (lput_balance (pw_client w) b' L)"
    using assms(2) by (auto simp: with_balance_Some split: if_splits)
  show ?thesis
    using books_pending [OF books_lock [OF assms(1) [unfolded ledger_inv_def] b], of "pw_withdraw_nonce w" w] n
    unfolding ledger_inv_def L'
    by (auto elim!: books_cong simp: pending_for_def)
qed

lemma inv_withdraw_applied:
  assumes "ledger_inv C sha256 L" "lstep C sha256 (WithdrawApplied c rcp a n e slot sig) L = Some L'"
  shows "ledger_inv C sha256 L'"
proof -
  obtain w b t where w: "lg_pending L n = Some w" "pw_client w = c" "pw_amount w = a"
    and b: "aget (lg_balances L) c = Some b" "a \<le> cb_locked b" "checked_add (cb_total_withdrawn b) a = Some t"
    and L': "L' = lput_pending n None (lput_balance c (b\<lparr>cb_locked := cb_locked b - a, cb_total_withdrawn := t\<rparr>) L)"
    using assms(2) by (auto simp: with_balance_Some split: if_splits option.splits)
  have "books C sha256 ((\<lambda>_. 0)(c := - int (unat a))) 0
      (lput_balance c (b\<lparr>cb_locked := cb_locked b - a, cb_total_withdrawn := t\<rparr>) L)"
    using books_move [OF assms(1) [unfolded ledger_inv_def] b(1),
        of "b\<lparr>cb_locked := cb_locked b - a, cb_total_withdrawn := t\<rparr>" 0] unat_checked_add [OF b(3)] b(2)
    by (simp add: owned_def unat_sub_le word_le_nat_alt of_nat_diff)
  from books_unpending [OF this, of n w] show ?thesis
    using w unfolding ledger_inv_def L' by (auto elim!: books_cong simp: pending_for_def)
qed

lemma inv_withdraw_expired:
  assumes "ledger_inv C sha256 L" "lstep C sha256 (WithdrawExpired c n) L = Some L'"
  shows "ledger_inv C sha256 L'"
proof -
  obtain w b b' where w: "lg_pending L n = Some w" "pw_client w = c"
    and b: "aget (lg_balances L) c = Some b" "unlock (pw_amount w) b = Some b'"
    and L': "L' = lput_pending n None (lput_balance c b' L)"
    using assms(2) by (auto simp: with_balance_Some split: if_splits option.splits)
  show ?thesis
    using books_unpending [OF books_unlock [OF assms(1) [unfolded ledger_inv_def] b], of n w] w
    unfolding ledger_inv_def L' by (auto elim!: books_cong simp: pending_for_def)
qed

lemma inv_release:
  assumes "ledger_inv C sha256 L" "lrelease vid status L = Some L'" "status \<noteq> Reserved"
  shows "ledger_inv C sha256 L'"
proof -
  obtain r b b' where r: "aget (lg_reservations L) vid = Some r" "rv_status r = Reserved"
    and b: "aget (lg_balances L) (rv_client r) = Some b" "unlock (rv_amount r) b = Some b'"
    and L': "L' = lput_reservation vid (r\<lparr>rv_status := status\<rparr>) (lput_balance (rv_client r) b' L)"
    using assms(2) by (auto simp: lrelease_def with_balance_Some split: if_splits option.splits)
  have "reservation_ok (lput_balance (rv_client r) b' L) (r\<lparr>rv_status := status\<rparr>)"
    using assms(1,3) r by (auto simp: ledger_inv_def books_def ledger_wf_def reservation_ok_def)
  from books_reservation [OF books_unlock [OF assms(1) [unfolded ledger_inv_def] b] this, of vid]
  show ?thesis
    using r assms(3) unfolding ledger_inv_def L' by (auto elim!: books_cong simp: reserved_for_def)
qed

text \<open>The rest of the state does not matter.\<close>
lemma books_frame:
  assumes "lg_balances L' = lg_balances L" "lg_reservations L' = lg_reservations L"
    "lg_credits L' = lg_credits L" "\<And>p. known_provider L p \<Longrightarrow> known_provider L' p"
    "lg_pending L' = lg_pending L" "lg_channels L' = lg_channels L"
    and "books C sha256 d x L"
  shows "books C sha256 d x L'"
proof -
  have "held L' = held L" "balance_in L' = balance_in L" "known_client L' = known_client L"
    by (rule ext, simp add: held_def balance_in_def known_client_def assms(1-3,5,6))+
  moreover from this have "ledger_wf C sha256 L'"
    using booksD(1) [OF assms(7)] assms(1-6) by (auto simp: ledger_wf_def record_ok_defs)
  ultimately show ?thesis
    using assms by (simp add: books_def)
qed

lemma inv_reservation_created:
  assumes "ledger_inv C sha256 L"
    "lstep C sha256 (ReservationCreated vid res pid c p a rh dh ct et) L = Some L'"
  shows "ledger_inv C sha256 L'"
proof -
  obtain b b' rs h1 h2 t1 t2 where vid: "aget (lg_reservations L) vid = None" "known_provider L p" "0 < a"
    and b: "aget (lg_balances L) c = Some b" "lock a b = Some b'"
    and L'': "L' = (lput_reservation vid (new_reservation vid rs pid c p a h1 h2 t1 t2) (lput_balance c b' L))
      \<lparr>lg_base := (lg_base (lput_reservation vid (new_reservation vid rs pid c p a h1 h2 t1 t2)
          (lput_balance c b' L)))\<lparr>es_payment_id_index :=
        aput pid vid (es_payment_id_index (lg_base (lput_balance c b' L)))\<rparr>\<rparr>"
    using assms(2) by (auto simp: with_balance_Some known_provider_def split: if_splits option.splits)
  define r where "r = new_reservation vid rs pid c p a h1 h2 t1 t2"
  have r: "rv_client r = c" "rv_provider_id r = p" "rv_amount r = a" "rv_status r = Reserved"
      "rv_settlement_id r = None"
    by (simp_all add: r_def new_reservation_def)
  note L' = L'' [folded r_def]
  have "reservation_ok (lput_balance c b' L) r"
    using vid r by (simp add: reservation_ok_def)
  from books_reservation [OF books_lock [OF assms(1) [unfolded ledger_inv_def] b] this, of vid]
  have "ledger_inv C sha256 (lput_reservation vid r (lput_balance c b' L))"
    using vid r unfolding ledger_inv_def by (auto elim!: books_cong simp: reserved_for_def)
  then show ?thesis
    unfolding ledger_inv_def by (rule books_frame [rotated 6]) (simp_all add: L' known_provider_def)
qed

lemma books_credit_provider:
  assumes "books C sha256 d x L" "credit_provider p a sid L = Some L'" "0 < a"
  shows "books C sha256 d (x - int (unat a)) L'"
proof -
  obtain reg credited where reg: "aget (lg_providers L) p = Some reg"
    and credited: "checked_add (pc_credited_amount (credit_or_new (lg_base L) p
        (rg_settlement_token_account reg) 0)) a = Some credited"
    and L': "L' = lput_credit p (credit_or_new (lg_base L) p (rg_settlement_token_account reg) 0
      \<lparr>pc_credited_amount := credited, pc_settlement_ids :=
        pc_settlement_ids (credit_or_new (lg_base L) p (rg_settlement_token_account reg) 0) @ [sid]\<rparr>) L"
    using assms(2) by (auto simp: credit_provider_def Let_def split: option.splits if_splits)
  let ?c = "credit_or_new (lg_base L) p (rg_settlement_token_account reg) 0
    \<lparr>pc_credited_amount := credited, pc_settlement_ids :=
        pc_settlement_ids (credit_or_new (lg_base L) p (rg_settlement_token_account reg) 0) @ [sid]\<rparr>"
  have "0 < credited"
    using unat_checked_add [OF credited] assms(3) by (auto simp: word_less_nat_alt)
  then have "credit_ok p ?c"
    using assms(1) by (auto simp: books_def ledger_wf_def credit_ok_def credit_or_new_def split: option.splits)
  from books_credit [OF assms(1) this] show ?thesis
    unfolding L' using unat_checked_add [OF credited]
    by (elim books_cong) (auto simp: credit_or_new_def split: option.splits)
qed

lemma lsettle_Some:
  assumes "lsettle sid vid p a t L = Some L'"
  obtains r reg b b' L2 where "aget (lg_reservations L) vid = Some r" "aget (lg_providers L) p = Some reg"
    "rv_status r = Reserved" "rv_provider_id r = p" "rv_amount r = a"
    "aget (es_settlement_history (lg_base L)) sid = None"
    "aget (lg_balances L) (rv_client r) = Some b" "spend a b = Some b'"
    "credit_provider p a sid (lput_balance (rv_client r) b' L) = Some L2"
    "L' = lput_reservation vid (r\<lparr>rv_status := SettledOffchain,
        rv_settlement_id := Some sid, rv_settled_at := Some t\<rparr>)
      (L2\<lparr>lg_base := (lg_base L2)\<lparr>es_settlement_history := aput sid
        \<lparr>sr_settlement_id = sid, sr_client = rv_client r, sr_provider = rg_settlement_token_account reg,
         sr_amount = a, sr_timestamp = t\<rparr> (es_settlement_history (lg_base L2))\<rparr>\<rparr>)"
  using assms that
  by (auto simp: lsettle_def with_balance_Some split: if_splits option.splits)

lemma inv_settle:
  assumes "ledger_inv C sha256 L" "lsettle sid vid p a t L = Some L'"
  shows "ledger_inv C sha256 L'"
proof -
  obtain r b b' L2 h where r: "aget (lg_reservations L) vid = Some r" "rv_status r = Reserved"
      "rv_provider_id r = p" "rv_amount r = a"
    and b: "aget (lg_balances L) (rv_client r) = Some b" "spend a b = Some b'"
    and L2: "credit_provider p a sid (lput_balance (rv_client r) b' L) = Some L2"
    and h: "L' = lput_reservation vid (r\<lparr>rv_status := SettledOffchain,
                rv_settlement_id := Some sid, rv_settled_at := Some t\<rparr>)
              (L2\<lparr>lg_base := (lg_base L2)\<lparr>es_settlement_history := h\<rparr>\<rparr>)"
    by (rule lsettle_Some [OF assms(2)]) (rule that, assumption+)
  have ok: "reservation_ok L r"
    using assms(1) r by (auto simp: ledger_inv_def books_def ledger_wf_def)
  have "books C sha256 ((\<lambda>_. 0)(rv_client r := - int (unat a))) 0 L2"
    using books_credit_provider [OF books_spend [OF assms(1) [unfolded ledger_inv_def] b] L2] ok r
    by (auto elim!: books_cong simp: reservation_ok_def)
  then have L3: "books C sha256 ((\<lambda>_. 0)(rv_client r := - int (unat a))) 0
      (L2\<lparr>lg_base := (lg_base L2)\<lparr>es_settlement_history := h\<rparr>\<rparr>)" (is "books _ _ _ _ ?L3")
    by (rule books_frame [rotated 6]) (simp_all add: known_provider_def)
  have same: "lg_reservations L2 = lg_reservations L" "known_client L2 (rv_client r)" "known_provider L2 p"
    using L2 ok r by (auto simp: credit_provider_def Let_def reservation_ok_def split: option.splits if_splits)
  then have "reservation_ok ?L3 (r\<lparr>rv_status := SettledOffchain, rv_settlement_id := Some sid,
      rv_settled_at := Some t\<rparr>)"
    using ok r by (simp add: reservation_ok_def known_client_def known_provider_def)
  from books_reservation [OF L3 this, of vid] show ?thesis
    using r same unfolding ledger_inv_def h by (auto elim!: books_cong simp: reserved_for_def)
qed

lemma inv_provider_registered:
  assumes "ledger_inv C sha256 L" "lstep C sha256 (ProviderRegistered reg) L = Some L'"
  shows "ledger_inv C sha256 L'"
proof -
  have "L' = L\<lparr>lg_base := (lg_base L)\<lparr>es_providers := aput (rg_provider_id reg) reg (lg_providers L)\<rparr>\<rparr>"
    using assms(2) by (simp split: if_splits)
  then show ?thesis
    using assms(1) unfolding ledger_inv_def
    by (intro books_frame [OF _ _ _ _ _ _ assms(1) [unfolded ledger_inv_def]])
      (simp_all add: known_provider_def)
qed

section \<open>Channels\<close>

lemma inv_open:
  assumes "ledger_inv C sha256 L" "lopen cid c p a L = Some L'"
  shows "ledger_inv C sha256 L'"
proof -
  let ?ch = "\<lparr>ch_channel_id = cid, ch_client = c, ch_provider_id = p,
        ch_balance = \<lparr>client_free = a, client_locked = 0, provider_earned = 0\<rparr>,
        ch_status = Open, ch_nonce = 0, ch_created_at = 0, ch_updated_at = 0,
        ch_used_request_ids = {}, ch_active_request = None\<rparr>"
  obtain b b' where cid: "lg_channels L cid = None" "known_provider L p"
    and b: "aget (lg_balances L) c = Some b" "lock a b = Some b'"
    and L': "L' = lput_channel cid (Some ?ch) (lput_balance c b' L)"
    using assms(2) by (auto simp: lopen_def with_balance_Some known_provider_def split: if_splits)
  have "channel_ok C sha256 (lput_balance c b' L) cid ?ch"
    using cid unat_less_pow [of a] by (simp add: channel_ok_def channel_wf_def channel_total_def)
  from books_channel [OF books_lock [OF assms(1) [unfolded ledger_inv_def] b] this] show ?thesis
    using cid unfolding ledger_inv_def L'
    by (auto elim!: books_cong simp: channelled_for_def channel_total_def)
qed

lemma inv_with_channel:
  assumes "ledger_inv C sha256 L" "with_channel cid f L = Some L'"
    and step: "\<And>ch ch'. channel_wf C sha256 cid ch \<Longrightarrow> f ch = Some ch' \<Longrightarrow>
      channel_wf C sha256 cid ch' \<and> channel_evolves ch ch'"
  shows "ledger_inv C sha256 L'"
proof -
  obtain ch ch' where ch: "lg_channels L cid = Some ch" "f ch = Some ch'"
    and L': "L' = lput_channel cid (Some ch') L"
    using assms(2) by (auto simp: with_channel_def split: option.splits)
  have "channel_wf C sha256 cid ch"
    using assms(1) ch(1) by (auto simp: ledger_inv_def books_def ledger_wf_def channel_ok_def)
  with step [of ch ch'] ch show ?thesis
    using books_evolve [of C sha256 _ _ L cid ch ch'] assms(1) unfolding ledger_inv_def L' by blast
qed

lemma lch_submit_evolves:
  assumes "channel_wf C sha256 cid ch" "lch_submit rid a h ch = Some ch'"
  shows "channel_wf C sha256 cid ch' \<and> channel_evolves ch ch'"
  using assms
  by (auto simp: lch_submit_def Let_def channel_wf_def channel_evolves_def channel_total_def
      request_locked_def request_undelivered_def unat_sub_le word_le_nat_alt split: if_splits option.splits)

lemma lch_deliver_evolves:
  assumes "channel_wf C sha256 cid ch" "lch_deliver C sha256 tb pre enc rh pk ch = Some ch'"
  shows "channel_wf C sha256 cid ch' \<and> channel_evolves ch ch'"
proof -
  obtain r T n where "ch_active_request ch = Some r" "decompress C tb = Some T" "ch_status ch = Locked"
      "pre_verify C pk (build_payment_message sha256 (ch_channel_id ch)
        (cr_request_id r) (cr_amount r) (cr_request_hash r)) T pre"
    and "ch' = ch\<lparr>ch_active_request := Some (r\<lparr>cr_provider_pubkey := Some pk,
             cr_adaptor_point := Some tb, cr_provider_pre_sig := Some pre,
             cr_encrypted_result := Some enc, cr_result_hash := Some rh\<rparr>),
           ch_status := Pending, ch_nonce := n\<rparr>"
    using assms(2) by (auto simp: lch_deliver_def split: if_splits option.splits)
  with assms(1) show ?thesis
    by (auto simp: channel_wf_def channel_evolves_def channel_total_def request_locked_def
        request_delivered_def)
qed

lemma lch_finalize_evolves:
  assumes "channel_wf C sha256 cid ch" "lch_finalize rid a ch = Some ch'"
  shows "channel_wf C sha256 cid ch' \<and> channel_evolves ch ch'"
proof -
  obtain r l e n where r: "ch_active_request ch = Some r" "ch_status ch = Pending" "cr_amount r = a"
    and l: "checked_sub (client_locked (ch_balance ch)) a = Some l"
      "checked_add (provider_earned (ch_balance ch)) a = Some e"
    and ch': "ch' = ch\<lparr>ch_balance := (ch_balance ch)\<lparr>client_locked := l, provider_earned := e\<rparr>,
           ch_status := Open, ch_active_request := None, ch_nonce := n\<rparr>"
    using assms(2) by (auto simp: lch_finalize_def Let_def split: if_splits option.splits)
  have "client_locked (ch_balance ch) = a"
    using assms(1) r by (simp add: channel_wf_def request_locked_def)
  then show ?thesis
    using assms(1) r unat_checked_sub [OF l(1)] unat_checked_add [OF l(2)] checked_add_le [OF l(2)]
    by (auto simp: ch' channel_wf_def channel_evolves_def channel_total_def unat_eq_zero)
qed

lemma lch_expire_evolves:
  assumes "channel_wf C sha256 cid ch" "lch_expire rid a ch = Some ch'"
  shows "channel_wf C sha256 cid ch' \<and> channel_evolves ch ch'"
proof -
  obtain r l f n where r: "ch_active_request ch = Some r" "ch_status ch = Locked \<or> ch_status ch = Pending"
      "cr_amount r = a"
    and l: "checked_sub (client_locked (ch_balance ch)) a = Some l"
      "checked_add (client_free (ch_balance ch)) a = Some f"
    and ch': "ch' = ch\<lparr>ch_balance := (ch_balance ch)\<lparr>client_locked := l, client_free := f\<rparr>,
           ch_status := Open, ch_active_request := None, ch_nonce := n\<rparr>"
    using assms(2) by (auto simp: lch_expire_def Let_def split: if_splits option.splits)
  have "client_locked (ch_balance ch) = a"
    using assms(1) r by (auto simp: channel_wf_def request_locked_def)
  then show ?thesis
    using assms(1) r unat_checked_sub [OF l(1)] unat_checked_add [OF l(2)]
    by (auto simp: ch' channel_wf_def channel_evolves_def channel_total_def unat_eq_zero)
qed

lemma inv_close:
  assumes "ledger_inv C sha256 L" "lclose cid sid L = Some L'"
  shows "ledger_inv C sha256 L'"
proof -
  obtain ch where ch: "lg_channels L cid = Some ch"
    using assms(2) by (auto simp: lclose_def split: option.splits)
  define rf e where "rf = client_free (ch_balance ch)" and "e = provider_earned (ch_balance ch)"
  obtain amount b f where st: "ch_status ch = Open" and amount: "checked_add rf e = Some amount"
    and b: "aget (lg_balances L) (ch_client ch) = Some b" "amount \<le> cb_locked b"
      "checked_add (cb_free b) rf = Some f"
    and L': "(let L2 = lput_channel cid None (lput_balance (ch_client ch)
        (b\<lparr>cb_locked := cb_locked b - amount, cb_free := f\<rparr>) L)
      in if e > 0
         then (case sid of None \<Rightarrow> None | Some s \<Rightarrow> credit_provider (ch_provider_id ch) e s L2)
         else Some L2) = Some L'"
    using assms(2) ch
    by (auto simp: lclose_def Let_def with_balance_Some rf_def e_def split: if_splits option.splits)
  let ?b = "b\<lparr>cb_locked := cb_locked b - amount, cb_free := f\<rparr>"
  have "channel_wf C sha256 cid ch"
    using assms(1) ch by (auto simp: ledger_inv_def books_def ledger_wf_def channel_ok_def)
  then have "client_locked (ch_balance ch) = 0"
    using st by (simp add: channel_wf_def)
  then have total: "channel_total ch = unat amount" and amt: "unat amount = unat rf + unat e"
    using unat_checked_add [OF amount] by (simp_all add: channel_total_def rf_def e_def)
  have "books C sha256 ((\<lambda>_. 0)(ch_client ch := - int (unat amount))) (int (unat e)) (lput_balance (ch_client ch) ?b L)"
    using books_move [OF assms(1) [unfolded ledger_inv_def] b(1), of ?b "unat e"]
      unat_checked_add [OF b(3)] b(2) amt
    by (simp add: owned_def unat_sub_le word_le_nat_alt of_nat_diff)
  from books_close [OF this, of cid ch]
  have L2: "books C sha256 (\<lambda>_. 0) (int (unat e)) (lput_channel cid None (lput_balance (ch_client ch) ?b L))"
    using ch total by (auto elim!: books_cong simp: channelled_for_def)
  show ?thesis
  proof (cases "e > 0")
    case True
    with L' obtain s where "credit_provider (ch_provider_id ch) e s
        (lput_channel cid None (lput_balance (ch_client ch) ?b L)) = Some L'"
      by (auto simp: Let_def split: option.splits)
    from books_credit_provider [OF L2 this True] show ?thesis
      by (simp add: ledger_inv_def)
  next
    case False
    then have "e = 0" by (simp add: word_gt_0)
    then show ?thesis
      using L2 L' by (auto simp: Let_def ledger_inv_def)
  qed
qed

section \<open>Confirmed chunks\<close>

text \<open>In the middle of the confirmation loop only the credits of affected providers may be empty.\<close>
definition confirming :: "ledger \<Rightarrow> VaultState \<times> string list \<Rightarrow> bool" where
  "confirming L = (\<lambda>(st, affected).
    es_client_balances st = lg_balances L \<and> es_providers st = lg_providers L \<and>
    adistinct (es_reservations st) \<and> adistinct (es_provider_credits st) \<and>
    (\<forall>c. asum (reserved_for c) (es_reservations st) = asum (reserved_for c) (lg_reservations L)) \<and>
    (\<forall>k r. aget (es_reservations st) k = Some r \<longrightarrow> reservation_ok L r) \<and>
    (\<forall>p c. aget (es_provider_credits st) p = Some c \<longrightarrow>
      pc_provider_id c = p \<and> (p \<notin> set affected \<longrightarrow> credit_ok p c)) \<and>
    asum (unat \<circ> pc_credited_amount) (es_provider_credits st) \<le>
      asum (unat \<circ> pc_credited_amount) (lg_credits L))"

lemma find_amap:
  assumes "adistinct m" "find P m = Some (k, v)"
  shows "aget m k = Some v" "P (k, v)"
  using assms in_set_aget [of m k v] by (auto simp: find_Some_iff)

lemma asum_aput_le: "aget m k = Some w \<Longrightarrow> f v \<le> f w \<Longrightarrow> asum f (aput k v m) \<le> asum f m"
  using asum_aput [of m k w f v] by simp

lemma confirming_credit:
  assumes "confirming L (st, A)" "aget (es_provider_credits st) p = Some c" "pc_provider_id c' = p"
    "unat (pc_credited_amount c') \<le> unat (pc_credited_amount c)"
  shows "confirming L (st\<lparr>es_provider_credits := aput p c' (es_provider_credits st)\<rparr>, p # A)"
proof -
  have "asum (unat \<circ> pc_credited_amount) (aput p c' (es_provider_credits st)) \<le>
      asum (unat \<circ> pc_credited_amount) (es_provider_credits st)"
    using assms(2,4) by (intro asum_aput_le) simp_all
  then show ?thesis
    using assms(1,3) by (auto simp: confirming_def)
qed

lemma confirming_reservation:
  assumes "confirming L (st, A)" "aget (es_reservations st) k = Some r" "rv_settlement_id r = Some sid"
  shows "confirming L (st\<lparr>es_reservations := aput k (r\<lparr>rv_status := BatchedOnchain\<rparr>) (es_reservations st)\<rparr>, A)"
proof -
  have ok: "reservation_ok L r"
    using assms by (auto simp: confirming_def)
  then have "rv_status r \<noteq> Reserved"
    using assms(3) by (auto simp: reservation_ok_def)
  then have "asum (reserved_for c) (aput k (r\<lparr>rv_status := BatchedOnchain\<rparr>) (es_reservations st)) =
      asum (reserved_for c) (es_reservations st)" for c
    using asum_aput [OF assms(2), of "reserved_for c" "r\<lparr>rv_status := BatchedOnchain\<rparr>"]
    by (simp add: reserved_for_def)
  moreover have "reservation_ok L (r\<lparr>rv_status := BatchedOnchain\<rparr>)"
    using ok by (simp add: reservation_ok_def)
  ultimately show ?thesis
    using assms(1) by (auto simp: confirming_def)
qed

lemma confirming_weaken: "confirming L (st, A) \<Longrightarrow> confirming L (st, p # A)"
  by (auto simp: confirming_def)

lemma confirming_history:
  "confirming L (st, A) \<Longrightarrow> confirming L (st\<lparr>es_settlement_history := h, es_settlement_batches := bs\<rparr>, A)"
  by (simp add: confirming_def)

lemma confirm_settlement_confirming:
  assumes "confirming L (st, A)"
  shows "confirming L (confirm_settlement b tx (st, A) sid)"
proof -
  define st1 where "st1 = st\<lparr>es_settlement_history := adel sid (es_settlement_history st),
                 es_settlement_batches := aput sid
                   \<lparr>bi_batch_id = b, bi_tx_signature = tx\<rparr> (es_settlement_batches st)\<rparr>"
  have st1: "confirming L (st1, A)"
    unfolding st1_def by (rule confirming_history [OF assms])
  then have dist: "adistinct (es_reservations st1)" "adistinct (es_provider_credits st1)"
    by (simp_all add: confirming_def)
  show ?thesis
  proof (cases "reservation_of sid st1")
    case (Some vr)
    obtain k r where vr: "vr = (k, r)" by (cases vr)
    have r: "aget (es_reservations st1) k = Some r" "rv_settlement_id r = Some sid"
      using find_amap [OF dist(1), of _ k r] Some by (auto simp: reservation_of_def vr)
    show ?thesis
    proof (cases "aget (es_provider_credits st1) (rv_provider_id r)")
      case None
      then show ?thesis
        using confirming_reservation [OF confirming_weaken [OF st1] r] Some
        by (simp add: confirm_settlement_def Let_def vr flip: st1_def)
    next
      case (Some c)
      let ?c = "remove_settlement_id sid (c\<lparr>pc_credited_amount := saturating_sub (pc_credited_amount c) (rv_amount r)\<rparr>)"
      have "pc_provider_id c = rv_provider_id r"
        using st1 Some by (auto simp: confirming_def)
      then have "confirming L (st1\<lparr>es_provider_credits := aput (rv_provider_id r) ?c (es_provider_credits st1)\<rparr>,
          rv_provider_id r # A)"
        by (intro confirming_credit [OF st1 Some])
          (simp_all add: remove_settlement_id_def unat_saturating_sub)
      from confirming_reservation [OF this, of k r sid] show ?thesis
        using Some r \<open>reservation_of sid st1 = Some vr\<close>
        by (simp add: confirm_settlement_def Let_def vr flip: st1_def)
    qed
  next
    case None
    show ?thesis
    proof (cases "find (\<lambda>(p, credit). sid \<in> set (pc_settlement_ids credit)) (es_provider_credits st1)")
      case None
      then show ?thesis
        using \<open>reservation_of sid st1 = None\<close> st1
        by (simp add: confirm_settlement_def Let_def flip: st1_def)
    next
      case (Some pc)
      obtain p c where pc: "pc = (p, c)" by (cases pc)
      have c: "aget (es_provider_credits st1) p = Some c"
        using find_amap [OF dist(2), of _ p c] Some by (auto simp: pc)
      moreover from this have "pc_provider_id c = p"
        using st1 by (auto simp: confirming_def)
      ultimately show ?thesis
        using confirming_credit [OF st1 c, of "remove_settlement_id sid c"] Some
          \<open>reservation_of sid st1 = None\<close>
        by (simp add: confirm_settlement_def Let_def pc remove_settlement_id_def flip: st1_def)
    qed
  qed
qed

lemma confirm_all_confirming:
  "confirming L (st, A) \<Longrightarrow> confirming L (foldl (confirm_settlement b tx) (st, A) sids)"
proof (induction sids arbitrary: st A)
  case (Cons sid sids)
  obtain st' A' where "confirm_settlement b tx (st, A) sid = (st', A')" by fastforce
  with Cons.IH [of st' A'] confirm_settlement_confirming [OF Cons.prems, of b tx sid] show ?case
    by simp
qed simp

lemma close_credit_confirming:
  assumes "confirming L (st, p # A)"
  shows "confirming L (close_credit p st, A)"
proof (cases "aget (es_provider_credits st) p")
  case None
  then have "credit_ok q c" if "aget (es_provider_credits st) q = Some c" "q \<notin> set A" for q c
    using assms that by (cases "q = p") (auto simp: confirming_def)
  then show ?thesis
    using assms None by (auto simp: close_credit_def confirming_def)
next
  case (Some c)
  have dist: "adistinct (es_provider_credits st)" and c: "pc_provider_id c = p"
    using assms Some by (auto simp: confirming_def)
  show ?thesis
  proof (cases "pc_credited_amount c = 0 \<or> pc_settlement_ids c = []")
    case True
    then have "close_credit p st = st\<lparr>es_provider_credits := adel p (es_provider_credits st)\<rparr>"
      using Some by (simp add: close_credit_def)
    then show ?thesis
      using asum_adel [OF dist Some, of "unat \<circ> pc_credited_amount"] assms
      by (auto simp: confirming_def)
  next
    case False
    then have "close_credit p st = st \<or> (\<exists>t. close_credit p st = st\<lparr>es_provider_credits :=
        aput p (c\<lparr>pc_oldest_credit_at := t\<rparr>) (es_provider_credits st)\<rparr>)"
      using Some by (auto simp: close_credit_def split: option.splits)
    moreover have "asum (unat \<circ> pc_credited_amount) (aput p (c\<lparr>pc_oldest_credit_at := t\<rparr>)
        (es_provider_credits st)) \<le> asum (unat \<circ> pc_credited_amount) (lg_credits L)" for t
      using assms by (intro order_trans [OF asum_aput_le [OF Some]]) (auto simp: confirming_def)
    moreover have "credit_ok q cr" if "aget (es_provider_credits st) q = Some cr" "q \<notin> set A" for q cr
      using assms that False c Some
      by (cases "q = p") (auto simp: confirming_def credit_ok_def word_gt_0)
    moreover have "credit_ok p (c\<lparr>pc_oldest_credit_at := t\<rparr>)" for t
      using False c by (simp add: credit_ok_def word_gt_0)
    ultimately show ?thesis
      using assms c by (auto simp: confirming_def split: if_splits)
  qed
qed

lemma close_credits_confirming:
  "confirming L (st, A) \<Longrightarrow> confirming L (fold close_credit A st, [])"
  by (induction A arbitrary: st) (auto dest: close_credit_confirming)

lemma apply_batch_confirming:
  assumes "ledger_inv C sha256 L"
  shows "confirming L (apply_batch_confirmation sids b tx (lg_base L), [])"
proof -
  have "confirming L (lg_base L, [])"
    using assms by (auto simp: confirming_def ledger_inv_def books_def ledger_wf_def credit_ok_def)
  from confirm_all_confirming [OF this, of b tx sids]
  obtain st A where "foldl (confirm_settlement b tx) (lg_base L, []) sids = (st, A)" "confirming L (st, A)"
    by (metis surj_pair)
  moreover have "confirming L (st, remdups A)" if "confirming L (st, A)" for A
    using that by (simp add: confirming_def)
  ultimately show ?thesis
    using close_credits_confirming [of L st "remdups A"] by (simp add: apply_batch_confirmation_def)
qed

lemma erase_fields [simp]:
  "es_client_balances (erase v) = map_vals erase_balance (es_client_balances v)"
  "es_provider_credits (erase v) = map_vals erase_credit (es_provider_credits v)"
  "es_reservations (erase v) = es_reservations v" "es_providers (erase v) = es_providers v"
  "es_settlement_history (erase v) = es_settlement_history v"
  "es_settlement_batches (erase v) = es_settlement_batches v"
  "es_payment_id_index (erase v) = es_payment_id_index v"
  by (simp_all add: erase_def)

lemma ledger_inv_base_erase:
  assumes "confirming L (st, [])" "ledger_inv C sha256 L"
  shows "ledger_inv C sha256 (L\<lparr>lg_base := erase st\<rparr>)"
proof -
  let ?L = "L\<lparr>lg_base := erase st\<rparr>"
  have st: "es_client_balances st = lg_balances L" "es_providers st = lg_providers L"
    "adistinct (es_reservations st)" "adistinct (es_provider_credits st)"
    "asum (reserved_for c) (es_reservations st) = asum (reserved_for c) (lg_reservations L)"
    "aget (es_reservations st) k = Some r \<Longrightarrow> reservation_ok L r"
    "aget (es_provider_credits st) p = Some cr \<Longrightarrow> credit_ok p cr"
    "asum (unat \<circ> pc_credited_amount) (es_provider_credits st) \<le>
      asum (unat \<circ> pc_credited_amount) (lg_credits L)" for c k r p cr
    using assms(1) by (auto simp: confirming_def)
  have known: "known_client ?L = known_client L" "known_provider ?L = known_provider L"
    by (rule ext, simp add: known_client_def known_provider_def st)+
  have wf: "ledger_wf C sha256 ?L"
    using assms(2) st known
    by (auto simp: ledger_inv_def books_def ledger_wf_def record_ok_defs credit_ok_def)
  have "(unat \<circ> pc_credited_amount) \<circ> erase_credit = unat \<circ> pc_credited_amount" "spent \<circ> erase_balance = spent"
    by auto
  moreover have "cb_locked (balance_in ?L c) = cb_locked (balance_in L c)" "held ?L c = held L c" for c
    by (simp_all add: balance_in_def held_def st split: option.splits)
  ultimately show ?thesis
    using assms(2) wf order_trans [OF st(8)] by (auto simp: ledger_inv_def books_def st(1,2))
qed

theorem ledger_inv_lstep:
  assumes "ledger_inv C sha256 L" "lstep C sha256 e L = Some L'"
  shows "ledger_inv C sha256 L'"
proof (cases e)
  case (BatchConfirmed b tx sids)
  then show ?thesis
    using assms ledger_inv_base_erase [OF apply_batch_confirming [OF assms(1)] assms(1)] by auto
next
  case (ChannelRequestSubmitted cid rid a h)
  then obtain h' where "with_channel cid (lch_submit rid a h') L = Some L'"
    using assms(2) by (auto split: option.splits)
  then show ?thesis
    using inv_with_channel [OF assms(1)] lch_submit_evolves by blast
next
  case (ChannelAdaptorDelivered cid rid tb rp sp enc rh pk)
  then obtain tb' pre' enc' rh' pk' where "with_channel cid (lch_deliver C sha256 tb' pre' enc' rh' pk') L = Some L'"
    using assms(2) by (auto split: option.splits)
  then show ?thesis
    using inv_with_channel [OF assms(1)] lch_deliver_evolves by blast
next
  case (ChannelFinalized cid rid a)
  then have "with_channel cid (lch_finalize rid a) L = Some L'"
    using assms(2) by simp
  then show ?thesis
    using inv_with_channel [OF assms(1)] lch_finalize_evolves by blast
next
  case (ChannelRequestExpired cid rid a)
  then have "with_channel cid (lch_expire rid a) L = Some L'"
    using assms(2) by simp
  then show ?thesis
    using inv_with_channel [OF assms(1)] lch_expire_evolves by blast
qed (use assms in \<open>auto intro: inv_release inv_settle inv_open inv_close inv_deposit
      inv_withdraw_authorized inv_withdraw_applied inv_withdraw_expired inv_reservation_created
      inv_provider_registered simp del: lstep.simps(1-5,11) split: option.splits\<close>)

lemma ledger_inv_lsteps:
  "ledger_inv C sha256 L \<Longrightarrow> lsteps C sha256 es L = Some L' \<Longrightarrow> ledger_inv C sha256 L'"
  by (induction es arbitrary: L) (auto split: option.splits intro: ledger_inv_lstep)

end
