(* ===== verification/Ledger_Refine.thy ===== *)
theory Ledger_Refine
  imports Ledger_Inv
begin

text \<open>
  The critical sections of the handlers implement the ledger: whatever a section does and however
  it ends, short of a panic, the change of the ledger is exactly that of the entries it has appended
  to the log.  An append that fails is rolled back to the same ledger.
\<close>

section \<open>The ledger of an updated state\<close>

lemma ledger_of_sel [simp]:
  "lg_balances (ledger_of v) = map_vals erase_balance (es_client_balances v)"
  "lg_credits (ledger_of v) = map_vals erase_credit (es_provider_credits v)"
  "lg_reservations (ledger_of v) = es_reservations v" "lg_providers (ledger_of v) = es_providers v"
  "es_settlement_history (lg_base (ledger_of v)) = es_settlement_history v"
  "es_payment_id_index (lg_base (ledger_of v)) = es_payment_id_index v"
  "lg_pending (ledger_of v) = aget (es_pending_withdrawals v)"
  "lg_channels (ledger_of v) cid = map_option erase_channel (aget (es_active_channels v) cid)"
  by (simp_all add: ledger_of_def)

lemma ledger_of_balance:
  "m = es_client_balances v \<Longrightarrow> ledger_of (v\<lparr>es_client_balances := aput c b m\<rparr>) = lput_balance c b (ledger_of v)"
  by (simp add: ledger_of_def erase_def lput_balance_def)

lemma ledger_of_reservation:
  "m = es_reservations v \<Longrightarrow> ledger_of (v\<lparr>es_reservations := aput k r m\<rparr>) = lput_reservation k r (ledger_of v)"
  by (simp add: ledger_of_def erase_def lput_reservation_def)

lemma ledger_of_credit:
  "m = es_provider_credits v \<Longrightarrow> ledger_of (v\<lparr>es_provider_credits := aput p c m\<rparr>) = lput_credit p c (ledger_of v)"
  by (simp add: ledger_of_def erase_def lput_credit_def)

lemma ledger_of_pending:
  "m = es_pending_withdrawals v \<Longrightarrow> ledger_of (v\<lparr>es_pending_withdrawals := aput n w m\<rparr>) =
    lput_pending n (Some w) (ledger_of v)"
  "m = es_pending_withdrawals v \<Longrightarrow> ledger_of (v\<lparr>es_pending_withdrawals := adel n m\<rparr>) =
    lput_pending n None (ledger_of v)"
  by (auto simp: ledger_of_def erase_def lput_pending_def fun_eq_iff)

lemma ledger_of_channel:
  "ledger_of (set_channel cid ch v) = lput_channel cid (Some ch) (ledger_of v)"
  "m = es_active_channels v \<Longrightarrow> ledger_of (v\<lparr>es_active_channels := adel cid m\<rparr>) = lput_channel cid None (ledger_of v)"
  by (auto simp: ledger_of_def erase_def lput_channel_def set_channel_def fun_eq_iff)

lemma ledger_of_base:
  "ledger_of (v\<lparr>es_payment_id_index := i\<rparr>) =
    (ledger_of v)\<lparr>lg_base := (lg_base (ledger_of v))\<lparr>es_payment_id_index := i\<rparr>\<rparr>"
  "ledger_of (v\<lparr>es_settlement_history := h\<rparr>) =
    (ledger_of v)\<lparr>lg_base := (lg_base (ledger_of v))\<lparr>es_settlement_history := h\<rparr>\<rparr>"
  "ledger_of (v\<lparr>es_providers := ps\<rparr>) =
    (ledger_of v)\<lparr>lg_base := (lg_base (ledger_of v))\<lparr>es_providers := ps\<rparr>\<rparr>"
  by (simp_all add: ledger_of_def erase_def)

lemma ledger_of_counters [simp]:
  "ledger_of (v\<lparr>es_receipt_nonce := n\<rparr>) = ledger_of v"
  "ledger_of (v\<lparr>es_withdraw_nonce := n\<rparr>) = ledger_of v"
  "ledger_of (v\<lparr>es_last_batch_at := t\<rparr>) = ledger_of v"
  "ledger_of (v\<lparr>es_last_finalized_slot := n\<rparr>) = ledger_of v"
  by (simp_all add: ledger_of_def erase_def)

lemmas ledger_of_simps = ledger_of_balance ledger_of_reservation ledger_of_credit ledger_of_pending
  ledger_of_channel ledger_of_base

text \<open>Writing back what is there changes nothing.\<close>
lemma lput_balance_same:
  "adistinct (lg_balances L) \<Longrightarrow> aget (lg_balances L) c = Some (erase_balance b) \<Longrightarrow> lput_balance c b L = L"
  by (simp add: lput_balance_def aput_same)

lemma lput_channel_same: "lg_channels L cid = map_option erase_channel ch \<Longrightarrow> lput_channel cid ch L = L"
  by (simp add: lput_channel_def fun_upd_idem)

lemma lput_pending_same: "lg_pending L n = w \<Longrightarrow> lput_pending n w L = L"
  by (simp add: lput_pending_def fun_upd_idem)

lemma lput_twice [simp]:
  "lput_balance c b (lput_balance c b' L) = lput_balance c b L"
  "lput_channel cid ch (lput_channel cid ch' L) = lput_channel cid ch L"
  "lput_pending n w (lput_pending n w' L) = lput_pending n w L"
  "lput_credit p cr (lput_credit p cr' L) = lput_credit p cr L"
  by (simp_all add: lput_balance_def lput_channel_def lput_pending_def lput_credit_def aput_aput)

lemma lput_commute:
  "lput_pending n w (lput_balance c b L) = lput_balance c b (lput_pending n w L)"
  "lput_channel cid ch (lput_balance c b L) = lput_balance c b (lput_channel cid ch L)"
  "lput_credit p cr (lput_balance c b L) = lput_balance c b (lput_credit p cr L)"
  "lput_credit p cr (lput_channel cid ch L) = lput_channel cid ch (lput_credit p cr L)"
  "lput_reservation k r (lput_balance c b L) = lput_balance c b (lput_reservation k r L)"
  by (simp_all add: lput_balance_def lput_channel_def lput_pending_def lput_credit_def lput_reservation_def)

section \<open>What has been appended to the log\<close>

definition wal_entries :: "App \<Rightarrow> WalEntry list" where
  "wal_entries app = map wr_entry (wal_stored (app_wal app))"

text \<open>The log has numbers left for \<open>n\<close> more attempts.\<close>
definition room :: "nat \<Rightarrow> App \<Rightarrow> bool" where
  "room n app \<longleftrightarrow> wal_wf (app_wal app) \<and> unat (wal_seqno (app_wal app)) + n < 2 ^ 64"

definition appended :: "nat \<Rightarrow> WalEntry list \<Rightarrow> App \<Rightarrow> App \<Rightarrow> bool" where
  "appended k es app app' \<longleftrightarrow>
    (\<forall>n. room (k + n) app \<longrightarrow> room n app' \<and> wal_entries app' = wal_entries app @ es)"

fun auth_below :: "u64 \<Rightarrow> WalEntry \<Rightarrow> bool" where
  "auth_below n (WithdrawAuthorized w) = (pw_withdraw_nonce w < n)"
| "auth_below n _ = True"

text \<open>At most \<open>k\<close> attempts to append, and a change of the ledger that the appended entries explain.\<close>
definition logs ::
  "('p::ab_group_add, 's::comm_ring_1) curve \<Rightarrow> (bytes \<Rightarrow> bytes) \<Rightarrow> nat \<Rightarrow> App \<Rightarrow> App \<Rightarrow> bool" where
  "logs C sha256 k app app' \<longleftrightarrow>
    es_withdraw_nonce (app_vault app) \<le> es_withdraw_nonce (app_vault app') \<and>
    (\<exists>es. appended k es app app' \<and>
      lsteps C sha256 es (ledger_of (app_vault app)) = Some (ledger_of (app_vault app')) \<and>
      (\<forall>e\<in>set es. auth_below (es_withdraw_nonce (app_vault app')) e))"

definition same_books :: "VaultState \<Rightarrow> VaultState \<Rightarrow> bool" where
  "same_books v v' \<longleftrightarrow> ledger_of v' = ledger_of v \<and> es_withdraw_nonce v' = es_withdraw_nonce v"

lemma room_mono: "room n app \<Longrightarrow> m \<le> n \<Longrightarrow> room m app"
  by (auto simp: room_def)

lemma wal_of_vault [simp]:
  "wal_entries (app\<lparr>app_vault := v\<rparr>) = wal_entries app" "room n (app\<lparr>app_vault := v\<rparr>) = room n app"
  "wal_entries (app\<lparr>app_io := io\<rparr>) = wal_entries app" "room n (app\<lparr>app_io := io\<rparr>) = room n app"
  by (simp_all add: wal_entries_def room_def)

lemma appended_vault [simp]:
  "appended k es (app\<lparr>app_vault := v\<rparr>) app' = appended k es app app'"
  "appended k es app (app'\<lparr>app_vault := v\<rparr>) = appended k es app app'"
  by (simp_all add: appended_def)

lemma appended_refl: "appended 0 [] app app"
  by (simp add: appended_def)

lemma appended_mono:
  assumes "appended k es app app'" "k \<le> l"
  shows "appended l es app app'"
  unfolding appended_def
proof (intro allI impI)
  fix n
  assume "room (l + n) app"
  then have "room (k + (l - k + n)) app"
    using assms(2) by simp
  then have "room (l - k + n) app' \<and> wal_entries app' = wal_entries app @ es"
    using assms(1) unfolding appended_def by blast
  then show "room n app' \<and> wal_entries app' = wal_entries app @ es"
    by (auto intro: room_mono)
qed

lemma appended_trans:
  assumes "appended k es a b" "appended l fs b c"
  shows "appended (k + l) (es @ fs) a c"
  unfolding appended_def
proof (intro allI impI)
  fix n
  assume "room (k + l + n) a"
  then have "room (l + n) b \<and> wal_entries b = wal_entries a @ es"
    using assms(1) by (simp add: appended_def add.assoc)
  then show "room n c \<and> wal_entries c = wal_entries a @ es @ fs"
    using assms(2) unfolding appended_def by fastforce
qed

lemma auth_below_mono: "auth_below n e \<Longrightarrow> n \<le> m \<Longrightarrow> auth_below m e"
  by (cases "(n, e)" rule: auth_below.cases) auto

lemma logs_refl: "logs C sha256 0 app app"
  unfolding logs_def using appended_refl by (intro conjI exI [of _ "[]"]) simp_all

lemma logs_mono: "logs C sha256 k app app' \<Longrightarrow> k \<le> l \<Longrightarrow> logs C sha256 l app app'"
  unfolding logs_def using appended_mono by blast

lemma logs_trans:
  assumes "logs C sha256 k a b" "logs C sha256 l b c"
  shows "logs C sha256 (k + l) a c"
proof -
  obtain es fs where "appended k es a b" "lsteps C sha256 es (ledger_of (app_vault a)) = Some (ledger_of (app_vault b))"
      "\<forall>e\<in>set es. auth_below (es_withdraw_nonce (app_vault b)) e"
    and "appended l fs b c" "lsteps C sha256 fs (ledger_of (app_vault b)) = Some (ledger_of (app_vault c))"
      "\<forall>e\<in>set fs. auth_below (es_withdraw_nonce (app_vault c)) e"
    using assms unfolding logs_def by blast
  moreover have "es_withdraw_nonce (app_vault a) \<le> es_withdraw_nonce (app_vault b)"
      "es_withdraw_nonce (app_vault b) \<le> es_withdraw_nonce (app_vault c)"
    using assms unfolding logs_def by blast+
  ultimately show ?thesis
    unfolding logs_def
    by (intro conjI exI [of _ "es @ fs"])
      (auto simp: lsteps_append intro: appended_trans auth_below_mono order_trans)
qed

text \<open>The two ways a section commits or does not commit a transaction.\<close>
lemma logs_same:
  "appended k [] app app' \<Longrightarrow> same_books (app_vault app) (app_vault app') \<Longrightarrow> logs C sha256 k app app'"
  unfolding logs_def same_books_def by (intro conjI exI [of _ "[]"]) simp_all

lemma logs_commit:
  "appended k [e] app app' \<Longrightarrow> lstep C sha256 e (ledger_of (app_vault app)) = Some (ledger_of (app_vault app')) \<Longrightarrow>
    auth_below (es_withdraw_nonce (app_vault app')) e \<Longrightarrow>
    es_withdraw_nonce (app_vault app) \<le> es_withdraw_nonce (app_vault app') \<Longrightarrow>
    logs C sha256 k app app'"
  unfolding logs_def by (intro conjI exI [of _ "[e]"]) simp_all

section \<open>Calls outside the enclave\<close>

lemma sbindE:
  assumes "sbind m f st = (r, st')"
  obtains x st1 where "m st = (Inr x, st1)" "f x st1 = (r, st')" | e where "m st = (Inl e, st')" "r = Inl e"
  using assms by (cases "m st") (auto simp: sbind_def split: sum.splits)

lemma in_vaultE:
  assumes "in_vault m app = (r, app')"
  obtains v where "m (app_vault app) = (r, v)" "app' = app\<lparr>app_vault := v\<rparr>"
  using assms by (cases "m (app_vault app)") (auto simp: in_vault_def)

lemma room_append:
  assumes "room (Suc n) app" "append_entry ok now e (app_wal app) = (x, w)"
  shows "room n (app\<lparr>app_wal := w\<rparr>) \<and>
    wal_entries (app\<lparr>app_wal := w\<rparr>) = wal_entries app @ (if ok then [e] else [])"
proof -
  have wf: "wal_wf (app_wal app)" and bound: "unat (wal_seqno (app_wal app)) + Suc n < 2 ^ 64"
    using assms(1) by (auto simp: room_def)
  have ne: "wal_seqno (app_wal app) \<noteq> - 1"
    using bound by (auto simp: unsigned_minus_1_eq_mask mask_eq_exp_minus_1)
  then have "unat (wal_seqno (app_wal app) + 1) = Suc (unat (wal_seqno (app_wal app)))"
    using unatSuc [of "wal_seqno (app_wal app)"] by (simp add: add.commute eq_neg_iff_add_eq_0)
  then show ?thesis
    using append_entry_stored [OF wf ne assms(2)] bound by (simp add: room_def wal_entries_def)
qed

text \<open>The outcome of the next call.\<close>
definition io_ok :: "App \<Rightarrow> bool" where
  "io_ok app = (case app_io app of [] \<Rightarrow> True | ok # _ \<Rightarrow> ok)"

lemma io_ok_vault [simp]: "io_ok (app\<lparr>app_vault := v\<rparr>) = io_ok app"
  by (simp add: io_ok_def)

lemma next_io_result:
  assumes "next_io app = (r, app')"
  obtains "r = Inr (io_ok app)" "app_vault app' = app_vault app" "appended 0 [] app app'"
proof (cases "app_io app")
  case Nil
  then have "r = Inr True" "app' = app"
    using assms by (simp_all add: next_io_def)
  then show thesis
    using Nil by (intro that) (simp_all add: appended_refl io_ok_def)
next
  case (Cons ok io)
  then have "r = Inr ok" "app' = app\<lparr>app_io := io\<rparr>"
    using assms by (simp_all add: next_io_def)
  then show thesis
    using Cons by (intro that) (simp_all add: appended_def io_ok_def)
qed

lemma wal_append_result:
  assumes "wal_append now e app = (r, app')"
  obtains "r = Inr (io_ok app)" "app_vault app' = app_vault app"
    "appended 1 (if io_ok app then [e] else []) app app'"
proof -
  obtain r1 app1 where io: "next_io app = (r1, app1)" by fastforce
  from io have ok: "r1 = Inr (io_ok app)" "app_vault app1 = app_vault app" "appended 0 [] app app1"
    by (rule next_io_result; simp)+
  obtain x w where w: "append_entry (io_ok app) now e (app_wal app1) = (x, w)" by fastforce
  then have r: "r = Inr (io_ok app)" and app': "app' = app1\<lparr>app_wal := w\<rparr>"
    using assms by (auto simp: wal_append_def sbind_def io ok(1) smodify_def sret_def)
  have "appended 1 (if io_ok app then [e] else []) app1 app'"
    using room_append [OF _ w] by (simp add: appended_def app')
  from appended_trans [OF ok(3) this] show thesis
    using r ok(2) by (intro that) (simp_all add: app')
qed

lemma wal_append_or_fail_result:
  assumes "wal_append_or_fail now e app = (r, app')"
  obtains "r = Inr ()" "app_vault app' = app_vault app" "appended 1 [e] app app'"
  | "r = Inl wal_error" "app_vault app' = app_vault app" "appended 1 [] app app'"
proof -
  obtain r1 app1 where w: "wal_append now e app = (r1, app1)" by fastforce
  from w have "r1 = Inr (io_ok app)" "app_vault app1 = app_vault app"
      "appended 1 (if io_ok app then [e] else []) app app1"
    by (rule wal_append_result; simp)+
  then show thesis
    using assms w that by (cases "io_ok app") (auto simp: wal_append_or_fail_def sbind_def sret_def sfail_def)
qed

lemma wal_append_or_rollback_result:
  assumes "wal_append_or_rollback now e rollback app = (r, app')" "r \<noteq> Inl Panic"
  obtains "r = Inr ()" "app_vault app' = app_vault app" "appended 1 [e] app app'"
  | x where "r = Inl wal_error" "appended 1 [] app app'" "\<not> io_ok app"
    "rollback (app_vault app) = (x, app_vault app')" "x \<noteq> Inl Panic"
proof -
  obtain r1 app1 where w: "wal_append now e app = (r1, app1)" by fastforce
  from w have ok: "r1 = Inr (io_ok app)" "app_vault app1 = app_vault app"
      "appended 1 (if io_ok app then [e] else []) app app1"
    by (rule wal_append_result; simp)+
  obtain x v where v: "rollback (app_vault app) = (x, v)" by fastforce
  show thesis
  proof (cases "io_ok app")
    case True
    then show ?thesis
      using assms w ok that(1) by (auto simp: wal_append_or_rollback_def sbind_def sret_def)
  next
    case False
    then have "r = Inl wal_error \<and> app' = app1\<lparr>app_vault := v\<rparr> \<and> x \<noteq> Inl Panic"
      using assms w ok v
      by (auto simp: wal_append_or_rollback_def sbind_def sattempt_def in_vault_def sfail_def
          split: sum.splits fault.splits prod.splits)
    then show ?thesis
      using False ok v by (intro that(2)) auto
  qed
qed

section \<open>Computations that keep log and ledger together\<close>

definition logging ::
  "('p::ab_group_add, 's::comm_ring_1) curve \<Rightarrow> (bytes \<Rightarrow> bytes) \<Rightarrow> nat \<Rightarrow> 'a app \<Rightarrow> bool" where
  "logging C sha256 k m \<longleftrightarrow>
    (\<forall>app r app'. m app = (r, app') \<longrightarrow> r \<noteq> Inl Panic \<longrightarrow> logs C sha256 k app app')"

lemma loggingD: "logging C sha256 k m \<Longrightarrow> m app = (r, app') \<Longrightarrow> r \<noteq> Inl Panic \<Longrightarrow> logs C sha256 k app app'"
  by (simp add: logging_def)

lemma logging_sbind:
  assumes "logging C sha256 k m" "\<And>x. logging C sha256 l (f x)"
  shows "logging C sha256 (k + l) (sbind m f)"
  unfolding logging_def
proof (intro allI impI)
  fix app r app'
  assume run: "sbind m f app = (r, app')" and r: "r \<noteq> Inl Panic"
  from run show "logs C sha256 (k + l) app app'"
  proof (rule sbindE)
    fix x app1
    assume "m app = (Inr x, app1)" "f x app1 = (r, app')"
    then show ?thesis
      using loggingD [OF assms(1)] loggingD [OF assms(2)] r by (blast intro: logs_trans)
  next
    fix e
    assume "m app = (Inl e, app')" "r = Inl e"
    then show ?thesis
      using loggingD [OF assms(1)] r by (blast intro: logs_mono le_add1)
  qed
qed

lemma logging_sret: "logging C sha256 0 (sret x)"
  by (auto simp: logging_def sret_def logs_refl)

lemma logging_sfail: "logging C sha256 0 (sfail e)"
  by (auto simp: logging_def sfail_def logs_refl)

lemma logging_sget: "logging C sha256 0 (sget f)"
  by (auto simp: logging_def sget_def logs_refl)

lemma logging_sfind: "logging C sha256 0 (sfind f e)"
  by (auto simp: logging_def sfind_def logs_refl split: option.splits)

lemma logging_srequire: "logging C sha256 k m \<Longrightarrow> logging C sha256 k (srequire c e m)"
  by (cases c) (auto simp: logging_def srequire_def intro: logs_mono [OF logs_refl])

lemma logging_in_vault:
  assumes "\<And>v r v'. m v = (r, v') \<Longrightarrow> r \<noteq> Inl Panic \<Longrightarrow> same_books v v'"
  shows "logging C sha256 0 (in_vault m)"
  unfolding logging_def
proof (intro allI impI)
  fix app r app'
  assume "in_vault m app = (r, app')" and r: "r \<noteq> Inl Panic"
  then obtain v where v: "m (app_vault app) = (r, v)" "app' = app\<lparr>app_vault := v\<rparr>"
    by (auto elim: in_vaultE)
  then show "logs C sha256 0 app app'"
    using assms [OF v(1) r] by (intro logs_same) (simp_all add: appended_refl)
qed

lemma logging_next_io: "logging C sha256 0 next_io"
  unfolding logging_def
  by (auto elim!: next_io_result intro!: logs_same simp: same_books_def)

lemma logging_wal_append:
  assumes "\<And>L. lstep C sha256 e L = Some L" "\<And>n. auth_below n e"
  shows "logging C sha256 1 (wal_append_or_fail now e)"
  unfolding logging_def
proof (intro allI impI)
  fix app r app'
  assume "wal_append_or_fail now e app = (r, app')" "r \<noteq> Inl Panic"
  then show "logs C sha256 1 app app'"
    using logs_commit [of 1 e app app' C sha256] logs_same [of 1 app app' C sha256] assms
    by (elim wal_append_or_fail_result) (simp_all add: same_books_def)
qed

lemma logging_mono: "logging C sha256 k m \<Longrightarrow> k \<le> l \<Longrightarrow> logging C sha256 l m"
  unfolding logging_def using logs_mono by blast

section \<open>Receipts\<close>

lemma logging_issue_participant:
  "logging C sha256 2 (issue_participant_receipt_locked env participant kind ata free locked t now)"
proof -
  have nonce: "logging C sha256 0 (in_vault next_receipt_nonce)"
    by (rule logging_in_vault) (auto simp: next_receipt_nonce_def same_books_def)
  have "logging C sha256 (0 + (0 + (1 + (0 + (1 + 0)))))
      (issue_participant_receipt_locked env participant kind ata free locked t now)"
    unfolding issue_participant_receipt_locked_def Let_def
    by (intro logging_sbind logging_srequire logging_sret logging_sget logging_next_io nonce
        logging_wal_append) simp_all
  then show ?thesis by (rule logging_mono) simp
qed

lemma logging_issue_client: "logging C sha256 2 (issue_client_receipt_locked env client now)"
proof -
  have "logging C sha256 0 (in_vault (get_balance client ClientNotFound))"
    by (rule logging_in_vault) (auto simp: get_balance_def sfind_def same_books_def split: option.splits)
  then have "logging C sha256 (0 + (0 + 2)) (issue_client_receipt_locked env client now)"
    unfolding issue_client_receipt_locked_def
    by (intro logging_sbind logging_sget logging_issue_participant)
  then show ?thesis by (rule logging_mono) simp
qed

lemma logging_issue_provider: "logging C sha256 2 (issue_provider_receipt_locked env p now)"
proof -
  have "logging C sha256 (0 + (0 + 2)) (issue_provider_receipt_locked env p now)"
    unfolding issue_provider_receipt_locked_def Let_def
    by (intro logging_sbind logging_sget logging_sfind logging_issue_participant)
  then show ?thesis by (rule logging_mono) simp
qed

lemma refresh_same_books:
  assumes "refresh_client_max_lock_expires_at c v = (r, v')" "adistinct (es_client_balances v)"
  shows "same_books v v'"
proof (cases r)
  case (Inl e)
  then show ?thesis
    using assms by (auto simp: refresh_fault same_books_def)
next
  case (Inr t)
  then obtain b where b: "aget (es_client_balances v) c = Some b"
    and v': "v' = v\<lparr>es_client_balances := aput c (b\<lparr>cb_max_lock_expires_at := t\<rparr>) (es_client_balances v)\<rparr>"
    using assms(1) by (auto simp: refresh_ok)
  have "lput_balance c (b\<lparr>cb_max_lock_expires_at := t\<rparr>) (ledger_of v) = ledger_of v"
    by (rule lput_balance_same) (simp_all add: assms(2) b erase_balance_def)
  then show ?thesis
    by (simp add: same_books_def v' ledger_of_balance)
qed

lemma refresh_and_issue_logs0:
  assumes "refresh_and_issue env c now app = (r, app')" "r \<noteq> Inl Panic"
    "adistinct (es_client_balances (app_vault app))"
  shows "logs C sha256 2 app app'"
  using assms(1) unfolding refresh_and_issue_def
proof (rule sbindE)
  fix t app1
  assume "in_vault (refresh_client_max_lock_expires_at c) app = (Inr t, app1)"
    and tail: "sbind (issue_client_receipt_locked env c now) (\<lambda>_. sret ()) app1 = (r, app')"
  then have "logs C sha256 0 app app1"
    using refresh_same_books [OF _ assms(3)]
    by (auto elim!: in_vaultE intro!: logs_same simp: appended_refl)
  moreover have "logs C sha256 (2 + 0) app1 app'"
    by (rule loggingD [OF logging_sbind [OF logging_issue_client logging_sret] tail assms(2)])
  ultimately show ?thesis
    using logs_trans by fastforce
next
  fix e
  assume "in_vault (refresh_client_max_lock_expires_at c) app = (Inl e, app')"
  then have "logs C sha256 0 app app'"
    using refresh_same_books [OF _ assms(3)]
    by (auto elim!: in_vaultE intro!: logs_same simp: appended_refl)
  then show ?thesis
    by (rule logs_mono) simp
qed

lemma refresh_and_issue_logs:
  assumes "sbind (refresh_and_issue env c now) (\<lambda>_. f) app = (r, app')" "r \<noteq> Inl Panic"
    "adistinct (es_client_balances (app_vault app))" "logging C sha256 l f" "2 + l \<le> k"
  shows "logs C sha256 k app app'"
  using assms(1)
proof (rule sbindE)
  fix x app1
  assume "refresh_and_issue env c now app = (Inr x, app1)" and f: "f app1 = (r, app')"
  then have "logs C sha256 2 app app1"
    using assms(3) by (intro refresh_and_issue_logs0) auto
  from logs_trans [OF this loggingD [OF assms(4) f assms(2)]] show ?thesis
    by (rule logs_mono) (rule assms(5))
next
  fix e
  assume "refresh_and_issue env c now app = (Inl e, app')" "r = Inl e"
  then have "logs C sha256 2 app app'"
    using assms(2,3) by (intro refresh_and_issue_logs0) auto
  then show ?thesis
    using assms(5) by (auto elim: logs_mono)
qed

section \<open>Sections\<close>

text \<open>The common shape: an operation, the entry of the log, a rollback when it cannot be written, and
  what follows the entry.\<close>
lemma section_logs:
  assumes run: "sbind (in_vault m) (\<lambda>x. sbind (wal_append_or_rollback now (e x) (rb x)) (\<lambda>_. cont x)) app = (r, app')"
    and r: "r \<noteq> Inl Panic" and k: "1 \<le> k"
    and err: "\<And>f v1. m (app_vault app) = (Inl (Err f), v1) \<Longrightarrow> same_books (app_vault app) v1"
    and rb: "\<And>x v1 y v2. m (app_vault app) = (Inr x, v1) \<Longrightarrow> rb x v1 = (y, v2) \<Longrightarrow> y \<noteq> Inl Panic \<Longrightarrow>
      \<not> io_ok app \<Longrightarrow> same_books (app_vault app) v2"
    and cont: "\<And>x v1 app1. m (app_vault app) = (Inr x, v1) \<Longrightarrow> app_vault app1 = v1 \<Longrightarrow>
      appended 1 [e x] app app1 \<Longrightarrow> cont x app1 = (r, app') \<Longrightarrow> logs C sha256 k app app'"
  shows "logs C sha256 k app app'"
  using run
proof (rule sbindE)
  fix f
  assume "in_vault m app = (Inl f, app')" "r = Inl f"
  then obtain v1 g where "m (app_vault app) = (Inl (Err g), v1)" "app' = app\<lparr>app_vault := v1\<rparr>"
    using r by (cases f) (auto elim: in_vaultE)
  then show ?thesis
    using err k by (intro logs_mono [OF logs_same [of 0]]) (auto simp: appended_refl)
next
  fix x app1
  assume "in_vault m app = (Inr x, app1)"
    and rest: "sbind (wal_append_or_rollback now (e x) (rb x)) (\<lambda>_. cont x) app1 = (r, app')"
  then obtain v1 where m: "m (app_vault app) = (Inr x, v1)" and app1: "app1 = app\<lparr>app_vault := v1\<rparr>"
    by (auto elim: in_vaultE)
  from rest show ?thesis
  proof (rule sbindE)
    fix u app2
    assume wal: "wal_append_or_rollback now (e x) (rb x) app1 = (Inr u, app2)" and c: "cont x app2 = (r, app')"
    from wal have "app_vault app2 = v1" "appended 1 [e x] app app2"
      by (rule wal_append_or_rollback_result; simp add: app1)+
    with cont [OF m] c show ?thesis by blast
  next
    fix f
    assume wal: "wal_append_or_rollback now (e x) (rb x) app1 = (Inl f, app')" and f: "r = Inl f"
    with r have "Inl f \<noteq> (Inl Panic :: fault + unit)" by auto
    from wal this obtain y where "appended 1 [] app app'" "rb x v1 = (y, app_vault app')" "y \<noteq> Inl Panic"
        "\<not> io_ok app"
      by (rule wal_append_or_rollback_result) (auto simp: app1)
    with rb [OF m] k show ?thesis
      by (intro logs_mono [OF logs_same [of 1]]) auto
  qed
qed

text \<open>Sections that write the entry first.\<close>
lemma log_first:
  assumes "sbind (wal_append_or_fail now e) cont app = (r, app')" "1 \<le> k"
    and "\<And>app1. app_vault app1 = app_vault app \<Longrightarrow> appended 1 [e] app app1 \<Longrightarrow>
      cont () app1 = (r, app') \<Longrightarrow> logs C sha256 k app app'"
  shows "logs C sha256 k app app'"
  using assms(1)
proof (rule sbindE)
  fix u app1
  assume wal: "wal_append_or_fail now e app = (Inr u, app1)" and c: "cont u app1 = (r, app')"
  from wal have "app_vault app1 = app_vault app" "appended 1 [e] app app1"
    by (rule wal_append_or_fail_result; simp)+
  with assms(3) c show ?thesis by simp
next
  fix f
  assume "wal_append_or_fail now e app = (Inl f, app')"
  then have "app_vault app' = app_vault app" "appended 1 [] app app'"
    by (rule wal_append_or_fail_result; simp)+
  then show ?thesis
    using assms(2) by (intro logs_mono [OF logs_same [of 1]]) (simp_all add: same_books_def)
qed

lemma appended_wal: "app_wal app2 = app_wal app1 \<Longrightarrow> appended k es app app1 \<Longrightarrow> appended k es app app2"
  unfolding appended_def room_def wal_entries_def by (simp only:)

text \<open>The entry is written and the state has been brought to where the entry takes it.\<close>
lemma logs_commit_then:
  assumes "appended 1 [e] app app1" "app_wal app2 = app_wal app1"
    "lstep C sha256 e (ledger_of (app_vault app)) = Some (ledger_of (app_vault app2))"
    "auth_below (es_withdraw_nonce (app_vault app2)) e"
    "es_withdraw_nonce (app_vault app) \<le> es_withdraw_nonce (app_vault app2)"
    and tail: "logs C sha256 k app2 app'" and k: "1 + k \<le> j"
  shows "logs C sha256 j app app'"
proof (rule logs_mono [OF logs_trans [OF _ tail] k])
  show "logs C sha256 1 app app2"
    using assms(1-5) by (intro logs_commit [of 1 e]) (auto intro: appended_wal)
qed

lemma logs_committed:
  assumes "appended 1 [e] app app1" "app2 = app1\<lparr>app_vault := v\<rparr>"
    "lstep C sha256 e (ledger_of (app_vault app)) = Some (ledger_of v)" "\<And>n. auth_below n e"
    "es_withdraw_nonce v = es_withdraw_nonce (app_vault app)"
    and tail: "logs C sha256 k app2 app'" and k: "1 + k \<le> j"
  shows "logs C sha256 j app app'"
  by (rule logs_commit_then [OF assms(1) _ _ _ _ tail k]) (simp_all add: assms(2-5))

lemma inv_distinct:
  assumes "ledger_inv C sha256 (ledger_of v)"
  shows "adistinct (es_client_balances v)" "adistinct (es_reservations v)" "adistinct (es_provider_credits v)"
  using assms by (simp_all add: ledger_inv_def books_def ledger_wf_def)

lemma inv_reservation:
  assumes "ledger_inv C sha256 (ledger_of v)" "aget (es_reservations v) k = Some r"
  obtains b reg where "aget (es_client_balances v) (rv_client r) = Some b"
    "aget (es_providers v) (rv_provider_id r) = Some reg" "0 < rv_amount r"
    "rv_status r = Reserved \<Longrightarrow> rv_settlement_id r = None"
proof -
  have "reservation_ok (ledger_of v) r"
    using assms by (simp add: ledger_inv_def books_def ledger_wf_def)
  then show thesis
    using that by (auto simp: reservation_ok_def known_client_def known_provider_def)
qed

lemma inv_withdrawal:
  assumes "ledger_inv C sha256 (ledger_of v)" "aget (es_pending_withdrawals v) n = Some w"
  obtains b where "aget (es_client_balances v) (pw_client w) = Some b" "pw_withdraw_nonce w = n"
proof -
  have "pw_withdraw_nonce w = n \<and> known_client (ledger_of v) (pw_client w)"
    using assms by (simp add: ledger_inv_def books_def ledger_wf_def)
  then show thesis
    using that by (auto simp: known_client_def)
qed

lemma inv_channel:
  assumes "ledger_inv C sha256 (ledger_of v)" "aget (es_active_channels v) cid = Some ch"
  obtains b reg where "aget (es_client_balances v) (ch_client ch) = Some b"
    "aget (es_providers v) (ch_provider_id ch) = Some reg" "channel_wf C sha256 cid ch"
proof -
  have "lg_channels (ledger_of v) cid = Some (erase_channel ch)"
    using assms(2) by simp
  then have "channel_ok C sha256 (ledger_of v) cid (erase_channel ch)"
    using assms(1) unfolding ledger_inv_def books_def ledger_wf_def by blast
  then show thesis
    using that by (auto simp: channel_ok_def known_client_def known_provider_def)
qed

lemma inv_credit:
  assumes "ledger_inv C sha256 (ledger_of v)" "aget (es_provider_credits v) p = Some c"
  shows "credit_ok p c"
proof -
  have "aget (lg_credits (ledger_of v)) p = Some (erase_credit c)"
    using assms(2) by simp
  then have "credit_ok p (erase_credit c)"
    using assms(1) unfolding ledger_inv_def books_def ledger_wf_def by blast
  then show ?thesis
    by (simp add: credit_ok_def)
qed

text \<open>What is held for a client is locked.\<close>
lemma inv_locked:
  assumes "ledger_inv C sha256 (ledger_of v)" "aget (es_client_balances v) c = Some b"
  shows "aget (es_reservations v) k = Some r \<Longrightarrow> rv_client r = c \<Longrightarrow> rv_status r = Reserved \<Longrightarrow>
      rv_amount r \<le> cb_locked b"
    and "aget (es_pending_withdrawals v) n = Some w \<Longrightarrow> pw_client w = c \<Longrightarrow> pw_amount w \<le> cb_locked b"
    and "aget (es_active_channels v) cid = Some ch \<Longrightarrow> ch_client ch = c \<Longrightarrow>
      channel_total ch \<le> unat (cb_locked b)"
proof -
  have eq: "held (ledger_of v) c = unat (cb_locked b)"
    using booksD(2) [OF assms(1) [unfolded ledger_inv_def], of c] assms(2)
    by (simp add: balance_in_def del: of_nat_unat)
  have member: "f x \<le> msum f m" if "finite (dom m)" "m j = Some x" for f :: "'v \<Rightarrow> nat" and m and j :: 'k and x
    using msum_None [of m f j] that by simp
  have fin: "finite (dom (lg_pending (ledger_of v)))" "finite (dom (lg_channels (ledger_of v)))"
    using booksD(4,5) [OF assms(1) [unfolded ledger_inv_def]] .
  show "rv_amount r \<le> cb_locked b"
    if "aget (es_reservations v) k = Some r" "rv_client r = c" "rv_status r = Reserved"
    using asum_member [OF that(1), of "reserved_for c"] eq that
    by (simp add: held_def reserved_for_def word_le_nat_alt)
  show "pw_amount w \<le> cb_locked b" if "aget (es_pending_withdrawals v) n = Some w" "pw_client w = c"
    using member [OF fin(1), of n w "pending_for c"] eq that
    by (simp add: held_def pending_for_def word_le_nat_alt)
  show "channel_total ch \<le> unat (cb_locked b)" if "aget (es_active_channels v) cid = Some ch" "ch_client ch = c"
    using member [OF fin(2), of cid "erase_channel ch" "channelled_for c"] eq that
    by (simp add: held_def channelled_for_def)
qed

section \<open>Payments\<close>

lemma erase_request_idem [simp]: "erase_request (erase_request r) = erase_request r"
  by (simp add: erase_request_def)

lemma erase_idem [simp]: "erase_balance (erase_balance b) = erase_balance b"
  "erase_credit (erase_credit c) = erase_credit c" "erase_channel (erase_channel ch) = erase_channel ch"
  by (simp_all add: erase_balance_def erase_credit_def erase_channel_def option.map_comp comp_def)

lemma lput_erase [simp]:
  "lput_balance c (erase_balance b) L = lput_balance c b L" "lput_credit p (erase_credit cr) L = lput_credit p cr L"
  "lput_channel cid (Some (erase_channel ch)) L = lput_channel cid (Some ch) L"
  by (simp_all add: lput_balance_def lput_credit_def lput_channel_def)

text \<open>A client's balance in a state, moved.\<close>
lemma with_balance_ledger_of:
  assumes "aget (es_client_balances v) c = Some b" "f (erase_balance b) = Some (erase_balance b')"
    "v' = v\<lparr>es_client_balances := aput c b' (es_client_balances v)\<rparr>"
  shows "with_balance c f k (ledger_of v) = k (ledger_of v')"
  using assms by (simp add: with_balance_def ledger_of_balance)

lemma with_lock:
  assumes "aget (es_client_balances v) c = Some b" "a \<le> cb_free b" "checked_add (cb_locked b) a = Some l"
    "v' = v\<lparr>es_client_balances := aput c (b\<lparr>cb_free := cb_free b - a, cb_locked := l\<rparr>) (es_client_balances v)\<rparr>"
  shows "with_balance c (lock a) k (ledger_of v) = k (ledger_of v')"
  by (rule with_balance_ledger_of [OF assms(1) _ assms(4)])
    (use assms(2,3) in \<open>simp add: lock_def erase_balance_def\<close>)

lemma with_unlock:
  assumes "aget (es_client_balances v) c = Some b" "a \<le> cb_locked b" "checked_add (cb_free b) a = Some f"
    "v' = v\<lparr>es_client_balances := aput c (b\<lparr>cb_locked := saturating_sub (cb_locked b) a, cb_free := f\<rparr>)
      (es_client_balances v)\<rparr>"
  shows "with_balance c (unlock a) k (ledger_of v) = k (ledger_of v')"
  by (rule with_balance_ledger_of [OF assms(1) _ assms(4)])
    (use assms(2,3) in \<open>simp add: unlock_def erase_balance_def saturating_sub_def\<close>)

lemma with_spend:
  assumes "aget (es_client_balances v) c = Some b" "a \<le> cb_locked b"
    "v' = v\<lparr>es_client_balances := aput c (b\<lparr>cb_locked := saturating_sub (cb_locked b) a\<rparr>) (es_client_balances v)\<rparr>"
  shows "with_balance c (spend a) k (ledger_of v) = k (ledger_of v')"
  by (rule with_balance_ledger_of [OF assms(1) _ assms(3)])
    (use assms(2) in \<open>simp add: spend_def erase_balance_def saturating_sub_def\<close>)

lemma not_panic: "(y :: (fault, 'a) result) \<noteq> Inl Panic \<Longrightarrow> (\<exists>e. y = Inl (Err e)) \<or> (\<exists>x. y = Inr x)"
  by (metis fault.exhaust sum.exhaust_sel)

lemma release_after_reserve:
  assumes "reserve_balance c a v = (Inr x, v1)" "release_balance c a v1 = (y, v2)" "y \<noteq> Inl Panic"
    "adistinct (es_client_balances v)"
  shows "v2 = v"
proof -
  obtain b l where b: "aget (es_client_balances v) c = Some b" "a \<le> cb_free b"
      "checked_add (cb_locked b) a = Some l"
    and v1: "v1 = v\<lparr>es_client_balances := aput c (b\<lparr>cb_free := cb_free b - a, cb_locked := l\<rparr>)
      (es_client_balances v)\<rparr>"
    using assms(1) by (auto simp: reserve_balance_ok)
  have "checked_add (cb_free b - a) a = Some (cb_free b)"
    using b(2) by (intro checked_sub_then_add) (simp add: checked_sub_def)
  then show ?thesis
    using assms(2-4) b checked_add_then_sub [OF b(3)]
    by (auto simp: v1 release_balance_def state_op_defs Let_def aput_aput aput_same)
qed

lemma reserve_after_release:
  assumes "release_balance c a v = (Inr x, v1)" "reserve_balance c a v1 = (y, v2)" "y \<noteq> Inl Panic"
    "adistinct (es_client_balances v)" "aget (es_client_balances v) c = Some b" "a \<le> cb_locked b"
  shows "v2 = v"
proof -
  obtain f where f: "checked_add (cb_free b) a = Some f"
    and v1: "v1 = v\<lparr>es_client_balances := aput c (b\<lparr>cb_locked := cb_locked b - a, cb_free := f\<rparr>)
      (es_client_balances v)\<rparr>"
    using assms(1,5,6) by (auto simp: release_balance_ok saturating_sub_def)
  have "checked_add (cb_locked b - a) a = Some (cb_locked b)"
    using assms(6) by (intro checked_sub_then_add) (simp add: checked_sub_def)
  moreover have "a \<le> f" "f - a = cb_free b"
    using f checked_add_then_checked_sub [OF f] by (auto simp: checked_sub_def split: if_splits)
  ultimately show ?thesis
    using assms(2-5)
    by (auto simp: v1 reserve_balance_def state_op_defs Let_def aput_aput aput_same)
qed

lemma verify_logs:
  assumes run: "verify_section env r now app = (res, app')" and res: "res \<noteq> Inl Panic"
    and inv: "ledger_inv C sha256 (ledger_of (app_vault app))"
    and fresh: "aget (es_reservations (app_vault app)) (rv_verification_id r) = None"
    and provider: "aget (es_providers (app_vault app)) (rv_provider_id r) \<noteq> None"
    and r: "0 < rv_amount r" "rv_status r = Reserved" "rv_settlement_id r = None" "rv_settled_at r = None"
  shows "logs C sha256 3 app app'"
  using run unfolding verify_section_def
proof (rule section_logs)
  let ?v = "app_vault app" and ?c = "rv_client r" and ?a = "rv_amount r"
  have dist: "adistinct (es_client_balances ?v)" by (rule inv_distinct [OF inv])
  show "same_books ?v v1" if "reserve_balance ?c ?a ?v = (Inl (Err f), v1)" for f v1
    using reserve_balance_err [OF that] by (simp add: same_books_def)
  fix x v1
  assume m: "reserve_balance ?c ?a ?v = (Inr x, v1)"
  show "same_books ?v v2" if "release_balance ?c ?a v1 = (y, v2)" "y \<noteq> Inl Panic" for y v2
    using release_after_reserve [OF m that dist] by (simp add: same_books_def)
  obtain b l where b: "aget (es_client_balances ?v) ?c = Some b" "?a \<le> cb_free b"
      "checked_add (cb_locked b) ?a = Some l"
    and v1: "v1 = ?v\<lparr>es_client_balances := aput ?c (b\<lparr>cb_free := cb_free b - ?a, cb_locked := l\<rparr>) (es_client_balances ?v)\<rparr>"
    using m by (auto simp: reserve_balance_ok)
  fix app1
  assume app1: "app_vault app1 = v1"
    and entry: "appended 1 [ReservationCreated (rv_verification_id r) (Some (rv_reservation_id r)) (rv_payment_id r)
        ?c (rv_provider_id r) ?a (Some (rv_request_hash r)) (Some (rv_payment_details_hash r))
        (Some (rv_created_at r)) (Some (rv_expires_at r))] app app1" (is "appended 1 [?e] app app1")
    and cont: "sbind (in_vault (put_reservation (rv_verification_id r) r)) (\<lambda>_.
      sbind (in_vault (smodify (\<lambda>st. st\<lparr>es_payment_id_index :=
        aput (rv_payment_id r) (rv_verification_id r) (es_payment_id_index st)\<rparr>))) (\<lambda>_.
      refresh_and_issue env ?c now)) app1 = (res, app')"
  let ?v2 = "v1\<lparr>es_reservations := aput (rv_verification_id r) r (es_reservations v1)\<rparr>"
  define v3 where "v3 = ?v2\<lparr>es_payment_id_index :=
    aput (rv_payment_id r) (rv_verification_id r) (es_payment_id_index ?v2)\<rparr>"
  have tail: "refresh_and_issue env ?c now (app1\<lparr>app_vault := v3\<rparr>) = (res, app')"
    using cont by (simp add: sbind_def in_vault_def put_reservation_def smodify_def app1 v3_def)
  have "new_reservation (rv_verification_id r) (rv_reservation_id r) (rv_payment_id r) ?c (rv_provider_id r)
      ?a (rv_request_hash r) (rv_payment_details_hash r) (rv_created_at r) (rv_expires_at r) = r"
    using r by (simp add: new_reservation_def)
  then have step: "lstep C sha256 ?e (ledger_of ?v) = Some (ledger_of v3)"
    using fresh provider r(1) with_lock [OF b v1]
    by (simp add: v3_def ledger_of_base ledger_of_reservation)
  have "logs C sha256 2 (app1\<lparr>app_vault := v3\<rparr>) app'"
    using dist by (intro refresh_and_issue_logs0 [OF tail res]) (simp add: v3_def v1)
  then show "logs C sha256 3 app app'"
    by (rule logs_committed [OF entry refl step, rotated 2]) (simp_all add: v3_def v1)
qed (simp_all add: res)

lemma get_reservation_bind:
  "sbind (in_vault (get_reservation vid)) f app = (case aget (es_reservations (app_vault app)) vid of
      None \<Rightarrow> (Inl (Err ReservationNotFound), app) | Some r \<Rightarrow> f r app)"
  by (simp add: sbind_def in_vault_def get_reservation_def sfind_def split: option.splits)

lemma update_reservation_bind:
  "sbind (in_vault (sbind (get_reservation vid) (\<lambda>r. put_reservation vid (g r)))) f app =
    (case aget (es_reservations (app_vault app)) vid of
       None \<Rightarrow> (Inl (Err ReservationNotFound), app)
     | Some r \<Rightarrow> f () (app\<lparr>app_vault := (app_vault app)\<lparr>es_reservations :=
         aput vid (g r) (es_reservations (app_vault app))\<rparr>\<rparr>))"
  by (simp add: sbind_def in_vault_def get_reservation_def put_reservation_def sfind_def smodify_def
      split: option.splits)

lemma cancel_logs:
  assumes run: "cancel_section env vid reason now app = (res, app')" and res: "res \<noteq> Inl Panic"
    and inv: "ledger_inv C sha256 (ledger_of (app_vault app))"
  shows "logs C sha256 3 app app'"
proof -
  let ?v = "app_vault app"
  have dist: "adistinct (es_client_balances ?v)" by (rule inv_distinct [OF inv])
  consider "app' = app" | r where "aget (es_reservations ?v) vid = Some r" "rv_status r = Reserved"
    using run by (auto simp: cancel_section_def get_reservation_bind srequire_def sret_def
        split: option.splits if_splits)
  then show ?thesis
  proof cases
    case 1
    then show ?thesis by (auto intro: logs_mono [OF logs_refl])
  next
    case (2 r)
    let ?c = "rv_client r" and ?a = "rv_amount r"
    from 2 obtain b where b: "aget (es_client_balances ?v) ?c = Some b" "?a \<le> cb_locked b"
      using inv_reservation [OF inv 2(1)] inv_locked(1) [OF inv _ 2(1)] by metis
    have "sbind (in_vault (release_balance ?c ?a)) (\<lambda>_.
      sbind (wal_append_or_rollback now (ReservationCancelled vid reason) (reserve_balance ?c ?a)) (\<lambda>_.
      sbind (in_vault (sbind (get_reservation vid) (\<lambda>r1. put_reservation vid (r1\<lparr>rv_status := Cancelled\<rparr>)))) (\<lambda>_.
      refresh_and_issue env ?c now))) app = (res, app')"
      using run 2 by (simp add: cancel_section_def get_reservation_bind srequire_def)
    then show ?thesis
    proof (rule section_logs)
      show "same_books ?v v1" if "release_balance ?c ?a ?v = (Inl (Err f), v1)" for f v1
        using release_balance_err [OF that] by (simp add: same_books_def)
      fix x v1
      assume m: "release_balance ?c ?a ?v = (Inr x, v1)"
      show "same_books ?v v2" if "reserve_balance ?c ?a v1 = (y, v2)" "y \<noteq> Inl Panic" for y v2
        using reserve_after_release [OF m that dist b] by (simp add: same_books_def)
      obtain f where f: "checked_add (cb_free b) ?a = Some f"
        and v1: "v1 = ?v\<lparr>es_client_balances := aput ?c (b\<lparr>cb_locked := saturating_sub (cb_locked b) ?a,
          cb_free := f\<rparr>) (es_client_balances ?v)\<rparr>"
        using m b(1) by (auto simp: release_balance_ok)
      fix app1
      assume app1: "app_vault app1 = v1" and entry: "appended 1 [ReservationCancelled vid reason] app app1"
        and cont: "sbind (in_vault (sbind (get_reservation vid) (\<lambda>r1.
          put_reservation vid (r1\<lparr>rv_status := Cancelled\<rparr>)))) (\<lambda>_. refresh_and_issue env ?c now) app1 = (res, app')"
      define v2 where "v2 = v1\<lparr>es_reservations := aput vid (r\<lparr>rv_status := Cancelled\<rparr>) (es_reservations v1)\<rparr>"
      have tail: "refresh_and_issue env ?c now (app1\<lparr>app_vault := v2\<rparr>) = (res, app')"
        using cont 2(1) by (simp add: update_reservation_bind app1 v2_def v1)
      have step: "lstep C sha256 (ReservationCancelled vid reason) (ledger_of ?v) = Some (ledger_of v2)"
        using with_unlock [OF b f v1] 2 by (simp add: lrelease_def v2_def ledger_of_reservation)
      have "logs C sha256 2 (app1\<lparr>app_vault := v2\<rparr>) app'"
        using dist by (intro refresh_and_issue_logs0 [OF tail res]) (simp add: v2_def v1)
      then show "logs C sha256 3 app app'"
        by (rule logs_committed [OF entry refl step, rotated 2]) (simp_all add: v2_def v1)
    qed (simp_all add: res)
  qed
qed

lemma expire_reservation_logs:
  assumes run: "expire_reserved_reservation_with_lock env vid now app = (res, app')" and res: "res \<noteq> Inl Panic"
    and inv: "ledger_inv C sha256 (ledger_of (app_vault app))"
  shows "logs C sha256 3 app app'"
proof -
  let ?v = "app_vault app"
  have dist: "adistinct (es_client_balances ?v)" by (rule inv_distinct [OF inv])
  consider "app' = app" | r where "aget (es_reservations ?v) vid = Some r" "rv_status r = Reserved"
    "sbind (wal_append_or_fail now (WalEntry.ReservationExpired vid)) (\<lambda>_.
      sbind (in_vault (put_reservation vid (r\<lparr>rv_status := Expired\<rparr>))) (\<lambda>_.
      sbind (in_vault (release_balance (rv_client r) (rv_amount r))) (\<lambda>_.
      sbind (refresh_and_issue env (rv_client r) now) (\<lambda>_. sret True)))) app = (res, app')"
    using run by (cases "aget (es_reservations ?v) vid")
      (auto simp: expire_reserved_reservation_with_lock_def get_reservation_bind sret_def split: if_splits)
  then show ?thesis
  proof cases
    case 1
    then show ?thesis by (auto intro: logs_mono [OF logs_refl])
  next
    case (2 r)
    let ?c = "rv_client r" and ?a = "rv_amount r"
    obtain b where b: "aget (es_client_balances ?v) ?c = Some b" "?a \<le> cb_locked b"
      using inv_reservation [OF inv 2(1)] inv_locked(1) [OF inv _ 2(1)] 2(2) by metis
    from 2(3) show ?thesis
    proof (rule log_first)
      fix app1
      assume app1: "app_vault app1 = ?v" and entry: "appended 1 [WalEntry.ReservationExpired vid] app app1"
        and rest: "sbind (in_vault (put_reservation vid (r\<lparr>rv_status := Expired\<rparr>))) (\<lambda>_.
          sbind (in_vault (release_balance ?c ?a)) (\<lambda>_.
          sbind (refresh_and_issue env ?c now) (\<lambda>_. sret True))) app1 = (res, app')"
      let ?v1 = "?v\<lparr>es_reservations := aput vid (r\<lparr>rv_status := Expired\<rparr>) (es_reservations ?v)\<rparr>"
      let ?bal = "\<lambda>f v. v\<lparr>es_client_balances := aput ?c (b\<lparr>cb_locked := saturating_sub (cb_locked b) ?a,
            cb_free := f\<rparr>) (es_client_balances v)\<rparr>"
      obtain f where f: "checked_add (cb_free b) ?a = Some f"
        and tail: "sbind (refresh_and_issue env ?c now) (\<lambda>_. sret True) (app1\<lparr>app_vault := ?bal f ?v1\<rparr>) = (res, app')"
        using rest res b(1)
        by (auto simp: sbind_def [of "in_vault _"] in_vault_def put_reservation_def smodify_def app1
            release_balance_def state_op_defs Let_def aput_aput split: option.splits)
      define v1 where "v1 = ?bal f ?v"
      have v2: "?bal f ?v1 = v1\<lparr>es_reservations := aput vid (r\<lparr>rv_status := Expired\<rparr>) (es_reservations v1)\<rparr>"
        by (simp add: v1_def)
      have step: "lstep C sha256 (WalEntry.ReservationExpired vid) (ledger_of ?v) = Some (ledger_of (?bal f ?v1))"
        using with_unlock [OF b f v1_def] 2(1,2) unfolding v2 by (simp add: lrelease_def ledger_of_reservation)
      have "logs C sha256 2 (app1\<lparr>app_vault := ?bal f ?v1\<rparr>) app'"
        using dist by (intro refresh_and_issue_logs [OF tail res _ logging_sret]) simp_all
      then show "logs C sha256 3 app app'"
        by (rule logs_committed [OF entry refl step, rotated 2]) simp_all
    qed simp
  qed
qed

text \<open>Consecutive operations on the vault are one.\<close>
lemma in_vault_sbind:
  "sbind (in_vault m) (\<lambda>x. sbind (in_vault (g x)) f) = sbind (in_vault (sbind m g)) f"
  by (auto simp: fun_eq_iff sbind_def in_vault_def split: prod.splits sum.splits)

lemma sget_in_vault: "sget (\<lambda>app. f (app_vault app)) = in_vault (sget f)"
  by (auto simp: fun_eq_iff sget_def in_vault_def)

lemma rollback_after_settle:
  assumes settle: "settle_payment c a p sid now v = (Inr x, v1)"
    and rb: "rollback_settle_payment c a p sid v1 = (y, v2)" "y \<noteq> Inl Panic"
    and dist: "adistinct (es_client_balances v)" "adistinct (es_provider_credits v)"
    and b: "aget (es_client_balances v) c = Some b" "a \<le> cb_locked b"
    and credits: "\<And>cr. aget (es_provider_credits v) p = Some cr \<Longrightarrow> credit_ok p cr \<and> sid \<notin> set (pc_settlement_ids cr)"
  shows "v2 = v"
proof -
  obtain reg credited where reg: "aget (es_providers v) p = Some reg"
    and credited: "checked_add (pc_credited_amount (credit_or_new v p (rg_settlement_token_account reg) now)) a = Some credited"
    and v1: "v1 = v\<lparr>es_client_balances := aput c (b\<lparr>cb_locked := cb_locked b - a\<rparr>) (es_client_balances v),
        es_provider_credits := aput p (credit_or_new v p (rg_settlement_token_account reg) now
          \<lparr>pc_credited_amount := credited, pc_settlement_ids :=
            pc_settlement_ids (credit_or_new v p (rg_settlement_token_account reg) now) @ [sid]\<rparr>)
          (es_provider_credits v)\<rparr>"
    using settle b by (auto simp: settle_payment_ok saturating_sub_def)
  have l: "checked_add (cb_locked b - a) a = Some (cb_locked b)"
    using b(2) by (intro checked_sub_then_add) (simp add: checked_sub_def)
  have s: "saturating_sub credited a = pc_credited_amount (credit_or_new v p (rg_settlement_token_account reg) now)"
    by (rule checked_add_then_sub [OF credited])
  show ?thesis
  proof (cases "aget (es_provider_credits v) p")
    case None
    then show ?thesis
      using rb b l s dist
      by (auto simp: v1 rollback_settle_payment_def state_op_defs put_credit_def Let_def aput_aput
          aput_same adel_aput_fresh credit_or_new_def)
  next
    case (Some cr)
    then have "filter (\<lambda>v. v \<noteq> sid) (pc_settlement_ids cr) = pc_settlement_ids cr"
      using credits [OF Some] by (auto intro: filter_True)
    then show ?thesis
      using rb b l s dist Some credits [OF Some]
      by (auto simp: v1 rollback_settle_payment_def state_op_defs put_credit_def Let_def aput_aput
          aput_same credit_or_new_def credit_ok_def word_gt_0)
  qed
qed

text \<open>No credit carries the settlement identifier.\<close>
definition fresh_settlement :: "string \<Rightarrow> VaultState \<Rightarrow> bool" where
  "fresh_settlement sid v \<longleftrightarrow> aget (es_settlement_history v) sid = None \<and>
    (\<forall>c\<in>set (avals (es_provider_credits v)). sid \<notin> set (pc_settlement_ids c))"

lemma fresh_settlement_credit:
  "fresh_settlement sid v \<Longrightarrow> aget (es_provider_credits v) p = Some c \<Longrightarrow> sid \<notin> set (pc_settlement_ids c)"
  by (force simp: fresh_settlement_def avals_def dest: aget_in_set)

lemma avals_map_vals [simp]: "avals (map_vals f m) = map f (avals m)"
  by (simp add: avals_def map_vals_def comp_def split_beta)

lemma credit_provider_ledger_of:
  assumes "aget (es_providers v) p = Some reg"
    "checked_add (pc_credited_amount (credit_or_new v p (rg_settlement_token_account reg) now)) a = Some credited"
    "\<forall>c\<in>set (avals (es_provider_credits v)). sid \<notin> set (pc_settlement_ids c)"
    "v' = v\<lparr>es_provider_credits := aput p (credit_or_new v p (rg_settlement_token_account reg) now
          \<lparr>pc_credited_amount := credited, pc_settlement_ids :=
            pc_settlement_ids (credit_or_new v p (rg_settlement_token_account reg) now) @ [sid]\<rparr>)
          (es_provider_credits v)\<rparr>"
  shows "credit_provider p a sid (ledger_of v) = Some (ledger_of v')"
proof -
  have new: "credit_or_new (lg_base (ledger_of v)) p (rg_settlement_token_account reg) 0 =
      erase_credit (credit_or_new v p (rg_settlement_token_account reg) now)"
    by (simp add: credit_or_new_def erase_credit_def split: option.splits)
  have "erase_credit cr\<lparr>pc_credited_amount := x, pc_settlement_ids := y\<rparr> =
      erase_credit (cr\<lparr>pc_credited_amount := x, pc_settlement_ids := y\<rparr>)" for cr x y
    by (simp add: erase_credit_def)
  then show ?thesis
    using assms(1-3) unfolding assms(4) by (simp add: credit_provider_def Let_def new ledger_of_credit)
qed

lemma settle_commit_logs:
  fixes now :: int
  assumes inv: "ledger_inv C sha256 (ledger_of (app_vault app))"
    and r: "aget (es_reservations (app_vault app)) vid = Some r" "rv_status r = Reserved" "rv_provider_id r = p"
    and sid: "fresh_settlement sid (app_vault app)" and res: "res \<noteq> Inl Panic"
    and run: "sbind (in_vault (sbind (settle_payment (rv_client r) (rv_amount r) p sid now) (\<lambda>_.
        sbind (sget (\<lambda>v. case aget (es_providers v) p of
              None \<Rightarrow> replicate 32 0 | Some p \<Rightarrow> rg_settlement_token_account p)) (\<lambda>k.
        smodify (\<lambda>st. st\<lparr>es_settlement_history := aput sid
            \<lparr>sr_settlement_id = sid, sr_client = rv_client r, sr_provider = k,
             sr_amount = rv_amount r, sr_timestamp = now\<rparr> (es_settlement_history st)\<rparr>))))) (\<lambda>_.
      sbind (wal_append_or_rollback now (SettlementCommitted sid vid p (rv_amount r) (Some now))
        (sbind (smodify (\<lambda>st. st\<lparr>es_settlement_history := adel sid (es_settlement_history st)\<rparr>)) (\<lambda>_.
          rollback_settle_payment (rv_client r) (rv_amount r) p sid))) (\<lambda>_.
      sbind (in_vault (sbind (get_reservation vid) (\<lambda>r1.
            put_reservation vid (r1\<lparr>rv_status := SettledOffchain,
              rv_settlement_id := Some sid, rv_settled_at := Some now\<rparr>)))) (\<lambda>_.
      sbind (refresh_and_issue env (rv_client r) now) (\<lambda>_. tail)))) app = (res, app')"
    and tail: "logging C sha256 2 tail"
  shows "logs C sha256 5 app app'"
  using run
proof (rule section_logs)
  let ?v = "app_vault app" and ?c = "rv_client r" and ?a = "rv_amount r"
  note dist = inv_distinct [OF inv]
  obtain b reg where b: "aget (es_client_balances ?v) ?c = Some b" "?a \<le> cb_locked b"
    and reg: "aget (es_providers ?v) p = Some reg"
    using inv_reservation [OF inv r(1)] inv_locked(1) [OF inv _ r(1)] r(2,3) by metis
  let ?hist = "\<lambda>v. aput sid \<lparr>sr_settlement_id = sid, sr_client = ?c,
     sr_provider = rg_settlement_token_account reg, sr_amount = ?a, sr_timestamp = now\<rparr> (es_settlement_history v)"
  let ?m = "sbind (settle_payment (rv_client r) (rv_amount r) p sid now) (\<lambda>_.
        sbind (sget (\<lambda>v. case aget (es_providers v) p of
              None \<Rightarrow> replicate 32 0 | Some p \<Rightarrow> rg_settlement_token_account p)) (\<lambda>k.
        smodify (\<lambda>st. st\<lparr>es_settlement_history := aput sid
            \<lparr>sr_settlement_id = sid, sr_client = rv_client r, sr_provider = k,
             sr_amount = rv_amount r, sr_timestamp = now\<rparr> (es_settlement_history st)\<rparr>)))"
  show "same_books ?v v1" if "?m ?v = (Inl (Err f), v1)" for f v1
    using that settle_payment_err [of ?c ?a p sid now ?v f v1] b(1) reg
    by (auto simp: sbind_def sget_def smodify_def split: prod.splits sum.splits)
  fix x v1
  assume "?m ?v = (Inr x, v1)"
  then obtain v0 where v0: "settle_payment ?c ?a p sid now ?v = (Inr (), v0)"
    and v1: "v1 = v0\<lparr>es_settlement_history := ?hist v0\<rparr>"
    using reg by (auto simp: result_simps settle_payment_ok)
  let ?credit = "credit_or_new ?v p (rg_settlement_token_account reg) now"
  let ?vb = "?v\<lparr>es_client_balances := aput ?c (b\<lparr>cb_locked := saturating_sub (cb_locked b) ?a\<rparr>)
      (es_client_balances ?v)\<rparr>"
  obtain credited where credited: "checked_add (pc_credited_amount ?credit) ?a = Some credited"
    and v0': "v0 = ?vb\<lparr>es_provider_credits := aput p (?credit\<lparr>pc_credited_amount := credited,
          pc_settlement_ids := pc_settlement_ids ?credit @ [sid]\<rparr>) (es_provider_credits ?vb)\<rparr>"
    using v0 b(1) reg by (auto simp: settle_payment_ok)
  show "same_books ?v v2"
    if rb: "sbind (smodify (\<lambda>st. st\<lparr>es_settlement_history := adel sid (es_settlement_history st)\<rparr>)) (\<lambda>_.
          rollback_settle_payment ?c ?a p sid) v1 = (y, v2)" "y \<noteq> Inl Panic" for y v2
  proof -
    have "v1\<lparr>es_settlement_history := adel sid (es_settlement_history v1)\<rparr> = v0"
      using sid by (simp add: v1 v0' adel_aput_fresh fresh_settlement_def)
    with rb have "rollback_settle_payment ?c ?a p sid v0 = (y, v2)"
      by (simp add: sbind_def smodify_def)
    then have "v2 = ?v"
      using rb(2) dist b fresh_settlement_credit [OF sid] inv_credit [OF inv]
      by (intro rollback_after_settle [OF v0]) auto
    then show ?thesis by (simp add: same_books_def)
  qed
  fix app1
  assume app1: "app_vault app1 = v1"
    and entry: "appended 1 [SettlementCommitted sid vid p ?a (Some now)] app app1"
    and cont: "sbind (in_vault (sbind (get_reservation vid) (\<lambda>r1.
            put_reservation vid (r1\<lparr>rv_status := SettledOffchain,
              rv_settlement_id := Some sid, rv_settled_at := Some now\<rparr>)))) (\<lambda>_.
      sbind (refresh_and_issue env (rv_client r) now) (\<lambda>_. tail)) app1 = (res, app')"
  define v2 where "v2 = v1\<lparr>es_reservations := aput vid (r\<lparr>rv_status := SettledOffchain,
     rv_settlement_id := Some sid, rv_settled_at := Some now\<rparr>) (es_reservations v1)\<rparr>"
  have rest: "sbind (refresh_and_issue env ?c now) (\<lambda>_. tail) (app1\<lparr>app_vault := v2\<rparr>) = (res, app')"
    using cont r(1) by (simp add: update_reservation_bind app1 v2_def v1 v0')
  have "credit_provider p ?a sid (ledger_of ?vb) = Some (ledger_of v0)"
    using credit_provider_ledger_of [of ?vb p reg now ?a credited sid v0] credited reg sid
    by (simp add: v0' credit_or_new_def fresh_settlement_def)
  then have step: "lstep C sha256 (SettlementCommitted sid vid p ?a (Some now)) (ledger_of ?v) = Some (ledger_of v2)"
    using with_spend [OF b refl] r reg sid
    by (simp add: lsettle_def fresh_settlement_def v2_def v1 ledger_of_reservation ledger_of_base)
  have "logs C sha256 4 (app1\<lparr>app_vault := v2\<rparr>) app'"
    using dist by (intro refresh_and_issue_logs [OF rest res _ tail]) (simp_all add: v2_def v1 v0')
  then show "logs C sha256 5 app app'"
    by (rule logs_committed [OF entry refl step, rotated 2]) (simp_all add: v2_def v1 v0')
qed (simp_all add: res)

lemma settle_logs:
  assumes run: "settle_section env vid p sid now app = (res, app')" and res: "res \<noteq> Inl Panic"
    and inv: "ledger_inv C sha256 (ledger_of (app_vault app))"
    and provider: "\<And>r. aget (es_reservations (app_vault app)) vid = Some r \<Longrightarrow> rv_provider_id r = p"
    and sid: "fresh_settlement sid (app_vault app)"
  shows "logs C sha256 5 app app'"
proof (cases "aget (es_reservations (app_vault app)) vid")
  case None
  then show ?thesis
    using run by (auto simp: settle_section_def get_reservation_bind intro: logs_mono [OF logs_refl])
next
  case (Some r)
  show ?thesis
  proof (cases "rv_status r = Reserved")
    case False
    then show ?thesis
      using run Some by (cases "rv_status r")
        (auto simp: settle_section_def get_reservation_bind sret_def sfail_def intro: logs_mono [OF logs_refl])
  next
    case True
    show ?thesis
    proof (cases "rv_expires_at r < now")
      case late: True
      with run Some True have "sbind (expire_reserved_reservation_with_lock env vid now) (\<lambda>_.
          sfail (Err EnclaveError.ReservationExpired)) app = (res, app')"
        by (simp add: settle_section_def get_reservation_bind)
      then show ?thesis
        by (rule sbindE) (use res inv in \<open>auto simp: sfail_def
            intro!: logs_mono [OF expire_reservation_logs, of env vid now]\<close>)
    next
      case False
      have tail: "logging C sha256 2 (sbind (issue_provider_receipt_locked env p now) (\<lambda>receipt.
          sret (Fresh sid now (rv_amount r) receipt)))"
        by (rule logging_mono [OF logging_sbind [OF logging_issue_provider logging_sret]]) simp
      show ?thesis
        using run Some True False
        by (intro settle_commit_logs [OF inv Some True provider [OF Some] sid res _ tail])
          (simp add: settle_section_def get_reservation_bind Let_def in_vault_sbind
            sget_in_vault [of "\<lambda>v. case aget (es_providers v) p of None \<Rightarrow> replicate 32 0
              | Some p \<Rightarrow> rg_settlement_token_account p"])
    qed
  qed
qed

end
