(* ===== verification/Ledger_Sections.thy ===== *)
theory Ledger_Sections
  imports Ledger_Refine
begin

text \<open>
  More critical sections: deposits and withdrawals, the registration of providers, and confirmed
  chunks.  Each keeps the log and the ledger together, as the sections of
  \<open>Ledger_Refine\<close> do.
\<close>

section \<open>Deposits\<close>

lemma rollback_after_deposit:
  assumes "apply_deposit c a v = (Inr x, v1)" "rollback_deposit c a v1 = (y, v2)" "y \<noteq> Inl Panic"
    "adistinct (es_client_balances v)" "aget (es_client_balances v) c = Some b"
  shows "v2 = v"
proof -
  obtain f d where f: "checked_add (cb_free b) a = Some f" "checked_add (cb_total_deposited b) a = Some d"
    and v1: "v1 = v\<lparr>es_client_balances := aput c (b\<lparr>cb_free := f, cb_total_deposited := d\<rparr>) (es_client_balances v)\<rparr>"
    using assms(1,5) by (auto simp: apply_deposit_ok)
  then show ?thesis
    using assms(2-5) f [THEN checked_add_then_sub]
    by (auto simp: rollback_deposit_def state_op_defs aput_aput aput_same)
qed

lemma processed_bind:
  "sbind (sget (\<lambda>app. s \<in> app_processed app)) (\<lambda>p. if p then sret x else m) app =
    (if s \<in> app_processed app then (Inr x, app) else m app)"
  by (simp add: sbind_def sget_def sret_def)

lemma deposit_logs:
  assumes run: "detector_apply_deposit env d now app = (res, app')" and res: "res \<noteq> Inl Panic"
    and inv: "ledger_inv C sha256 (ledger_of (app_vault app))"
    and known: "io_ok app \<or> aget (es_client_balances (app_vault app)) (de_client d) \<noteq> None"
  shows "logs C sha256 3 app app'"
proof (cases "de_signature d \<in> app_processed app")
  case True
  then show ?thesis
    using run by (auto simp: detector_apply_deposit_def processed_bind intro: logs_mono [OF logs_refl])
next
  case False
  let ?v = "app_vault app" and ?c = "de_client d" and ?a = "de_amount d"
  let ?e = "DepositApplied ?c ?a (de_slot d) (de_signature d)"
  have "sbind (in_vault (apply_deposit ?c ?a)) (\<lambda>_.
    sbind (wal_append_or_rollback now ?e (rollback_deposit ?c ?a)) (\<lambda>_.
    sbind (mark_processed (de_signature d) (de_slot d)) (\<lambda>_.
    sbind (issue_client_receipt_locked env ?c now) (\<lambda>_. sret ())))) app = (res, app')"
    using run False by (simp add: detector_apply_deposit_def processed_bind)
  then show ?thesis
  proof (rule section_logs)
    show "same_books ?v v1" if "apply_deposit ?c ?a ?v = (Inl (Err f), v1)" for f v1
      using that apply_deposit_no_err by blast
    fix x v1
    assume m: "apply_deposit ?c ?a ?v = (Inr x, v1)"
    show "same_books ?v v2" if "rollback_deposit ?c ?a v1 = (y, v2)" "y \<noteq> Inl Panic" "\<not> io_ok app" for y v2
      using rollback_after_deposit [OF m that(1,2) inv_distinct(1) [OF inv]] known that(3)
      by (auto simp: same_books_def)
    fix app1
    assume app1: "app_vault app1 = v1" and entry: "appended 1 [?e] app app1"
      and cont: "sbind (mark_processed (de_signature d) (de_slot d)) (\<lambda>_.
        sbind (issue_client_receipt_locked env ?c now) (\<lambda>_. sret ())) app1 = (res, app')"
    define app2 where "app2 = snd (mark_processed (de_signature d) (de_slot d) app1)"
    have app2: "app_wal app2 = app_wal app1" "app_vault app2 = v1\<lparr>es_last_finalized_slot := de_slot d\<rparr>"
      by (simp_all add: app2_def mark_processed_def smodify_def app1)
    have "sbind (issue_client_receipt_locked env ?c now) (\<lambda>_. sret ()) app2 = (res, app')"
      using cont by (simp add: app2_def mark_processed_def smodify_def sbind_def)
    from loggingD [OF logging_sbind [OF logging_issue_client logging_sret] this res]
    have tail: "logs C sha256 (2 + 0) app2 app'" .
    define b where "b = (case aget (es_client_balances ?v) ?c of None \<Rightarrow> client_balance_default | Some b \<Rightarrow> b)"
    obtain f t where f: "checked_add (cb_free b) ?a = Some f" "checked_add (cb_total_deposited b) ?a = Some t"
      and v1: "v1 = ?v\<lparr>es_client_balances := aput ?c (b\<lparr>cb_free := f, cb_total_deposited := t\<rparr>) (es_client_balances ?v)\<rparr>"
      using m by (auto simp: apply_deposit_ok b_def)
    have "(case map_option erase_balance (aget (es_client_balances ?v) ?c) of
        None \<Rightarrow> client_balance_default | Some b \<Rightarrow> b) = erase_balance b"
      by (simp add: b_def client_balance_default_def erase_balance_def split: option.splits)
    moreover have "lput_balance ?c (erase_balance b\<lparr>cb_free := f, cb_total_deposited := t\<rparr>) L =
        lput_balance ?c (b\<lparr>cb_free := f, cb_total_deposited := t\<rparr>) L" for L
      by (simp add: lput_balance_def erase_balance_def)
    ultimately have "lstep C sha256 ?e (ledger_of ?v) = Some (ledger_of (app_vault app2))"
      using f by (simp add: app2 v1 ledger_of_balance)
    then show "logs C sha256 3 app app'"
      by (rule logs_commit_then [OF entry app2(1) _ _ _ tail]) (simp_all add: app2 v1)
  qed (simp_all add: res)
qed

section \<open>Withdrawals\<close>

lemma expire_after_authorize:
  assumes "authorize_withdrawal w v = (Inr x, v1)" "expire_pending_withdrawal (pw_withdraw_nonce w) v1 = (y, v2)"
    "y \<noteq> Inl Panic" "adistinct (es_client_balances v)" "aget (es_pending_withdrawals v) (pw_withdraw_nonce w) = None"
  shows "v2 = v"
proof -
  obtain b l where b: "aget (es_client_balances v) (pw_client w) = Some b" "pw_amount w \<le> cb_free b"
      "checked_add (cb_locked b) (pw_amount w) = Some l"
    and v1: "v1 = v\<lparr>es_client_balances := aput (pw_client w) (b\<lparr>cb_free := cb_free b - pw_amount w,
          cb_locked := l\<rparr>) (es_client_balances v),
        es_pending_withdrawals := aput (pw_withdraw_nonce w) w (es_pending_withdrawals v)\<rparr>"
    using assms(1) by (auto simp: authorize_withdrawal_ok)
  have "checked_add (cb_free b - pw_amount w) (pw_amount w) = Some (cb_free b)"
    using b(2) by (intro checked_sub_then_add) (simp add: checked_sub_def)
  then show ?thesis
    using assms(2-5) b checked_add_then_sub [OF b(3)]
    by (auto simp: v1 expire_pending_withdrawal_def take_withdrawal_def state_op_defs Let_def aput_aput
        aput_same adel_aput_fresh)
qed

lemma withdraw_auth_logs:
  assumes run: "withdraw_auth_section env c ata a now app = (res, app')" and res: "res \<noteq> Inl Panic"
    and inv: "ledger_inv C sha256 (ledger_of (app_vault app))"
    and nonce: "es_withdraw_nonce (app_vault app) \<noteq> - 1"
    and fresh: "aget (es_pending_withdrawals (app_vault app)) (es_withdraw_nonce (app_vault app)) = None"
  shows "logs C sha256 3 app app'"
proof -
  let ?v = "app_vault app"
  define n where "n = es_withdraw_nonce ?v"
  define v0 where "v0 = ?v\<lparr>es_withdraw_nonce := n + 1\<rparr>"
  define w where "w = \<lparr>pw_client = c, pw_recipient_ata = ata, pw_amount = a, pw_withdraw_nonce = n,
    pw_issued_at = now, pw_expires_at = now + 300\<rparr>"
  have less: "n < n + 1" using nonce by (simp add: n_def less_succ_word)
  have L0: "ledger_of v0 = ledger_of ?v" by (simp add: v0_def)
  have first: "logs C sha256 0 app (app\<lparr>app_vault := v0\<rparr>)"
    using less L0 unfolding logs_def
    by (intro conjI exI [of _ "[]"]) (simp_all add: appended_refl v0_def flip: n_def)
  define out where "out = (let m = build_withdraw_authorization_message (es_vault_config v0) c ata a n
      (word_of_int (now + 300)) in (n, now + 300, ee_sign env m, m))"
  have "sbind (in_vault (authorize_withdrawal w)) (\<lambda>_.
      sbind (wal_append_or_rollback now (WithdrawAuthorized w) (rollback_authorized_withdrawal n)) (\<lambda>_.
      sbind (refresh_and_issue env c now) (\<lambda>_. sret out))) (app\<lparr>app_vault := v0\<rparr>) = (res, app')"
    using run by (simp add: withdraw_auth_section_def sbind_def [of "in_vault next_withdraw_nonce"] in_vault_def [of next_withdraw_nonce]
        next_withdraw_nonce_def sbind_def [of "sget _"] sget_def Let_def w_def out_def v0_def flip: n_def)
  then have "logs C sha256 3 (app\<lparr>app_vault := v0\<rparr>) app'"
  proof (rule section_logs)
    have dist: "adistinct (es_client_balances v0)" using inv_distinct(1) [OF inv] by (simp add: v0_def)
    show "same_books (app_vault (app\<lparr>app_vault := v0\<rparr>)) v1"
      if "authorize_withdrawal w (app_vault (app\<lparr>app_vault := v0\<rparr>)) = (Inl (Err f), v1)" for f v1
      using authorize_withdrawal_err [OF that] by (simp add: same_books_def)
    fix x v1
    assume m': "authorize_withdrawal w (app_vault (app\<lparr>app_vault := v0\<rparr>)) = (Inr x, v1)"
    then have m: "authorize_withdrawal w v0 = (Inr x, v1)" by simp
    have n0: "aget (es_pending_withdrawals v0) (pw_withdraw_nonce w) = None" "pw_withdraw_nonce w = n" "pw_client w = c"
      using fresh by (simp_all add: v0_def w_def n_def)
    show "same_books (app_vault (app\<lparr>app_vault := v0\<rparr>)) v2"
      if "rollback_authorized_withdrawal n v1 = (y, v2)" "y \<noteq> Inl Panic" for y v2
      using expire_after_authorize [OF m _ that(2) dist n0(1)] that(1) n0(2)
      by (simp add: same_books_def rollback_authorized_withdrawal_def)
    obtain b l where b: "aget (es_client_balances v0) c = Some b" "pw_amount w \<le> cb_free b"
        "checked_add (cb_locked b) (pw_amount w) = Some l"
      and v1: "v1 = v0\<lparr>es_client_balances := aput c (b\<lparr>cb_free := cb_free b - pw_amount w, cb_locked := l\<rparr>)
          (es_client_balances v0),
        es_pending_withdrawals := aput n w (es_pending_withdrawals v0)\<rparr>"
      using m n0 by (auto simp: authorize_withdrawal_ok)
    fix app1
    assume app1: "app_vault app1 = v1" and entry: "appended 1 [WithdrawAuthorized w] (app\<lparr>app_vault := v0\<rparr>) app1"
      and tail: "sbind (refresh_and_issue env c now) (\<lambda>_. sret out) app1 = (res, app')"
    have "logs C sha256 2 app1 app'"
      using dist by (intro refresh_and_issue_logs [OF tail res _ logging_sret]) (simp_all add: app1 v1)
    moreover have "lstep C sha256 (WithdrawAuthorized w) (ledger_of v0) = Some (ledger_of v1)"
      using with_lock [OF b refl] n0 by (simp add: v1 ledger_of_pending)
    moreover have "auth_below (es_withdraw_nonce v1) (WithdrawAuthorized w)"
      using less n0(2) by (simp add: v1 v0_def)
    ultimately show "logs C sha256 3 (app\<lparr>app_vault := v0\<rparr>) app'"
      by (intro logs_commit_then [OF entry refl, of C sha256 2]) (simp_all add: app1, simp add: v1)
  qed (simp_all add: res)
  from logs_trans [OF first this] show ?thesis by simp
qed

lemma sbind_srequire:
  assumes "\<And>x st1. m st = (Inr x, st1) \<Longrightarrow> c x"
  shows "sbind m (\<lambda>x. srequire (c x) e (f x)) st = sbind m f st"
  using assms by (cases "m st") (auto simp: sbind_def srequire_def split: sum.splits)

text \<open>A withdrawal never overflows the total, because it was deposited before.\<close>
lemma withdrawal_fits:
  assumes inv: "ledger_inv C sha256 (ledger_of v)"
    and w: "aget (es_pending_withdrawals v) n = Some w" "aget (es_client_balances v) (pw_client w) = Some b"
  shows "\<exists>t. checked_add (cb_total_withdrawn b) (pw_amount w) = Some t" "pw_amount w \<le> cb_locked b"
proof -
  show "pw_amount w \<le> cb_locked b"
    by (rule inv_locked(2) [OF inv w(2,1) refl])
  moreover have "owned (erase_balance b) \<le> unat (cb_total_deposited (erase_balance b))"
    using balance_owned [OF inv [unfolded ledger_inv_def], of "pw_client w"] w(2) by fastforce
  ultimately have "unat (cb_total_withdrawn b) + unat (pw_amount w) < 2 ^ 64"
    using unat_less_pow [of "cb_total_deposited b"] by (auto simp: owned_def word_le_nat_alt)
  then show "\<exists>t. checked_add (cb_total_withdrawn b) (pw_amount w) = Some t"
    by (simp add: checked_add_def)
qed

lemma rollback_after_withdrawal:
  assumes ap: "apply_withdrawal n v = (Inr w, v1)"
    and rb: "rollback_applied_withdrawal w v1 = (y, v2)" "y \<noteq> Inl Panic"
    and inv: "ledger_inv C sha256 (ledger_of v)"
  shows "same_books v v2"
proof -
  have "aget (es_pending_withdrawals v) n = Some w"
    using ap by (auto simp: apply_withdrawal_ok)
  then obtain b where b: "aget (es_client_balances v) (pw_client w) = Some b" "pw_withdraw_nonce w = n"
      "pw_amount w \<le> cb_locked b" and w: "aget (es_pending_withdrawals v) n = Some w"
    using inv_withdrawal [OF inv] withdrawal_fits(2) [OF inv] by metis
  obtain t where t: "checked_add (cb_total_withdrawn b) (pw_amount w) = Some t"
    and v1: "v1 = v\<lparr>es_pending_withdrawals := adel n (es_pending_withdrawals v),
        es_client_balances := aput (pw_client w) (b\<lparr>cb_locked := cb_locked b - pw_amount w,
          cb_total_withdrawn := t\<rparr>) (es_client_balances v)\<rparr>"
    using ap b by (auto simp: apply_withdrawal_ok saturating_sub_def)
  have "checked_add (cb_locked b - pw_amount w) (pw_amount w) = Some (cb_locked b)"
    using b(3) by (intro checked_sub_then_add) (simp add: checked_sub_def)
  then have v2: "v2 = v\<lparr>es_pending_withdrawals := aput n w (adel n (es_pending_withdrawals v))\<rparr>"
    using rb b checked_add_then_sub [OF t] inv_distinct(1) [OF inv]
    by (auto simp: v1 rollback_applied_withdrawal_def put_withdrawal_def state_op_defs Let_def aput_aput aput_same)
  have "aget (aput n w (adel n (es_pending_withdrawals v))) = aget (es_pending_withdrawals v)"
    using w by (auto simp: fun_eq_iff)
  then show ?thesis
    by (simp add: same_books_def v2 ledger_of_def erase_def)
qed

lemma apply_withdrawal_logs:
  assumes run: "detector_apply_withdrawal env e now app = (res, app')" and res: "res \<noteq> Inl Panic"
    and inv: "ledger_inv C sha256 (ledger_of (app_vault app))"
    and event: "\<And>w. aget (es_pending_withdrawals (app_vault app)) (we_withdraw_nonce e) = Some w \<Longrightarrow>
      pw_client w = we_client e \<and> pw_recipient_ata w = we_recipient_ata e \<and>
      pw_amount w = we_amount e \<and> pw_expires_at w = we_expires_at e"
  shows "logs C sha256 3 app app'"
proof (cases "we_signature e \<in> app_processed app")
  case True
  then show ?thesis
    using run by (auto simp: detector_apply_withdrawal_def processed_bind intro: logs_mono [OF logs_refl])
next
  case False
  let ?v = "app_vault app" and ?n = "we_withdraw_nonce e"
  let ?e = "WithdrawApplied (we_client e) (we_recipient_ata e) (we_amount e) ?n (we_expires_at e)
    (we_slot e) (we_signature e)"
  have match: "pw_client w = we_client e \<and> pw_recipient_ata w = we_recipient_ata e \<and>
      pw_amount w = we_amount e \<and> pw_expires_at w = we_expires_at e"
    if "in_vault (apply_withdrawal ?n) app = (Inr w, app1)" for w app1
    using event that by (auto elim!: in_vaultE simp: apply_withdrawal_ok)
  have skip: "sbind (in_vault (apply_withdrawal ?n)) (\<lambda>w. srequire (pw_client w = we_client e \<and>
      pw_recipient_ata w = we_recipient_ata e \<and> pw_amount w = we_amount e \<and>
      pw_expires_at w = we_expires_at e) er (F w)) app = sbind (in_vault (apply_withdrawal ?n)) F app"
    for er and F :: "_ \<Rightarrow> unit app"
    by (rule sbind_srequire) (rule match)
  have "sbind (in_vault (apply_withdrawal ?n)) (\<lambda>w.
    sbind (wal_append_or_rollback now ?e (rollback_applied_withdrawal w)) (\<lambda>_.
    sbind (mark_processed (we_signature e) (we_slot e)) (\<lambda>_.
    refresh_and_issue env (we_client e) now))) app = (res, app')"
    using run False by (simp add: detector_apply_withdrawal_def processed_bind skip)
  then show ?thesis
  proof (rule section_logs)
    show "same_books ?v v1" if "apply_withdrawal ?n ?v = (Inl (Err f), v1)" for f v1
      using apply_withdrawal_err [OF that] inv_withdrawal [OF inv] withdrawal_fits(1) [OF inv]
      by (fastforce simp: same_books_def)
    fix w v1
    assume m: "apply_withdrawal ?n ?v = (Inr w, v1)"
    show "same_books ?v v2" if "rollback_applied_withdrawal w v1 = (y, v2)" "y \<noteq> Inl Panic" for y v2
      by (rule rollback_after_withdrawal [OF m that inv])
    obtain b t where w: "aget (es_pending_withdrawals ?v) ?n = Some w"
      and b: "aget (es_client_balances ?v) (pw_client w) = Some b"
      and t: "checked_add (cb_total_withdrawn b) (pw_amount w) = Some t"
      and v1: "v1 = ?v\<lparr>es_pending_withdrawals := adel ?n (es_pending_withdrawals ?v),
        es_client_balances := aput (pw_client w) (b\<lparr>cb_locked := saturating_sub (cb_locked b) (pw_amount w),
          cb_total_withdrawn := t\<rparr>) (es_client_balances ?v)\<rparr>"
      using m by (auto simp: apply_withdrawal_ok)
    fix app1
    assume app1: "app_vault app1 = v1" and entry: "appended 1 [?e] app app1"
      and cont: "sbind (mark_processed (we_signature e) (we_slot e)) (\<lambda>_.
        refresh_and_issue env (we_client e) now) app1 = (res, app')"
    define app2 where "app2 = snd (mark_processed (we_signature e) (we_slot e) app1)"
    have app2: "app_wal app2 = app_wal app1" "app_vault app2 = v1\<lparr>es_last_finalized_slot := we_slot e\<rparr>"
      by (simp_all add: app2_def mark_processed_def smodify_def app1)
    have "refresh_and_issue env (we_client e) now app2 = (res, app')"
      using cont by (simp add: app2_def mark_processed_def smodify_def sbind_def)
    then have tail: "logs C sha256 2 app2 app'"
      using inv_distinct(1) [OF inv] by (intro refresh_and_issue_logs0 [OF _ res]) (auto simp: app2 v1)
    have a: "we_amount e \<le> cb_locked b"
      using withdrawal_fits(2) [OF inv w b] event [OF w] by simp
    have "with_balance (we_client e) (\<lambda>b. if we_amount e \<le> cb_locked b
        then map_option (\<lambda>t. b\<lparr>cb_locked := cb_locked b - we_amount e, cb_total_withdrawn := t\<rparr>)
          (checked_add (cb_total_withdrawn b) (we_amount e))
        else None) k (ledger_of ?v) =
      k (ledger_of (?v\<lparr>es_client_balances := aput (we_client e) (b\<lparr>cb_locked :=
        saturating_sub (cb_locked b) (we_amount e), cb_total_withdrawn := t\<rparr>) (es_client_balances ?v)\<rparr>))" for k
      using b t event [OF w] a
      by (intro with_balance_ledger_of [of _ _ b]) (simp_all add: erase_balance_def saturating_sub_def)
    then have "lstep C sha256 ?e (ledger_of ?v) = Some (ledger_of (app_vault app2))"
      using w event [OF w] by (simp add: app2 v1 ledger_of_simps lput_commute)
    then show "logs C sha256 3 app app'"
      by (rule logs_commit_then [OF entry app2(1) _ _ _ tail]) (simp_all add: app2 v1)
  qed (simp_all add: res)
qed

lemma expire_withdrawal_logs:
  assumes run: "expire_pending_withdrawal_section env n now app = (res, app')" and res: "res \<noteq> Inl Panic"
    and inv: "ledger_inv C sha256 (ledger_of (app_vault app))"
  shows "logs C sha256 3 app app'"
proof -
  let ?v = "app_vault app"
  consider "app' = app" | w where "aget (es_pending_withdrawals ?v) n = Some w"
    "sbind (wal_append_or_fail now (WithdrawExpired (pw_client w) n)) (\<lambda>_.
      sbind (in_vault (expire_pending_withdrawal n)) (\<lambda>expired.
      sbind (refresh_and_issue env (pw_client expired) now) (\<lambda>_. sret True))) app = (res, app')"
    using run by (cases "aget (es_pending_withdrawals ?v) n")
      (auto simp: expire_pending_withdrawal_section_def sbind_def [of "sget _"] sget_def sret_def split: if_splits)
  then show ?thesis
  proof cases
    case 1
    then show ?thesis by (auto intro: logs_mono [OF logs_refl])
  next
    case (2 w)
    obtain b where b: "aget (es_client_balances ?v) (pw_client w) = Some b"
      using inv_withdrawal [OF inv 2(1)] by metis
    from 2(2) show ?thesis
    proof (rule log_first)
      fix app1
      assume app1: "app_vault app1 = ?v" and entry: "appended 1 [WithdrawExpired (pw_client w) n] app app1"
        and rest: "sbind (in_vault (expire_pending_withdrawal n)) (\<lambda>expired.
          sbind (refresh_and_issue env (pw_client expired) now) (\<lambda>_. sret True)) app1 = (res, app')"
      let ?v1 = "\<lambda>f. ?v\<lparr>es_pending_withdrawals := adel n (es_pending_withdrawals ?v),
        es_client_balances := aput (pw_client w) (b\<lparr>cb_locked :=
          saturating_sub (cb_locked b) (pw_amount w), cb_free := f\<rparr>) (es_client_balances ?v)\<rparr>"
      obtain f where f: "checked_add (cb_free b) (pw_amount w) = Some f"
        and tail: "sbind (refresh_and_issue env (pw_client w) now) (\<lambda>_. sret True) (app1\<lparr>app_vault := ?v1 f\<rparr>) = (res, app')"
        using rest res b 2(1)
        by (auto simp: sbind_def [of "in_vault _"] in_vault_def app1 expire_pending_withdrawal_def take_withdrawal_def
            state_op_defs Let_def aput_aput split: option.splits)
      have step: "lstep C sha256 (WithdrawExpired (pw_client w) n) (ledger_of ?v) = Some (ledger_of (?v1 f))"
        using with_unlock [OF b withdrawal_fits(2) [OF inv 2(1) b] f refl] 2(1)
        by (simp add: ledger_of_simps lput_commute)
      have "logs C sha256 2 (app1\<lparr>app_vault := ?v1 f\<rparr>) app'"
        using inv_distinct(1) [OF inv] by (intro refresh_and_issue_logs [OF tail res _ logging_sret]) simp_all
      then show "logs C sha256 3 app app'"
        by (rule logs_committed [OF entry refl step, rotated 2]) simp_all
    qed simp
  qed
qed

section \<open>Providers\<close>

lemma provider_logs:
  assumes "sbind (wal_append_or_fail now (ProviderRegistered reg)) (\<lambda>_.
      in_vault (smodify (\<lambda>st. st\<lparr>es_providers := aput (rg_provider_id reg) reg (es_providers st)\<rparr>))) app = (res, app')"
    "aget (es_providers (app_vault app)) (rg_provider_id reg) = None"
  shows "logs C sha256 1 app app'"
  using assms(1)
proof (rule log_first)
  fix app1
  assume app1: "app_vault app1 = app_vault app" and entry: "appended 1 [ProviderRegistered reg] app app1"
    and "in_vault (smodify (\<lambda>st. st\<lparr>es_providers := aput (rg_provider_id reg) reg (es_providers st)\<rparr>)) app1 = (res, app')"
  then have "app' = app1\<lparr>app_vault := (app_vault app)\<lparr>es_providers := aput (rg_provider_id reg) reg
      (es_providers (app_vault app))\<rparr>\<rparr>"
    by (auto simp: in_vault_def smodify_def)
  then show "logs C sha256 1 app app'"
    using assms(2) by (intro logs_commit_then [OF entry _ _ _ _ logs_refl]) (simp_all add: ledger_of_base)
qed simp

lemma register_provider_logs:
  assumes "register_provider_section reg now app = (res, app')"
  shows "logs C sha256 1 app app'"
  using assms provider_logs [of now reg app res app' C sha256]
  by (auto simp: register_provider_section_def sbind_def [of "sget _"] sget_def srequire_def
      intro: logs_mono [OF logs_refl] split: if_splits)

lemma open_provider_logs:
  assumes "open_provider_section reg now app = (res, app')"
  shows "logs C sha256 1 app app'"
  using assms provider_logs [of now reg app res app' C sha256]
  by (auto simp: open_provider_section_def sbind_def [of "sget _"] sget_def sret_def
      intro: logs_mono [OF logs_refl] split: if_splits)

section \<open>Confirmed chunks\<close>

lemma find_map_vals:
  assumes "\<And>v. P (f v) = P v"
  shows "find (\<lambda>(k, v). P v) (map_vals f m) = map_option (\<lambda>(k, v). (k, f v)) (find (\<lambda>(k, v). P v) m)"
  by (induction m) (auto simp: map_vals_def assms)

text \<open>The part of an iteration that follows the update of the history.\<close>
definition confirm_credit :: "string \<Rightarrow> string list \<Rightarrow> VaultState \<Rightarrow> VaultState \<times> string list" where
  "confirm_credit sid A st1 = (case reservation_of sid st1 of
      Some (vid, r) \<Rightarrow>
        let st2 = (case aget (es_provider_credits st1) (rv_provider_id r) of
                     None \<Rightarrow> st1
                   | Some credit \<Rightarrow> st1\<lparr>es_provider_credits := aput (rv_provider_id r)
                       (remove_settlement_id sid (credit\<lparr>pc_credited_amount :=
                           saturating_sub (pc_credited_amount credit) (rv_amount r)\<rparr>))
                       (es_provider_credits st1)\<rparr>)
        in (st2\<lparr>es_reservations := aput vid (r\<lparr>rv_status := BatchedOnchain\<rparr>) (es_reservations st2)\<rparr>,
            rv_provider_id r # A)
    | None \<Rightarrow>
        (case find (\<lambda>(p, credit). sid \<in> set (pc_settlement_ids credit)) (es_provider_credits st1) of
           None \<Rightarrow> (st1, A)
         | Some (p, credit) \<Rightarrow>
             (st1\<lparr>es_provider_credits := aput p (remove_settlement_id sid credit)
                (es_provider_credits st1)\<rparr>, pc_provider_id credit # A)))"

lemma confirm_settlement_credit:
  "confirm_settlement b tx (st, A) sid = confirm_credit sid A
    (st\<lparr>es_settlement_history := adel sid (es_settlement_history st),
        es_settlement_batches := aput sid \<lparr>bi_batch_id = b, bi_tx_signature = tx\<rparr> (es_settlement_batches st)\<rparr>)"
  by (simp add: confirm_settlement_def confirm_credit_def Let_def)

lemma erase_updates:
  "erase (v\<lparr>es_provider_credits := m\<rparr>) = (erase v)\<lparr>es_provider_credits := map_vals erase_credit m\<rparr>"
  "erase (v\<lparr>es_reservations := rs\<rparr>) = (erase v)\<lparr>es_reservations := rs\<rparr>"
  "erase (v\<lparr>es_settlement_history := h, es_settlement_batches := bs\<rparr>) =
    (erase v)\<lparr>es_settlement_history := h, es_settlement_batches := bs\<rparr>"
  by (simp_all add: erase_def)

lemma remove_settlement_id_erase:
  "remove_settlement_id sid (erase_credit c) = erase_credit (remove_settlement_id sid c)"
  "remove_settlement_id sid (erase_credit c\<lparr>pc_credited_amount := x\<rparr>) =
    erase_credit (remove_settlement_id sid (c\<lparr>pc_credited_amount := x\<rparr>))"
  by (simp_all add: remove_settlement_id_def erase_credit_def)

lemma confirm_credit_erase: "confirm_credit sid A (erase st) = map_prod erase id (confirm_credit sid A st)"
proof (cases "reservation_of sid st")
  case (Some vr)
  then show ?thesis
    by (cases "aget (es_provider_credits st) (rv_provider_id (snd vr))")
      (simp_all add: confirm_credit_def reservation_of_def erase_updates remove_settlement_id_erase split_beta)
next
  case None
  then show ?thesis
    using find_map_vals [of "\<lambda>c. sid \<in> set (pc_settlement_ids c)" erase_credit "es_provider_credits st"]
    by (cases "find (\<lambda>(p, credit). sid \<in> set (pc_settlement_ids credit)) (es_provider_credits st)")
      (auto simp: confirm_credit_def reservation_of_def erase_updates remove_settlement_id_erase)
qed

lemma confirm_settlement_erase:
  "confirm_settlement b tx (erase st, A) sid = map_prod erase id (confirm_settlement b tx (st, A) sid)"
  unfolding confirm_settlement_credit by (simp flip: confirm_credit_erase add: erase_updates)

lemma confirm_all_erase:
  "foldl (confirm_settlement b tx) (erase st, A) sids = map_prod erase id (foldl (confirm_settlement b tx) (st, A) sids)"
proof (induction sids arbitrary: st A)
  case (Cons sid sids)
  obtain st' A' where "confirm_settlement b tx (st, A) sid = (st', A')" by fastforce
  then show ?case
    using Cons.IH [of st' A'] by (simp add: confirm_settlement_erase)
qed simp

lemma erase_erase [simp]: "erase (erase v) = erase v"
  by (simp add: erase_def map_vals_def comp_def split_beta)

lemma map_vals_erase_credit [simp]: "map_vals erase_credit (map_vals erase_credit m) = map_vals erase_credit m"
  by (simp add: map_vals_def comp_def split_beta)

lemma close_credit_erase: "erase (close_credit p (erase v)) = erase (close_credit p v)"
proof (cases "aget (es_provider_credits v) p")
  case (Some c)
  have oldest: "erase_credit (erase_credit c\<lparr>pc_oldest_credit_at := t\<rparr>) = erase_credit (c\<lparr>pc_oldest_credit_at := t\<rparr>)" for t
    by (simp add: erase_credit_def)
  show ?thesis
  proof (cases "pc_credited_amount c = 0 \<or> pc_settlement_ids c = []")
    case False
    then show ?thesis
      using Some by (cases "min_opt (map sr_timestamp (List.map_filter
          (aget (es_settlement_history v)) (pc_settlement_ids c)))")
        (simp_all add: close_credit_def erase_updates oldest)
  qed (use Some in \<open>simp add: close_credit_def erase_updates\<close>)
qed (simp add: close_credit_def)

lemma close_credits_erase: "erase v = erase w \<Longrightarrow> erase (fold close_credit A v) = erase (fold close_credit A w)"
proof (induction A arbitrary: v w)
  case (Cons p A)
  have "erase (close_credit p v) = erase (close_credit p w)"
    using close_credit_erase [of p v] close_credit_erase [of p w] Cons.prems by simp
  from Cons.IH [OF this] show ?case by simp
qed simp

lemma apply_batch_erase:
  "erase (apply_batch_confirmation sids b tx (erase v)) = erase (apply_batch_confirmation sids b tx v)"
  by (auto simp: apply_batch_confirmation_def confirm_all_erase intro: close_credits_erase split: prod.splits)

lemma apply_batch_frame:
  "es_pending_withdrawals (apply_batch_confirmation sids b tx v) = es_pending_withdrawals v \<and>
    es_active_channels (apply_batch_confirmation sids b tx v) = es_active_channels v \<and>
    es_withdraw_nonce (apply_batch_confirmation sids b tx v) = es_withdraw_nonce v"
proof -
  let ?F = "\<lambda>v. (es_pending_withdrawals v, es_active_channels v, es_withdraw_nonce v)"
  have confirm: "?F (fst (confirm_settlement b tx (st, A) sid)) = ?F st" for st A sid
    by (auto simp: confirm_settlement_def Let_def split: option.splits prod.splits)
  have "?F (fst (foldl (confirm_settlement b tx) (st, A) sids)) = ?F st" for st A
  proof (induction sids arbitrary: st A)
    case (Cons sid sids)
    obtain st' A' where "confirm_settlement b tx (st, A) sid = (st', A')" by fastforce
    then show ?case
      using Cons.IH [of st' A'] confirm [of st A sid] by simp
  qed simp
  moreover have "?F (close_credit p st) = ?F st" for p st
    by (simp add: close_credit_def split: option.splits)
  then have "?F (fold close_credit A st) = ?F st" for A st
    by (induction A arbitrary: st) simp_all
  moreover obtain st A where "foldl (confirm_settlement b tx) (v, []) sids = (st, A)" by fastforce
  ultimately show ?thesis
    by (simp add: apply_batch_confirmation_def) (metis fst_conv)
qed

lemma batch_confirm_logs:
  assumes "batch_confirm_section sids b tx now app = (res, app')"
  shows "logs C sha256 1 app app'"
  using assms unfolding batch_confirm_section_def
proof (rule log_first)
  let ?v = "app_vault app" and ?e = "BatchConfirmed b tx sids"
  fix app1
  assume app1: "app_vault app1 = ?v" and entry: "appended 1 [?e] app app1"
    and "in_vault (smodify (\<lambda>st. (apply_batch_confirmation sids b tx st)\<lparr>es_last_batch_at := now\<rparr>)) app1 = (res, app')"
  then have app': "app' = app1\<lparr>app_vault := (apply_batch_confirmation sids b tx ?v)\<lparr>es_last_batch_at := now\<rparr>\<rparr>"
    by (auto simp: in_vault_def smodify_def)
  have "lstep C sha256 ?e (ledger_of ?v) = Some (ledger_of (apply_batch_confirmation sids b tx ?v))"
    by (simp add: ledger_of_def apply_batch_erase apply_batch_frame)
  then show "logs C sha256 1 app app'"
    by (intro logs_commit_then [OF entry _ _ _ _ logs_refl]) (simp_all add: app' apply_batch_frame)
qed simp

end
