(* ===== verification/Ledger_Channels.thy ===== *)
theory Ledger_Channels
  imports Ledger_Sections
begin

text \<open>
  The critical sections that work on channels keep the log and the ledger together.
\<close>

section \<open>Requests on a channel\<close>

lemma with_channel_ledger_of:
  assumes "aget (es_active_channels v) cid = Some ch" "f (erase_channel ch) = Some x"
    "erase_channel x = erase_channel ch'"
  shows "with_channel cid f (ledger_of v) = Some (ledger_of (set_channel cid ch' v))"
  using assms by (simp add: with_channel_def ledger_of_channel lput_channel_def)

lemma same_books_channel:
  assumes "aget (es_active_channels v) cid = Some ch" "erase_channel ch' = erase_channel ch"
  shows "same_books v (set_channel cid ch' v)"
  using assms lput_channel_same [of "ledger_of v" cid "Some ch'"]
  by (simp add: same_books_def ledger_of_channel) (simp add: set_channel_def)

lemma nonce_set_channel [simp]: "es_withdraw_nonce (set_channel cid ch v) = es_withdraw_nonce v"
  "es_client_balances (set_channel cid ch v) = es_client_balances v"
  by (simp_all add: set_channel_def)

text \<open>What the rollbacks do when they succeed.\<close>
lemma rollback_submit_request_ok:
  "rollback_submit_request cid rid now st = (Inr u, st') \<longleftrightarrow>
    (\<exists>ch r free. aget (es_active_channels st) cid = Some ch \<and> ch_active_request ch = Some r \<and>
      cr_request_id r = rid \<and> checked_add (client_free (ch_balance ch)) (cr_amount r) = Some free \<and>
      st' = set_channel cid (ch\<lparr>ch_balance := (ch_balance ch)\<lparr>
          client_locked := saturating_sub (client_locked (ch_balance ch)) (cr_amount r), client_free := free\<rparr>,
        ch_status := Open, ch_active_request := None, ch_nonce := saturating_sub (ch_nonce ch) 1,
        ch_updated_at := now, ch_used_request_ids := ch_used_request_ids ch - {rid}\<rparr>) st)"
  by (auto simp: rollback_submit_request_def Let_def result_simps)

lemma rollback_deliver_adaptor_ok:
  "rollback_deliver_adaptor cid rid now st = (Inr u, st') \<longleftrightarrow>
    (\<exists>ch r. aget (es_active_channels st) cid = Some ch \<and> ch_status ch = Pending \<and>
      ch_active_request ch = Some r \<and> cr_request_id r = rid \<and>
      st' = set_channel cid (ch\<lparr>ch_active_request := Some (r\<lparr>
          cr_provider_pubkey := None, cr_adaptor_point := None, cr_provider_pre_sig := None,
          cr_encrypted_result := None, cr_result_hash := None\<rparr>),
        ch_status := Locked, ch_nonce := saturating_sub (ch_nonce ch) 1, ch_updated_at := now\<rparr>) st)"
  by (auto simp: rollback_deliver_adaptor_def Let_def result_simps)

lemma rollback_finalize_offchain_ok:
  "rollback_finalize_offchain cid r now st = (Inr u, st') \<longleftrightarrow>
    (\<exists>ch l. aget (es_active_channels st) cid = Some ch \<and> ch_status ch = Open \<and> ch_active_request ch = None \<and>
      checked_add (client_locked (ch_balance ch)) (cr_amount r) = Some l \<and>
      st' = set_channel cid (ch\<lparr>ch_balance := (ch_balance ch)\<lparr>client_locked := l,
          provider_earned := saturating_sub (provider_earned (ch_balance ch)) (cr_amount r)\<rparr>,
        ch_status := Pending, ch_active_request := Some r, ch_nonce := saturating_sub (ch_nonce ch) 1,
        ch_updated_at := now\<rparr>) st)"
  by (auto simp: rollback_finalize_offchain_def Let_def result_simps)

lemma rollback_expire_request_ok:
  "rollback_expire_request out now st = (Inr u, st') \<longleftrightarrow>
    (\<exists>ch l. aget (es_active_channels st) (eo_channel_id out) = Some ch \<and> ch_status ch = Open \<and>
      ch_active_request ch = None \<and>
      checked_add (client_locked (ch_balance ch)) (cr_amount (eo_request out)) = Some l \<and>
      st' = set_channel (eo_channel_id out) (ch\<lparr>ch_balance := (ch_balance ch)\<lparr>
          client_free := saturating_sub (client_free (ch_balance ch)) (cr_amount (eo_request out)),
          client_locked := l\<rparr>,
        ch_status := eo_previous_status out, ch_active_request := Some (eo_request out),
        ch_nonce := saturating_sub (ch_nonce ch) 1, ch_updated_at := now\<rparr>) st)"
  by (auto simp: rollback_expire_request_def Let_def result_simps)

lemma saturating_sub_self: "saturating_sub a a = 0"
  by (simp add: saturating_sub_def)

lemma checked_sub_add_back: "a \<le> b \<Longrightarrow> checked_add (b - a) a = Some b" for a b :: u64
  by (intro checked_sub_then_add) (simp add: checked_sub_def)

lemma rollback_after_submit:
  assumes "submit_request cid rid a h now v = (Inr x, v1)"
    "rollback_submit_request cid rid now' v1 = (y, v2)"
    and wf: "\<And>ch. aget (es_active_channels v) cid = Some ch \<Longrightarrow> channel_wf C sha256 cid ch"
  shows "same_books v v2"
proof -
  obtain ch l n where ch: "aget (es_active_channels v) cid = Some ch" "ch_status ch = Open"
      "rid \<notin> ch_used_request_ids ch" "a \<le> client_free (ch_balance ch)"
      "checked_add (client_locked (ch_balance ch)) a = Some l" "checked_add (ch_nonce ch) 1 = Some n"
    and v1: "v1 = set_channel cid (ch\<lparr>
        ch_balance := (ch_balance ch)\<lparr>client_free := client_free (ch_balance ch) - a, client_locked := l\<rparr>,
        ch_status := Locked, ch_nonce := n, ch_updated_at := now,
        ch_used_request_ids := insert rid (ch_used_request_ids ch),
        ch_active_request := Some
          \<lparr>cr_request_id = rid, cr_amount = a, cr_request_hash = h, cr_provider_pubkey = None,
           cr_adaptor_point = None, cr_provider_pre_sig = None, cr_encrypted_result = None,
           cr_result_hash = None, cr_created_at = now, cr_expires_at = now + REQUEST_EXPIRY_SEC\<rparr>\<rparr>) v"
    using assms(1) unfolding submit_request_ok by blast
  have "ch_active_request ch = None"
    using wf [OF ch(1)] ch(2) by (simp add: channel_wf_def)
  then have "rollback_submit_request cid rid now' v1 = (Inr (), set_channel cid (ch\<lparr>ch_updated_at := now'\<rparr>) v)"
    unfolding rollback_submit_request_ok
    using ch(2,3) checked_sub_add_back [OF ch(4)] ch(5,6) [THEN checked_add_then_sub]
    by (auto simp: v1 intro!: arg_cong [of _ _ "\<lambda>c. set_channel cid c v"])
  then show ?thesis
    using assms(2) by (auto intro: same_books_channel [OF ch(1)] simp: erase_channel_def)
qed

lemma rollback_after_deliver:
  assumes "deliver_adaptor C sha256 cid tb pre enc rh pk now v = (Inr x, v1)"
    "rollback_deliver_adaptor cid rid now' v1 = (y, v2)"
    and ch: "aget (es_active_channels v) cid = Some ch" "ch_active_request ch = Some r" "cr_request_id r = rid"
    and undelivered: "cr_provider_pubkey r = None" "cr_adaptor_point r = None" "cr_provider_pre_sig r = None"
      "cr_encrypted_result r = None" "cr_result_hash r = None"
  shows "same_books v v2"
proof -
  obtain n where st: "ch_status ch = Locked" "checked_add (ch_nonce ch) 1 = Some n"
    and v1: "v1 = set_channel cid (ch\<lparr>ch_active_request := Some (r\<lparr>cr_provider_pubkey := Some pk,
          cr_adaptor_point := Some tb, cr_provider_pre_sig := Some pre,
          cr_encrypted_result := Some enc, cr_result_hash := Some rh\<rparr>),
        ch_status := Pending, ch_nonce := n, ch_updated_at := now\<rparr>) v"
    using assms(1) ch(1,2) unfolding deliver_adaptor_ok by auto
  have "r\<lparr>cr_provider_pubkey := None, cr_adaptor_point := None, cr_provider_pre_sig := None,
      cr_encrypted_result := None, cr_result_hash := None\<rparr> = r"
    using undelivered by simp
  then have "rollback_deliver_adaptor cid rid now' v1 = (Inr (), set_channel cid (ch\<lparr>ch_updated_at := now'\<rparr>) v)"
    unfolding rollback_deliver_adaptor_ok using st(1) ch checked_add_then_sub [OF st(2)]
    by (auto simp: v1 intro!: arg_cong [of _ _ "\<lambda>c. set_channel cid c v"])
  then show ?thesis
    using assms(2) by (auto intro: same_books_channel [OF ch(1)] simp: erase_channel_def)
qed

lemma finalize_offchain_channel:
  assumes "finalize_offchain C sha256 cid secret now v = (Inr out, v1)"
  obtains ch r l e n where "aget (es_active_channels v) cid = Some ch" "ch_status ch = Pending"
    "ch_active_request ch = Some r" "checked_sub (client_locked (ch_balance ch)) (cr_amount r) = Some l"
    "checked_add (provider_earned (ch_balance ch)) (cr_amount r) = Some e"
    "checked_add (ch_nonce ch) 1 = Some n"
    "fo_request_id out = cr_request_id r" "fo_amount out = cr_amount r" "fo_request out = r"
    "v1 = set_channel cid (ch\<lparr>ch_balance := (ch_balance ch)\<lparr>client_locked := l, provider_earned := e\<rparr>,
      ch_status := Open, ch_active_request := None, ch_nonce := n, ch_updated_at := now\<rparr>) v"
proof -
  obtain t where "finalize_with_secret C sha256 cid t (Some secret) now v = (Inr out, v1)"
    using assms by (auto simp: finalize_offchain_def result_simps)
  then show thesis
    unfolding finalize_with_secret_ok by (elim exE conjE) (rule that; simp)
qed

lemma rollback_after_finalize:
  assumes "finalize_offchain C sha256 cid secret now v = (Inr out, v1)"
    "rollback_finalize_offchain cid (fo_request out) now' v1 = (y, v2)"
  shows "same_books v v2"
  using assms(1)
proof (rule finalize_offchain_channel)
  fix ch r l e n
  assume ch: "aget (es_active_channels v) cid = Some ch" "ch_status ch = Pending" "ch_active_request ch = Some r"
    and l: "checked_sub (client_locked (ch_balance ch)) (cr_amount r) = Some l"
    and e: "checked_add (provider_earned (ch_balance ch)) (cr_amount r) = Some e" "checked_add (ch_nonce ch) 1 = Some n"
    and out: "fo_request out = r"
    and v1: "v1 = set_channel cid (ch\<lparr>ch_balance := (ch_balance ch)\<lparr>client_locked := l, provider_earned := e\<rparr>,
      ch_status := Open, ch_active_request := None, ch_nonce := n, ch_updated_at := now\<rparr>) v"
  have "rollback_finalize_offchain cid (fo_request out) now' v1 = (Inr (), set_channel cid (ch\<lparr>ch_updated_at := now'\<rparr>) v)"
    unfolding rollback_finalize_offchain_ok
    using ch checked_sub_then_add [OF l] e [THEN checked_add_then_sub]
    by (auto simp: v1 out intro!: arg_cong [of _ _ "\<lambda>c. set_channel cid c v"])
  then show ?thesis
    using assms(2) by (auto intro: same_books_channel [OF ch(1)] simp: erase_channel_def)
qed

lemma rollback_after_expire:
  assumes "expire_request cid now v = (Inr (Some out), v1)" "rollback_expire_request out now' v1 = (y, v2)"
    and wf: "\<And>ch. aget (es_active_channels v) cid = Some ch \<Longrightarrow> channel_wf C sha256 cid ch"
  shows "same_books v v2"
proof -
  obtain ch r f n where ch: "aget (es_active_channels v) cid = Some ch" "ch_active_request ch = Some r"
      "ch_status ch = Locked \<or> ch_status ch = Pending"
    and f: "checked_add (client_free (ch_balance ch)) (cr_amount r) = Some f" "checked_add (ch_nonce ch) 1 = Some n"
    and out: "out = \<lparr>eo_channel_id = ch_channel_id ch, eo_client = ch_client ch,
        eo_previous_status = ch_status ch, eo_request = r\<rparr>"
    and v1: "v1 = set_channel cid (ch\<lparr>ch_balance := (ch_balance ch)\<lparr>
          client_locked := saturating_sub (client_locked (ch_balance ch)) (cr_amount r), client_free := f\<rparr>,
        ch_status := Open, ch_active_request := None, ch_nonce := n, ch_updated_at := now\<rparr>) v"
    using assms(1) unfolding expire_request_some by blast
  have cid: "ch_channel_id ch = cid" and locked: "client_locked (ch_balance ch) = cr_amount r"
    using wf [OF ch(1)] ch by (auto simp: channel_wf_def request_locked_def)
  have "ch\<lparr>ch_balance := (ch_balance ch)\<lparr>client_locked := cr_amount r\<rparr>, ch_active_request := Some r,
      ch_updated_at := now'\<rparr> = ch\<lparr>ch_updated_at := now'\<rparr>"
    using ch(2) locked by simp
  then have "rollback_expire_request out now' v1 = (Inr (), set_channel cid (ch\<lparr>ch_updated_at := now'\<rparr>) v)"
    unfolding rollback_expire_request_ok
    using f [THEN checked_add_then_sub] by (simp add: v1 out cid locked saturating_sub_self)
  then show ?thesis
    using assms(2) by (auto intro: same_books_channel [OF ch(1)] simp: erase_channel_def)
qed

section \<open>Sections on requests\<close>

lemma sbind_sret: "sbind m sret = m"
  by (auto simp: fun_eq_iff sbind_def sret_def split: prod.splits sum.splits)

lemma client_tail_logs:
  assumes "sbind (channel_client cid) (\<lambda>c. sbind (refresh_and_issue env c now) (\<lambda>_. sret x)) app = (r, app')"
    "r \<noteq> Inl Panic" "adistinct (es_client_balances (app_vault app))"
  shows "logs C sha256 2 app app'"
  using assms(1)
proof (rule sbindE)
  fix c app1
  assume "channel_client cid app = (Inr c, app1)"
    and tail: "sbind (refresh_and_issue env c now) (\<lambda>_. sret x) app1 = (r, app')"
  then have app1: "app1 = app" by (auto simp: channel_client_def sfind_def split: option.splits)
  show ?thesis
    using assms(3) by (intro refresh_and_issue_logs [OF tail [unfolded app1] assms(2) _ logging_sret]) simp_all
next
  fix e
  assume "channel_client cid app = (Inl e, app')"
  then have "app' = app" by (auto simp: channel_client_def sfind_def split: option.splits)
  then show ?thesis by (auto intro: logs_mono [OF logs_refl])
qed

lemma channel_wf_of:
  "ledger_inv C sha256 (ledger_of v) \<Longrightarrow> aget (es_active_channels v) cid = Some ch \<Longrightarrow> channel_wf C sha256 cid ch"
  by (metis inv_channel)

lemma channel_request_logs:
  assumes run: "channel_request_section env cid rid a h now app = (res, app')" and res: "res \<noteq> Inl Panic"
    and inv: "ledger_inv C sha256 (ledger_of (app_vault app))"
  shows "logs C sha256 3 app app'"
  using run unfolding channel_request_section_def
proof (rule section_logs)
  let ?v = "app_vault app" and ?e = "ChannelRequestSubmitted cid rid a (Some h)"
  show "same_books ?v v1" if "submit_request cid rid a h now ?v = (Inl (Err f), v1)" for f v1
    using submit_request_err [OF that] by (simp add: same_books_def)
  fix x v1
  assume m: "submit_request cid rid a h now ?v = (Inr x, v1)"
  show "same_books ?v v2" if "rollback_submit_request cid rid now v1 = (y, v2)" for y v2
    by (rule rollback_after_submit [OF m that channel_wf_of [OF inv]])
  fix app1
  assume app1: "app_vault app1 = v1" and entry: "appended 1 [?e] app app1"
    and cont: "sbind (channel_client cid) (\<lambda>client. refresh_and_issue env client now) app1 = (res, app')"
  obtain ch ch' where ch: "aget (es_active_channels ?v) cid = Some ch" and v1: "v1 = set_channel cid ch' ?v"
    and step: "\<exists>c. lch_submit rid a h (erase_channel ch) = Some c \<and> erase_channel c = erase_channel ch'"
    using m unfolding submit_request_ok
    by (auto simp: lch_submit_def Let_def erase_channel_def erase_request_def)
  have "lstep C sha256 ?e (ledger_of ?v) = Some (ledger_of v1)"
    using step with_channel_ledger_of [OF ch, of "lch_submit rid a h"] by (auto simp: v1)
  moreover have "logs C sha256 2 app1 app'"
    using inv_distinct(1) [OF inv] cont res
    by (intro client_tail_logs [where x = "()" and cid = cid and env = env and now = now])
      (simp_all add: sbind_sret app1 v1)
  ultimately show "logs C sha256 3 app app'"
    by (intro logs_commit_then [OF entry refl, of C sha256 2]) (simp_all add: app1, simp_all add: v1)
qed (simp_all add: res)

lemma channel_finalize_logs:
  assumes run: "channel_finalize_section env C sha256 cid secret now app = (res, app')" and res: "res \<noteq> Inl Panic"
    and inv: "ledger_inv C sha256 (ledger_of (app_vault app))"
  shows "logs C sha256 3 app app'"
  using run unfolding channel_finalize_section_def
proof (rule section_logs)
  let ?v = "app_vault app"
  show "same_books ?v v1" if "finalize_offchain C sha256 cid secret now ?v = (Inl (Err f), v1)" for f v1
    using that finalize_with_secret_err [of C sha256 cid _ _ now ?v f v1]
    by (auto simp: finalize_offchain_def sok_or_def sfail_def same_books_def split: option.splits)
  fix out v1
  assume m: "finalize_offchain C sha256 cid secret now ?v = (Inr out, v1)"
  show "same_books ?v v2" if "rollback_finalize_offchain cid (fo_request out) now v1 = (y, v2)" for y v2
    by (rule rollback_after_finalize [OF m that])
  let ?e = "ChannelFinalized cid (fo_request_id out) (fo_amount out)"
  fix app1
  assume app1: "app_vault app1 = v1" and entry: "appended 1 [?e] app app1"
    and cont: "sbind (channel_client cid) (\<lambda>client. sbind (refresh_and_issue env client now) (\<lambda>_. sret out)) app1 = (res, app')"
  obtain ch ch' where ch: "aget (es_active_channels ?v) cid = Some ch" and v1: "v1 = set_channel cid ch' ?v"
    and step: "\<exists>c. lch_finalize (fo_request_id out) (fo_amount out) (erase_channel ch) = Some c \<and>
      erase_channel c = erase_channel ch'"
    using m by (rule finalize_offchain_channel) (rule that, assumption+, simp add: lch_finalize_def erase_channel_def)
  have "lstep C sha256 ?e (ledger_of ?v) = Some (ledger_of v1)"
    using step with_channel_ledger_of [OF ch, of "lch_finalize (fo_request_id out) (fo_amount out)"] by (auto simp: v1)
  moreover have "logs C sha256 2 app1 app'"
    using inv_distinct(1) [OF inv] by (intro client_tail_logs [OF cont res]) (simp add: app1 v1)
  ultimately show "logs C sha256 3 app app'"
    by (intro logs_commit_then [OF entry refl, of C sha256 2]) (simp_all add: app1, simp_all add: v1)
qed (simp_all add: res)

lemma sfind_bind:
  "sbind (sfind f e) g st = (case f st of None \<Rightarrow> (Inl (Err e), st) | Some x \<Rightarrow> g x st)"
  by (simp add: sbind_def sfind_def split: option.splits)

lemma sok_or_app: "sok_or x e f st = (case x of None \<Rightarrow> (Inl (Err e), st) | Some v \<Rightarrow> f v st)"
  by (simp add: sok_or_def sfail_def split: option.splits)

lemma in_vault_const: "in_vault (\<lambda>_. (Inr x, v)) app = (Inr x, app\<lparr>app_vault := v\<rparr>)"
  by (simp add: in_vault_def)

lemma expire_stale_logs:
  assumes run: "expire_stale_channel_request_with_lock env cid now app = (res, app')" and res: "res \<noteq> Inl Panic"
    and inv: "ledger_inv C sha256 (ledger_of (app_vault app))"
  shows "logs C sha256 3 app app'"
proof -
  let ?v = "app_vault app"
  obtain r v1 where m: "expire_request cid now ?v = (r, v1)" by fastforce
  show ?thesis
  proof (cases "\<exists>out. r = Inr (Some out)")
    case False
    then have "v1 = ?v \<and> app' = app\<lparr>app_vault := v1\<rparr>"
      using run res m expire_request_err [of cid now ?v _ v1] expire_request_none [of cid now ?v v1]
        not_panic [of r]
      by (auto simp: expire_stale_channel_request_with_lock_def sbind_def [of "in_vault (expire_request cid now)"]
          in_vault_def sret_def split: sum.splits)
    then show ?thesis by (auto intro: logs_mono [OF logs_refl])
  next
    case True
    then obtain out where out: "expire_request cid now ?v = (Inr (Some out), v1)" using m by blast
    let ?e = "WalEntry.ChannelRequestExpired cid (cr_request_id (eo_request out)) (cr_amount (eo_request out))"
    have "sbind (in_vault (\<lambda>_. (Inr (), v1))) (\<lambda>_.
        sbind (wal_append_or_rollback now ?e (rollback_expire_request out now)) (\<lambda>_.
        sbind (refresh_and_issue env (eo_client out) now) (\<lambda>_. sret True))) app = (res, app')"
      using run out by (simp add: expire_stale_channel_request_with_lock_def
          sbind_def [of "in_vault _"] in_vault_const in_vault_def [of "expire_request cid now"])
    then show ?thesis
    proof (rule section_logs)
      show "same_books ?v v2" if "(Inr (), v1) = (Inr x, v1')" "rollback_expire_request out now v1' = (y, v2)" for x v1' y v2
        using that by (intro rollback_after_expire [OF out _ channel_wf_of [OF inv]]) auto
      fix x v1' app1
      assume "(Inr (), v1) = (Inr x, v1')" "app_vault app1 = v1'" and entry: "appended 1 [?e] app app1"
        and tail: "sbind (refresh_and_issue env (eo_client out) now) (\<lambda>_. sret True) app1 = (res, app')"
      then have app1: "app_vault app1 = v1" by simp
      obtain ch r f n where ch: "aget (es_active_channels ?v) cid = Some ch" "ch_active_request ch = Some r"
          "ch_status ch = Locked \<or> ch_status ch = Pending" and r: "eo_request out = r"
        and f: "checked_add (client_free (ch_balance ch)) (cr_amount r) = Some f" "checked_add (ch_nonce ch) 1 = Some n"
        and v1: "v1 = set_channel cid (ch\<lparr>ch_balance := (ch_balance ch)\<lparr>
              client_locked := saturating_sub (client_locked (ch_balance ch)) (cr_amount r), client_free := f\<rparr>,
            ch_status := Open, ch_active_request := None, ch_nonce := n, ch_updated_at := now\<rparr>) ?v"
        using out unfolding expire_request_some by auto
      have locked: "client_locked (ch_balance ch) = cr_amount r"
        using channel_wf_of [OF inv ch(1)] ch by (auto simp: channel_wf_def request_locked_def)
      have "lch_expire (cr_request_id r) (cr_amount r) (erase_channel ch) = Some (erase_channel ch
          \<lparr>ch_balance := (ch_balance ch)\<lparr>client_locked := 0, client_free := f\<rparr>,
           ch_status := Open, ch_active_request := None, ch_nonce := n\<rparr>)"
        using ch f locked by (auto simp: lch_expire_def checked_sub_def)
      from with_channel_ledger_of [where f = "lch_expire (cr_request_id r) (cr_amount r)", OF ch(1) this]
      have "lstep C sha256 ?e (ledger_of ?v) = Some (ledger_of v1)"
        using locked by (simp add: r v1 erase_channel_def saturating_sub_self)
      moreover have "logs C sha256 2 app1 app'"
        using inv_distinct(1) [OF inv] by (intro refresh_and_issue_logs [OF tail res _ logging_sret]) (simp_all add: app1 v1)
      ultimately show "logs C sha256 3 app app'"
        by (intro logs_commit_then [OF entry refl, of C sha256 2]) (simp_all add: app1, simp_all add: v1)
    qed (simp_all add: res)
  qed
qed

lemma deliver_commit_logs:
  assumes m: "deliver_adaptor C sha256 cid tb pre enc rh pk now (app_vault app) = (Inr u, v1)"
    and ch: "aget (es_active_channels (app_vault app)) cid = Some ch" "ch_active_request ch = Some r"
    and run: "wal_append_or_rollback now (ChannelAdaptorDelivered cid (cr_request_id r) (Some tb)
        (Some (r_prime pre)) (Some (s_prime pre)) (Some enc) (Some rh) (Some pk))
        (rollback_deliver_adaptor cid (cr_request_id r) now) (app\<lparr>app_vault := v1\<rparr>) = (res, app')"
    and res: "res \<noteq> Inl Panic" and inv: "ledger_inv C sha256 (ledger_of (app_vault app))"
  shows "logs C sha256 1 app app'"
proof -
  let ?v = "app_vault app"
  let ?e = "ChannelAdaptorDelivered cid (cr_request_id r) (Some tb)
        (Some (r_prime pre)) (Some (s_prime pre)) (Some enc) (Some rh) (Some pk)"
  obtain T n where st: "ch_status ch = Locked" "decompress C tb = Some T" "checked_add (ch_nonce ch) 1 = Some n"
      "pre_verify C pk (build_payment_message sha256 (ch_channel_id ch) (cr_request_id r)
        (cr_amount r) (cr_request_hash r)) T pre"
    and v1: "v1 = set_channel cid (ch\<lparr>ch_active_request := Some (r\<lparr>cr_provider_pubkey := Some pk,
          cr_adaptor_point := Some tb, cr_provider_pre_sig := Some pre,
          cr_encrypted_result := Some enc, cr_result_hash := Some rh\<rparr>),
        ch_status := Pending, ch_nonce := n, ch_updated_at := now\<rparr>) ?v"
    using m ch unfolding deliver_adaptor_ok by auto
  have und: "cr_provider_pubkey r = None" "cr_adaptor_point r = None" "cr_provider_pre_sig r = None"
      "cr_encrypted_result r = None" "cr_result_hash r = None"
    using channel_wf_of [OF inv ch(1)] st(1) ch(2) by (simp_all add: channel_wf_def request_undelivered_def)
  have "sbind (in_vault (\<lambda>_. (Inr (), v1))) (\<lambda>_. sbind (wal_append_or_rollback now ?e
      (rollback_deliver_adaptor cid (cr_request_id r) now)) (\<lambda>_. sret ())) app = (res, app')"
    using run by (simp add: sbind_def [of "in_vault _"] in_vault_const sbind_sret)
  then show ?thesis
  proof (rule section_logs)
    show "same_books ?v v2" if "(Inr (), v1) = (Inr x, v1')"
        "rollback_deliver_adaptor cid (cr_request_id r) now v1' = (y, v2)" for x v1' y v2
      using that by (intro rollback_after_deliver [OF m _ ch refl und]) auto
    fix x v1' app1
    assume "(Inr (), v1) = (Inr x, v1')" "app_vault app1 = v1'" and entry: "appended 1 [?e] app app1"
      and "sret () app1 = (res, app')"
    then have app': "app' = app1" "app_vault app1 = v1" by (auto simp: sret_def)
    have pre: "\<lparr>r_prime = r_prime pre, s_prime = s_prime pre\<rparr> = pre" by simp
    have "lch_deliver C sha256 tb pre enc rh pk (erase_channel ch) = Some (erase_channel ch
        \<lparr>ch_active_request := Some (erase_request r\<lparr>cr_provider_pubkey := Some pk,
             cr_adaptor_point := Some tb, cr_provider_pre_sig := Some pre,
             cr_encrypted_result := Some enc, cr_result_hash := Some rh\<rparr>),
           ch_status := Pending, ch_nonce := n\<rparr>)"
      using ch st by (simp add: lch_deliver_def)
    from with_channel_ledger_of [where f = "lch_deliver C sha256 tb pre enc rh pk", OF ch(1) this]
    have "lstep C sha256 ?e (ledger_of ?v) = Some (ledger_of v1)"
      by (simp add: pre v1 erase_channel_def erase_request_def)
    then show "logs C sha256 1 app app'"
      by (intro logs_commit_then [OF entry _ _ _ _ logs_refl]) (simp_all add: app', simp_all add: v1)
  qed (simp_all add: res)
qed

lemma channel_deliver_logs:
  assumes run: "channel_deliver_section env C sha256 cid tb pre enc rh pk now app = (res, app')"
    and res: "res \<noteq> Inl Panic" and inv: "ledger_inv C sha256 (ledger_of (app_vault app))"
  shows "logs C sha256 3 app app'"
proof -
  let ?v = "app_vault app"
  consider "app' = app" | ch r where "aget (es_active_channels ?v) cid = Some ch" "ch_active_request ch = Some r"
    "(let (x, app1) = in_vault (deliver_adaptor C sha256 cid tb pre enc rh pk now) app in
      if x = Inl (Err EnclaveError.ChannelRequestExpired)
      then sbind (expire_stale_channel_request_with_lock env cid now) (\<lambda>_.
        sfail (Err EnclaveError.ChannelRequestExpired)) app1
      else (case x of
          Inl e \<Rightarrow> (Inl e, app1)
        | Inr _ \<Rightarrow> wal_append_or_rollback now (ChannelAdaptorDelivered cid (cr_request_id r)
            (Some tb) (Some (r_prime pre)) (Some (s_prime pre)) (Some enc) (Some rh) (Some pk))
            (rollback_deliver_adaptor cid (cr_request_id r) now) app1)) = (res, app')"
    using run unfolding channel_deliver_section_def sfind_bind sok_or_app srequire_def
    by (auto split: option.splits if_splits)
  then show ?thesis
  proof cases
    case 1
    then show ?thesis by (auto intro: logs_mono [OF logs_refl])
  next
    case (2 ch r)
    obtain x v1 where m: "deliver_adaptor C sha256 cid tb pre enc rh pk now ?v = (x, v1)" by fastforce
    consider u where "x = Inr u" | "x = Inl (Err EnclaveError.ChannelRequestExpired)"
      | e where "x = Inl e" "res = Inl e" "app' = app\<lparr>app_vault := v1\<rparr>"
      using 2(3) m by (cases x) (auto simp: in_vault_def split: if_splits)
    then show ?thesis
    proof cases
      case 1
      then show ?thesis
        using 2 m res inv
        by (intro logs_mono [OF deliver_commit_logs [of C sha256 cid tb pre enc rh pk now app u v1 ch r res app']])
          (auto simp: in_vault_def)
    next
      case late: 2
      have "v1 = ?v"
        using m deliver_adaptor_err late by blast
      then have "sbind (expire_stale_channel_request_with_lock env cid now) (\<lambda>_.
          sfail (Err EnclaveError.ChannelRequestExpired)) app = (res, app')"
        using 2(3) m late by (simp add: in_vault_def)
      then show ?thesis
        by (rule sbindE) (use res inv in \<open>auto simp: sfail_def intro: expire_stale_logs\<close>)
    next
      case (3 e)
      then have "v1 = ?v"
        using m deliver_adaptor_err res by (cases e) auto
      then show ?thesis
        using 3 by (auto intro: logs_mono [OF logs_refl])
    qed
  qed
qed

section \<open>Opening\<close>

lemma open_channel_reserves:
  assumes "open_channel uuid c p a now v = (Inr cid, v1)"
  obtains reg vb where "cid = ''ch_'' @ uuid" "aget (es_providers v) p = Some reg"
    "reserve_balance c a v = (Inr (), vb)"
    "v1 = set_channel cid \<lparr>ch_channel_id = cid, ch_client = c, ch_provider_id = p,
       ch_balance = \<lparr>client_free = a, client_locked = 0, provider_earned = 0\<rparr>,
       ch_status = Open, ch_nonce = 0, ch_created_at = now, ch_updated_at = now,
       ch_used_request_ids = {}, ch_active_request = None\<rparr> vb"
proof -
  have "open_channel_with_id (''ch_'' @ uuid) c p a now v = (Inr (), v1)" "cid = ''ch_'' @ uuid"
    using assms by (auto simp: open_channel_def Let_def result_simps)
  then show thesis
    by (elim open_channel_with_id_ok) (rule that; auto simp: reserve_balance_ok)
qed

lemma rollback_after_open:
  assumes "open_channel uuid c p a now v = (Inr cid, v1)" "rollback_open_channel cid v1 = (y, v2)" "y \<noteq> Inl Panic"
    "adistinct (es_client_balances v)" "aget (es_active_channels v) cid = None"
  shows "v2 = v"
  using assms(1)
proof (rule open_channel_reserves)
  fix reg vb
  let ?ch = "\<lparr>ch_channel_id = cid, ch_client = c, ch_provider_id = p,
       ch_balance = \<lparr>client_free = a, client_locked = 0, provider_earned = 0\<rparr>,
       ch_status = Open, ch_nonce = 0, ch_created_at = now, ch_updated_at = now,
       ch_used_request_ids = {}, ch_active_request = None\<rparr>"
  assume vb: "reserve_balance c a v = (Inr (), vb)" and v1: "v1 = set_channel cid ?ch vb"
  have fresh: "aget (es_active_channels vb) cid = None"
    using vb assms(5) by (auto simp: reserve_balance_ok)
  have a0: "checked_add a 0 = Some a" for a :: u64
    using unat_less_pow [of a] by (simp add: checked_add_def)
  have rb: "(if a > 0 then release_balance c a else sret ()) vb = (y, v2)"
    using assms(2) fresh
    by (simp add: rollback_open_channel_def v1 sbind_def asc_defs sfind_def smodify_def sadd_def a0
        set_channel_def adel_aput_fresh split: if_splits)
  show ?thesis
  proof (cases "a > 0")
    case True
    then show ?thesis
      using rb release_after_reserve [OF vb _ assms(3,4)] by simp
  next
    case False
    then have "a = 0" by (simp add: word_gt_0)
    then show ?thesis
      using rb vb assms(4) by (auto simp: reserve_balance_ok a0 sret_def aput_same)
  qed
qed

lemma channel_open_logs:
  assumes run: "channel_open_section env uuid c p a now app = (res, app')" and res: "res \<noteq> Inl Panic"
    and inv: "ledger_inv C sha256 (ledger_of (app_vault app))"
    and fresh: "aget (es_active_channels (app_vault app)) (''ch_'' @ uuid) = None"
  shows "logs C sha256 3 app app'"
proof -
  let ?v = "app_vault app"
  consider "app' = app" | "sbind (in_vault (open_channel uuid c p a now)) (\<lambda>cid.
    sbind (wal_append_or_rollback now (ChannelOpened cid c p a) (rollback_open_channel cid)) (\<lambda>_.
    sbind (issue_client_receipt_locked env c now) (\<lambda>_. sret cid))) app = (res, app')"
    using run unfolding channel_open_section_def sfind_bind srequire_def
    by (auto split: option.splits if_splits)
  then show ?thesis
  proof cases
    case 1
    then show ?thesis by (auto intro: logs_mono [OF logs_refl])
  next
    case 2
    then show ?thesis
    proof (rule section_logs)
      show "same_books ?v v1" if "open_channel uuid c p a now ?v = (Inl (Err f), v1)" for f v1
        using that open_channel_with_id_err [of "''ch_'' @ uuid" c p a now ?v f v1]
        by (auto simp: open_channel_def Let_def sbind_def sret_def same_books_def split: prod.splits sum.splits)
      fix cid v1
      assume m: "open_channel uuid c p a now ?v = (Inr cid, v1)"
      then have cid: "cid = ''ch_'' @ uuid" by (rule open_channel_reserves)
      show "same_books ?v v2" if "rollback_open_channel cid v1 = (y, v2)" "y \<noteq> Inl Panic" for y v2
        using rollback_after_open [OF m that inv_distinct(1) [OF inv]] fresh by (simp add: same_books_def cid)
      fix app1
      assume app1: "app_vault app1 = v1" and entry: "appended 1 [ChannelOpened cid c p a] app app1"
        and tail: "sbind (issue_client_receipt_locked env c now) (\<lambda>_. sret cid) app1 = (res, app')"
      from m show "logs C sha256 3 app app'"
      proof (rule open_channel_reserves)
        fix reg vb
        let ?ch = "\<lparr>ch_channel_id = cid, ch_client = c, ch_provider_id = p,
          ch_balance = \<lparr>client_free = a, client_locked = 0, provider_earned = 0\<rparr>,
          ch_status = Open, ch_nonce = 0, ch_created_at = now, ch_updated_at = now,
          ch_used_request_ids = {}, ch_active_request = None\<rparr>"
        assume reg: "aget (es_providers ?v) p = Some reg" and vb: "reserve_balance c a ?v = (Inr (), vb)"
          and v1: "v1 = set_channel cid ?ch vb"
        obtain b l where b: "aget (es_client_balances ?v) c = Some b" "a \<le> cb_free b"
            "checked_add (cb_locked b) a = Some l"
          and vb': "vb = ?v\<lparr>es_client_balances := aput c (b\<lparr>cb_free := cb_free b - a, cb_locked := l\<rparr>)
            (es_client_balances ?v)\<rparr>"
          using vb by (auto simp: reserve_balance_ok)
        have "lstep C sha256 (ChannelOpened cid c p a) (ledger_of ?v) = Some (ledger_of v1)"
          using with_lock [OF b vb'] reg fresh
          by (simp add: lopen_def v1 cid ledger_of_channel lput_channel_def erase_channel_def)
        moreover have "logs C sha256 (2 + 0) app1 app'"
          by (rule loggingD [OF logging_sbind [OF logging_issue_client logging_sret] tail res])
        ultimately show ?thesis
          by (intro logs_commit_then [OF entry refl, of C sha256 2]) (simp_all add: app1, simp_all add: v1 vb')
      qed
    qed (simp_all add: res)
  qed
qed

section \<open>Closing\<close>

lemma close_channel_err:
  assumes "close_channel uuid cid now v = (Inl (Err f), v1)" "ledger_inv C sha256 (ledger_of v)"
  shows "v1 = v"
proof (cases "\<exists>ch. aget (es_active_channels v) cid = Some ch \<and> ch_status ch = Open")
  case False
  then show ?thesis
    using assms(1) unfolding close_channel_def close_channel_with_settlement_id_def get_channel_def sfind_bind
    by (auto simp: srequire_def split: option.splits if_splits)
next
  case True
  then obtain ch where ch: "aget (es_active_channels v) cid = Some ch" "ch_status ch = Open" by blast
  obtain b reg where b: "aget (es_client_balances v) (ch_client ch) = Some b"
    "aget (es_providers v) (ch_provider_id ch) = Some reg"
    using inv_channel [OF assms(2) ch(1)] by metis
  let ?e = "provider_earned (ch_balance ch)" and ?v0 = "v\<lparr>es_active_channels := adel cid (es_active_channels v)\<rparr>"
  have release: "close_release (ch_client ch) rf am ?v0 \<noteq> (Inl (Err g), w)" for rf am g w
    using b(1) by (auto simp: close_release_def state_op_defs Let_def split: option.splits)
  have credit: "close_credit_provider (ch_provider_id ch) ?e s now w \<noteq> (Inl (Err g), w')"
    if "es_providers w = es_providers v" for s w g w'
    using that b(2) by (auto simp: close_credit_provider_def put_credit_def state_op_defs split: option.splits)
  have frame: "es_providers w = es_providers v" if "close_release (ch_client ch) rf am ?v0 = (Inr u, w)" for rf am u w
    using that by (auto simp: close_release_ok split: if_splits)
  have False
    using assms(1) ch release credit frame
    unfolding close_channel_def close_channel_with_settlement_id_def Let_def get_channel_def sfind_bind
    by (auto simp: srequire_def sget_def smodify_def remove_channel_def sadd_def sret_def elim!: sbindE
        split: option.splits)
  then show ?thesis ..
qed

lemma rollback_close_balance:
  assumes "close_balances ch (es_client_balances v) bs" "es_client_balances w = bs"
    "checked_add (client_free (ch_balance ch)) (provider_earned (ch_balance ch)) = Some amount"
    "aget (es_client_balances v) (ch_client ch) = Some b" "amount \<le> cb_locked b" "adistinct (es_client_balances v)"
  shows "(if amount > 0
      then sbind (get_balance (ch_client ch) ClientNotFound) (\<lambda>b.
        sbind (sadd (cb_locked b) amount) (\<lambda>locked.
        put_balance (ch_client ch) (b\<lparr>cb_locked := locked,
          cb_free := saturating_sub (cb_free b) (client_free (ch_balance ch))\<rparr>)))
      else sret ()) w = (Inr (), w\<lparr>es_client_balances := es_client_balances v\<rparr>)"
proof (cases "amount > 0")
  case True
  then obtain f where f: "checked_add (cb_free b) (client_free (ch_balance ch)) = Some f"
    and bs: "bs = aput (ch_client ch) (b\<lparr>cb_locked := cb_locked b - amount, cb_free := f\<rparr>) (es_client_balances v)"
    using assms by (auto simp: close_balances_def saturating_sub_def)
  then show ?thesis
    using True assms(2,4,6) checked_sub_add_back [OF assms(5)] checked_add_then_sub [OF f]
    by (simp add: state_op_defs aput_aput aput_same)
qed (use assms in \<open>auto simp: close_balances_def sret_def\<close>)

lemma rollback_close_credit:
  assumes "close_credits ch sid now v cs" "es_provider_credits w = cs" "adistinct (es_provider_credits v)"
  shows "(if provider_earned (ch_balance ch) > 0
      then (case (if provider_earned (ch_balance ch) > 0
          then aget (es_provider_credits v) (ch_provider_id ch) else None) of
          Some previous_credit \<Rightarrow> put_credit (ch_provider_id ch) previous_credit
        | None \<Rightarrow> smodify (\<lambda>st. st\<lparr>es_provider_credits := adel (ch_provider_id ch) (es_provider_credits st)\<rparr>))
      else sret ()) w = (Inr (), w\<lparr>es_provider_credits := es_provider_credits v\<rparr>)"
proof (cases "provider_earned (ch_balance ch) > 0")
  case True
  then show ?thesis
    using assms by (cases "aget (es_provider_credits v) (ch_provider_id ch)")
      (auto simp: close_credits_def Let_def put_credit_def smodify_def aput_aput aput_same adel_aput_fresh)
qed (use assms in \<open>auto simp: close_credits_def sret_def\<close>)

text \<open>What a channel that is closed holds of the client's balance.\<close>
lemma close_amount:
  assumes "ledger_inv C sha256 (ledger_of v)" "aget (es_active_channels v) cid = Some ch" "ch_status ch = Open"
  obtains amount b reg where
    "checked_add (client_free (ch_balance ch)) (provider_earned (ch_balance ch)) = Some amount"
    "aget (es_client_balances v) (ch_client ch) = Some b" "amount \<le> cb_locked b"
    "aget (es_providers v) (ch_provider_id ch) = Some reg"
proof -
  obtain b reg where b: "aget (es_client_balances v) (ch_client ch) = Some b"
      "aget (es_providers v) (ch_provider_id ch) = Some reg" "channel_wf C sha256 cid ch"
    using inv_channel [OF assms(1,2)] by metis
  have "channel_total ch \<le> unat (cb_locked b)"
    by (rule inv_locked(3) [OF assms(1) b(1) assms(2) refl])
  moreover have "client_locked (ch_balance ch) = 0" "channel_total ch < 2 ^ 64"
    using b(3) assms(3) by (simp_all add: channel_wf_def)
  ultimately obtain amount where
    amount: "checked_add (client_free (ch_balance ch)) (provider_earned (ch_balance ch)) = Some amount"
    by (auto simp: checked_add_def channel_total_def)
  then have "amount \<le> cb_locked b"
    using \<open>channel_total ch \<le> unat (cb_locked b)\<close> \<open>client_locked (ch_balance ch) = 0\<close> unat_checked_add [OF amount]
    by (simp add: word_le_nat_alt channel_total_def)
  with amount b show thesis by (intro that)
qed

lemma rollback_after_close:
  assumes m: "close_channel uuid cid now v = (Inr out, v1)" and rb: "rollback_close_channel out v1 = (y, v2)"
    and inv: "ledger_inv C sha256 (ledger_of v)"
  shows "same_books v v2"
  using m unfolding close_channel_def
proof (rule close_channel_ok)
  fix ch bs cs sid
  assume ch: "aget (es_active_channels v) cid = Some ch" "ch_status ch = Open"
    and bs: "close_balances ch (es_client_balances v) bs" and cs: "close_credits ch sid now v cs"
    and v1: "v1 = v\<lparr>es_active_channels := adel cid (es_active_channels v),
      es_client_balances := bs, es_provider_credits := cs\<rparr>"
    and out: "out = \<lparr>co_client = ch_client ch, co_provider_id = ch_provider_id ch,
      co_returned_to_client = client_free (ch_balance ch),
      co_provider_earned = provider_earned (ch_balance ch),
      co_settlement_id = (if provider_earned (ch_balance ch) > 0 then Some sid else None),
      co_closed_channel = ch,
      co_previous_provider_credit = (if provider_earned (ch_balance ch) > 0
        then aget (es_provider_credits v) (ch_provider_id ch) else None)\<rparr>"
  obtain amount b where amount: "checked_add (client_free (ch_balance ch)) (provider_earned (ch_balance ch)) = Some amount"
    and b: "aget (es_client_balances v) (ch_client ch) = Some b" "amount \<le> cb_locked b"
    using close_amount [OF inv ch] by metis
  let ?v1 = "v\<lparr>es_active_channels := adel cid (es_active_channels v), es_provider_credits := cs\<rparr>"
  have "ch_channel_id ch = cid"
    using channel_wf_of [OF inv ch(1)] by (simp add: channel_wf_def)
  moreover have "v1\<lparr>es_client_balances := es_client_balances v\<rparr> = ?v1"
    "?v1\<lparr>es_provider_credits := es_provider_credits v\<rparr> = v\<lparr>es_active_channels := adel cid (es_active_channels v)\<rparr>"
    by (simp_all add: v1)
  ultimately have "rollback_close_channel out v1 = (Inr (), set_channel cid ch (v\<lparr>es_active_channels := adel cid (es_active_channels v)\<rparr>))"
    using rollback_close_balance [OF bs _ amount b inv_distinct(1) [OF inv], of v1]
      rollback_close_credit [OF cs _ inv_distinct(3) [OF inv], of ?v1] amount
    unfolding rollback_close_channel_def out CloseOutcome.select_convs
    by (simp add: sbind_def [of "sadd _ _"] sadd_def sbind_def [of "If _ _ _"] put_channel_def smodify_def
        set_channel_def v1 split del: if_split)
  then have "v2 = v\<lparr>es_active_channels := aput cid ch (adel cid (es_active_channels v))\<rparr>"
    using rb by (simp add: set_channel_def)
  moreover have "aget (aput cid ch (adel cid (es_active_channels v))) = aget (es_active_channels v)"
    using ch(1) by (auto simp: fun_eq_iff)
  ultimately show ?thesis
    by (simp add: same_books_def ledger_of_def erase_def)
qed

lemma lclose_ledger_of:
  assumes inv: "ledger_inv C sha256 (ledger_of v)" and ch: "aget (es_active_channels v) cid = Some ch" "ch_status ch = Open"
    and bs: "close_balances ch (es_client_balances v) bs" and cs: "close_credits ch sid now v cs"
    and v1: "v1 = v\<lparr>es_active_channels := adel cid (es_active_channels v),
      es_client_balances := bs, es_provider_credits := cs\<rparr>"
    and fresh: "fresh_settlement sid v"
  shows "lclose cid (if provider_earned (ch_balance ch) > 0 then Some sid else None) (ledger_of v) = Some (ledger_of v1)"
proof -
  let ?rf = "client_free (ch_balance ch)" and ?e = "provider_earned (ch_balance ch)"
  let ?v0 = "v\<lparr>es_client_balances := bs\<rparr>"
  let ?v0' = "?v0\<lparr>es_active_channels := adel cid (es_active_channels v)\<rparr>"
  obtain amount b where amount: "checked_add ?rf ?e = Some amount"
    and b: "aget (es_client_balances v) (ch_client ch) = Some b" "amount \<le> cb_locked b"
    using close_amount [OF inv ch] by metis
  have zero: "?rf = 0" if "amount = 0"
    using unat_checked_add [OF amount] that by (simp add: unat_eq_0)
  obtain f where f: "checked_add (cb_free b) ?rf = Some f"
    and bs': "bs = aput (ch_client ch) (b\<lparr>cb_locked := cb_locked b - amount, cb_free := f\<rparr>) (es_client_balances v)"
  proof (cases "amount > 0")
    case True
    then show thesis
      using bs amount b that by (auto simp: close_balances_def saturating_sub_def)
  next
    case False
    then have "amount = 0" by (simp add: word_gt_0)
    then show thesis
      using bs amount b zero inv_distinct(1) [OF inv] unsigned_less [where 'a = nat, of "cb_free b"]
      by (intro that [of "cb_free b"]) (auto simp: close_balances_def checked_add_def [of _ 0] aput_same)
  qed
  have L1: "lput_channel cid None (ledger_of ?v0) = ledger_of ?v0'"
    by (simp add: ledger_of_channel)
  have "(if ?e > 0 then credit_provider (ch_provider_id ch) ?e sid (ledger_of ?v0') else Some (ledger_of ?v0')) = Some (ledger_of v1)"
  proof (cases "?e > 0")
    case True
    with cs obtain reg credited where reg: "aget (es_providers v) (ch_provider_id ch) = Some reg"
      and "checked_add (pc_credited_amount (credit_or_new v (ch_provider_id ch) (rg_settlement_token_account reg) now)) ?e
        = Some credited"
      and "cs = aput (ch_provider_id ch) (credit_or_new v (ch_provider_id ch) (rg_settlement_token_account reg) now
          \<lparr>pc_credited_amount := credited, pc_settlement_ids := pc_settlement_ids
            (credit_or_new v (ch_provider_id ch) (rg_settlement_token_account reg) now) @ [sid]\<rparr>) (es_provider_credits v)"
      by (auto simp: close_credits_def Let_def)
    then show ?thesis
      using fresh True credit_provider_ledger_of [of ?v0' "ch_provider_id ch" reg now ?e credited sid v1]
      by (simp add: v1 fresh_settlement_def credit_or_new_def)
  qed (use cs in \<open>auto simp: close_credits_def v1 intro!: arg_cong [where f = ledger_of]\<close>)
  moreover have "with_balance (ch_client ch)
      (\<lambda>bal. if amount \<le> cb_locked bal
        then map_option (\<lambda>f. bal\<lparr>cb_locked := cb_locked bal - amount, cb_free := f\<rparr>) (checked_add (cb_free bal) ?rf)
        else None) k (ledger_of v) = k (ledger_of ?v0)" for k
    by (rule with_balance_ledger_of [OF b(1)]) (use b(2) f bs' in \<open>simp_all add: erase_balance_def\<close>)
  ultimately show ?thesis
    using ch amount L1 by (simp add: lclose_def Let_def erase_channel_def split: if_splits)
qed

lemma channel_close_logs:
  assumes run: "channel_close_section env uuid cid now app = (res, app')" and res: "res \<noteq> Inl Panic"
    and inv: "ledger_inv C sha256 (ledger_of (app_vault app))"
    and fresh: "fresh_settlement (''asc_'' @ uuid) (app_vault app)"
  shows "logs C sha256 5 app app'"
  using run res unfolding channel_close_section_def
proof (rule section_logs)
  let ?v = "app_vault app"
  show "same_books ?v v1" if "close_channel uuid cid now ?v = (Inl (Err f), v1)" for f v1
    using close_channel_err [OF that inv] by (simp add: same_books_def)
  fix out v1
  assume m: "close_channel uuid cid now ?v = (Inr out, v1)"
  show "same_books ?v v2" if "rollback_close_channel out v1 = (y, v2)" for y v2
    by (rule rollback_after_close [OF m that inv])
  fix app1
  let ?e = "ChannelClosed cid (co_returned_to_client out) (co_provider_earned out) (co_settlement_id out)"
  assume app1: "app_vault app1 = v1" and entry: "appended 1 [?e] app app1"
    and tail: "sbind (refresh_and_issue env (co_client out) now) (\<lambda>_.
      sbind (if co_provider_earned out > 0
        then sbind (issue_provider_receipt_locked env (co_provider_id out) now) (\<lambda>_. sret ())
        else sret ()) (\<lambda>_. sret out)) app1 = (res, app')"
  from m have step: "lstep C sha256 ?e (ledger_of ?v) = Some (ledger_of v1) \<and> es_withdraw_nonce v1 = es_withdraw_nonce ?v
    \<and> adistinct (es_client_balances v1)"
    unfolding close_channel_def
    by (rule close_channel_ok)
      (use fresh lclose_ledger_of [OF inv] inv_distinct(1) [OF inv] in
        \<open>auto simp: close_balances_def split: if_splits\<close>)
  have tail_logs: "logging C sha256 2 (sbind (if co_provider_earned out > 0
      then sbind (issue_provider_receipt_locked env (co_provider_id out) now) (\<lambda>_. sret ())
      else sret ()) (\<lambda>_. sret out))"
    using logging_sbind [OF logging_sbind [OF logging_issue_provider logging_sret] logging_sret]
    by (auto intro: logging_mono [OF logging_sbind [OF logging_sret logging_sret]])
  have "logs C sha256 4 app1 app'"
    using step by (intro refresh_and_issue_logs [OF tail res _ tail_logs]) (simp_all add: app1)
  with step show "logs C sha256 5 app app'"
    by (intro logs_commit_then [OF entry refl, of C sha256 4]) (simp_all add: app1)
qed simp_all

end
