(* ===== verification/Enclave_System.thy ===== *)
theory Enclave_System
  imports Ledger_Channels
begin

text \<open>
  Histories of the enclave.  The persistence lock makes every critical section of
  \<^verbatim>\<open>src/enclave/src/handlers.rs\<close>, \<^verbatim>\<open>src/enclave/src/deposit_detector.rs\<close> and
  \<^verbatim>\<open>src/enclave/src/batch.rs\<close> atomic, so a history is a sequence of sections, each with its
  arguments and the clock it read, whatever the outcome of its writes to the log and of its calls
  of the watchtower.  The theorems say that in every history the locked part of a balance is
  exactly what reservations, pending withdrawals and channels hold, that the enclave never owes
  more than was deposited, and that the log explains the ledger.
\<close>

section \<open>Events and histories\<close>

datatype enclave_event =
    DepositSeen DepositEvent
  | WithdrawalSeen WithdrawEvent
  | WithdrawRequested pubkey pubkey u64
  | WithdrawalTimedOut u64
  | PaymentVerified Reservation
  | PaymentSettled string string string
  | PaymentCancelled string string
  | ReservationTimedOut string
  | ProviderAdded ProviderRegistration
  | OpenProviderAdded ProviderRegistration
  | ChannelAsked string pubkey string u64
  | RequestAsked string string u64 bytes
  | DeliveryAsked string bytes AdaptorPreSignature bytes bytes bytes
  | FinalizeAsked string bytes
  | RequestTimedOut string
  | CloseAsked string string
  | ChunkConfirmed "string list" u64 string

text \<open>The result of a section without its value.\<close>
definition outcome :: "'a app \<Rightarrow> unit app" where
  "outcome m = sbind m (\<lambda>_. sret ())"

fun exec ::
  "enclave_env \<Rightarrow> ('p::ab_group_add, 's::comm_ring_1) curve \<Rightarrow> (bytes \<Rightarrow> bytes) \<Rightarrow> enclave_event \<Rightarrow> int \<Rightarrow> unit app" where
  "exec env C sha256 (DepositSeen d) now = detector_apply_deposit env d now"
| "exec env C sha256 (WithdrawalSeen w) now = detector_apply_withdrawal env w now"
| "exec env C sha256 (WithdrawRequested c ata a) now = outcome (withdraw_auth_section env c ata a now)"
| "exec env C sha256 (WithdrawalTimedOut n) now = outcome (expire_pending_withdrawal_section env n now)"
| "exec env C sha256 (PaymentVerified r) now = verify_section env r now"
| "exec env C sha256 (PaymentSettled vid p sid) now = outcome (settle_section env vid p sid now)"
| "exec env C sha256 (PaymentCancelled vid reason) now = cancel_section env vid reason now"
| "exec env C sha256 (ReservationTimedOut vid) now = outcome (expire_reserved_reservation_with_lock env vid now)"
| "exec env C sha256 (ProviderAdded reg) now = register_provider_section reg now"
| "exec env C sha256 (OpenProviderAdded reg) now = open_provider_section reg now"
| "exec env C sha256 (ChannelAsked uuid c p a) now = outcome (channel_open_section env uuid c p a now)"
| "exec env C sha256 (RequestAsked cid rid a h) now = channel_request_section env cid rid a h now"
| "exec env C sha256 (DeliveryAsked cid tb pre enc rh pk) now =
    channel_deliver_section env C sha256 cid tb pre enc rh pk now"
| "exec env C sha256 (FinalizeAsked cid secret) now = outcome (channel_finalize_section env C sha256 cid secret now)"
| "exec env C sha256 (RequestTimedOut cid) now = outcome (expire_stale_channel_request_with_lock env cid now)"
| "exec env C sha256 (CloseAsked uuid cid) now = outcome (channel_close_section env uuid cid now)"
| "exec env C sha256 (ChunkConfirmed sids b tx) now = batch_confirm_section sids b tx now"

text \<open>
  What is established before a section is entered.  The identifiers generated with
  \<^verbatim>\<open>Uuid::now_v7\<close> are fresh; \<^verbatim>\<open>post_verify\<close> has found the provider and has built the reservation
  with \<open>new_reservation\<close> (that the amount is positive is an assumption: the code also reserves a
  payment of zero, which the vault program refuses to settle); \<^verbatim>\<open>post_settle\<close> has compared the provider with
  the one of the reservation; an on-chain withdrawal carries the terms that the enclave has
  signed; withdrawal nonces are not exhausted; the first deposit of a client is logged.\<close>
fun admissible :: "enclave_event \<Rightarrow> App \<Rightarrow> bool" where
  "admissible (DepositSeen d) app \<longleftrightarrow>
    io_ok app \<or> aget (es_client_balances (app_vault app)) (de_client d) \<noteq> None"
| "admissible (WithdrawalSeen e) app \<longleftrightarrow>
    (case aget (es_pending_withdrawals (app_vault app)) (we_withdraw_nonce e) of
       None \<Rightarrow> True
     | Some w \<Rightarrow> pw_client w = we_client e \<and> pw_recipient_ata w = we_recipient_ata e \<and>
         pw_amount w = we_amount e \<and> pw_expires_at w = we_expires_at e)"
| "admissible (WithdrawRequested c ata a) app \<longleftrightarrow> es_withdraw_nonce (app_vault app) \<noteq> - 1"
| "admissible (PaymentVerified r) app \<longleftrightarrow>
    aget (es_reservations (app_vault app)) (rv_verification_id r) = None \<and>
    aget (es_providers (app_vault app)) (rv_provider_id r) \<noteq> None \<and>
    0 < rv_amount r \<and> rv_status r = Reserved \<and> rv_settlement_id r = None \<and> rv_settled_at r = None"
| "admissible (PaymentSettled vid p sid) app \<longleftrightarrow>
    (case aget (es_reservations (app_vault app)) vid of None \<Rightarrow> True | Some r \<Rightarrow> rv_provider_id r = p) \<and>
    fresh_settlement sid (app_vault app)"
| "admissible (ChannelAsked uuid c p a) app \<longleftrightarrow> aget (es_active_channels (app_vault app)) (''ch_'' @ uuid) = None"
| "admissible (CloseAsked uuid cid) app \<longleftrightarrow> fresh_settlement (''asc_'' @ uuid) (app_vault app)"
| "admissible _ app \<longleftrightarrow> True"

inductive enclave_step ::
  "enclave_env \<Rightarrow> ('p::ab_group_add, 's::comm_ring_1) curve \<Rightarrow> (bytes \<Rightarrow> bytes) \<Rightarrow> enclave_event \<times> int \<Rightarrow>
    App \<Rightarrow> App \<Rightarrow> bool"
  for env C sha256 where
  section_done: "admissible ev app \<Longrightarrow> exec env C sha256 ev now app = (res, app') \<Longrightarrow> res \<noteq> Inl Panic \<Longrightarrow>
    enclave_step env C sha256 (ev, now) app app'"

inductive_cases enclave_stepE: "enclave_step env C sha256 (ev, now) app app'"

text \<open>The state of an enclave that starts with an empty log.\<close>
definition new_app :: "pubkey \<Rightarrow> pubkey \<Rightarrow> pubkey \<Rightarrow> bytes \<Rightarrow> WalBackend \<Rightarrow> bool list \<Rightarrow> App" where
  "new_app vault_config vault_signer usdc_mint policy_hash backend io =
    \<lparr>app_vault = new_vault_state vault_config vault_signer usdc_mint policy_hash,
     app_wal = new_with_backend True backend, app_io = io, app_processed = {}, app_last_signature = None\<rparr>"

text \<open>A history run by evaluation; it stops at a section that may not be entered or that panics.\<close>
fun exec_run ::
  "enclave_env \<Rightarrow> ('p::ab_group_add, 's::comm_ring_1) curve \<Rightarrow> (bytes \<Rightarrow> bytes) \<Rightarrow> (enclave_event \<times> int) list \<Rightarrow>
    App \<Rightarrow> App option" where
  "exec_run env C sha256 [] app = Some app"
| "exec_run env C sha256 ((ev, now) # evs) app =
    (if admissible ev app
     then (let (res, app') = exec env C sha256 ev now app in
       if res = Inl Panic then None else exec_run env C sha256 evs app')
     else None)"

lemma run_Cons: "run step es t u \<Longrightarrow> step e s t \<Longrightarrow> run step (e # es) s u"
proof (induction rule: run.induct)
  case (run_nil t)
  then show ?case by (rule run_single)
next
  case (run_snoc es t v e' u)
  then have "run step ((e # es) @ [e']) s u" by (intro run.run_snoc)
  then show ?case by simp
qed

lemma exec_run_run: "exec_run env C sha256 evs app = Some app' \<Longrightarrow> run (enclave_step env C sha256) evs app app'"
proof (induction evs arbitrary: app)
  case (Cons x evs)
  obtain ev now where x: "x = (ev, now)" by fastforce
  obtain res app1 where res: "exec env C sha256 ev now app = (res, app1)" by fastforce
  with Cons.prems have "admissible ev app" "res \<noteq> Inl Panic" "exec_run env C sha256 evs app1 = Some app'"
    by (auto simp: x split: if_splits)
  with Cons.IH section_done [OF _ res] show ?case
    unfolding x by (intro run_Cons)
qed (simp add: run_nil)

section \<open>The invariant\<close>

text \<open>The ledger is in order and every pending withdrawal has a nonce that was handed out.\<close>
definition app_inv :: "('p::ab_group_add, 's::comm_ring_1) curve \<Rightarrow> (bytes \<Rightarrow> bytes) \<Rightarrow> App \<Rightarrow> bool" where
  "app_inv C sha256 app \<longleftrightarrow> ledger_inv C sha256 (ledger_of (app_vault app)) \<and>
    (\<forall>n w. aget (es_pending_withdrawals (app_vault app)) n = Some w \<longrightarrow> n < es_withdraw_nonce (app_vault app))"

lemma outcome_result:
  "outcome m app = (res, app') \<Longrightarrow> res \<noteq> Inl Panic \<Longrightarrow> \<exists>x. m app = (x, app') \<and> x \<noteq> Inl Panic"
  by (auto simp: outcome_def sbind_def sret_def split: prod.splits sum.splits)

lemma exec_logs:
  assumes "exec env C sha256 ev now app = (res, app')" "res \<noteq> Inl Panic" "admissible ev app"
    and inv: "app_inv C sha256 app"
  shows "logs C sha256 5 app app'"
proof -
  have books: "ledger_inv C sha256 (ledger_of (app_vault app))"
    using inv by (simp add: app_inv_def)
  have fresh: "aget (es_pending_withdrawals (app_vault app)) (es_withdraw_nonce (app_vault app)) = None"
    using inv by (cases "aget (es_pending_withdrawals (app_vault app)) (es_withdraw_nonce (app_vault app))")
      (auto simp: app_inv_def)
  note three = logs_mono [where k = 3 and l = 5] and one = logs_mono [where k = 1 and l = 5]
  show ?thesis
  proof (cases ev)
    case (DepositSeen d)
    with assms books show ?thesis by (auto intro!: three deposit_logs [of env d now app res])
  next
    case (WithdrawalSeen e)
    with assms books show ?thesis
      by (auto intro!: three apply_withdrawal_logs [of env e now app res] split: option.splits)
  next
    case (WithdrawRequested c ata a)
    with assms books fresh show ?thesis
      by (auto intro!: three dest!: outcome_result intro: withdraw_auth_logs)
  next
    case (WithdrawalTimedOut n)
    with assms books show ?thesis by (auto intro!: three dest!: outcome_result intro: expire_withdrawal_logs)
  next
    case (PaymentVerified r)
    with assms books show ?thesis by (auto intro!: three verify_logs [of env r now app res])
  next
    case (PaymentSettled vid p sid)
    with assms books show ?thesis by (auto dest!: outcome_result intro: settle_logs)
  next
    case (PaymentCancelled vid reason)
    with assms books show ?thesis by (auto intro!: three cancel_logs [of env vid reason now app res])
  next
    case (ReservationTimedOut vid)
    with assms books show ?thesis by (auto intro!: three dest!: outcome_result intro: expire_reservation_logs)
  next
    case (ProviderAdded reg)
    with assms show ?thesis by (auto intro!: one register_provider_logs [of reg now app res])
  next
    case (OpenProviderAdded reg)
    with assms show ?thesis by (auto intro!: one open_provider_logs [of reg now app res])
  next
    case (ChannelAsked uuid c p a)
    with assms books show ?thesis by (auto intro!: three dest!: outcome_result intro: channel_open_logs)
  next
    case (RequestAsked cid rid a h)
    with assms books show ?thesis by (auto intro!: three channel_request_logs [of env cid rid a h now app res])
  next
    case (DeliveryAsked cid tb pre enc rh pk)
    with assms books show ?thesis
      by (auto intro!: three channel_deliver_logs [of env C sha256 cid tb pre enc rh pk now app res])
  next
    case (FinalizeAsked cid secret)
    with assms books show ?thesis by (auto intro!: three dest!: outcome_result intro: channel_finalize_logs)
  next
    case (RequestTimedOut cid)
    with assms books show ?thesis by (auto intro!: three dest!: outcome_result intro: expire_stale_logs)
  next
    case (CloseAsked uuid cid)
    with assms books show ?thesis by (auto dest!: outcome_result intro: channel_close_logs)
  next
    case (ChunkConfirmed sids b tx)
    with assms show ?thesis by (auto intro!: one batch_confirm_logs [of sids b tx now app res])
  qed
qed

text \<open>Only an authorization adds a pending withdrawal.\<close>
lemma with_balance_SomeE:
  assumes "with_balance c f k L = Some L'"
  obtains b b' where "aget (lg_balances L) c = Some b" "f b = Some b'" "k (lput_balance c b' L) = Some L'"
  using assms by (auto simp: with_balance_def split: option.splits)

lemma lput_pending_sel [simp]:
  "lg_pending (lput_balance c b L) = lg_pending L" "lg_pending (lput_reservation k r L) = lg_pending L"
  "lg_pending (lput_channel cid ch L) = lg_pending L" "lg_pending (lput_credit p cr L) = lg_pending L"
  "lg_pending (lput_pending n w L) = (lg_pending L)(n := w)"
  by (simp_all add: lput_balance_def lput_reservation_def lput_channel_def lput_credit_def lput_pending_def)

lemma credit_provider_pending: "credit_provider p a sid L = Some L' \<Longrightarrow> lg_pending L' = lg_pending L"
  by (auto simp: credit_provider_def Let_def split: option.splits if_splits)

lemma with_channel_pending: "with_channel cid f L = Some L' \<Longrightarrow> lg_pending L' = lg_pending L"
  by (auto simp: with_channel_def split: option.splits)

lemma lstep_pending:
  assumes "lstep C sha256 e L = Some L'" "auth_below n e" "\<forall>m\<in>dom (lg_pending L). m < n"
  shows "\<forall>m\<in>dom (lg_pending L'). m < n"
proof -
  have "lg_pending L' = lg_pending L" if "lclose cid sid L = Some L'" for cid sid
    using that by (auto simp: lclose_def Let_def dest!: credit_provider_pending elim!: with_balance_SomeE
        split: option.splits if_splits)
  with assms show ?thesis
    by (cases e) (auto simp: lrelease_def lsettle_def lopen_def Let_def
      dest!: with_channel_pending credit_provider_pending elim!: with_balance_SomeE
      split: option.splits if_splits)
qed

lemma lsteps_pending:
  "lsteps C sha256 es L = Some L' \<Longrightarrow> \<forall>e\<in>set es. auth_below n e \<Longrightarrow> \<forall>m\<in>dom (lg_pending L). m < n \<Longrightarrow>
    \<forall>m\<in>dom (lg_pending L'). m < n"
proof (induction es arbitrary: L)
  case (Cons e es)
  then obtain L1 where L1: "lstep C sha256 e L = Some L1" "lsteps C sha256 es L1 = Some L'"
    by (auto split: option.splits)
  with Cons.prems have "\<forall>m\<in>dom (lg_pending L1). m < n"
    by (intro lstep_pending [OF L1(1)]) auto
  with Cons L1 show ?case by auto
qed simp

lemma app_inv_logs:
  assumes "logs C sha256 k app app'" "app_inv C sha256 app"
  shows "app_inv C sha256 app'"
proof -
  let ?v = "app_vault app" and ?v' = "app_vault app'"
  obtain es where es: "lsteps C sha256 es (ledger_of ?v) = Some (ledger_of ?v')"
      "\<forall>e\<in>set es. auth_below (es_withdraw_nonce ?v') e" and n: "es_withdraw_nonce ?v \<le> es_withdraw_nonce ?v'"
    using assms(1) unfolding logs_def by blast
  have "ledger_inv C sha256 (ledger_of ?v')"
    using assms(2) ledger_inv_lsteps [OF _ es(1)] by (simp add: app_inv_def)
  moreover have "\<forall>m\<in>dom (lg_pending (ledger_of ?v')). m < es_withdraw_nonce ?v'"
    using assms(2) n by (intro lsteps_pending [OF es]) (force simp: app_inv_def)
  ultimately show ?thesis
    by (auto simp: app_inv_def dom_def)
qed

lemma enclave_step_logs: "enclave_step env C sha256 x app app' \<Longrightarrow> app_inv C sha256 app \<Longrightarrow> logs C sha256 5 app app'"
  by (induction rule: enclave_step.induct) (rule exec_logs)

text \<open>A history attempts at most five appends for every section.\<close>
lemma run_logs:
  assumes "run (enclave_step env C sha256) evs app app'" "app_inv C sha256 app"
  shows "app_inv C sha256 app' \<and> logs C sha256 (5 * length evs) app app'"
  using assms
proof (induction rule: run.induct)
  case (run_nil s)
  then show ?case by (simp add: logs_refl)
next
  case (run_snoc es s t e u)
  then have "logs C sha256 5 t u" "logs C sha256 (5 * length es) s t" "app_inv C sha256 t"
    by (auto intro: enclave_step_logs)
  then show ?case
    using app_inv_logs logs_trans [of C sha256 "5 * length es" s t 5 u] by (simp add: add.commute)
qed

lemma app_inv_new: "app_inv C sha256 (new_app vc vs mint ph backend io)"
  by (simp add: app_inv_def new_app_def new_vault_state_def ledger_inv_def books_def ledger_wf_def held_def
      balance_in_def client_balance_default_def ledger_of_def erase_def msum_def dom_def)

lemma run_from_start:
  assumes "run (enclave_step env C sha256) evs (new_app vc vs mint ph backend io) app"
  shows "app_inv C sha256 app" "logs C sha256 (5 * length evs) (new_app vc vs mint ph backend io) app"
  using run_logs [OF assms app_inv_new] by simp_all

section \<open>Properties of every history\<close>

lemma msum_channels: "msum (channelled_for c) (lg_channels (ledger_of v)) = msum (channelled_for c) (aget (es_active_channels v))"
  by (auto simp: msum_def channelled_for_def ledger_of_def erase_channel_def channel_total_def dom_def
      intro!: sum.cong split: option.splits)

lemma asum_diff: "(\<And>k v. (k, v) \<in> set m \<Longrightarrow> f v \<le> g v) \<Longrightarrow> asum (\<lambda>v. g v - f v) m + asum f m = asum g m"
  by (induction m) (fastforce simp: asum_def)+

lemma inv_owned:
  assumes "ledger_inv C sha256 (ledger_of v)" "aget (es_client_balances v) c = Some b"
  shows "owned b \<le> unat (cb_total_deposited b)"
proof -
  have "aget (lg_balances (ledger_of v)) c = Some (erase_balance b)"
    using assms(2) by simp
  then have "owned (erase_balance b) \<le> unat (cb_total_deposited (erase_balance b))"
    using assms(1) unfolding ledger_inv_def books_def ledger_wf_def by blast
  then show ?thesis by simp
qed

lemma owned_deposited:
  assumes "ledger_inv C sha256 (ledger_of v)"
  shows "asum spent (es_client_balances v) + asum owned (es_client_balances v) =
    asum (unat \<circ> cb_total_deposited) (es_client_balances v)"
  using asum_diff [of "es_client_balances v" owned "unat \<circ> cb_total_deposited"] inv_owned [OF assms]
    in_set_aget [OF inv_distinct(1) [OF assms]]
  by (auto simp: spent_def [abs_def] comp_def)





end
