(* ===== verification/Wal_Replay.thy ===== *)
theory Wal_Replay
  imports Enclave_System
begin

text \<open>
  Replay of the log when the enclave starts (\<^verbatim>\<open>replay_app_state_from\<close> and \<^verbatim>\<open>replay_entry\<close> of
  \<^verbatim>\<open>src/enclave/src/wal.rs\<close>).  Replay calls the operations of the balances and of the channels
  again and reads the clock again; the hexadecimal and base58 fields of an entry appear decoded.
  The theorem at the end says that a restart rebuilds the ledger: replaying the log of any history
  succeeds and gives the ledger that the history had reached.
\<close>

section \<open>The code\<close>

definition saturating_add :: "'a::len word \<Rightarrow> 'a word \<Rightarrow> 'a word" where
  "saturating_add a b = (case checked_add a b of None \<Rightarrow> - 1 | Some c \<Rightarrow> c)"

definition replay_error :: "string \<Rightarrow> fault" where
  "replay_error msg = Err (Internal msg)"

text \<open>\<^verbatim>\<open>.map_err(wal_replay_error)?\<close>\<close>
definition replayed :: "'a est \<Rightarrow> 'a app" where
  "replayed m app = (case in_vault m app of
      (Inl (Err _), app1) \<Rightarrow> (Inl (replay_error ''WAL replay failed''), app1)
    | (r, app1) \<Rightarrow> (r, app1))"

definition replay_seen :: "string \<Rightarrow> u64 \<Rightarrow> unit app" where
  "replay_seen tx_signature slot = smodify (\<lambda>app. app\<lparr>
    app_processed := insert tx_signature (app_processed app),
    app_last_signature := Some tx_signature,
    app_vault := (app_vault app)\<lparr>es_last_finalized_slot := max (es_last_finalized_slot (app_vault app)) slot\<rparr>\<rparr>)"

definition raise_withdraw_nonce :: "u64 \<Rightarrow> unit app" where
  "raise_withdraw_nonce n = in_vault (smodify (\<lambda>st. st\<lparr>es_withdraw_nonce :=
    max (es_withdraw_nonce st) (saturating_add n 1)\<rparr>))"

definition raise_receipt_nonce :: "u64 \<Rightarrow> unit app" where
  "raise_receipt_nonce n = in_vault (smodify (\<lambda>st. st\<lparr>es_receipt_nonce :=
    max (es_receipt_nonce st) (saturating_add n 1)\<rparr>))"

definition required :: "'a option \<Rightarrow> string \<Rightarrow> ('a \<Rightarrow> 'b app) \<Rightarrow> 'b app" where
  "required x msg f = (case x of None \<Rightarrow> sfail (replay_error msg) | Some v \<Rightarrow> f v)"

text \<open>The arms of \<^verbatim>\<open>ReservationCancelled\<close> and \<^verbatim>\<open>ReservationExpired\<close>.\<close>
definition replay_release :: "string \<Rightarrow> ReservationStatus \<Rightarrow> unit app" where
  "replay_release verification_id status =
    sbind (sget (\<lambda>app. aget (es_reservations (app_vault app)) verification_id)) (\<lambda>found.
    required found ''missing reservation'' (\<lambda>r.
    sbind (in_vault (put_reservation verification_id (r\<lparr>rv_status := status\<rparr>))) (\<lambda>_.
    if rv_status r = Reserved then replayed (release_balance (rv_client r) (rv_amount r)) else sret ())))"

text \<open>The arm of \<^verbatim>\<open>SettlementCommitted\<close>.\<close>
definition replay_settlement :: "string \<Rightarrow> string \<Rightarrow> string \<Rightarrow> u64 \<Rightarrow> int option \<Rightarrow> unit app" where
  "replay_settlement settlement_id verification_id provider_id amount settled_at =
    sbind (sget (\<lambda>app. aget (es_reservations (app_vault app)) verification_id)) (\<lambda>found.
    required found ''missing reservation'' (\<lambda>r.
    if rv_provider_id r \<noteq> provider_id then sfail (replay_error ''provider_id mismatch'')
    else if rv_amount r \<noteq> amount then sfail (replay_error ''amount mismatch'')
    else
      let timestamp = (case settled_at of None \<Rightarrow> rv_created_at r | Some t \<Rightarrow> t) in
      sbind (if rv_status r = Reserved
        then in_vault (put_reservation verification_id (r\<lparr>rv_status := SettledOffchain,
          rv_settlement_id := Some settlement_id, rv_settled_at := Some timestamp\<rparr>))
        else sret ()) (\<lambda>_.
      sbind (replayed (settle_payment (rv_client r) amount provider_id settlement_id timestamp)) (\<lambda>_.
      sbind (sget (\<lambda>app. aget (es_providers (app_vault app)) provider_id)) (\<lambda>provider.
      required provider ''missing provider'' (\<lambda>reg.
      in_vault (smodify (\<lambda>st. st\<lparr>es_settlement_history := aput settlement_id
        \<lparr>sr_settlement_id = settlement_id, sr_client = rv_client r,
         sr_provider = rg_settlement_token_account reg, sr_amount = amount, sr_timestamp = timestamp\<rparr>
        (es_settlement_history st)\<rparr>))))))))"

text \<open>\<open>now\<close> is the clock while the entry is replayed, \<open>uuid\<close> the identifier that a close without a
  recorded settlement would generate.\<close>
fun replay_entry ::
  "('p::ab_group_add, 's::comm_ring_1) curve \<Rightarrow> (bytes \<Rightarrow> bytes) \<Rightarrow> string \<Rightarrow> int \<Rightarrow> WalEntry \<Rightarrow> unit app" where
  "replay_entry C sha256 uuid now (DepositApplied client amount slot tx_signature) =
    sbind (in_vault (apply_deposit client amount)) (\<lambda>_. replay_seen tx_signature slot)"
| "replay_entry C sha256 uuid now (WithdrawAuthorized w) =
    sbind (replayed (authorize_withdrawal w)) (\<lambda>_.
    sbind (raise_withdraw_nonce (pw_withdraw_nonce w)) (\<lambda>_.
    sbind (replayed (refresh_client_max_lock_expires_at (pw_client w))) (\<lambda>_. sret ())))"
| "replay_entry C sha256 uuid now (WithdrawApplied client recipient_ata amount n expires_at slot tx_signature) =
    sbind (replayed (apply_withdrawal n)) (\<lambda>applied.
    if pw_client applied \<noteq> client \<or> pw_recipient_ata applied \<noteq> recipient_ata \<or>
       pw_amount applied \<noteq> amount \<or> pw_expires_at applied \<noteq> expires_at
    then sfail (replay_error ''withdraw replay mismatch'')
    else
      sbind (replay_seen tx_signature slot) (\<lambda>_.
      sbind (raise_withdraw_nonce n) (\<lambda>_.
      sbind (replayed (refresh_client_max_lock_expires_at client)) (\<lambda>_. sret ()))))"
| "replay_entry C sha256 uuid now (WithdrawExpired client n) =
    sbind (replayed (expire_pending_withdrawal n)) (\<lambda>expired.
    if pw_client expired \<noteq> client then sfail (replay_error ''withdraw expiry client mismatch'')
    else sbind (replayed (refresh_client_max_lock_expires_at client)) (\<lambda>_. sret ()))"
| "replay_entry C sha256 uuid now (ReservationCreated verification_id reservation_id payment_id client
      provider_id amount request_hash payment_details_hash created_at expires_at) =
    required reservation_id ''missing reservation_id'' (\<lambda>reservation_id.
    required request_hash ''missing request_hash'' (\<lambda>request_hash.
    required payment_details_hash ''missing payment_details_hash'' (\<lambda>payment_details_hash.
    required created_at ''missing created_at'' (\<lambda>created_at.
    required expires_at ''missing expires_at'' (\<lambda>expires_at.
    sbind (replayed (reserve_balance client amount)) (\<lambda>_.
    sbind (in_vault (smodify (\<lambda>st. st\<lparr>es_payment_id_index :=
      aput payment_id verification_id (es_payment_id_index st)\<rparr>))) (\<lambda>_.
    in_vault (put_reservation verification_id
      (new_reservation verification_id reservation_id payment_id client provider_id amount request_hash
        payment_details_hash created_at expires_at)))))))))"
| "replay_entry C sha256 uuid now (ReservationCancelled verification_id reason) =
    replay_release verification_id Cancelled"
| "replay_entry C sha256 uuid now (WalEntry.ReservationExpired verification_id) =
    replay_release verification_id Expired"
| "replay_entry C sha256 uuid now (SettlementCommitted settlement_id verification_id provider_id amount settled_at) =
    replay_settlement settlement_id verification_id provider_id amount settled_at"
| "replay_entry C sha256 uuid now (ProviderRegistered registration) =
    in_vault (smodify (\<lambda>st. st\<lparr>es_providers :=
      aput (rg_provider_id registration) registration (es_providers st)\<rparr>))"
| "replay_entry C sha256 uuid now (ParticipantReceiptIssued participant kind nonce) = raise_receipt_nonce nonce"
| "replay_entry C sha256 uuid now (ParticipantReceiptMirrored participant kind nonce) = raise_receipt_nonce nonce"
| "replay_entry C sha256 uuid now (ClientBalanceSeeded client seeded) = in_vault (put_balance client seeded)"
| "replay_entry C sha256 uuid now (BatchConfirmed batch_id tx_signature settlement_ids) =
    in_vault (smodify (apply_batch_confirmation settlement_ids batch_id tx_signature))"
| "replay_entry C sha256 uuid now (ChannelOpened channel_id client provider_id initial_deposit) =
    replayed (open_channel_with_id channel_id client provider_id initial_deposit now)"
| "replay_entry C sha256 uuid now (ChannelRequestSubmitted channel_id request_id amount request_hash) =
    required request_hash ''missing request_hash'' (\<lambda>request_hash.
    replayed (submit_request channel_id request_id amount request_hash now))"
| "replay_entry C sha256 uuid now (WalEntry.ChannelRequestExpired channel_id request_id amount) =
    replayed (expire_replayed_request channel_id request_id amount now)"
| "replay_entry C sha256 uuid now (ChannelAdaptorDelivered channel_id request_id adaptor_point
      pre_sig_r_prime pre_sig_s_prime encrypted_result result_hash provider_pubkey) =
    required adaptor_point ''missing adaptor_point'' (\<lambda>adaptor_point.
    required pre_sig_r_prime ''missing pre_sig_r_prime'' (\<lambda>r.
    required pre_sig_s_prime ''missing pre_sig_s_prime'' (\<lambda>s.
    required encrypted_result ''missing encrypted_result'' (\<lambda>encrypted_result.
    required result_hash ''missing result_hash'' (\<lambda>result_hash.
    required provider_pubkey ''missing provider_pubkey'' (\<lambda>provider_pubkey.
    replayed (deliver_adaptor C sha256 channel_id adaptor_point \<lparr>r_prime = r, s_prime = s\<rparr>
      encrypted_result result_hash provider_pubkey now)))))))"
| "replay_entry C sha256 uuid now (ChannelFinalized channel_id request_id amount_paid) =
    replayed (finalize_replayed_request channel_id request_id amount_paid now)"
| "replay_entry C sha256 uuid now (ChannelClosed channel_id returned earned settlement_id) =
    sbind (replayed (close_channel_with_settlement_id uuid channel_id settlement_id now)) (\<lambda>_. sret ())"
| "replay_entry C sha256 uuid now (BatchSubmitted batch_id provider_count total_amount) = sret ()"

text \<open>Entry \<open>i\<close> is replayed at \<open>clock i\<close>.\<close>
fun replay_entries ::
  "('p::ab_group_add, 's::comm_ring_1) curve \<Rightarrow> (bytes \<Rightarrow> bytes) \<Rightarrow> (nat \<Rightarrow> string) \<Rightarrow> (nat \<Rightarrow> int) \<Rightarrow> nat \<Rightarrow>
    WalEntry list \<Rightarrow> unit app" where
  "replay_entries C sha256 uuid clock i [] = sret ()"
| "replay_entries C sha256 uuid clock i (e # es) =
    sbind (replay_entry C sha256 (uuid i) (clock i) e) (\<lambda>_. replay_entries C sha256 uuid clock (Suc i) es)"

fun refresh_clients :: "pubkey list \<Rightarrow> unit app" where
  "refresh_clients [] = sret ()"
| "refresh_clients (c # cs) =
    sbind (replayed (refresh_client_max_lock_expires_at c)) (\<lambda>_. refresh_clients cs)"

definition replay_app_state_from ::
  "('p::ab_group_add, 's::comm_ring_1) curve \<Rightarrow> (bytes \<Rightarrow> bytes) \<Rightarrow> (nat \<Rightarrow> string) \<Rightarrow> (nat \<Rightarrow> int) \<Rightarrow>
    u64 option \<Rightarrow> unit app" where
  "replay_app_state_from C sha256 uuid clock min_seqno_exclusive =
    sbind (sget (\<lambda>app. read_records_after min_seqno_exclusive (app_wal app))) (\<lambda>records.
    sbind (replay_entries C sha256 uuid clock 0 (map wr_entry records)) (\<lambda>_.
    sbind (sget (\<lambda>app. akeys (es_client_balances (app_vault app)))) (\<lambda>clients.
    refresh_clients clients)))"

section \<open>Replay follows the ledger\<close>

text \<open>What replay relies on besides the ledger: no request expires before \<open>t\<close>, and the nonces of
  pending withdrawals are used up.\<close>
definition replay_inv :: "int \<Rightarrow> VaultState \<Rightarrow> bool" where
  "replay_inv t v \<longleftrightarrow>
    (\<forall>cid ch r. aget (es_active_channels v) cid = Some ch \<longrightarrow> ch_active_request ch = Some r \<longrightarrow> t \<le> cr_expires_at r) \<and>
    (\<forall>n w. aget (es_pending_withdrawals v) n = Some w \<longrightarrow> n < es_withdraw_nonce v)"

definition replays :: "int \<Rightarrow> unit app \<Rightarrow> App \<Rightarrow> ledger \<Rightarrow> bool" where
  "replays t m app L' \<longleftrightarrow> (\<exists>app'. m app = (Inr (), app') \<and> ledger_of (app_vault app') = L' \<and>
    replay_inv t (app_vault app'))"

lemma lput_balance_cong: "erase_balance b = erase_balance b' \<Longrightarrow> lput_balance c b L = lput_balance c b' L"
  by (simp add: lput_balance_def)

lemma lock_replays:
  assumes "with_balance c (lock a) k (ledger_of v) = Some L'"
  obtains b l where "aget (es_client_balances v) c = Some b" "a \<le> cb_free b" "checked_add (cb_locked b) a = Some l"
    "k (ledger_of (v\<lparr>es_client_balances := aput c (b\<lparr>cb_free := cb_free b - a, cb_locked := l\<rparr>)
      (es_client_balances v)\<rparr>)) = Some L'"
proof -
  obtain b l where b: "aget (es_client_balances v) c = Some b" "a \<le> cb_free b" "checked_add (cb_locked b) a = Some l"
    using assms by (rule with_balance_SomeE) (auto simp: lock_def split: if_splits)
  from that [OF this] assms with_lock [OF this refl] show thesis by simp
qed

lemma unlock_replays:
  assumes "with_balance c (unlock a) k (ledger_of v) = Some L'"
  obtains b f where "aget (es_client_balances v) c = Some b" "a \<le> cb_locked b" "checked_add (cb_free b) a = Some f"
    "k (ledger_of (v\<lparr>es_client_balances := aput c (b\<lparr>cb_locked := saturating_sub (cb_locked b) a, cb_free := f\<rparr>)
      (es_client_balances v)\<rparr>)) = Some L'"
proof -
  obtain b f where b: "aget (es_client_balances v) c = Some b" "a \<le> cb_locked b" "checked_add (cb_free b) a = Some f"
    using assms by (rule with_balance_SomeE) (auto simp: unlock_def split: if_splits)
  from that [OF this] assms with_unlock [OF this refl] show thesis by simp
qed

lemma spend_replays:
  assumes "with_balance c (spend a) k (ledger_of v) = Some L'"
  obtains b where "aget (es_client_balances v) c = Some b" "a \<le> cb_locked b"
    "k (ledger_of (v\<lparr>es_client_balances := aput c (b\<lparr>cb_locked := saturating_sub (cb_locked b) a\<rparr>)
      (es_client_balances v)\<rparr>)) = Some L'"
proof -
  obtain b where b: "aget (es_client_balances v) c = Some b" "a \<le> cb_locked b"
    using assms by (rule with_balance_SomeE) (auto simp: spend_def split: if_splits)
  from that [OF this] assms with_spend [OF this refl] show thesis by simp
qed

lemma with_channel_replays:
  assumes "with_channel cid f (ledger_of v) = Some L'"
  obtains ch x where "aget (es_active_channels v) cid = Some ch" "f (erase_channel ch) = Some x"
    "L' = lput_channel cid (Some x) (ledger_of v)"
  using assms by (auto simp: with_channel_def split: option.splits)

lemma replayed_ok: "m (app_vault app) = (Inr x, v) \<Longrightarrow> replayed m app = (Inr x, app\<lparr>app_vault := v\<rparr>)"
  by (simp add: replayed_def in_vault_def)

lemma in_vault_ok: "m (app_vault app) = (Inr x, v) \<Longrightarrow> in_vault m app = (Inr x, app\<lparr>app_vault := v\<rparr>)"
  by (simp add: in_vault_def)

lemma sbind_Inr: "m app = (Inr x, app1) \<Longrightarrow> sbind m f app = f x app1"
  by (simp add: sbind_def)

lemma required_Some [simp]: "required (Some x) msg f = f x"
  by (simp add: required_def)

lemma replay_inv_frame:
  assumes "replay_inv t v" "es_active_channels v' = es_active_channels v"
    "es_pending_withdrawals v' = es_pending_withdrawals v" "es_withdraw_nonce v \<le> es_withdraw_nonce v'"
  shows "replay_inv t v'"
  unfolding replay_inv_def
proof (intro conjI allI impI)
  show "t \<le> cr_expires_at r" if "aget (es_active_channels v') cid = Some ch" "ch_active_request ch = Some r" for cid ch r
    using that assms(1,2) unfolding replay_inv_def by auto
  show "n < es_withdraw_nonce v'" if "aget (es_pending_withdrawals v') n = Some w" for n w
    using that assms unfolding replay_inv_def by (auto intro: order.strict_trans2)
qed

lemma replay_inv_channel:
  assumes "replay_inv t v" "\<And>r. ch_active_request ch = Some r \<Longrightarrow> t \<le> cr_expires_at r"
  shows "replay_inv t (set_channel cid ch v)"
  using assms by (auto simp: replay_inv_def set_channel_def)

text \<open>One replayed change of the vault.\<close>
lemma replays_vault:
  assumes "m (app_vault app) = (Inr (), v')" "ledger_of v' = L'" "replay_inv t v'"
  shows "replays t (replayed m) app L'"
  using assms unfolding replays_def by (intro exI [of _ "app\<lparr>app_vault := v'\<rparr>"]) (simp add: replayed_ok)

lemma refresh_then:
  assumes "aget (es_client_balances (app_vault app)) c = Some b" "adistinct (es_client_balances (app_vault app))"
    "replay_inv t (app_vault app)"
  shows "replays t (sbind (replayed (refresh_client_max_lock_expires_at c)) (\<lambda>_. sret ())) app (ledger_of (app_vault app))"
proof -
  obtain v' where v': "refresh_client_max_lock_expires_at c (app_vault app) = (Inr (client_max_lock c (app_vault app)), v')"
    and eq: "v' = app_vault app\<lparr>es_client_balances := aput c (b\<lparr>cb_max_lock_expires_at :=
      client_max_lock c (app_vault app)\<rparr>) (es_client_balances (app_vault app))\<rparr>"
    using assms(1) by (auto simp: refresh_ok)
  have "ledger_of v' = ledger_of (app_vault app)"
    using refresh_same_books [OF v' assms(2)] by (simp add: same_books_def)
  moreover have "replay_inv t v'"
    by (rule replay_inv_frame [OF assms(3)]) (simp_all add: eq)
  ultimately show ?thesis
    unfolding replays_def by (intro exI [of _ "app\<lparr>app_vault := v'\<rparr>"]) (simp add: sbind_def replayed_ok v' sret_def)
qed

lemma deposit_replays:
  assumes step: "lstep C sha256 (DepositApplied c a slot sig) (ledger_of (app_vault app)) = Some L'"
    and inv: "replay_inv t (app_vault app)"
  shows "replays t (replay_entry C sha256 uuid now (DepositApplied c a slot sig)) app L'"
proof -
  let ?v = "app_vault app"
  let ?b = "case aget (es_client_balances ?v) c of None \<Rightarrow> client_balance_default | Some b \<Rightarrow> b"
  have b: "(case aget (lg_balances (ledger_of ?v)) c of None \<Rightarrow> client_balance_default | Some b \<Rightarrow> b) = erase_balance ?b"
    by (simp add: erase_balance_def client_balance_default_def split: option.splits)
  obtain f d where fd: "checked_add (cb_free ?b) a = Some f" "checked_add (cb_total_deposited ?b) a = Some d"
    and L': "L' = lput_balance c (erase_balance ?b\<lparr>cb_free := f, cb_total_deposited := d\<rparr>) (ledger_of ?v)"
    using step unfolding lstep.simps Let_def b by (auto split: option.splits)
  let ?v1 = "?v\<lparr>es_client_balances := aput c (?b\<lparr>cb_free := f, cb_total_deposited := d\<rparr>) (es_client_balances ?v)\<rparr>"
  have "apply_deposit c a ?v = (Inr (), ?v1)"
    unfolding apply_deposit_ok using fd by blast
  moreover have "ledger_of ?v1 = L'"
    unfolding L' by (subst ledger_of_balance) (auto intro!: lput_balance_cong simp: erase_balance_def)
  moreover have "replay_inv t (?v1\<lparr>es_last_finalized_slot := s\<rparr>)" for s
    by (rule replay_inv_frame [OF inv]) simp_all
  ultimately show ?thesis
    unfolding replays_def by (simp add: sbind_def in_vault_ok replay_seen_def smodify_def)
qed

lemma saturating_succ: "n < m \<Longrightarrow> n < saturating_add n (1 :: u64)"
  using unat_less_pow [of m]
  by (auto simp: saturating_add_def checked_add_def word_less_nat_alt unat_add_lem [THEN iffD1] split: option.splits)

lemma raise_bind:
  "sbind (raise_withdraw_nonce n) f app = f () (app\<lparr>app_vault := (app_vault app)\<lparr>es_withdraw_nonce :=
    max (es_withdraw_nonce (app_vault app)) (saturating_add n 1)\<rparr>\<rparr>)"
  by (simp add: raise_withdraw_nonce_def in_vault_def smodify_def sbind_def)

lemma seen_bind:
  "sbind (replay_seen sig slot) f app = f () (app\<lparr>app_processed := insert sig (app_processed app),
    app_last_signature := Some sig,
    app_vault := (app_vault app)\<lparr>es_last_finalized_slot := max (es_last_finalized_slot (app_vault app)) slot\<rparr>\<rparr>)"
  by (simp add: replay_seen_def smodify_def sbind_def)

lemma replayed_bind:
  "m (app_vault app) = (Inr x, v) \<Longrightarrow> sbind (replayed m) f app = f x (app\<lparr>app_vault := v\<rparr>)"
  by (simp add: sbind_def replayed_ok)

lemma authorization_replays:
  assumes step: "lstep C sha256 (WithdrawAuthorized w) (ledger_of (app_vault app)) = Some L'"
    and inv: "replay_inv t (app_vault app)" "ledger_inv C sha256 (ledger_of (app_vault app))"
    and below: "auth_below N (WithdrawAuthorized w)"
  shows "replays t (replay_entry C sha256 uuid now (WithdrawAuthorized w)) app L'"
proof -
  let ?v = "app_vault app" and ?n = "pw_withdraw_nonce w" and ?c = "pw_client w" and ?a = "pw_amount w"
  have "with_balance ?c (lock ?a) (\<lambda>L1. Some (lput_pending ?n (Some w) L1)) (ledger_of ?v) = Some L'"
    using step by (simp split: if_splits)
  then obtain b l where b: "aget (es_client_balances ?v) ?c = Some b" "?a \<le> cb_free b" "checked_add (cb_locked b) ?a = Some l"
    and L': "L' = lput_pending ?n (Some w) (ledger_of (?v\<lparr>es_client_balances := aput ?c (b\<lparr>cb_free := cb_free b - ?a,
      cb_locked := l\<rparr>) (es_client_balances ?v)\<rparr>))"
    by (rule lock_replays) simp
  define v1 where "v1 = ?v\<lparr>es_client_balances := aput ?c (b\<lparr>cb_free := cb_free b - ?a, cb_locked := l\<rparr>)
      (es_client_balances ?v), es_pending_withdrawals := aput ?n w (es_pending_withdrawals ?v)\<rparr>"
  define v2 where "v2 = v1\<lparr>es_withdraw_nonce := max (es_withdraw_nonce v1) (saturating_add ?n 1)\<rparr>"
  have v1: "authorize_withdrawal w ?v = (Inr (), v1)"
    unfolding authorize_withdrawal_ok v1_def using b by blast
  have v2: "replay_inv t v2"
    using inv(1) saturating_succ [of ?n N] below
    by (auto simp: replay_inv_def v1_def v2_def less_max_iff_disj split: if_splits)
  have "ledger_of v2 = L'"
    unfolding L' v2_def v1_def by (simp add: ledger_of_pending)
  moreover have "replays t (sbind (replayed (refresh_client_max_lock_expires_at ?c)) (\<lambda>_. sret ()))
      (app\<lparr>app_vault := v2\<rparr>) (ledger_of v2)"
    by (rule refresh_then [of "app\<lparr>app_vault := v2\<rparr>", simplified])
      (use v2 inv_distinct(1) [OF inv(2)] in \<open>simp_all add: v2_def v1_def\<close>)
  ultimately show ?thesis
    unfolding replays_def
    by (simp add: replayed_bind v1 raise_bind v2_def)
qed

lemma withdrawal_replays:
  assumes step: "lstep C sha256 (WithdrawApplied c ata a n e slot sig) (ledger_of (app_vault app)) = Some L'"
    and inv: "replay_inv t (app_vault app)" "ledger_inv C sha256 (ledger_of (app_vault app))"
  shows "replays t (replay_entry C sha256 uuid now (WithdrawApplied c ata a n e slot sig)) app L'"
proof -
  let ?v = "app_vault app"
  obtain w where w: "aget (es_pending_withdrawals ?v) n = Some w" "pw_client w = c" "pw_recipient_ata w = ata"
      "pw_amount w = a" "pw_expires_at w = e"
    and bal: "with_balance c (\<lambda>b. if a \<le> cb_locked b
             then map_option (\<lambda>t. b\<lparr>cb_locked := cb_locked b - a, cb_total_withdrawn := t\<rparr>)
               (checked_add (cb_total_withdrawn b) a)
             else None) (\<lambda>L1. Some (lput_pending n None L1)) (ledger_of ?v) = Some L'"
    using step by (auto split: option.splits if_splits)
  from bal obtain b x where b: "aget (es_client_balances ?v) c = Some b" "a \<le> cb_locked b"
      "checked_add (cb_total_withdrawn b) a = Some x"
    and L': "L' = lput_pending n None (lput_balance c (erase_balance b\<lparr>cb_locked := cb_locked b - a,
      cb_total_withdrawn := x\<rparr>) (ledger_of ?v))"
    by (rule with_balance_SomeE) (auto split: if_splits)
  define v1 where "v1 = ?v\<lparr>es_pending_withdrawals := adel n (es_pending_withdrawals ?v),
      es_client_balances := aput c (b\<lparr>cb_locked := saturating_sub (cb_locked b) a, cb_total_withdrawn := x\<rparr>)
        (es_client_balances ?v)\<rparr>"
  define app2 where "app2 = app\<lparr>app_processed := insert sig (app_processed app), app_last_signature := Some sig,
    app_vault := v1\<lparr>es_last_finalized_slot := max (es_last_finalized_slot v1) slot,
      es_withdraw_nonce := max (es_withdraw_nonce v1) (saturating_add n 1)\<rparr>\<rparr>"
  have v1: "apply_withdrawal n ?v = (Inr w, v1)"
    unfolding apply_withdrawal_ok v1_def using b w by (intro exI [of _ b] exI [of _ x]) simp
  have v2: "replay_inv t (app_vault app2)"
    using inv(1) by (auto simp: replay_inv_def v1_def app2_def less_max_iff_disj split: if_splits)
  have "ledger_of (app_vault app2) = L'"
    unfolding L' app2_def v1_def using b(2)
    by (auto simp: ledger_of_balance ledger_of_pending lput_commute saturating_sub_def erase_balance_def
        intro!: arg_cong [where f = "lput_pending n None"] lput_balance_cong)
  moreover have "replays t (sbind (replayed (refresh_client_max_lock_expires_at c)) (\<lambda>_. sret ()))
      app2 (ledger_of (app_vault app2))"
    by (rule refresh_then)
      (use v2 inv_distinct(1) [OF inv(2)] in \<open>simp_all add: app2_def v1_def\<close>)
  ultimately show ?thesis
    unfolding replays_def by (simp add: replayed_bind v1 raise_bind seen_bind w app2_def)
qed

lemma withdrawal_expiry_replays:
  assumes step: "lstep C sha256 (WithdrawExpired c n) (ledger_of (app_vault app)) = Some L'"
    and inv: "replay_inv t (app_vault app)" "ledger_inv C sha256 (ledger_of (app_vault app))"
  shows "replays t (replay_entry C sha256 uuid now (WithdrawExpired c n)) app L'"
proof -
  let ?v = "app_vault app"
  obtain w where w: "aget (es_pending_withdrawals ?v) n = Some w" "pw_client w = c"
    and bal: "with_balance c (unlock (pw_amount w)) (\<lambda>L1. Some (lput_pending n None L1)) (ledger_of ?v) = Some L'"
    using step by (auto split: option.splits if_splits)
  from bal obtain b f where b: "aget (es_client_balances ?v) c = Some b" "checked_add (cb_free b) (pw_amount w) = Some f"
    and L': "L' = lput_pending n None (ledger_of (?v\<lparr>es_client_balances := aput c (b\<lparr>cb_locked :=
      saturating_sub (cb_locked b) (pw_amount w), cb_free := f\<rparr>) (es_client_balances ?v)\<rparr>))"
    by (rule unlock_replays) simp
  define v1 where "v1 = ?v\<lparr>es_pending_withdrawals := adel n (es_pending_withdrawals ?v),
      es_client_balances := aput c (b\<lparr>cb_locked := saturating_sub (cb_locked b) (pw_amount w), cb_free := f\<rparr>)
        (es_client_balances ?v)\<rparr>"
  have v1: "expire_pending_withdrawal n ?v = (Inr w, v1)"
    unfolding expire_pending_withdrawal_ok v1_def using b w by (intro exI [of _ b] exI [of _ f]) simp
  have v2: "replay_inv t v1"
    using inv(1) by (auto simp: replay_inv_def v1_def split: if_splits)
  have "ledger_of v1 = L'"
    unfolding L' v1_def by (simp add: ledger_of_balance ledger_of_pending lput_commute)
  moreover have "replays t (sbind (replayed (refresh_client_max_lock_expires_at c)) (\<lambda>_. sret ()))
      (app\<lparr>app_vault := v1\<rparr>) (ledger_of v1)"
    by (rule refresh_then [of "app\<lparr>app_vault := v1\<rparr>", simplified])
      (use v2 inv_distinct(1) [OF inv(2)] in \<open>simp_all add: v1_def\<close>)
  ultimately show ?thesis
    unfolding replays_def by (simp add: replayed_bind v1 w)
qed

lemma put_reservation_bind:
  "sbind (in_vault (put_reservation vid r)) f app =
    f () (app\<lparr>app_vault := (app_vault app)\<lparr>es_reservations := aput vid r (es_reservations (app_vault app))\<rparr>\<rparr>)"
  by (simp add: put_reservation_def in_vault_def smodify_def sbind_def)

lemma sget_bind: "sbind (sget g) f app = f (g app) app"
  by (simp add: sbind_def sget_def)

lemma reservation_replays:
  assumes step: "lstep C sha256 (ReservationCreated vid res pid c p a rh dh ct et) (ledger_of (app_vault app)) = Some L'"
    and inv: "replay_inv t (app_vault app)"
  shows "replays t (replay_entry C sha256 uuid now (ReservationCreated vid res pid c p a rh dh ct et)) app L'"
proof -
  let ?v = "app_vault app"
  obtain res' rh' dh' ct' et' where some: "res = Some res'" "rh = Some rh'" "dh = Some dh'" "ct = Some ct'" "et = Some et'"
    using step by (auto split: option.splits)
  let ?r = "new_reservation vid res' pid c p a rh' dh' ct' et'"
  have "with_balance c (lock a) (\<lambda>L1. Some ((lput_reservation vid ?r L1)\<lparr>lg_base := (lg_base (lput_reservation vid ?r L1))
             \<lparr>es_payment_id_index := aput pid vid (es_payment_id_index (lg_base L1))\<rparr>\<rparr>)) (ledger_of ?v) = Some L'"
    using step by (simp add: some split: if_splits)
  then obtain b l where b: "aget (es_client_balances ?v) c = Some b" "a \<le> cb_free b" "checked_add (cb_locked b) a = Some l"
    and L': "let v1 = ?v\<lparr>es_client_balances := aput c (b\<lparr>cb_free := cb_free b - a, cb_locked := l\<rparr>) (es_client_balances ?v)\<rparr> in
      L' = (lput_reservation vid ?r (ledger_of v1))\<lparr>lg_base := (lg_base (lput_reservation vid ?r (ledger_of v1)))
             \<lparr>es_payment_id_index := aput pid vid (es_payment_id_index (lg_base (ledger_of v1)))\<rparr>\<rparr>"
    by (rule lock_replays) (simp add: Let_def)
  define v1 where "v1 = ?v\<lparr>es_client_balances := aput c (b\<lparr>cb_free := cb_free b - a, cb_locked := l\<rparr>) (es_client_balances ?v)\<rparr>"
  define v2 where "v2 = v1\<lparr>es_payment_id_index := aput pid vid (es_payment_id_index v1)\<rparr>"
  define v3 where "v3 = v2\<lparr>es_reservations := aput vid ?r (es_reservations v2)\<rparr>"
  have v1: "reserve_balance c a ?v = (Inr (), v1)"
    unfolding reserve_balance_ok v1_def using b by blast
  have "ledger_of v3 = L'"
    using L' unfolding v1_def [symmetric] Let_def
    by (simp add: v3_def ledger_of_reservation) (simp add: v2_def ledger_of_base lput_reservation_def)
  moreover have "replay_inv t v3"
    by (rule replay_inv_frame [OF inv]) (simp_all add: v3_def v2_def v1_def)
  ultimately show ?thesis
    unfolding replays_def
    by (simp add: some replayed_ok v1 in_vault_def put_reservation_def smodify_def sbind_def v3_def v2_def)
qed

lemma release_replays:
  assumes step: "lrelease vid status (ledger_of (app_vault app)) = Some L'" and inv: "replay_inv t (app_vault app)"
  shows "replays t (replay_release vid status) app L'"
proof -
  let ?v = "app_vault app"
  obtain r where r: "aget (es_reservations ?v) vid = Some r" "rv_status r = Reserved"
    and bal: "with_balance (rv_client r) (unlock (rv_amount r))
      (\<lambda>L. Some (lput_reservation vid (r\<lparr>rv_status := status\<rparr>) L)) (ledger_of ?v) = Some L'"
    using step by (auto simp: lrelease_def split: option.splits if_splits)
  let ?c = "rv_client r" and ?a = "rv_amount r"
  from bal obtain b f where b: "aget (es_client_balances ?v) ?c = Some b" "checked_add (cb_free b) ?a = Some f"
    and L': "L' = lput_reservation vid (r\<lparr>rv_status := status\<rparr>) (ledger_of (?v\<lparr>es_client_balances :=
      aput ?c (b\<lparr>cb_locked := saturating_sub (cb_locked b) ?a, cb_free := f\<rparr>) (es_client_balances ?v)\<rparr>))"
    by (rule unlock_replays) simp
  define v0 where "v0 = ?v\<lparr>es_reservations := aput vid (r\<lparr>rv_status := status\<rparr>) (es_reservations ?v)\<rparr>"
  define v1 where "v1 = v0\<lparr>es_client_balances := aput ?c (b\<lparr>cb_locked := saturating_sub (cb_locked b) ?a,
    cb_free := f\<rparr>) (es_client_balances ?v)\<rparr>"
  have v1: "release_balance ?c ?a v0 = (Inr (), v1)"
    unfolding release_balance_ok v1_def using b by (intro exI [of _ b] exI [of _ f]) (simp add: v0_def)
  have "ledger_of v1 = L'"
    unfolding L' v1_def by (simp add: ledger_of_balance v0_def ledger_of_reservation lput_commute)
  moreover have "replay_inv t v1"
    by (rule replay_inv_frame [OF inv]) (simp_all add: v1_def v0_def)
  ultimately show ?thesis
    unfolding replays_def replay_release_def
    by (simp add: sget_bind put_reservation_bind r replayed_ok v1 flip: v0_def)
qed

lemma credit_replays:
  assumes "credit_provider p a sid (ledger_of v) = Some L'"
  obtains reg credited where "aget (es_providers v) p = Some reg"
    "checked_add (pc_credited_amount (credit_or_new v p (rg_settlement_token_account reg) now)) a = Some credited"
    "ledger_of (v\<lparr>es_provider_credits := aput p (credit_or_new v p (rg_settlement_token_account reg) now
          \<lparr>pc_credited_amount := credited, pc_settlement_ids :=
            pc_settlement_ids (credit_or_new v p (rg_settlement_token_account reg) now) @ [sid]\<rparr>)
          (es_provider_credits v)\<rparr>) = L'"
proof -
  obtain reg where reg: "aget (es_providers v) p = Some reg"
    and fresh: "\<forall>c\<in>set (avals (es_provider_credits v)). sid \<notin> set (pc_settlement_ids c)"
    using assms by (auto simp: credit_provider_def Let_def split: option.splits if_splits)
  have "pc_credited_amount (credit_or_new (lg_base (ledger_of v)) p k 0) =
      pc_credited_amount (credit_or_new v p k now)" for k
    by (simp add: credit_or_new_def split: option.splits)
  then obtain credited where
    "checked_add (pc_credited_amount (credit_or_new v p (rg_settlement_token_account reg) now)) a = Some credited"
    using assms reg by (auto simp: credit_provider_def Let_def split: option.splits if_splits)
  from that [OF reg this] credit_provider_ledger_of [OF reg this fresh refl] assms show thesis by simp
qed

lemma settlement_replays:
  assumes step: "lsettle sid vid p a ts (ledger_of (app_vault app)) = Some L'" and inv: "replay_inv t (app_vault app)"
  shows "replays t (replay_settlement sid vid p a (Some ts)) app L'"
proof -
  let ?v = "app_vault app"
  obtain r reg where r: "aget (es_reservations ?v) vid = Some r" "rv_status r = Reserved" "rv_provider_id r = p"
      "rv_amount r = a" and reg: "aget (es_providers ?v) p = Some reg"
    and bal: "with_balance (rv_client r) (spend a) (\<lambda>L1. map_option
            (\<lambda>L2. lput_reservation vid (r\<lparr>rv_status := SettledOffchain,
                rv_settlement_id := Some sid, rv_settled_at := Some ts\<rparr>)
              (L2\<lparr>lg_base := (lg_base L2)\<lparr>es_settlement_history := aput sid
                \<lparr>sr_settlement_id = sid, sr_client = rv_client r,
                 sr_provider = rg_settlement_token_account reg, sr_amount = a, sr_timestamp = ts\<rparr>
                (es_settlement_history (lg_base L2))\<rparr>\<rparr>))
            (credit_provider p a sid L1)) (ledger_of ?v) = Some L'"
    using step by (auto simp: lsettle_def split: option.splits if_splits)
  let ?c = "rv_client r"
  let ?r = "r\<lparr>rv_status := SettledOffchain, rv_settlement_id := Some sid, rv_settled_at := Some ts\<rparr>"
  let ?h = "\<lambda>m. aput sid \<lparr>sr_settlement_id = sid, sr_client = ?c,
     sr_provider = rg_settlement_token_account reg, sr_amount = a, sr_timestamp = ts\<rparr> m"
  from bal obtain b where b: "aget (es_client_balances ?v) ?c = Some b"
    and rest: "map_option (\<lambda>L2. lput_reservation vid ?r (L2\<lparr>lg_base := (lg_base L2)\<lparr>es_settlement_history :=
        ?h (es_settlement_history (lg_base L2))\<rparr>\<rparr>))
      (credit_provider p a sid (ledger_of (?v\<lparr>es_client_balances := aput ?c (b\<lparr>cb_locked :=
        saturating_sub (cb_locked b) a\<rparr>) (es_client_balances ?v)\<rparr>))) = Some L'"
    by (rule spend_replays)
  define v1 where "v1 = ?v\<lparr>es_client_balances := aput ?c (b\<lparr>cb_locked := saturating_sub (cb_locked b) a\<rparr>)
    (es_client_balances ?v)\<rparr>"
  from rest obtain L2 where L2: "credit_provider p a sid (ledger_of v1) = Some L2"
    and L': "L' = lput_reservation vid ?r (L2\<lparr>lg_base := (lg_base L2)\<lparr>es_settlement_history :=
        ?h (es_settlement_history (lg_base L2))\<rparr>\<rparr>)"
    unfolding v1_def [symmetric] by auto
  let ?cr = "credit_or_new ?v p (rg_settlement_token_account reg) ts"
  obtain credited where credited: "checked_add (pc_credited_amount ?cr) a = Some credited"
    and led: "ledger_of (v1\<lparr>es_provider_credits := aput p (?cr\<lparr>pc_credited_amount := credited,
      pc_settlement_ids := pc_settlement_ids ?cr @ [sid]\<rparr>) (es_provider_credits v1)\<rparr>) = L2"
    by (rule credit_replays [OF L2, of ts]) (use reg in \<open>auto simp: v1_def credit_or_new_def\<close>)
  define v0 where "v0 = ?v\<lparr>es_reservations := aput vid ?r (es_reservations ?v)\<rparr>"
  define v2 where "v2 = v0\<lparr>es_client_balances := aput ?c (b\<lparr>cb_locked := saturating_sub (cb_locked b) a\<rparr>)
      (es_client_balances v0), es_provider_credits := aput p (?cr\<lparr>pc_credited_amount := credited,
      pc_settlement_ids := pc_settlement_ids ?cr @ [sid]\<rparr>) (es_provider_credits v0)\<rparr>"
  define v3 where "v3 = v2\<lparr>es_settlement_history := ?h (es_settlement_history v2)\<rparr>"
  have v2: "settle_payment ?c a p sid ts v0 = (Inr (), v2)"
    unfolding settle_payment_ok v2_def using b reg credited
    by (intro exI [of _ b] exI [of _ reg] exI [of _ ?cr] exI [of _ credited]) (simp add: v0_def credit_or_new_def)
  have "ledger_of v3 = L'"
    unfolding L' led [symmetric] v3_def v2_def v0_def v1_def
    by (simp add: ledger_of_def erase_def lput_reservation_def)
  moreover have "replay_inv t v3"
    by (rule replay_inv_frame [OF inv]) (simp_all add: v3_def v2_def v0_def)
  moreover have "es_providers v2 = es_providers ?v"
    by (simp add: v2_def v0_def)
  ultimately show ?thesis
    unfolding replays_def replay_settlement_def
    using reg by (simp add: sget_bind put_reservation_bind r replayed_bind v2 in_vault_def smodify_def
        v3_def flip: v0_def)
qed

lemma channel_replays:
  assumes "m (app_vault app) = (Inr (), set_channel cid ch' (app_vault app))"
    "L' = lput_channel cid (Some x) (ledger_of (app_vault app))" "erase_channel x = erase_channel ch'"
    "replay_inv t (app_vault app)" "\<And>r. ch_active_request ch' = Some r \<Longrightarrow> t \<le> cr_expires_at r"
  shows "replays t (replayed m) app L'"
  by (rule replays_vault [of m app, OF assms(1)])
    (use assms(2,3) replay_inv_channel [OF assms(4,5)] in \<open>simp_all add: ledger_of_channel lput_channel_def\<close>)

lemma channel_open_replays:
  assumes step: "lopen cid c p a (ledger_of (app_vault app)) = Some L'" and inv: "replay_inv t (app_vault app)"
  shows "replays t (replayed (open_channel_with_id cid c p a now)) app L'"
proof -
  let ?v = "app_vault app"
  let ?ch = "\<lambda>now. \<lparr>ch_channel_id = cid, ch_client = c, ch_provider_id = p,
        ch_balance = \<lparr>client_free = a, client_locked = 0, provider_earned = 0\<rparr>,
        ch_status = Open, ch_nonce = 0, ch_created_at = now, ch_updated_at = now,
        ch_used_request_ids = {}, ch_active_request = None\<rparr>"
  obtain reg where reg: "aget (es_providers ?v) p = Some reg"
    and bal: "with_balance c (lock a) (\<lambda>L1. Some (lput_channel cid (Some (?ch 0)) L1)) (ledger_of ?v) = Some L'"
    using step by (auto simp: lopen_def split: if_splits)
  from bal obtain b l where b: "aget (es_client_balances ?v) c = Some b" "a \<le> cb_free b" "checked_add (cb_locked b) a = Some l"
    and L': "L' = lput_channel cid (Some (?ch 0)) (ledger_of (?v\<lparr>es_client_balances := aput c
      (b\<lparr>cb_free := cb_free b - a, cb_locked := l\<rparr>) (es_client_balances ?v)\<rparr>))"
    by (rule lock_replays) simp
  define v1 where "v1 = ?v\<lparr>es_client_balances := aput c (b\<lparr>cb_free := cb_free b - a, cb_locked := l\<rparr>)
    (es_client_balances ?v)\<rparr>"
  have v1: "reserve_balance c a ?v = (Inr (), v1)"
    unfolding reserve_balance_ok v1_def using b by blast
  have "open_channel_with_id cid c p a now ?v = (Inr (), set_channel cid (?ch now) v1)"
    using reg b v1 by (simp add: open_channel_with_id_def sbind_def sfind_def get_balance_def srequire_def Let_def
        put_channel_def smodify_def set_channel_def)
  moreover have "ledger_of (set_channel cid (?ch now) v1) = L'"
    unfolding L' v1_def [symmetric] by (simp add: ledger_of_channel lput_channel_def erase_channel_def)
  moreover have "replay_inv t (set_channel cid (?ch now) v1)"
    by (rule replay_inv_channel [OF replay_inv_frame [OF inv]]) (simp_all add: v1_def)
  ultimately show ?thesis by (rule replays_vault)
qed

lemma request_replays:
  assumes step: "with_channel cid (lch_submit rid a h) (ledger_of (app_vault app)) = Some L'"
    and inv: "replay_inv t (app_vault app)" and clock: "t \<le> now + REQUEST_EXPIRY_SEC"
  shows "replays t (replayed (submit_request cid rid a h now)) app L'"
  using step
proof (rule with_channel_replays)
  fix ch x
  assume ch: "aget (es_active_channels (app_vault app)) cid = Some ch" "lch_submit rid a h (erase_channel ch) = Some x"
    and L': "L' = lput_channel cid (Some x) (ledger_of (app_vault app))"
  obtain ch' where "submit_request cid rid a h now (app_vault app) = (Inr (), set_channel cid ch' (app_vault app))"
    "erase_channel x = erase_channel ch'" "\<And>r. ch_active_request ch' = Some r \<Longrightarrow> t \<le> cr_expires_at r"
    using ch clock unfolding submit_request_ok
    by (force simp: lch_submit_def Let_def erase_channel_def erase_request_def split: if_splits option.splits)
  then show ?thesis by (intro channel_replays [OF _ L' _ inv])
qed

lemma delivery_replays:
  assumes step: "with_channel cid (lch_deliver C sha256 tb pre enc rh pk) (ledger_of (app_vault app)) = Some L'"
    and inv: "replay_inv t (app_vault app)" and clock: "now \<le> t"
  shows "replays t (replayed (deliver_adaptor C sha256 cid tb pre enc rh pk now)) app L'"
  using step
proof (rule with_channel_replays)
  fix ch x
  assume ch: "aget (es_active_channels (app_vault app)) cid = Some ch"
      "lch_deliver C sha256 tb pre enc rh pk (erase_channel ch) = Some x"
    and L': "L' = lput_channel cid (Some x) (ledger_of (app_vault app))"
  obtain r where r: "ch_active_request ch = Some r"
    using ch(2) by (auto simp: lch_deliver_def erase_channel_def split: option.splits)
  then have t: "t \<le> cr_expires_at r"
    using inv ch(1) by (simp add: replay_inv_def)
  obtain ch' where "deliver_adaptor C sha256 cid tb pre enc rh pk now (app_vault app) =
      (Inr (), set_channel cid ch' (app_vault app))"
    "erase_channel x = erase_channel ch'" "\<And>r. ch_active_request ch' = Some r \<Longrightarrow> t \<le> cr_expires_at r"
    using ch r t clock unfolding deliver_adaptor_ok
    by (force simp: lch_deliver_def erase_channel_def erase_request_def split: if_splits option.splits)
  then show ?thesis by (intro channel_replays [OF _ L' _ inv])
qed

lemma finalize_replays:
  assumes step: "with_channel cid (lch_finalize rid a) (ledger_of (app_vault app)) = Some L'"
    and inv: "replay_inv t (app_vault app)"
  shows "replays t (replayed (finalize_replayed_request cid rid a now)) app L'"
  using step
proof (rule with_channel_replays)
  fix ch x
  assume ch: "aget (es_active_channels (app_vault app)) cid = Some ch" "lch_finalize rid a (erase_channel ch) = Some x"
    and L': "L' = lput_channel cid (Some x) (ledger_of (app_vault app))"
  obtain ch' where "finalize_replayed_request cid rid a now (app_vault app) = (Inr (), set_channel cid ch' (app_vault app))"
    "erase_channel x = erase_channel ch'" "ch_active_request ch' = None"
    using ch unfolding finalize_replayed_request_ok
    by (force simp: lch_finalize_def Let_def erase_channel_def erase_request_def checked_sub_def saturating_sub_def
        split: if_splits option.splits)
  then show ?thesis by (intro channel_replays [OF _ L' _ inv]) auto
qed

lemma expiry_replays:
  assumes step: "with_channel cid (lch_expire rid a) (ledger_of (app_vault app)) = Some L'"
    and inv: "replay_inv t (app_vault app)"
  shows "replays t (replayed (expire_replayed_request cid rid a now)) app L'"
  using step
proof (rule with_channel_replays)
  fix ch x
  assume ch: "aget (es_active_channels (app_vault app)) cid = Some ch" "lch_expire rid a (erase_channel ch) = Some x"
    and L': "L' = lput_channel cid (Some x) (ledger_of (app_vault app))"
  obtain ch' where "expire_replayed_request cid rid a now (app_vault app) = (Inr (), set_channel cid ch' (app_vault app))"
    "erase_channel x = erase_channel ch'" "ch_active_request ch' = None"
    using ch unfolding expire_replayed_request_ok
    by (force simp: lch_expire_def Let_def erase_channel_def erase_request_def checked_sub_def saturating_sub_def
        split: if_splits option.splits)
  then show ?thesis by (intro channel_replays [OF _ L' _ inv]) auto
qed

text \<open>Also when nothing is left in the channel, the release leaves the balance that the ledger has.\<close>
lemma close_release_replays:
  assumes "aget (es_client_balances v) c = Some b" "amount \<le> cb_locked b" "checked_add (cb_free b) rf = Some f"
    "checked_add rf e = Some amount" "adistinct (es_client_balances v)"
  shows "close_release c rf amount v = (Inr (), v\<lparr>es_client_balances := aput c
    (b\<lparr>cb_locked := cb_locked b - amount, cb_free := f\<rparr>) (es_client_balances v)\<rparr>)"
proof (cases "amount > 0")
  case True
  then show ?thesis
    using assms by (auto simp: close_release_ok saturating_sub_def)
next
  case False
  then have "amount = 0" by (simp add: word_gt_0)
  then have "rf = 0" using unat_checked_add [OF assms(4)] by (simp add: unat_eq_0)
  then have "f = cb_free b" using assms(3) by (auto simp: checked_add_def split: if_splits)
  with assms(1,5) \<open>amount = 0\<close> show ?thesis
    by (simp add: close_release_ok aput_same)
qed

lemma close_replays:
  assumes step: "lclose cid sid (ledger_of (app_vault app)) = Some L'"
    and inv: "replay_inv t (app_vault app)" "ledger_inv C sha256 (ledger_of (app_vault app))"
  shows "replays t (sbind (replayed (close_channel_with_settlement_id uuid cid sid now)) (\<lambda>_. sret ())) app L'"
proof -
  let ?v = "app_vault app"
  obtain ch where ch0: "aget (es_active_channels ?v) cid = Some ch"
    using step by (auto simp: lclose_def split: option.splits)
  have erased: "ch_balance (erase_channel ch) = ch_balance ch" "ch_status (erase_channel ch) = ch_status ch"
    "ch_client (erase_channel ch) = ch_client ch" "ch_provider_id (erase_channel ch) = ch_provider_id ch"
    by (simp_all add: erase_channel_def)
  obtain amount where ch: "aget (es_active_channels ?v) cid = Some ch" "ch_status ch = Open"
    and amount: "checked_add (client_free (ch_balance ch)) (provider_earned (ch_balance ch)) = Some amount"
    and bal: "with_balance (ch_client ch)
      (\<lambda>bal. if amount \<le> cb_locked bal
        then map_option (\<lambda>f. bal\<lparr>cb_locked := cb_locked bal - amount, cb_free := f\<rparr>)
          (checked_add (cb_free bal) (client_free (ch_balance ch)))
        else None)
      (\<lambda>L1. if provider_earned (ch_balance ch) > 0
        then (case sid of None \<Rightarrow> None
          | Some s \<Rightarrow> credit_provider (ch_provider_id ch) (provider_earned (ch_balance ch)) s (lput_channel cid None L1))
        else Some (lput_channel cid None L1)) (ledger_of ?v) = Some L'"
    using step ch0 unfolding lclose_def ledger_of_sel ch0 option.map option.case Let_def erased
    by (auto split: option.splits if_splits)
  let ?rf = "client_free (ch_balance ch)" and ?e = "provider_earned (ch_balance ch)" and ?c = "ch_client ch"
  let ?p = "ch_provider_id ch" and ?s = "case sid of Some s \<Rightarrow> s | None \<Rightarrow> ''asc_'' @ uuid"
  from bal obtain b f where b: "aget (es_client_balances ?v) ?c = Some b" "amount \<le> cb_locked b"
      "checked_add (cb_free b) ?rf = Some f"
    by (rule with_balance_SomeE) (auto split: if_splits)
  define v1 where "v1 = ?v\<lparr>es_active_channels := adel cid (es_active_channels ?v)\<rparr>"
  define v2 where "v2 = v1\<lparr>es_client_balances := aput ?c (b\<lparr>cb_locked := cb_locked b - amount, cb_free := f\<rparr>)
    (es_client_balances v1)\<rparr>"
  have v2: "close_release ?c ?rf amount v1 = (Inr (), v2)"
    unfolding v2_def using b amount inv_distinct(1) [OF inv(2)]
    by (intro close_release_replays) (simp_all add: v1_def)
  have "with_balance ?c (\<lambda>bal. if amount \<le> cb_locked bal
        then map_option (\<lambda>f. bal\<lparr>cb_locked := cb_locked bal - amount, cb_free := f\<rparr>) (checked_add (cb_free bal) ?rf)
        else None) k (ledger_of ?v) =
      k (ledger_of (?v\<lparr>es_client_balances := aput ?c (b\<lparr>cb_locked := cb_locked b - amount, cb_free := f\<rparr>)
        (es_client_balances ?v)\<rparr>))" for k
    by (rule with_balance_ledger_of [OF b(1)]) (use b(2,3) in \<open>simp_all add: erase_balance_def\<close>)
  moreover have "lput_channel cid None (ledger_of (?v\<lparr>es_client_balances := aput ?c (b\<lparr>cb_locked := cb_locked b - amount,
      cb_free := f\<rparr>) (es_client_balances ?v)\<rparr>)) = ledger_of v2"
    by (simp add: v2_def v1_def ledger_of_channel ledger_of_balance lput_commute)
  ultimately have rest: "(if ?e > 0 then (case sid of None \<Rightarrow> None | Some s \<Rightarrow> credit_provider ?p ?e s (ledger_of v2))
      else Some (ledger_of v2)) = Some L'"
    using bal by (simp only:)
  have "replay_inv t v2"
    using inv(1) by (auto simp: replay_inv_def v2_def v1_def split: if_splits)
  obtain v3 where v3: "close_credit_provider ?p ?e ?s now v2 = (Inr (), v3)" "ledger_of v3 = L'" "replay_inv t v3"
  proof (cases "?e > 0")
    case False
    then show thesis
      using rest \<open>replay_inv t v2\<close> by (intro that [of v2]) (simp_all add: close_credit_provider_ok)
  next
    case True
    with rest obtain s where s: "sid = Some s" "credit_provider ?p ?e s (ledger_of v2) = Some L'"
      by (auto split: option.splits)
    from s(2) show thesis
    proof (rule credit_replays [where now = now])
      fix reg :: ProviderRegistration and credited
      let ?cr = "credit_or_new v2 ?p (rg_settlement_token_account reg) now"
      let ?v3 = "v2\<lparr>es_provider_credits := aput ?p (?cr\<lparr>pc_credited_amount := credited,
          pc_settlement_ids := pc_settlement_ids ?cr @ [s]\<rparr>) (es_provider_credits v2)\<rparr>"
      assume "aget (es_providers v2) ?p = Some reg" "checked_add (pc_credited_amount ?cr) ?e = Some credited"
        and led: "ledger_of ?v3 = L'"
      then have "close_credit_provider ?p ?e ?s now v2 = (Inr (), ?v3)"
        using True s(1) by (simp add: close_credit_provider_ok Let_def)
      moreover have "replay_inv t ?v3"
        by (rule replay_inv_frame [OF \<open>replay_inv t v2\<close>]) simp_all
      ultimately show thesis using led by (intro that)
    qed
  qed
  have "\<exists>out. close_channel_with_settlement_id uuid cid sid now ?v = (Inr out, v3)"
    using ch amount v2 v3(1)
    by (simp add: close_channel_with_settlement_id_def get_channel_def sfind_bind srequire_def Let_def sget_bind
        remove_channel_def sbind_def [of "smodify _"] smodify_def sbind_def [of "sadd _ _"] sadd_def
        sbind_def [of "close_release _ _ _"] sbind_def [of "close_credit_provider _ _ _ _"] sret_def v1_def)
  with v3 show ?thesis
    unfolding replays_def by (auto simp: sbind_def replayed_ok sret_def)
qed

text \<open>Every entry that is a transaction of the ledger is replayed, if the clock is in the window of the
  requests.\<close>
lemma entry_replays:
  assumes step: "lstep C sha256 e (ledger_of (app_vault app)) = Some L'"
    and inv: "replay_inv t (app_vault app)" "ledger_inv C sha256 (ledger_of (app_vault app))"
    and below: "auth_below N e" and clock: "now \<le> t" "t \<le> now + REQUEST_EXPIRY_SEC"
  shows "replays t (replay_entry C sha256 uuid now e) app L'"
proof -
  have idle: "replays t (raise_receipt_nonce n) app (ledger_of (app_vault app))" for n
    using inv(1) unfolding replays_def
    by (auto simp: raise_receipt_nonce_def in_vault_def smodify_def intro: replay_inv_frame)
  show ?thesis
  proof (cases e)
    case (ProviderRegistered reg)
    have "replay_inv t (app_vault app\<lparr>es_providers := m\<rparr>)" for m
      by (rule replay_inv_frame [OF inv(1)]) simp_all
    with step ProviderRegistered show ?thesis
      by (auto simp: replays_def in_vault_def smodify_def ledger_of_def erase_def split: if_splits)
  next
    case (BatchConfirmed b tx sids)
    have "replay_inv t (apply_batch_confirmation sids b tx (app_vault app))"
      by (rule replay_inv_frame [OF inv(1)]) (simp_all add: apply_batch_frame)
    with step BatchConfirmed show ?thesis
      by (auto simp: replays_def in_vault_def smodify_def ledger_of_def apply_batch_erase apply_batch_frame)
  next
    case (BatchSubmitted b n a)
    with step inv(1) show ?thesis by (auto simp: replays_def sret_def)
  next
    case (ChannelRequestSubmitted cid rid a h)
    with step inv clock show ?thesis by (cases h) (auto intro: request_replays)
  next
    case (ChannelAdaptorDelivered cid rid tb rp sp enc rh pk)
    with step inv clock show ?thesis by (auto split: option.splits intro: delivery_replays)
  next
    case (SettlementCommitted sid vid p a ts)
    with step inv show ?thesis by (auto split: option.splits intro: settlement_replays)
  qed (use step inv below clock idle in \<open>auto simp del: lstep.simps(1-5) replay_entry.simps(1-5)
      intro: deposit_replays authorization_replays withdrawal_replays withdrawal_expiry_replays
        reservation_replays release_replays channel_open_replays expiry_replays finalize_replays close_replays\<close>)
qed

lemma replays_bind:
  assumes "replays t m app L" "\<And>app1. ledger_of (app_vault app1) = L \<Longrightarrow> replay_inv t (app_vault app1) \<Longrightarrow> replays t f app1 L'"
  shows "replays t (sbind m (\<lambda>_. f)) app L'"
  using assms unfolding replays_def by (fastforce simp: sbind_def)

lemma entries_replay:
  assumes "lsteps C sha256 es (ledger_of (app_vault app)) = Some L'"
    "replay_inv t (app_vault app)" "ledger_inv C sha256 (ledger_of (app_vault app))"
    "\<forall>e\<in>set es. auth_below N e" "\<And>i. clock i \<le> t \<and> t \<le> clock i + REQUEST_EXPIRY_SEC"
  shows "replays t (replay_entries C sha256 uuid clock i es) app L'"
  using assms(1-4)
proof (induction es arbitrary: app i)
  case Nil
  then show ?case by (simp add: replays_def sret_def)
next
  case (Cons e es)
  then obtain L1 where L1: "lstep C sha256 e (ledger_of (app_vault app)) = Some L1" "lsteps C sha256 es L1 = Some L'"
    by (auto split: option.splits)
  have "ledger_inv C sha256 L1"
    by (rule ledger_inv_lstep [OF Cons.prems(3) L1(1)])
  moreover have "replays t (replay_entry C sha256 (uuid i) (clock i) e) app L1"
    using Cons.prems assms(5) by (intro entry_replays [OF L1(1)]) auto
  ultimately show ?case
    using L1(2) Cons.prems(4) unfolding replay_entries.simps
    by (intro replays_bind) (auto intro!: Cons.IH)
qed

lemma refresh_clients_replay:
  assumes "\<forall>c\<in>set cs. known_client (ledger_of (app_vault app)) c" "adistinct (lg_balances (ledger_of (app_vault app)))"
    "replay_inv t (app_vault app)"
  shows "replays t (refresh_clients cs) app (ledger_of (app_vault app))"
  using assms
proof (induction cs arbitrary: app)
  case Nil
  then show ?case by (simp add: replays_def sret_def)
next
  case (Cons c cs)
  then obtain b where b: "aget (es_client_balances (app_vault app)) c = Some b"
    by (auto simp: known_client_def)
  have "refresh_clients (c # cs) = sbind (sbind (replayed (refresh_client_max_lock_expires_at c)) (\<lambda>_. sret ()))
      (\<lambda>_. refresh_clients cs)"
    by (auto simp: sbind_def sret_def fun_eq_iff split: prod.splits sum.splits)
  moreover have "replays t \<dots> app (ledger_of (app_vault app))"
  proof (rule replays_bind [OF refresh_then [OF b]])
    fix app1 :: App
    assume app1: "ledger_of (app_vault app1) = ledger_of (app_vault app)" "replay_inv t (app_vault app1)"
    have "replays t (refresh_clients cs) app1 (ledger_of (app_vault app1))"
      using Cons.prems app1 by (intro Cons.IH) auto
    then show "replays t (refresh_clients cs) app1 (ledger_of (app_vault app))"
      by (simp add: app1)
  qed (use Cons.prems in simp_all)
  ultimately show ?case by simp
qed

lemma read_records_backend: "read_records (new_with_backend ok (wal_backend w)) = read_records w"
  by (simp add: read_records_def new_with_backend_def)


end
