(* ===== verification/Snapshot.thy ===== *)
theory Snapshot
  imports Wal_Replay "HOL-Library.List_Lexorder" "HOL-Library.Char_ord" "HOL-Library.Multiset"
begin

text \<open>
  Snapshots of the enclave's state (\<^verbatim>\<open>src/enclave/src/snapshot.rs\<close>): what a snapshot holds, how it is
  taken and applied, when the background task takes one, and which old ones are deleted.  Public
  keys are written as strings by \<open>to_string\<close> and read by \<open>from_str\<close>, the base58 functions of the
  Solana library; encryption and the JSON encoding are left out, so a snapshot is its decoded value.
\<close>

section \<open>The code\<close>

record SnapshotClientBalance =
  sb_client :: string
  sb_balance :: ClientBalance

record SnapshotSettlementBatch =
  sn_settlement_id :: string
  sn_batch :: SettlementBatchInfo

record StateSnapshot =
  ss_version :: u32
  ss_snapshot_seqno :: u64
  ss_included_wal_seqno :: "u64 option"
  ss_created_at :: int
  ss_client_balances :: "SnapshotClientBalance list"
  ss_reservations :: "Reservation list"
  ss_provider_credits :: "ProviderCredit list"
  ss_providers :: "ProviderRegistration list"
  ss_settlement_history :: "SettlementRecord list"
  ss_settlement_batches :: "SnapshotSettlementBatch list"
  ss_pending_withdrawals :: "PendingWithdrawal list"
  ss_active_channels :: "ChannelState list"
  ss_auditor_master_secret :: bytes
  ss_auditor_epoch :: u32
  ss_receipt_nonce :: u64
  ss_withdraw_nonce :: u64
  ss_last_batch_at :: int
  ss_last_finalized_slot :: u64
  ss_processed_signatures :: "string list"
  ss_last_processed_signature :: "string option"

definition capture_snapshot ::
  "(pubkey \<Rightarrow> string) \<Rightarrow> u64 \<Rightarrow> u64 option \<Rightarrow> int \<Rightarrow> App \<Rightarrow> StateSnapshot" where
  "capture_snapshot to_string snapshot_seqno included_wal_seqno now app =
    (let v = app_vault app in
     \<lparr>ss_version = 1, ss_snapshot_seqno = snapshot_seqno, ss_included_wal_seqno = included_wal_seqno,
      ss_created_at = now,
      ss_client_balances = sort_key sb_client (map (\<lambda>(c, b). \<lparr>sb_client = to_string c, sb_balance = b\<rparr>)
        (es_client_balances v)),
      ss_reservations = sort_key rv_verification_id (avals (es_reservations v)),
      ss_provider_credits = sort_key pc_provider_id (avals (es_provider_credits v)),
      ss_providers = sort_key rg_provider_id (avals (es_providers v)),
      ss_settlement_history = sort_key sr_settlement_id (avals (es_settlement_history v)),
      ss_settlement_batches = sort_key sn_settlement_id (map (\<lambda>(s, b). \<lparr>sn_settlement_id = s, sn_batch = b\<rparr>)
        (es_settlement_batches v)),
      ss_pending_withdrawals = sort_key pw_withdraw_nonce (avals (es_pending_withdrawals v)),
      ss_active_channels = sort_key ch_channel_id (avals (es_active_channels v)),
      ss_auditor_master_secret = es_auditor_master_secret v, ss_auditor_epoch = es_auditor_epoch v,
      ss_receipt_nonce = es_receipt_nonce v, ss_withdraw_nonce = es_withdraw_nonce v,
      ss_last_batch_at = es_last_batch_at v, ss_last_finalized_slot = es_last_finalized_slot v,
      ss_processed_signatures = sorted_list_of_set (app_processed app),
      ss_last_processed_signature = app_last_signature app\<rparr>)"

text \<open>\<^verbatim>\<open>for item in items { map.insert(key(item), value(item)); }\<close>\<close>
definition inserted :: "('a \<Rightarrow> 'k) \<Rightarrow> ('a \<Rightarrow> 'v) \<Rightarrow> 'a list \<Rightarrow> ('k, 'v) amap" where
  "inserted key val items = fold (\<lambda>x m. aput (key x) (val x) m) items []"

fun insert_client_balances :: "(string \<Rightarrow> pubkey option) \<Rightarrow> SnapshotClientBalance list \<Rightarrow> unit est" where
  "insert_client_balances from_str [] = sret ()"
| "insert_client_balances from_str (item # items) =
    (case from_str (sb_client item) of
       None \<Rightarrow> sfail (replay_error ''invalid client pubkey in snapshot'')
     | Some client \<Rightarrow> sbind (put_balance client (sb_balance item)) (\<lambda>_. insert_client_balances from_str items))"

definition clear_vault :: "VaultState \<Rightarrow> VaultState" where
  "clear_vault v = v\<lparr>es_client_balances := [], es_reservations := [], es_payment_id_index := [],
    es_provider_credits := [], es_providers := [], es_settlement_history := [],
    es_settlement_batches := [], es_pending_withdrawals := [], es_active_channels := []\<rparr>"

definition insert_records :: "StateSnapshot \<Rightarrow> VaultState \<Rightarrow> VaultState" where
  "insert_records snapshot v = v\<lparr>
    es_payment_id_index := inserted rv_payment_id rv_verification_id (ss_reservations snapshot),
    es_reservations := inserted rv_verification_id id (ss_reservations snapshot),
    es_provider_credits := inserted pc_provider_id id (ss_provider_credits snapshot),
    es_providers := inserted rg_provider_id id (ss_providers snapshot),
    es_settlement_history := inserted sr_settlement_id id (ss_settlement_history snapshot),
    es_settlement_batches := inserted sn_settlement_id sn_batch (ss_settlement_batches snapshot),
    es_pending_withdrawals := inserted pw_withdraw_nonce id (ss_pending_withdrawals snapshot),
    es_active_channels := inserted ch_channel_id id (ss_active_channels snapshot)\<rparr>"

definition store_counters :: "StateSnapshot \<Rightarrow> VaultState \<Rightarrow> VaultState" where
  "store_counters snapshot v = v\<lparr>es_auditor_master_secret := ss_auditor_master_secret snapshot,
    es_auditor_epoch := ss_auditor_epoch snapshot, es_receipt_nonce := ss_receipt_nonce snapshot,
    es_withdraw_nonce := ss_withdraw_nonce snapshot, es_snapshot_seqno := ss_snapshot_seqno snapshot,
    es_last_batch_at := ss_last_batch_at snapshot, es_last_finalized_slot := ss_last_finalized_slot snapshot\<rparr>"

definition apply_snapshot :: "(string \<Rightarrow> pubkey option) \<Rightarrow> StateSnapshot \<Rightarrow> unit app" where
  "apply_snapshot from_str snapshot =
    sbind (in_vault (smodify clear_vault)) (\<lambda>_.
    sbind (in_vault (insert_client_balances from_str (ss_client_balances snapshot))) (\<lambda>_.
    sbind (in_vault (smodify (insert_records snapshot))) (\<lambda>_.
    sbind (smodify (\<lambda>app. app\<lparr>app_processed := set (ss_processed_signatures snapshot),
      app_last_signature := ss_last_processed_signature snapshot\<rparr>)) (\<lambda>_.
    if length (ss_auditor_master_secret snapshot) \<noteq> 32
    then sfail (replay_error ''auditor_master_secret must decode to exactly 32 bytes'')
    else
      sbind (in_vault (smodify (store_counters snapshot))) (\<lambda>_.
      sbind (sget (\<lambda>app. akeys (es_client_balances (app_vault app)))) (\<lambda>clients.
      refresh_clients clients))))))"

text \<open>The decision of the background task.\<close>
definition should_persist :: "u64 option \<Rightarrow> u64 option \<Rightarrow> u64 \<Rightarrow> bool \<Rightarrow> bool" where
  "should_persist current_wal_seqno last_wal_seqno every_n_events elapsed_ge_every_sec =
    (case current_wal_seqno of
       None \<Rightarrow> False
     | Some current \<Rightarrow>
         if Some current = last_wal_seqno then False
         else
           let delta = (case last_wal_seqno of Some previous \<Rightarrow> saturating_sub current previous | None \<Rightarrow> - 1)
           in delta \<ge> every_n_events \<or> elapsed_ge_every_sec)"

definition snapshot_keys_to_prune :: "string list \<Rightarrow> nat \<Rightarrow> string list" where
  "snapshot_keys_to_prune keys retain_count =
    (if retain_count = 0 \<or> length keys \<le> retain_count then []
     else take (length keys - retain_count) keys)"

text \<open>The keys that are left after \<^verbatim>\<open>prune_old_snapshots\<close>, when every deletion succeeds.\<close>
definition prune_old_snapshots :: "nat \<Rightarrow> string \<Rightarrow> string list \<Rightarrow> string list" where
  "prune_old_snapshots retain_count latest_key keys =
    (if retain_count = 0 then keys
     else filter (\<lambda>k. k = latest_key \<or> k \<notin> set (snapshot_keys_to_prune (sort keys) retain_count)) keys)"

fun trim_end_matches :: "char \<Rightarrow> string \<Rightarrow> string" where
  "trim_end_matches c s = rev (dropWhile (\<lambda>x. x = c) (rev s))"

text \<open>A number in decimal, padded with zeros to \<open>k\<close> digits (\<^verbatim>\<open>{:020}\<close> for a 64-bit number).\<close>
fun zero_padded :: "nat \<Rightarrow> nat \<Rightarrow> string" where
  "zero_padded 0 n = []"
| "zero_padded (Suc k) n = zero_padded k (n div 10) @ [char_of (48 + n mod 10)]"

definition snapshot_object_key :: "string \<Rightarrow> u64 \<Rightarrow> string" where
  "snapshot_object_key prefix snapshot_seqno =
    trim_end_matches (CHR ''/'') prefix @ ''/snapshot-'' @ zero_padded 20 (unat snapshot_seqno) @ ''.json''"

text \<open>\<^verbatim>\<open>recover_latest\<close>: the snapshot with the greatest key is applied; its log position is where replay
  starts.\<close>
definition recover_latest ::
  "(string \<Rightarrow> pubkey option) \<Rightarrow> (string, StateSnapshot) amap \<Rightarrow> u64 option app" where
  "recover_latest from_str store =
    (case sort (akeys store) of
       [] \<Rightarrow> sret None
     | keys \<Rightarrow> (case aget store (last keys) of
         None \<Rightarrow> sfail (replay_error ''latest snapshot disappeared'')
       | Some snapshot \<Rightarrow> sbind (apply_snapshot from_str snapshot) (\<lambda>_. sret (ss_included_wal_seqno snapshot))))"

text \<open>What \<^verbatim>\<open>main\<close> does before it serves: recover the latest snapshot when there is a store, then replay the
  log from there; it aborts when either fails.\<close>
definition recover_state ::
  "('p::ab_group_add, 's::comm_ring_1) curve \<Rightarrow> (bytes \<Rightarrow> bytes) \<Rightarrow> (string \<Rightarrow> pubkey option) \<Rightarrow> (nat \<Rightarrow> string) \<Rightarrow>
    (nat \<Rightarrow> int) \<Rightarrow> (string, StateSnapshot) amap option \<Rightarrow> unit app" where
  "recover_state C sha256 from_str uuid clock snapshot_store =
    sbind (case snapshot_store of Some store \<Rightarrow> recover_latest from_str store | None \<Rightarrow> sret None) (\<lambda>replay_from.
    replay_app_state_from C sha256 uuid clock replay_from)"

text \<open>\<^verbatim>\<open>persist_now\<close> when the store accepts the object and the deletions.\<close>
definition persist_now ::
  "(pubkey \<Rightarrow> string) \<Rightarrow> string \<Rightarrow> nat \<Rightarrow> int \<Rightarrow> (string, StateSnapshot) amap \<Rightarrow>
    (string, StateSnapshot) amap app" where
  "persist_now to_string prefix retain_count now store =
    sbind (sget (\<lambda>app. saturating_add (es_snapshot_seqno (app_vault app)) 1)) (\<lambda>snapshot_seqno.
    sbind (sget (\<lambda>app. last_seqno (app_wal app))) (\<lambda>included_wal_seqno.
    sbind (sget (capture_snapshot to_string snapshot_seqno included_wal_seqno now)) (\<lambda>snapshot.
    let key = snapshot_object_key prefix snapshot_seqno;
        store1 = aput key snapshot store;
        kept = prune_old_snapshots retain_count key (akeys store1);
        store2 = filter (\<lambda>(k, _). k \<in> set kept) store1 in
    sbind (in_vault (smodify (\<lambda>st. st\<lparr>es_snapshot_seqno := snapshot_seqno\<rparr>))) (\<lambda>_.
    sret store2))))"

section \<open>Keys of snapshots\<close>

lemma length_zero_padded [simp]: "length (zero_padded k n) = k"
  by (induction k arbitrary: n) auto

lemma digit_less: "i < 10 \<Longrightarrow> j < 10 \<Longrightarrow> (char_of (48 + i :: nat) :: char) < char_of (48 + j) \<longleftrightarrow> i < j"
  by (simp add: less_char_def)

lemma append_less_iff:
  fixes xs ys :: "'a::order list"
  assumes "length xs = length ys"
  shows "xs @ us < ys @ vs \<longleftrightarrow> xs < ys \<or> xs = ys \<and> us < vs"
  using assms by (induction xs ys rule: list_induct2) auto

lemma div_mod_less: "(m :: nat) < n \<longleftrightarrow> m div 10 < n div 10 \<or> m div 10 = n div 10 \<and> m mod 10 < n mod 10"
proof -
  have *: "10 * a + c < 10 * b + d \<longleftrightarrow> a < b \<or> a = b \<and> c < d" if "c < 10" "d < 10" for a b c d :: nat
    using that by arith
  show ?thesis using * [of "m mod 10" "n mod 10" "m div 10" "n div 10"] by simp
qed

text \<open>Strings of equal length compare as the numbers they denote.\<close>
lemma zero_padded_less: "m < 10 ^ k \<Longrightarrow> n < 10 ^ k \<Longrightarrow> zero_padded k m < zero_padded k n \<longleftrightarrow> m < n"
proof (induction k arbitrary: m n)
  case (Suc k)
  have eq: "zero_padded k a = zero_padded k b \<longleftrightarrow> a = b" if "a < 10 ^ k" "b < 10 ^ k" for a b
    using Suc.IH [OF that] Suc.IH [OF that(2,1)] by (cases a b rule: linorder_cases) auto
  from Suc.prems have "m div 10 < 10 ^ k" "n div 10 < 10 ^ k" by simp_all
  then show ?case
    using Suc.IH [of "m div 10" "n div 10"] eq [of "m div 10" "n div 10"] div_mod_less [of m n]
    by (simp add: append_less_iff digit_less)
qed simp

lemma snapshot_object_key_less: "snapshot_object_key prefix m < snapshot_object_key prefix n \<longleftrightarrow> m < n"
proof -
  have "unat k < 10 ^ 20" for k :: u64
    using unat_less_pow [of k] by simp
  then have "zero_padded 20 (unat m) < zero_padded 20 (unat n) \<longleftrightarrow> m < n"
    by (simp add: zero_padded_less word_less_nat_alt)
  then show ?thesis
    by (simp add: snapshot_object_key_def append_less_iff)
qed

section \<open>What a snapshot restores\<close>

lemma aget_inserted_into:
  "distinct (map key xs) \<Longrightarrow> aget (fold (\<lambda>x m. aput (key x) (val x) m) xs m) k =
    (case find (\<lambda>x. key x = k) xs of Some x \<Rightarrow> Some (val x) | None \<Rightarrow> aget m k)"
proof (induction xs arbitrary: m)
  case (Cons x xs)
  show ?case
  proof (cases "key x = k")
    case True
    then have "find (\<lambda>x. key x = k) xs = None"
      using Cons.prems by (auto simp: find_None_iff image_iff)
    then show ?thesis using True Cons by simp
  qed (use Cons in \<open>simp split: option.splits\<close>)
qed simp

lemma aget_inserted:
  assumes "distinct (map key xs)"
  shows "aget (inserted key val xs) k = Some w \<longleftrightarrow> (\<exists>x\<in>set xs. key x = k \<and> val x = w)"
proof (cases "find (\<lambda>x. key x = k) xs")
  case None
  then have "aget (inserted key val xs) k = None"
    using aget_inserted_into [OF assms, of "val" "[]" k] by (simp add: inserted_def)
  moreover have "\<forall>x\<in>set xs. key x \<noteq> k"
    using None by (auto simp: find_None_iff)
  ultimately show ?thesis by simp
next
  case (Some x)
  then have x: "x \<in> set xs" "key x = k" by (auto simp: find_Some_iff)
  have "y = x" if "y \<in> set xs" "key y = k" for y
    using assms that x by (auto simp: distinct_map dest: inj_onD)
  then have "(\<exists>x\<in>set xs. key x = k \<and> val x = w) \<longleftrightarrow> val x = w"
    using x by metis
  moreover have "aget (inserted key val xs) k = Some (val x)"
    using aget_inserted_into [OF assms, of "val" "[]" k] Some by (simp add: inserted_def)
  ultimately show ?thesis by simp
qed

lemma aget_iff: "adistinct m \<Longrightarrow> aget m k = Some w \<longleftrightarrow> (k, w) \<in> set m"
  using aget_in_set in_set_aget by metis

lemma aget_eqI: "(\<And>w. aget m k = Some w \<longleftrightarrow> aget m' k = Some w) \<Longrightarrow> aget m k = aget m' k"
  by (metis not_None_eq)

definition keyed_by :: "('v \<Rightarrow> 'k) \<Rightarrow> ('k, 'v) amap \<Rightarrow> bool" where
  "keyed_by key m \<longleftrightarrow> adistinct m \<and> (\<forall>(k, x)\<in>set m. key x = k)"

lemma keyed_by_distinct: "keyed_by key m \<Longrightarrow> distinct (map key (avals m))"
proof -
  assume "keyed_by key m"
  then have "map key (avals m) = map fst m" "distinct (map fst m)"
    by (auto simp: keyed_by_def avals_def adistinct_def intro!: map_cong)
  then show ?thesis by simp
qed

lemma distinct_sort_key: "distinct (map key xs) \<Longrightarrow> distinct (map key (sort_key f xs))"
proof -
  have "mset (map key (sort_key f xs)) = mset (map key xs)" by simp
  then show "distinct (map key xs) \<Longrightarrow> distinct (map key (sort_key f xs))"
    by (rule mset_eq_imp_distinct_iff [THEN iffD2])
qed

lemma inserted_avals:
  assumes "keyed_by key m"
  shows "aget (inserted key id (sort_key f (avals m))) = aget m"
proof (rule ext, rule aget_eqI)
  fix k w
  have "aget (inserted key id (sort_key f (avals m))) k = Some w \<longleftrightarrow> w \<in> set (avals m) \<and> key w = k"
    using aget_inserted [OF distinct_sort_key [OF keyed_by_distinct [OF assms]], of id] by auto
  also have "\<dots> \<longleftrightarrow> aget m k = Some w"
    using assms by (force simp: keyed_by_def avals_def aget_iff)
  finally show "aget (inserted key id (sort_key f (avals m))) k = Some w \<longleftrightarrow> aget m k = Some w" .
qed

text \<open>The parts of the state that a snapshot is about; the greatest expiry of a client's locks is computed
  again.\<close>
definition restores :: "VaultState \<Rightarrow> VaultState \<Rightarrow> bool" where
  "restores v w \<longleftrightarrow>
    (\<forall>c. map_option erase_balance (aget (es_client_balances w) c) = map_option erase_balance (aget (es_client_balances v) c)) \<and>
    aget (es_reservations w) = aget (es_reservations v) \<and> aget (es_payment_id_index w) = aget (es_payment_id_index v) \<and>
    aget (es_provider_credits w) = aget (es_provider_credits v) \<and> aget (es_providers w) = aget (es_providers v) \<and>
    aget (es_settlement_history w) = aget (es_settlement_history v) \<and>
    aget (es_settlement_batches w) = aget (es_settlement_batches v) \<and>
    aget (es_pending_withdrawals w) = aget (es_pending_withdrawals v) \<and>
    aget (es_active_channels w) = aget (es_active_channels v) \<and>
    es_auditor_master_secret w = es_auditor_master_secret v \<and> es_auditor_epoch w = es_auditor_epoch v \<and>
    es_receipt_nonce w = es_receipt_nonce v \<and> es_withdraw_nonce w = es_withdraw_nonce v \<and>
    es_last_batch_at w = es_last_batch_at v \<and> es_last_finalized_slot w = es_last_finalized_slot v"

text \<open>Every record is stored under its own identifier, and the index of payments lists exactly the
  reservations, of which no two are for one payment.\<close>
definition vault_keyed :: "VaultState \<Rightarrow> bool" where
  "vault_keyed v \<longleftrightarrow> adistinct (es_client_balances v) \<and> adistinct (es_settlement_batches v) \<and>
    keyed_by rv_verification_id (es_reservations v) \<and> keyed_by pc_provider_id (es_provider_credits v) \<and>
    keyed_by rg_provider_id (es_providers v) \<and> keyed_by sr_settlement_id (es_settlement_history v) \<and>
    keyed_by pw_withdraw_nonce (es_pending_withdrawals v) \<and> keyed_by ch_channel_id (es_active_channels v) \<and>
    distinct (map rv_payment_id (avals (es_reservations v))) \<and>
    (\<forall>p x. aget (es_payment_id_index v) p = Some x \<longleftrightarrow>
      (\<exists>r\<in>set (avals (es_reservations v)). rv_payment_id r = p \<and> rv_verification_id r = x)) \<and>
    length (es_auditor_master_secret v) = 32"

lemma insert_client_balances_ok:
  assumes "\<And>x. x \<in> set items \<Longrightarrow> from_str (sb_client x) = Some (key x)"
  shows "insert_client_balances from_str items v =
    (Inr (), v\<lparr>es_client_balances := fold (\<lambda>x m. aput (key x) (sb_balance x) m) items (es_client_balances v)\<rparr>)"
  using assms
  by (induction items arbitrary: v) (simp_all add: sret_def sbind_def put_balance_def smodify_def)

lemma refresh_clients_result:
  assumes "\<forall>c\<in>set cs. aget (es_client_balances (app_vault app)) c \<noteq> None"
  shows "\<exists>bs. refresh_clients cs app = (Inr (), app\<lparr>app_vault := (app_vault app)\<lparr>es_client_balances := bs\<rparr>\<rparr>) \<and>
    (\<forall>c. map_option erase_balance (aget bs c) = map_option erase_balance (aget (es_client_balances (app_vault app)) c))"
  using assms
proof (induction cs arbitrary: app)
  case Nil
  show ?case
    by (intro exI [of _ "es_client_balances (app_vault app)"]) (simp add: sret_def)
next
  case (Cons c cs)
  then obtain b where b: "aget (es_client_balances (app_vault app)) c = Some b" by auto
  let ?v = "app_vault app"
  let ?bs = "aput c (b\<lparr>cb_max_lock_expires_at := client_max_lock c ?v\<rparr>) (es_client_balances ?v)"
  let ?app1 = "app\<lparr>app_vault := ?v\<lparr>es_client_balances := ?bs\<rparr>\<rparr>"
  have "refresh_client_max_lock_expires_at c ?v = (Inr (client_max_lock c ?v), ?v\<lparr>es_client_balances := ?bs\<rparr>)"
    using b by (auto simp: refresh_ok)
  then have "refresh_clients (c # cs) app = refresh_clients cs ?app1"
    by (simp add: replayed_bind)
  moreover have "\<forall>c\<in>set cs. aget (es_client_balances (app_vault ?app1)) c \<noteq> None"
    using Cons.prems by auto
  from Cons.IH [OF this] obtain bs where
    "refresh_clients cs ?app1 = (Inr (), ?app1\<lparr>app_vault := (app_vault ?app1)\<lparr>es_client_balances := bs\<rparr>\<rparr>)"
    "\<forall>c. map_option erase_balance (aget bs c) = map_option erase_balance (aget ?bs c)" by auto
  moreover have "map_option erase_balance (aget ?bs d) = map_option erase_balance (aget (es_client_balances ?v) d)" for d
    using b by (auto simp: erase_balance_def)
  ultimately show ?case
    by (intro exI [of _ bs]) simp
qed

lemma inserted_balances:
  assumes "adistinct m" "\<And>c. from_str (to_string c) = Some c"
  shows "\<exists>bs. insert_client_balances from_str (sort_key sb_client (map (\<lambda>(c, b). \<lparr>sb_client = to_string c, sb_balance = b\<rparr>) m))
      v = (Inr (), v\<lparr>es_client_balances := bs\<rparr>) \<and> (es_client_balances v = [] \<longrightarrow> aget bs = aget m)"
proof -
  let ?f = "\<lambda>(c, b). \<lparr>sb_client = to_string c, sb_balance = b\<rparr>"
  let ?items = "sort_key sb_client (map ?f m)" and ?key = "\<lambda>x. the (from_str (sb_client x))"
  let ?bs = "fold (\<lambda>x m. aput (?key x) (sb_balance x) m) ?items (es_client_balances v)"
  have key: "?key (?f x) = fst x" for x
    using assms(2) by (cases x) simp
  have "distinct (map ?key (map ?f m))"
    using assms(1) by (simp add: adistinct_def comp_def key cong: map_cong)
  then have dist: "distinct (map ?key ?items)" by (rule distinct_sort_key)
  have "from_str (sb_client x) = Some (?key x)" if "x \<in> set ?items" for x
    using that assms(2) by auto
  then have "insert_client_balances from_str ?items v = (Inr (), v\<lparr>es_client_balances := ?bs\<rparr>)"
    by (rule insert_client_balances_ok)
  moreover have "aget ?bs = aget m" if "es_client_balances v = []"
  proof (rule ext, rule aget_eqI)
    fix k w
    have "aget ?bs k = Some w \<longleftrightarrow> (\<exists>x\<in>set (map ?f m). ?key x = k \<and> sb_balance x = w)"
      using aget_inserted [OF dist, of sb_balance k w] that by (simp add: inserted_def)
    also have "\<dots> \<longleftrightarrow> aget m k = Some w"
      using assms by (auto simp: aget_iff intro!: bexI [of _ "(k, w)"])
    finally show "aget ?bs k = Some w \<longleftrightarrow> aget m k = Some w" .
  qed
  ultimately show ?thesis by blast
qed

lemma inserted_batches:
  assumes "adistinct m"
  shows "aget (inserted sn_settlement_id sn_batch (sort_key sn_settlement_id
    (map (\<lambda>(s, b). \<lparr>sn_settlement_id = s, sn_batch = b\<rparr>) m))) = aget m"
proof (rule ext, rule aget_eqI)
  fix k w
  let ?f = "\<lambda>(s, b). \<lparr>sn_settlement_id = s, sn_batch = b\<rparr>"
  have "map sn_settlement_id (map ?f m) = map fst m" by (auto simp: split_beta)
  then have "distinct (map sn_settlement_id (map ?f m))" using assms by (simp only: adistinct_def)
  from aget_inserted [OF distinct_sort_key [OF this, of sn_settlement_id], of sn_batch k w]
  have "aget (inserted sn_settlement_id sn_batch (sort_key sn_settlement_id (map ?f m))) k = Some w \<longleftrightarrow>
      (\<exists>x\<in>set (map ?f m). sn_settlement_id x = k \<and> sn_batch x = w)" by simp
  also have "\<dots> \<longleftrightarrow> aget m k = Some w"
    using assms by (auto simp: aget_iff intro!: bexI [of _ "(k, w)"])
  finally show "aget (inserted sn_settlement_id sn_batch (sort_key sn_settlement_id (map ?f m))) k = Some w \<longleftrightarrow>
      aget m k = Some w" .
qed

lemma inserted_index:
  assumes "distinct (map rv_payment_id (avals m))"
    "\<And>p x. aget i p = Some x \<longleftrightarrow> (\<exists>r\<in>set (avals m). rv_payment_id r = p \<and> rv_verification_id r = x)"
  shows "aget (inserted rv_payment_id rv_verification_id (sort_key f (avals m))) = aget i"
  using aget_inserted [OF distinct_sort_key [OF assms(1)], of rv_verification_id] assms(2)
  by (intro ext aget_eqI) simp

lemma apply_captured:
  assumes keyed: "vault_keyed (app_vault app)" and b58: "\<And>c. from_str (to_string c) = Some c"
    and fin: "finite (app_processed app)"
  shows "\<exists>app'. apply_snapshot from_str (capture_snapshot to_string seqno pos now app) app0 = (Inr (), app') \<and>
    restores (app_vault app) (app_vault app') \<and> es_snapshot_seqno (app_vault app') = seqno \<and>
    app_processed app' = app_processed app \<and> app_last_signature app' = app_last_signature app"
proof -
  let ?v = "app_vault app" and ?ss = "capture_snapshot to_string seqno pos now app"
  let ?v1 = "clear_vault (app_vault app0)"
  obtain bs where bs: "insert_client_balances from_str (ss_client_balances ?ss) ?v1 = (Inr (), ?v1\<lparr>es_client_balances := bs\<rparr>)"
      "aget bs = aget (es_client_balances ?v)"
    using inserted_balances [of "es_client_balances ?v" from_str to_string ?v1] keyed b58
    by (auto simp: capture_snapshot_def Let_def vault_keyed_def clear_vault_def)
  define v2 where "v2 = store_counters ?ss (insert_records ?ss (?v1\<lparr>es_client_balances := bs\<rparr>))"
  define app2 where "app2 = app0\<lparr>app_processed := set (ss_processed_signatures ?ss),
    app_last_signature := ss_last_processed_signature ?ss, app_vault := v2\<rparr>"
  have secret: "length (ss_auditor_master_secret ?ss) = 32"
    using keyed by (simp add: capture_snapshot_def Let_def vault_keyed_def)
  have "apply_snapshot from_str ?ss app0 = refresh_clients (akeys (es_client_balances (app_vault app2))) app2"
    using keyed bs(1) secret unfolding apply_snapshot_def
    by (simp add: sbind_def in_vault_def smodify_def sget_def app2_def v2_def)
  moreover have bal: "es_client_balances (app_vault app2) = bs"
    by (simp add: app2_def v2_def store_counters_def insert_records_def)
  moreover have "\<forall>c\<in>set (akeys bs). aget bs c \<noteq> None"
    by (auto simp: aget_None akeys_def)
  ultimately obtain bs' where final: "apply_snapshot from_str ?ss app0 =
      (Inr (), app2\<lparr>app_vault := (app_vault app2)\<lparr>es_client_balances := bs'\<rparr>\<rparr>)"
    and bs': "\<forall>c. map_option erase_balance (aget bs' c) = map_option erase_balance (aget bs c)"
    using refresh_clients_result [of "akeys bs" app2] by auto
  have "restores ?v (v2\<lparr>es_client_balances := bs'\<rparr>)"
    using keyed bs(2) bs' unfolding restores_def vault_keyed_def
    by (simp add: v2_def store_counters_def insert_records_def capture_snapshot_def Let_def inserted_avals
        inserted_batches inserted_index)
  then show ?thesis
    unfolding final using fin by (simp add: app2_def v2_def store_counters_def capture_snapshot_def Let_def)
qed

lemma last_sorted: "sorted xs \<Longrightarrow> x \<in> set xs \<Longrightarrow> x \<le> last (xs :: 'a::linorder list)"
  by (induction xs) (auto simp: last_in_set)

lemma last_sort:
  fixes xs :: "'a::linorder list"
  assumes "x \<in> set xs" "\<And>y. y \<in> set xs \<Longrightarrow> y \<le> x"
  shows "last (sort xs) = x"
proof (rule antisym)
  have "sort xs \<noteq> []" using assms(1) by (auto simp flip: set_empty)
  then have "last (sort xs) \<in> set xs" using last_in_set [of "sort xs"] by simp
  then show "last (sort xs) \<le> x" by (rule assms(2))
  show "x \<le> last (sort xs)" using assms(1) by (intro last_sorted) simp_all
qed

lemma aget_filter_keys: "aget (filter (\<lambda>(k, _). P k) m) k = (if P k then aget m k else None)"
  by (induction m) auto

lemma akeys_filter: "set (akeys (filter (\<lambda>(k, _). P k) m)) = {k \<in> set (akeys m). P k}"
  by (auto simp: akeys_def)

lemma akeys_aput: "set (akeys (aput k v m)) = insert k (set (akeys m))"
proof -
  have "x \<in> set (akeys (aput k v m)) \<longleftrightarrow> x = k \<or> x \<in> set (akeys m)" for x
    using aget_None [of "aput k v m" x] aget_None [of m x] by (auto simp: akeys_def split: if_splits)
  then show ?thesis by auto
qed

text \<open>C30. What was persisted last is what is recovered.  After a snapshot was written to a store whose
  other objects are earlier snapshots of this vault, recovery picks this snapshot (object keys sort
  in the order of the sequence numbers), and whatever state it is applied to, the result has every
  balance, reservation, payment index, credit, provider, settlement, batch, pending withdrawal and
  channel, the nonces, the auditor's secret and the processed deposits of the state that was
  captured; replay continues after the last log entry that the snapshot includes.\<close>
theorem snapshot_round_trip:
  assumes keyed: "vault_keyed (app_vault app)" and fin: "finite (app_processed app)"
    and b58: "\<And>c. from_str (to_string c) = Some c"
    and earlier: "\<And>k. k \<in> set (akeys store) \<Longrightarrow> \<exists>n\<le>es_snapshot_seqno (app_vault app). k = snapshot_object_key prefix n"
    and seqno: "es_snapshot_seqno (app_vault app) \<noteq> - 1"
    and persisted: "persist_now to_string prefix retain_count now store app = (Inr store', app1)"
  shows "\<exists>app'. recover_latest from_str store' app0 = (Inr (last_seqno (app_wal app)), app') \<and>
    restores (app_vault app) (app_vault app') \<and>
    es_snapshot_seqno (app_vault app') = es_snapshot_seqno (app_vault app1) \<and>
    app_processed app' = app_processed app \<and> app_last_signature app' = app_last_signature app"
proof -
  let ?n = "es_snapshot_seqno (app_vault app)"
  let ?key = "snapshot_object_key prefix (?n + 1)"
  let ?ss = "capture_snapshot to_string (?n + 1) (last_seqno (app_wal app)) now app"
  have n: "?n < ?n + 1" "saturating_add ?n 1 = ?n + 1"
    using seqno less_succ_word [OF seqno] unat_less_pow [of "?n + 1"]
    by (auto simp: saturating_add_def checked_add_def word_less_nat_alt unat_word_ariths split: option.splits if_splits)
  define kept where "kept = prune_old_snapshots retain_count ?key (akeys (aput ?key ?ss store))"
  have store': "store' = filter (\<lambda>(k, _). k \<in> set kept) (aput ?key ?ss store)"
    and app1: "es_snapshot_seqno (app_vault app1) = ?n + 1"
    using persisted unfolding persist_now_def
    by (auto simp: sbind_def sget_def in_vault_def smodify_def sret_def Let_def n kept_def)
  have "?key \<in> set kept"
    by (auto simp: kept_def prune_old_snapshots_def akeys_aput)
  then have "?key \<in> set (akeys store')" and ss: "aget store' ?key = Some ?ss"
    unfolding store' akeys_filter by (simp_all add: akeys_aput aget_filter_keys)
  moreover have "k \<le> ?key" if "k \<in> set (akeys store')" for k
  proof (cases "k = ?key")
    case False
    then have "k \<in> set (akeys store)"
      using that unfolding store' akeys_filter by (simp add: akeys_aput)
    then obtain m where "m \<le> ?n" "k = snapshot_object_key prefix m" using earlier by blast
    then show ?thesis
      using n(1) by (simp add: snapshot_object_key_less order.strict_implies_order order.strict_trans1)
  qed simp
  ultimately have last: "last (sort (akeys store')) = ?key" and "sort (akeys store') \<noteq> []"
    using last_sort [of ?key "akeys store'"] by (auto simp flip: set_empty)
  then have "recover_latest from_str store' = sbind (apply_snapshot from_str ?ss) (\<lambda>_. sret (ss_included_wal_seqno ?ss))"
    unfolding recover_latest_def by (cases "sort (akeys store')") (simp_all add: ss)
  moreover obtain app' where "apply_snapshot from_str ?ss app0 = (Inr (), app')" "restores (app_vault app) (app_vault app')"
      "es_snapshot_seqno (app_vault app') = ?n + 1" "app_processed app' = app_processed app"
      "app_last_signature app' = app_last_signature app"
    using apply_captured [OF keyed b58 fin] by blast
  ultimately show ?thesis
    by (intro exI [of _ app']) (simp add: sbind_def sret_def app1, simp add: capture_snapshot_def Let_def)
qed

text \<open>C39. A snapshot can make the log unreplayable.  A snapshot keeps the deadline of a request that was
  locked when it was taken, while replay checks a logged delivery against the current time.  So when
  the first log entry after the snapshot is the delivery for such a request, and the enclave starts
  after the request's deadline, start-up fails, and it fails again at every later start.\<close>
theorem late_delivery_blocks_start:
  assumes recovered: "recover_latest from_str store app0 = (Inr pos, app1)"
    and logged: "map wr_entry (read_records_after pos (app_wal app1)) =
      ChannelAdaptorDelivered cid rid (Some tb) (Some rp) (Some sp) (Some enc) (Some rh) (Some pk) # es"
    and locked: "aget (es_active_channels (app_vault app1)) cid = Some ch" "ch_status ch = Locked"
      "ch_active_request ch = Some r" and late: "cr_expires_at r < clock 0"
  shows "fst (recover_state C sha256 from_str uuid clock (Some store) app0) =
    Inl (replay_error ''WAL replay failed'')"
proof -
  have "deliver_adaptor C sha256 cid tb \<lparr>r_prime = rp, s_prime = sp\<rparr> enc rh pk (clock 0) (app_vault app1) =
      (Inl (Err EnclaveError.ChannelRequestExpired), app_vault app1)"
    using locked late by (simp add: deliver_adaptor_def state_op_defs asc_defs)
  then have "replay_entry C sha256 (uuid 0) (clock 0)
      (ChannelAdaptorDelivered cid rid (Some tb) (Some rp) (Some sp) (Some enc) (Some rh) (Some pk)) app1 =
      (Inl (replay_error ''WAL replay failed''), app1)"
    by (simp add: replayed_def in_vault_def required_def)
  then show ?thesis
    using recovered logged by (simp add: recover_state_def replay_app_state_from_def sbind_def sget_def)
qed

end
