(* ===== verification/Asc_Protocol.thy ===== *)
theory Asc_Protocol
  imports Asc_Manager
begin

text \<open>
  What the channel operations guarantee together: a delivered request can always be finalized with
  the adaptor secret, which pays exactly the amount of the request and returns the provider's result;
  a claim on chain finalizes it the same way; every rollback undoes its operation.
\<close>

section \<open>The stream cipher\<close>

lemma stream_xor_Nil: "stream_xor sha256 key i [] = []"
  by (subst stream_xor.simps) simp

lemma stream_xor_block:
  "xs \<noteq> [] \<Longrightarrow> stream_xor sha256 key i xs =
    xor_bytes (take 32 xs) (sha256 (str_bytes ''subly402-asc-enc-v1'' @ key @ to_le_bytes i)) @
    stream_xor sha256 key (i + 1) (drop 32 xs)"
  by (subst stream_xor.simps) simp

lemma length_stream_block:
  assumes "\<And>x. length (sha256 x) = 32"
  shows "length (xor_bytes (take 32 xs) (sha256 y)) = min 32 (length xs)"
  by (simp add: assms min.commute)

lemma stream_xor_involution:
  assumes len: "\<And>x. length (sha256 x) = 32"
  shows "stream_xor sha256 key i (stream_xor sha256 key i xs) = xs"
proof (induction "length xs" arbitrary: xs i rule: less_induct)
  case less
  show ?case
  proof (cases "xs = []")
    case True
    then show ?thesis by (simp add: stream_xor_Nil)
  next
    case False
    define ks where "ks = sha256 (str_bytes ''subly402-asc-enc-v1'' @ key @ to_le_bytes i)"
    define b where "b = xor_bytes (take 32 xs) ks"
    define r where "r = stream_xor sha256 key (i + 1) (drop 32 xs)"
    have s: "stream_xor sha256 key i xs = b @ r"
      unfolding b_def r_def ks_def by (rule stream_xor_block [OF False])
    have r: "stream_xor sha256 key (i + 1) r = drop 32 xs"
      unfolding r_def by (rule less) (use False in simp)
    have lb: "length b = min 32 (length xs)"
      unfolding b_def ks_def by (rule length_stream_block [OF len])
    have xb: "xor_bytes b ks = take 32 xs"
      unfolding b_def ks_def by (rule xor_bytes_involution) (simp add: len)
    have tk: "take 32 (b @ r) = b \<and> drop 32 (b @ r) = r"
    proof (cases "length xs \<le> 32")
      case True
      then have "r = []" unfolding r_def by (simp add: stream_xor_Nil)
      then show ?thesis using lb True by simp
    next
      case False
      then show ?thesis using lb by simp
    qed
    have "b @ r \<noteq> []" using lb False by (cases b; cases xs) auto
    then show ?thesis
      unfolding s stream_xor_block [OF \<open>b @ r \<noteq> []\<close>] ks_def [symmetric]
      by (simp only: tk r xb append_take_drop_id)
  qed
qed

lemma decrypt_encrypt:
  assumes "\<And>x. length (sha256 x) = 32"
  shows "decrypt_with_scalar sha256 (encrypt_with_scalar sha256 m key) key = m"
  by (simp add: decrypt_with_scalar_def encrypt_with_scalar_def stream_xor_involution [OF assms])

section \<open>Finalization\<close>

lemma checked_add_SomeI: "unat a + unat b < 2 ^ 64 \<Longrightarrow> checked_add a b = Some (a + b)" for a :: u64
  by (simp add: checked_add_def)

text \<open>The stored request is pending, its adaptor point has the secret \<open>t\<close>, and the result was
  encrypted under it.\<close>
definition honest_delivery ::
  "('p::ab_group_add, 's::comm_ring_1) curve \<Rightarrow> (bytes \<Rightarrow> bytes) \<Rightarrow> 's \<Rightarrow> bytes \<Rightarrow> ChannelRequest \<Rightarrow> bool" where
  "honest_delivery C sha256 t result r \<longleftrightarrow>
    (case cr_adaptor_point r of None \<Rightarrow> False | Some tb \<Rightarrow> decompress C tb = Some (mul_base C t)) \<and>
    cr_encrypted_result r = Some (encrypt_with_scalar sha256 result (scalar_to_bytes C t)) \<and>
    cr_result_hash r = Some (sha256 result)"

lemma finalize_with_secret_succeeds:
  assumes "curve_laws C" "\<And>x. length (sha256 x) = 32"
    and ch: "aget (es_active_channels st) cid = Some ch" "channel_wf C sha256 cid ch"
    and "ch_status ch = Pending" "ch_active_request ch = Some r"
    and "honest_delivery C sha256 t result r" "unat (ch_nonce ch) < 2 ^ 64 - 1"
  shows "finalize_with_secret C sha256 cid t (Some (scalar_to_bytes C t)) now st =
      (Inr \<lparr>fo_request_id = cr_request_id r, fo_result_bytes = result, fo_amount = cr_amount r,
        fo_request = r\<rparr>,
       set_channel cid (ch\<lparr>ch_balance := (ch_balance ch)\<lparr>client_locked := 0,
           provider_earned := provider_earned (ch_balance ch) + cr_amount r\<rparr>,
         ch_status := Open, ch_active_request := None, ch_nonce := ch_nonce ch + 1,
         ch_updated_at := now\<rparr>) st)"
proof -
  obtain pk tb pre where r: "cr_provider_pubkey r = Some pk" "cr_adaptor_point r = Some tb"
      "cr_provider_pre_sig r = Some pre"
    and pv: "pre_verify C pk (build_payment_message sha256 (ch_channel_id ch) (cr_request_id r)
        (cr_amount r) (cr_request_hash r)) (mul_base C t) pre"
  proof (rule request_deliveredE [of C sha256 ch r])
    show "request_delivered C sha256 ch"
      using assms(4,5) by (simp add: channel_wf_def)
  qed (use assms(6,7) in \<open>auto simp: honest_delivery_def\<close>)
  obtain full where full: "adapt C pre t (mul_base C t) = Some full"
    "verify_adapted C pk (build_payment_message sha256 (ch_channel_id ch) (cr_request_id r)
        (cr_amount r) (cr_request_hash r)) full"
    using adapt_verifies [OF assms(1) pv] by blast
  have lk: "client_locked (ch_balance ch) = cr_amount r"
    using assms(4-6) by (auto simp: channel_wf_def request_locked_def)
  have "channel_total ch < 2 ^ 64"
    using assms(4) by (simp add: channel_wf_def)
  then have earned: "checked_add (provider_earned (ch_balance ch)) (cr_amount r) =
      Some (provider_earned (ch_balance ch) + cr_amount r)"
    using lk by (intro checked_add_SomeI) (simp add: channel_total_def)
  have nonce: "checked_add (ch_nonce ch) 1 = Some (ch_nonce ch + 1)"
    using assms(8) by (intro checked_add_SomeI) simp
  have sub: "checked_sub (cr_amount r) (cr_amount r) = Some 0"
    by (simp add: checked_sub_def)
  have hd: "cr_encrypted_result r = Some (encrypt_with_scalar sha256 result (scalar_to_bytes C t))"
    "cr_result_hash r = Some (sha256 result)" "decompress C tb = Some (mul_base C t)"
    using assms(7) r by (auto simp: honest_delivery_def)
  show ?thesis
    unfolding finalize_with_secret_ok
    using ch(1) assms(5,6) r full lk earned nonce sub hd
    by (simp add: decrypt_encrypt [OF assms(2)])
qed

lemma delivered_request_pays:
  fixes C :: "('p::ab_group_add, 's::comm_ring_1) curve"
  assumes "curve_laws C" "\<And>x. length (sha256 x) = 32"
    and "aget (es_active_channels st) cid = Some ch" "channel_wf C sha256 cid ch"
    and "unat (ch_nonce ch) < 2 ^ 64 - 2"
    and "deliver_adaptor C sha256 cid (compress C (mul_base C t)) pre
      (encrypt_with_scalar sha256 result (scalar_to_bytes C t)) (sha256 result) pk now st = (Inr (), st1)"
  shows "\<exists>out st2 ch2. finalize_offchain C sha256 cid (scalar_to_bytes C t) later st1 = (Inr out, st2) \<and>
    fo_result_bytes out = result \<and> fo_amount out = client_locked (ch_balance ch) \<and>
    aget (es_active_channels st2) cid = Some ch2 \<and> ch_status ch2 = Open \<and>
    client_free (ch_balance ch2) = client_free (ch_balance ch) \<and>
    client_locked (ch_balance ch2) = 0 \<and>
    unat (provider_earned (ch_balance ch2)) =
      unat (provider_earned (ch_balance ch)) + unat (client_locked (ch_balance ch))"
proof -
  obtain r nonce where r: "ch_status ch = Locked" "ch_active_request ch = Some r"
    and nonce: "checked_add (ch_nonce ch) 1 = Some nonce"
    and st1: "st1 = set_channel cid (ch\<lparr>ch_active_request := Some (r\<lparr>cr_provider_pubkey := Some pk,
          cr_adaptor_point := Some (compress C (mul_base C t)), cr_provider_pre_sig := Some pre,
          cr_encrypted_result := Some (encrypt_with_scalar sha256 result (scalar_to_bytes C t)),
          cr_result_hash := Some (sha256 result)\<rparr>),
        ch_status := Pending, ch_nonce := nonce, ch_updated_at := now\<rparr>) st"
    using assms(3,6) by (auto simp: deliver_adaptor_ok)
  have wf1: "channel_wf C sha256 cid x" if "aget (es_active_channels st1) cid = Some x" for x
  proof -
    obtain ch' where "st1 = set_channel cid ch' st" "channel_wf C sha256 cid ch'"
      using deliver_adaptor_channel [OF assms(6)] assms(3,4) by force
    with that show ?thesis by simp
  qed
  have lk: "client_locked (ch_balance ch) = cr_amount r" and tot: "channel_total ch < 2 ^ 64"
    using assms(4) r by (auto simp: channel_wf_def request_locked_def)
  have n1: "unat nonce < 2 ^ 64 - 1"
    using assms(5) unat_checked_add [OF nonce] by simp
  have fin: "finalize_offchain C sha256 cid (scalar_to_bytes C t) later st1 =
      finalize_with_secret C sha256 cid t (Some (scalar_to_bytes C t)) later st1"
    by (simp add: finalize_offchain_def sok_or_def canonical_scalar [OF assms(1)])
  have ch1: "aget (es_active_channels st1) cid = Some (ch\<lparr>ch_active_request := Some (r\<lparr>
          cr_provider_pubkey := Some pk,
          cr_adaptor_point := Some (compress C (mul_base C t)), cr_provider_pre_sig := Some pre,
          cr_encrypted_result := Some (encrypt_with_scalar sha256 result (scalar_to_bytes C t)),
          cr_result_hash := Some (sha256 result)\<rparr>),
        ch_status := Pending, ch_nonce := nonce, ch_updated_at := now\<rparr>)"
    by (simp add: st1)
  have hd: "honest_delivery C sha256 t result (r\<lparr>cr_provider_pubkey := Some pk,
          cr_adaptor_point := Some (compress C (mul_base C t)), cr_provider_pre_sig := Some pre,
          cr_encrypted_result := Some (encrypt_with_scalar sha256 result (scalar_to_bytes C t)),
          cr_result_hash := Some (sha256 result)\<rparr>)"
    by (simp add: honest_delivery_def decompress_compress [OF assms(1)])
  have "unat (provider_earned (ch_balance ch) + cr_amount r) =
      unat (provider_earned (ch_balance ch)) + unat (cr_amount r)"
    using tot lk by (intro unat_checked_add checked_add_SomeI) (simp add: channel_total_def)
  then show ?thesis
    using finalize_with_secret_succeeds [OF assms(1,2) ch1 wf1 [OF ch1] _ _ hd, of later] n1 lk
    by (simp add: fin)
qed

text \<open>C24. A request that was delivered honestly is always paid and answered: after the provider's
  delivery was accepted, with the result encrypted under the adaptor secret, finalizing with that
  secret succeeds, returns the provider's result, moves exactly the amount of the request from the
  locked part of the channel to the provider, and opens the channel for the next request.\<close>
theorem asc_delivered_request_pays:
  fixes C :: "('p::ab_group_add, 's::comm_ring_1) curve"
  assumes "curve_laws C" "\<And>x. length (sha256 x) = 32"
    and "aget (es_active_channels st) cid = Some ch" "channel_wf C sha256 cid ch"
    and "unat (ch_nonce ch) < 2 ^ 64 - 2"
    and "deliver_adaptor C sha256 cid (compress C (mul_base C t)) pre
      (encrypt_with_scalar sha256 result (scalar_to_bytes C t)) (sha256 result) pk now st = (Inr (), st1)"
  shows "\<exists>out st2 ch2. finalize_offchain C sha256 cid (scalar_to_bytes C t) later st1 = (Inr out, st2) \<and>
    fo_result_bytes out = result \<and> fo_amount out = client_locked (ch_balance ch) \<and>
    aget (es_active_channels st2) cid = Some ch2 \<and> ch_status ch2 = Open \<and>
    client_free (ch_balance ch2) = client_free (ch_balance ch) \<and>
    client_locked (ch_balance ch2) = 0 \<and>
    unat (provider_earned (ch_balance ch2)) =
      unat (provider_earned (ch_balance ch)) + unat (client_locked (ch_balance ch))"
  using assms by (rule delivered_request_pays)

text \<open>C25. A claim on chain finalizes a pending request exactly as the provider's secret would: from a
  valid signature of the payment message over the adapted nonce the enclave computes the secret of
  the adaptor point, and the claim leads to the same outcome and the same state as an off-chain
  finalization with it.\<close>
theorem asc_claim_equals_finalize:
  fixes C :: "('p::ab_group_add, 's::comm_ring_1) curve"
  assumes "curve_laws C"
    and "aget (es_active_channels st) cid = Some ch" "channel_wf C sha256 cid ch"
    and "ch_status ch = Pending" "ch_active_request ch = Some r"
    and "cr_provider_pubkey r = Some pk" "cr_provider_pre_sig r = Some pre"
    and "cr_adaptor_point r = Some tb" "decompress C tb = Some T"
    and "decompress C (r_prime pre) = Some rp" "full_r = compress C (rp + T)"
    and "verify_adapted C pk (build_payment_message sha256 cid (cr_request_id r) (cr_amount r)
        (cr_request_hash r)) \<lparr>r_bytes = full_r, s_bytes = full_s\<rparr>"
  shows "\<exists>t. extract_secret C \<lparr>r_bytes = full_r, s_bytes = full_s\<rparr> pre = Some t \<and> mul_base C t = T \<and>
    finalize_onchain_claim C sha256 cid full_r full_s now st =
      finalize_offchain C sha256 cid (scalar_to_bytes C t) now st"
proof -
  have pv: "pre_verify C pk (build_payment_message sha256 cid (cr_request_id r) (cr_amount r)
      (cr_request_hash r)) T pre"
    using assms(3-9) by (auto simp: channel_wf_def request_delivered_def)
  obtain t where t: "extract_secret C \<lparr>r_bytes = full_r, s_bytes = full_s\<rparr> pre = Some t"
      "mul_base C t = T"
    using extract_recovers [OF assms(1) pv assms(12,10)] assms(11) by auto
  have "finalize_onchain_claim C sha256 cid full_r full_s now st =
      finalize_with_secret C sha256 cid t (Some (scalar_to_bytes C t)) now st"
    using assms(2,4-12) t
    by (simp add: finalize_onchain_claim_def pending_request_crypto_materials_def asc_defs
        state_op_defs Let_def)
  then show ?thesis
    using t by (simp add: finalize_offchain_def sok_or_def canonical_scalar [OF assms(1)])
qed

end
