(* ===== verification/Enclave_Example.thy ===== *)
theory Enclave_Example
  imports Asc_Protocol Wal
begin

text \<open>
  A concrete curve, a concrete enclave state and concrete requests, and the properties of the
  enclave's components applied to them.  Points and scalars of the example curve are 64-bit words,
  the base point is 1.
\<close>

section \<open>A concrete curve\<close>

definition ex_encode :: "u64 \<Rightarrow> bytes" where
  "ex_encode a = to_le_bytes a @ replicate 24 0"

definition ex_decode :: "bytes \<Rightarrow> u64 option" where
  "ex_decode bs = (if length bs = 32 then Some (from_le_bytes (slice bs 0 8)) else None)"

definition ex_C :: "(u64, u64) curve" where
  "ex_C = \<lparr>mul_base = (\<lambda>a. a), mul_point = (\<lambda>a b. a * b), compress = ex_encode,
    decompress = ex_decode, scalar_to_bytes = ex_encode, from_canonical_bytes = ex_decode,
    from_bytes_mod_order = (\<lambda>bs. from_le_bytes (slice bs 0 8)),
    from_bytes_mod_order_wide = (\<lambda>bs. from_le_bytes (slice bs 0 8)),
    sha512 = (\<lambda>bs. take 64 (bs @ replicate 64 7))\<rparr>"

definition ex_sha256 :: "bytes \<Rightarrow> bytes" where
  "ex_sha256 bs = take 32 (rev bs @ replicate 32 0)"

definition ex_hkdf :: "bytes \<Rightarrow> bytes \<Rightarrow> bytes \<Rightarrow> nat \<Rightarrow> bytes" where
  "ex_hkdf salt ikm info n = take n (info @ ikm @ salt @ replicate n 0)"

lemma ex_decode_encode [simp]: "ex_decode (ex_encode a) = Some a"
  by (simp add: ex_decode_def ex_encode_def slice_simps codec_simps)

lemma length_ex_encode [simp]: "length (ex_encode a) = 32"
  by (simp add: ex_encode_def codec_simps)

lemma ex_curve_laws: "curve_laws ex_C"
  by (simp add: curve_laws_def ex_C_def)

lemma length_ex_sha256: "length (ex_sha256 bs) = 32"
  by (simp add: ex_sha256_def)

section \<open>Adaptor signatures and audit records\<close>

theorem adaptor_signature_correct_witness:
  "let pk = compress ex_C (mul_base ex_C (fst (expand_secret_key ex_C (replicate 32 3))));
       T = ak_public (from_secret ex_C 9);
       pre = pre_sign ex_C (replicate 32 3) [1, 2] T
   in pre_verify ex_C pk [1, 2] T pre \<and>
      (\<exists>full. adapt ex_C pre 9 T = Some full \<and> verify_adapted ex_C pk [1, 2] full \<and>
        extract_secret ex_C full pre = Some 9)"
  by (rule adaptor_signature_correct [OF ex_curve_laws])

definition ex_pk :: bytes where
  "ex_pk = compress ex_C (mul_base ex_C (fst (expand_secret_key ex_C (replicate 32 3))))"

lemma ex_pre_sign_verifies: "pre_verify ex_C ex_pk m T (pre_sign ex_C (replicate 32 3) m T)"
  unfolding ex_pk_def by (rule pre_sign_verifies [OF ex_curve_laws])

lemma ex_adapted:
  obtains full rp where "adapt ex_C (pre_sign ex_C (replicate 32 3) m (mul_base ex_C t)) t (mul_base ex_C t) = Some full"
    "verify_adapted ex_C ex_pk m full"
    "decompress ex_C (r_prime (pre_sign ex_C (replicate 32 3) m (mul_base ex_C t))) = Some rp"
    "r_bytes full = compress ex_C (rp + mul_base ex_C t)"
proof -
  obtain full where full: "adapt ex_C (pre_sign ex_C (replicate 32 3) m (mul_base ex_C t)) t (mul_base ex_C t) = Some full"
    "verify_adapted ex_C ex_pk m full"
    using adapt_verifies [OF ex_curve_laws ex_pre_sign_verifies] by blast
  then obtain rp where
    "decompress ex_C (r_prime (pre_sign ex_C (replicate 32 3) m (mul_base ex_C t))) = Some rp"
    "r_bytes full = compress ex_C (rp + mul_base ex_C t)"
    unfolding adapt_Some by auto
  with full show thesis by (rule that)
qed

theorem adaptor_secret_revealed_witness:
  "\<exists>full t. extract_secret ex_C full (pre_sign ex_C (replicate 32 3) [1, 2] (mul_base ex_C 9)) = Some t \<and>
    ak_public (from_secret ex_C t) = mul_base ex_C 9"
proof -
  obtain full rp where full: "verify_adapted ex_C ex_pk [1, 2] full"
    "decompress ex_C (r_prime (pre_sign ex_C (replicate 32 3) [1, 2] (mul_base ex_C 9))) = Some rp"
    "r_bytes full = compress ex_C (rp + mul_base ex_C 9)"
    using ex_adapted [of "[1, 2]" 9] by blast
  then show ?thesis
    using adaptor_secret_revealed [OF ex_curve_laws ex_pre_sign_verifies full] by blast
qed

theorem audit_record_disclosure_witness:
  "let record = generate_audit_record_at ex_C ex_hkdf ex_sha256 (5, 6) (replicate 32 8) (replicate 32 4)
         1500 2 (replicate 32 1) 77;
       sk = ak_secret (derive_provider_key ex_C ex_hkdf (replicate 32 1) (replicate 32 4))
   in decrypt_sender ex_C ex_sha256 sk (ea_encrypted_sender record) = Some (replicate 32 8) \<and>
      decrypt_amount ex_C ex_sha256 sk (ea_encrypted_amount record) = Some 1500"
  using audit_record_disclosure [where C = ex_C and ?sha256.0 = ex_sha256 and hkdf = ex_hkdf and
      client = "replicate 32 8" and master = "replicate 32 1" and provider = "replicate 32 4" and
      rnd = "(5, 6)" and amount = 1500 and epoch = 2 and ts = 77 and
      sk = "ak_secret (derive_provider_key ex_C ex_hkdf (replicate 32 1) (replicate 32 4))"]
  by (simp add: ex_curve_laws length_ex_sha256 export_provider_key_def Let_def
      canonical_scalar [OF ex_curve_laws])

section \<open>A channel\<close>

definition ex_channel :: ChannelState where
  "ex_channel = \<lparr>ch_channel_id = ''ch_1'', ch_client = replicate 32 8, ch_provider_id = ''prov'',
    ch_balance = \<lparr>client_free = 70, client_locked = 30, provider_earned = 0\<rparr>,
    ch_status = Locked, ch_nonce = 1, ch_created_at = 100, ch_updated_at = 110,
    ch_used_request_ids = {''req''},
    ch_active_request = Some \<lparr>cr_request_id = ''req'', cr_amount = 30,
      cr_request_hash = replicate 32 2, cr_provider_pubkey = None, cr_adaptor_point = None,
      cr_provider_pre_sig = None, cr_encrypted_result = None, cr_result_hash = None,
      cr_created_at = 110, cr_expires_at = 230\<rparr>\<rparr>"

definition ex_state :: VaultState where
  "ex_state = (new_vault_state (replicate 32 10) (replicate 32 11) (replicate 32 12) (replicate 32 13))
    \<lparr>es_active_channels := [(''ch_1'', ex_channel)]\<rparr>"

definition ex_message :: bytes where
  "ex_message = build_payment_message ex_sha256 ''ch_1'' ''req'' 30 (replicate 32 2)"

definition ex_pre :: AdaptorPreSignature where
  "ex_pre = pre_sign ex_C (replicate 32 3) ex_message (mul_base ex_C 9)"

definition ex_delivered :: VaultState where
  "ex_delivered = snd (deliver_adaptor ex_C ex_sha256 ''ch_1'' (compress ex_C (mul_base ex_C 9)) ex_pre
    (encrypt_with_scalar ex_sha256 [1, 2, 3] (scalar_to_bytes ex_C 9)) (ex_sha256 [1, 2, 3]) ex_pk 120
    ex_state)"

lemma ex_channel_wf: "channel_wf ex_C ex_sha256 ''ch_1'' ex_channel"
  by (simp add: channel_wf_def ex_channel_def channel_total_def request_locked_def request_undelivered_def)

lemma ex_delivers:
  "deliver_adaptor ex_C ex_sha256 ''ch_1'' (compress ex_C (mul_base ex_C 9)) ex_pre
    (encrypt_with_scalar ex_sha256 [1, 2, 3] (scalar_to_bytes ex_C 9)) (ex_sha256 [1, 2, 3]) ex_pk 120
    ex_state = (Inr (), ex_delivered)"
proof -
  have "pre_verify ex_C ex_pk ex_message (mul_base ex_C 9) ex_pre"
    unfolding ex_pre_def by (rule ex_pre_sign_verifies)
  then show ?thesis
    by (simp add: ex_delivered_def deliver_adaptor_def asc_defs state_op_defs Let_def ex_state_def
        ex_channel_def decompress_compress [OF ex_curve_laws] ex_message_def [symmetric] checked_add_def)
qed

theorem asc_delivered_request_pays_witness:
  "\<exists>out st2 ch2. finalize_offchain ex_C ex_sha256 ''ch_1'' (scalar_to_bytes ex_C 9) 150 ex_delivered =
      (Inr out, st2) \<and>
    fo_result_bytes out = [1, 2, 3] \<and> fo_amount out = 30 \<and>
    aget (es_active_channels st2) ''ch_1'' = Some ch2 \<and> ch_status ch2 = Open \<and>
    client_free (ch_balance ch2) = 70 \<and> client_locked (ch_balance ch2) = 0 \<and>
    unat (provider_earned (ch_balance ch2)) = 30"
proof -
  have ch: "aget (es_active_channels ex_state) ''ch_1'' = Some ex_channel"
    by (simp add: ex_state_def)
  have "unat (ch_nonce ex_channel) < 2 ^ 64 - 2"
    by (simp add: ex_channel_def)
  from asc_delivered_request_pays [OF ex_curve_laws length_ex_sha256 ch ex_channel_wf this ex_delivers, of 150]
  show ?thesis
    by (simp add: ex_channel_def)
qed

lemma deliver_adaptor_stores:
  assumes "deliver_adaptor C sha256 cid tb pre enc rh pk now st = (Inr u, st')"
    and "aget (es_active_channels st) cid = Some ch" "ch_active_request ch = Some r"
  shows "\<exists>ch'. aget (es_active_channels st') cid = Some ch' \<and> ch_status ch' = Pending \<and>
    ch_active_request ch' = Some (r\<lparr>cr_provider_pubkey := Some pk, cr_adaptor_point := Some tb,
      cr_provider_pre_sig := Some pre, cr_encrypted_result := Some enc, cr_result_hash := Some rh\<rparr>)"
  using assms by (auto simp: deliver_adaptor_ok)

theorem asc_claim_equals_finalize_witness:
  "\<exists>full_r full_s t. mul_base ex_C t = mul_base ex_C 9 \<and>
    finalize_onchain_claim ex_C ex_sha256 ''ch_1'' full_r full_s 150 ex_delivered =
      finalize_offchain ex_C ex_sha256 ''ch_1'' (scalar_to_bytes ex_C t) 150 ex_delivered"
proof -
  obtain full rp where full: "verify_adapted ex_C ex_pk ex_message full"
    "decompress ex_C (r_prime ex_pre) = Some rp"
    "r_bytes full = compress ex_C (rp + mul_base ex_C 9)"
    using ex_adapted [of ex_message 9] unfolding ex_pre_def by blast
  define r where "r = \<lparr>cr_request_id = ''req'', cr_amount = 30,
      cr_request_hash = replicate 32 2, cr_provider_pubkey = Some ex_pk,
      cr_adaptor_point = Some (compress ex_C (mul_base ex_C 9)),
      cr_provider_pre_sig = Some ex_pre,
      cr_encrypted_result = Some (encrypt_with_scalar ex_sha256 [1, 2, 3] (scalar_to_bytes ex_C 9)),
      cr_result_hash = Some (ex_sha256 [1, 2, 3]),
      cr_created_at = 110, cr_expires_at = 230\<rparr>"
  have "\<exists>ch. aget (es_active_channels ex_delivered) ''ch_1'' = Some ch \<and>
      ch_status ch = Pending \<and> ch_active_request ch = Some r"
    using deliver_adaptor_stores [OF ex_delivers, of ex_channel "the (ch_active_request ex_channel)"]
    by (simp add: ex_state_def ex_channel_def r_def)
  then obtain ch where ch: "aget (es_active_channels ex_delivered) ''ch_1'' = Some ch"
    "ch_status ch = Pending" "ch_active_request ch = Some r"
    by blast
  have wf: "channel_wf ex_C ex_sha256 ''ch_1'' ch"
  proof (rule deliver_adaptor_channel [OF ex_delivers])
    fix c assume "aget (es_active_channels ex_state) ''ch_1'' = Some c"
    then show "channel_wf ex_C ex_sha256 ''ch_1'' c"
      using ex_channel_wf by (simp add: ex_state_def)
  next
    fix c c' assume c': "ex_delivered = set_channel ''ch_1'' c' ex_state"
      "channel_wf ex_C ex_sha256 ''ch_1'' c'"
    then show ?thesis using ch(1) unfolding c'(1) by simp
  qed
  have "verify_adapted ex_C ex_pk (build_payment_message ex_sha256 ''ch_1'' ''req'' 30 (replicate 32 2))
      \<lparr>r_bytes = r_bytes full, s_bytes = s_bytes full\<rparr>"
    using full(1) by (cases full) (simp add: ex_message_def)
  then have "\<exists>t. extract_secret ex_C \<lparr>r_bytes = r_bytes full, s_bytes = s_bytes full\<rparr> ex_pre = Some t \<and>
      mul_base ex_C t = mul_base ex_C 9 \<and>
      finalize_onchain_claim ex_C ex_sha256 ''ch_1'' (r_bytes full) (s_bytes full) 150 ex_delivered =
      finalize_offchain ex_C ex_sha256 ''ch_1'' (scalar_to_bytes ex_C t) 150 ex_delivered"
    by (intro asc_claim_equals_finalize [OF ex_curve_laws ch(1) wf ch(2,3) _ _ _
          decompress_compress [OF ex_curve_laws] full(2,3)]) (simp_all add: r_def)
  then show ?thesis by blast
qed

end
