(* ===== verification/System_Example.thy ===== *)
theory System_Example
  imports Enclave_System Enclave_Example
begin

text \<open>
  A concrete history of the enclave, with a failing write to the log in it, and the properties of
  histories applied to it.
\<close>

definition ex_env :: enclave_env where
  "ex_env = \<lparr>ee_sign = (\<lambda>m. take 64 (m @ replicate 64 0)), ee_ata = (\<lambda>owner mint. owner)\<rparr>"

definition ex_client :: pubkey where "ex_client = replicate 32 8"

definition ex_provider :: ProviderRegistration where
  "ex_provider = \<lparr>rg_provider_id = ''prov'', rg_display_name = ''p'', rg_participant_pubkey = Some ex_pk,
    rg_participant_attestation_policy_hash = None, rg_participant_attestation_verified_at_ms = None,
    rg_participant_attestation_mode = None, rg_settlement_token_account = replicate 32 4,
    rg_network = ''n'', rg_asset_mint = replicate 32 12, rg_allowed_origins = [],
    rg_auth_mode = ''none'', rg_api_key_hash = None, rg_mtls_cert_fingerprint = None\<rparr>"

definition ex_payment :: "string \<Rightarrow> string \<Rightarrow> u64 \<Rightarrow> Reservation" where
  "ex_payment vid pid amount = new_reservation vid (''res_'' @ vid) pid ex_client ''prov'' amount
    (replicate 32 1) (replicate 32 2) 20 500"

text \<open>A deposit of 100; a provider; a payment of 30; a payment of 10 whose entry cannot be written to
  the log and that is rolled back; the settlement of the first; a channel with a request; and a
  withdrawal of 15.\<close>
definition ex_history :: "(enclave_event \<times> int) list" where
  "ex_history =
    [(DepositSeen \<lparr>de_signature = ''sig'', de_client = ex_client, de_amount = 100, de_slot = 5\<rparr>, 10),
     (ProviderAdded ex_provider, 11),
     (PaymentVerified (ex_payment ''v1'' ''p1'' 30), 20),
     (PaymentVerified (ex_payment ''v2'' ''p2'' 10), 20),
     (PaymentSettled ''v1'' ''prov'' ''set_1'', 30),
     (ChannelAsked ''x'' ex_client ''prov'' 20, 40),
     (RequestAsked ''ch_x'' ''req'' 5 (replicate 32 2), 50),
     (WithdrawRequested ex_client ex_client 15, 60),
     (PaymentVerified (ex_payment ''v3'' ''p3'' 10), 70)]"

definition ex_start :: App where
  "ex_start = new_app (replicate 32 10) (replicate 32 11) (replicate 32 12) (replicate 32 13) (LocalFile [])
    [True, True, True, True, True, True, True, True, True, False]"

lemmas history_eval = new_app_def new_vault_state_def new_with_backend_def Let_def outcome_def
  in_vault_def next_io_def wal_append_def wal_append_or_rollback_def wal_append_or_fail_def wal_error_def
  append_entry_def io_ok_def fresh_settlement_def avals_def mark_processed_def next_receipt_nonce_def
  issue_client_receipt_locked_def issue_provider_receipt_locked_def issue_participant_receipt_locked_def
  refresh_and_issue_def refresh_client_max_lock_expires_at_def client_max_lock_def List.map_filter_def
  state_op_defs asc_defs checked_add_def checked_sub_def saturating_sub_def client_balance_default_def
  detector_apply_deposit_def apply_deposit_def register_provider_section_def verify_section_def
  new_reservation_def reserve_balance_def release_balance_def put_reservation_def get_reservation_def
  settle_section_def settle_payment_def credit_entry_def put_credit_def channel_open_section_def
  open_channel_def open_channel_with_id_def channel_request_section_def submit_request_def
  channel_client_def withdraw_auth_section_def next_withdraw_nonce_def authorize_withdrawal_def put_withdrawal_def
  REQUEST_EXPIRY_SEC_def

lemma ex_history_runs:
  "\<exists>app. exec_run ex_env ex_C ex_sha256 ex_history ex_start = Some app \<and>
    aget (es_client_balances (app_vault app)) ex_client = Some \<lparr>cb_free = 25, cb_locked = 45,
      cb_max_lock_expires_at = 500, cb_total_deposited = 100, cb_total_withdrawn = 0\<rparr>"
  unfolding ex_history_def ex_start_def
  by (simp add: history_eval ex_provider_def ex_payment_def)

lemma ex_history_run:
  obtains app where "run (enclave_step ex_env ex_C ex_sha256) ex_history ex_start app"
    "aget (es_client_balances (app_vault app)) ex_client = Some \<lparr>cb_free = 25, cb_locked = 45,
      cb_max_lock_expires_at = 500, cb_total_deposited = 100, cb_total_withdrawn = 0\<rparr>"
  using ex_history_runs exec_run_run by blast

lemma ex_step_fails:
  "\<exists>app app'. exec_run ex_env ex_C ex_sha256 (take 3 ex_history) ex_start = Some app \<and>
    admissible (PaymentVerified (ex_payment ''v2'' ''p2'' 10)) app \<and>
    exec ex_env ex_C ex_sha256 (PaymentVerified (ex_payment ''v2'' ''p2'' 10)) 20 app = (Inl wal_error, app') \<and>
    read_records (app_wal app') = read_records (app_wal app)"
  unfolding ex_history_def ex_start_def
  by (simp add: history_eval ex_provider_def ex_payment_def read_records_def)





end
