(* ===== verification/Restart_Example.thy ===== *)
theory Restart_Example
  imports Snapshot System_Example
begin

text \<open>
  A restart after the example history, and a snapshot of a vault with a locked channel.
\<close>

definition ex_to_string :: "pubkey \<Rightarrow> string" where
  "ex_to_string = map (\<lambda>b. char_of (unat b))"

definition ex_from_str :: "string \<Rightarrow> pubkey option" where
  "ex_from_str s = Some (map (\<lambda>c. of_nat (of_char c)) s)"

lemma ex_base58: "ex_from_str (ex_to_string c) = Some c"
proof -
  have "unat b mod 256 = unat b" for b :: u8
    using unat_less_pow [of b] by simp
  then show ?thesis by (induction c) (simp_all add: ex_from_str_def ex_to_string_def)
qed

definition ex_saved :: App where
  "ex_saved = ex_start\<lparr>app_vault := ex_state\<lparr>es_client_balances := [(ex_client, \<lparr>cb_free = 5, cb_locked = 100,
      cb_max_lock_expires_at = 230, cb_total_deposited = 105, cb_total_withdrawn = 0\<rparr>)]\<rparr>\<rparr>"

definition ex_store :: "(string, StateSnapshot) amap" where
  "ex_store = [(snapshot_object_key ''snap/'' 1, capture_snapshot ex_to_string 1 None 150 ex_saved)]"

lemma ex_saved_keyed: "vault_keyed (app_vault ex_saved)"
  by (simp add: vault_keyed_def keyed_by_def ex_saved_def ex_state_def new_vault_state_def ex_channel_def avals_def
      adistinct_def akeys_def)

lemma ex_persisted:
  "persist_now ex_to_string ''snap/'' 3 150 [] ex_saved =
    (Inr ex_store, ex_saved\<lparr>app_vault := app_vault ex_saved\<lparr>es_snapshot_seqno := 1\<rparr>\<rparr>)"
  by (simp add: persist_now_def ex_store_def sbind_def sget_def in_vault_def smodify_def sret_def Let_def
      prune_old_snapshots_def snapshot_keys_to_prune_def akeys_def
      saturating_add_def checked_add_def last_seqno_def checked_sub_def ex_saved_def ex_start_def ex_state_def
      new_app_def new_with_backend_def new_vault_state_def)


theorem snapshot_round_trip_witness:
  "\<exists>app'. recover_latest ex_from_str ex_store ex_start = (Inr None, app') \<and>
    aget (es_active_channels (app_vault app')) ''ch_1'' = Some ex_channel"
proof -
  have "\<exists>app'. recover_latest ex_from_str ex_store ex_start = (Inr (last_seqno (app_wal ex_saved)), app') \<and>
      restores (app_vault ex_saved) (app_vault app') \<and>
      es_snapshot_seqno (app_vault app') =
        es_snapshot_seqno (app_vault (ex_saved\<lparr>app_vault := app_vault ex_saved\<lparr>es_snapshot_seqno := 1\<rparr>\<rparr>)) \<and>
      app_processed app' = app_processed ex_saved \<and> app_last_signature app' = app_last_signature ex_saved"
    by (rule snapshot_round_trip [OF ex_saved_keyed _ ex_base58 _ _ ex_persisted])
      (simp_all add: ex_saved_def ex_start_def ex_state_def new_app_def new_vault_state_def akeys_def)
  then show ?thesis
    by (auto simp: restores_def ex_saved_def ex_start_def ex_state_def new_app_def new_with_backend_def
        last_seqno_def checked_sub_def)
qed

text \<open>The delivery was logged before the snapshot's request expired (at 230); the enclave starts again at 231.\<close>
theorem late_delivery_blocks_start_witness:
  "fst (recover_state ex_C ex_sha256 ex_from_str (\<lambda>_. ''id'') (\<lambda>_. 231) (Some ex_store)
    (ex_start\<lparr>app_wal := new_with_backend True (LocalFile [\<lparr>wr_seqno = 0, wr_timestamp = 160,
      wr_entry = ChannelAdaptorDelivered ''ch_1'' ''req'' (Some [1]) (Some [2]) (Some [3]) (Some [4]) (Some [5])
        (Some ex_pk)\<rparr>])\<rparr>)) = Inl (replay_error ''WAL replay failed'')"
  (is "fst (recover_state _ _ _ _ _ _ ?app0) = _")
proof -
  have recovered: "recover_latest ex_from_str ex_store ?app0 = (Inr None, ex_start\<lparr>app_wal := app_wal ?app0,
      app_vault := (app_vault ex_saved)\<lparr>es_snapshot_seqno := 1\<rparr>\<rparr>)"
    by (simp add: recover_latest_def apply_snapshot_def ex_store_def akeys_def capture_snapshot_def Let_def
        clear_vault_def insert_records_def store_counters_def inserted_def state_op_defs in_vault_def
        ex_base58 put_balance_def replayed_def refresh_client_max_lock_expires_at_def client_max_lock_def
        List.map_filter_def avals_def ex_saved_def ex_start_def ex_state_def new_app_def new_vault_state_def
        ex_channel_def ex_client_def)
  show ?thesis
    by (rule late_delivery_blocks_start [OF recovered, where ch = ex_channel and r = "the (ch_active_request ex_channel)"])
      (simp_all add: read_records_after_def read_records_def new_with_backend_def ex_saved_def ex_state_def ex_channel_def)
qed

end
