(* ===== verification/Vault_Funds.thy ===== *)
theory Vault_Funds
  imports Messages
begin

text \<open>
  The instructions that open a vault, move a client's tokens in and out, and govern its life cycle:
  \<^verbatim>\<open>initialize_vault\<close>, \<^verbatim>\<open>deposit\<close>, \<^verbatim>\<open>withdraw\<close>, \<^verbatim>\<open>pause_vault\<close>, \<^verbatim>\<open>announce_migration\<close>,
  \<^verbatim>\<open>retire_vault\<close> and \<^verbatim>\<open>rotate_auditor\<close>.

  Each instruction takes the keys of the accounts the transaction passes (a \<^verbatim>\<open>Signer\<close> argument is a
  key that signed) and its own arguments.  Accounts are loaded first, then those marked
  \<^verbatim>\<open>init\<close> are created at their derived address, then the constraints are checked in the order of the
  accounts struct, then the handler runs.
\<close>

section \<open>Definitions\<close>

definition vault_err :: "(VaultError, 'a) result \<Rightarrow> 'a tx" where
  "vault_err r = (case r of Inl e \<Rightarrow> Inl (Vault e) | Inr x \<Rightarrow> Inr x)"

text \<open>\<^verbatim>\<open>Pubkey::default()\<close>\<close>
definition pubkey_default :: pubkey where
  "pubkey_default = replicate 32 0"

definition vault_config_seeds :: "pubkey \<Rightarrow> u64 \<Rightarrow> bytes list" where
  "vault_config_seeds governance vault_id =
    [str_bytes ''vault_config'', governance, to_le_bytes vault_id]"

definition withdraw_nonce_seeds :: "pubkey \<Rightarrow> pubkey \<Rightarrow> u64 \<Rightarrow> bytes list" where
  "withdraw_nonce_seeds vault_config client withdraw_nonce =
    [str_bytes ''withdraw_nonce'', vault_config, client, to_le_bytes withdraw_nonce]"

text \<open>\<^verbatim>\<open>init, seeds = ..., bump\<close>: the account is at the derived address and not in use.\<close>
definition init_account :: "solana \<Rightarrow> bytes list \<Rightarrow> pubkey \<Rightarrow> chain \<Rightarrow> u8 tx" where
  "init_account S seeds key c =
    require (fst (sol_pda S seeds) = key) ConstraintSeeds (
    require (\<not> in_use c key) AccountAlreadyInUse (
    Inr (snd (sol_pda S seeds))))"

definition initialize_vault ::
  "solana \<Rightarrow> pubkey \<Rightarrow> pubkey \<Rightarrow> pubkey \<Rightarrow> pubkey \<Rightarrow> u64 \<Rightarrow> pubkey \<Rightarrow> bytes \<Rightarrow> bytes \<Rightarrow> chain \<Rightarrow>
    chain tx" where
  "initialize_vault S governance vault_config usdc_mint vault_token_account vault_id
      vault_signer_pubkey auditor_master_pubkey attestation_policy_hash c =
    rbind (init_account S (vault_config_seeds governance vault_id) vault_config c) (\<lambda>bump.
    rbind (init_account S [str_bytes ''vault_token'', vault_config] vault_token_account c) (\<lambda>_.
    require (vault_token_account \<noteq> vault_config) AccountAlreadyInUse (
    let vault = \<lparr>vc_bump = bump, vc_vault_id = vault_id, vc_governance = governance,
      vc_status = VAULT_STATUS_ACTIVE, vc_vault_signer_pubkey = vault_signer_pubkey,
      vc_usdc_mint = usdc_mint, vc_vault_token_account = vault_token_account,
      vc_auditor_master_pubkey = auditor_master_pubkey, vc_auditor_epoch = 0,
      vc_attestation_policy_hash = attestation_policy_hash,
      vc_successor_vault = pubkey_default, vc_exit_deadline = 0,
      vc_lifetime_deposited = 0, vc_lifetime_withdrawn = 0, vc_lifetime_settled = 0\<rparr>
    in Inr (c\<lparr>vaults := (vaults c)(vault_config \<mapsto> vault),
      tokens := (tokens c)(vault_token_account \<mapsto>
        \<lparr>ta_mint = usdc_mint, ta_owner = vault_config, ta_amount = 0\<rparr>)\<rparr>))))"

definition deposit ::
  "solana \<Rightarrow> pubkey \<Rightarrow> pubkey \<Rightarrow> pubkey \<Rightarrow> pubkey \<Rightarrow> u64 \<Rightarrow> chain \<Rightarrow> chain tx" where
  "deposit S client vault_config client_token_account vault_token_account amount c =
    ok_or (vaults c vault_config) AccountNotInitialized (\<lambda>vault.
    ok_or (tokens c client_token_account) AccountNotInitialized (\<lambda>client_token.
    ok_or (tokens c vault_token_account) AccountNotInitialized (\<lambda>_.
    require (vc_status vault = VAULT_STATUS_ACTIVE) (Vault VaultInactive) (
    require (ta_mint client_token = vc_usdc_mint vault) ConstraintRaw (
    require (ta_owner client_token = client) ConstraintRaw (
    require (vault_token_account = vc_vault_token_account vault) ConstraintAddress (
    require (0 < amount) (Vault InvalidAmount) (
    rbind (token_transfer S client_token_account vault_token_account client amount c) (\<lambda>c1.
    ok_or (checked_add (vc_lifetime_deposited vault) amount) (Vault ArithmeticOverflow) (\<lambda>total.
    Inr (c1\<lparr>vaults := (vaults c1)(vault_config \<mapsto>
      vault\<lparr>vc_lifetime_deposited := total\<rparr>)\<rparr>)))))))))))"

text \<open>The migration check shared by \<^verbatim>\<open>withdraw\<close>, \<^verbatim>\<open>settle_vault\<close> and \<^verbatim>\<open>record_audit\<close>.\<close>
definition check_exit_deadline :: "VaultConfig \<Rightarrow> i64 \<Rightarrow> bool" where
  "check_exit_deadline vault now =
    (vc_status vault = VAULT_STATUS_MIGRATING \<longrightarrow> sint now \<le> sint (vc_exit_deadline vault))"

definition withdraw ::
  "solana \<Rightarrow> sysvar \<Rightarrow> pubkey \<Rightarrow> pubkey \<Rightarrow> pubkey \<Rightarrow> pubkey \<Rightarrow> pubkey \<Rightarrow> u64 \<Rightarrow> u64 \<Rightarrow> i64 \<Rightarrow> chain \<Rightarrow>
    chain tx" where
  "withdraw S sv client vault_config vault_token_account client_token_account used_withdraw_nonce
      amount withdraw_nonce expires_at c =
    ok_or (vaults c vault_config) AccountNotInitialized (\<lambda>vault.
    ok_or (tokens c vault_token_account) AccountNotInitialized (\<lambda>_.
    ok_or (tokens c client_token_account) AccountNotInitialized (\<lambda>client_token.
    rbind (init_account S (withdraw_nonce_seeds vault_config client withdraw_nonce)
      used_withdraw_nonce c) (\<lambda>bump.
    require (vc_status vault = VAULT_STATUS_ACTIVE \<or> vc_status vault = VAULT_STATUS_MIGRATING)
      (Vault VaultInactive) (
    require (vault_token_account = vc_vault_token_account vault) ConstraintAddress (
    require (ta_mint client_token = vc_usdc_mint vault) ConstraintRaw (
    require (ta_owner client_token = client) ConstraintRaw (
    require (0 < amount) (Vault InvalidAmount) (
    require (check_exit_deadline vault (unix_timestamp c)) (Vault ExitDeadlineExceeded) (
    require (sint (unix_timestamp c) \<le> sint expires_at) (Vault WithdrawExpired) (
    rbind (vault_err (verify_ed25519_signature S sv (vc_vault_signer_pubkey vault)))
      (\<lambda>signed_message.
    let expected_message = client @ client_token_account @ to_le_bytes amount @
      to_le_bytes withdraw_nonce @ to_le_bytes expires_at @ vault_config in
    require (signed_message = expected_message) (Vault InvalidParticipantReceipt) (
    rbind (token_transfer S vault_token_account client_token_account vault_config amount c) (\<lambda>c1.
    ok_or (checked_add (vc_lifetime_withdrawn vault) amount) (Vault ArithmeticOverflow) (\<lambda>total.
    Inr (c1\<lparr>used_nonces := (used_nonces c1)(used_withdraw_nonce \<mapsto>
        \<lparr>un_bump = bump, un_vault = vault_config, un_client = client,
         un_withdraw_nonce = withdraw_nonce\<rparr>),
      vaults := (vaults c1)(vault_config \<mapsto>
        vault\<lparr>vc_lifetime_withdrawn := total\<rparr>)\<rparr>))))))))))))))))"

definition pause_vault :: "pubkey \<Rightarrow> pubkey \<Rightarrow> chain \<Rightarrow> chain tx" where
  "pause_vault governance vault_config c =
    ok_or (vaults c vault_config) AccountNotInitialized (\<lambda>vault.
    require (vc_governance vault = governance) ConstraintRaw (
    require (vc_status vault = VAULT_STATUS_ACTIVE) (Vault VaultAlreadyPaused) (
    Inr (c\<lparr>vaults := (vaults c)(vault_config \<mapsto> vault\<lparr>vc_status := VAULT_STATUS_PAUSED\<rparr>)\<rparr>))))"

definition announce_migration :: "pubkey \<Rightarrow> pubkey \<Rightarrow> pubkey \<Rightarrow> i64 \<Rightarrow> chain \<Rightarrow> chain tx" where
  "announce_migration governance vault_config successor_vault exit_deadline c =
    ok_or (vaults c vault_config) AccountNotInitialized (\<lambda>vault.
    require (vc_governance vault = governance) ConstraintRaw (
    require (vc_status vault = VAULT_STATUS_ACTIVE) (Vault VaultInactive) (
    require (sint (unix_timestamp c) < sint exit_deadline) (Vault ExitDeadlineExceeded) (
    Inr (c\<lparr>vaults := (vaults c)(vault_config \<mapsto> vault\<lparr>vc_status := VAULT_STATUS_MIGRATING,
      vc_successor_vault := successor_vault, vc_exit_deadline := exit_deadline\<rparr>)\<rparr>)))))"

definition retire_vault :: "pubkey \<Rightarrow> pubkey \<Rightarrow> chain \<Rightarrow> chain tx" where
  "retire_vault governance vault_config c =
    ok_or (vaults c vault_config) AccountNotInitialized (\<lambda>vault.
    require (vc_governance vault = governance) ConstraintRaw (
    require (vc_status vault = VAULT_STATUS_PAUSED \<or> vc_status vault = VAULT_STATUS_MIGRATING)
      (Vault InvalidStatusTransition) (
    require (vc_status vault = VAULT_STATUS_MIGRATING \<longrightarrow>
        sint (vc_exit_deadline vault) \<le> sint (unix_timestamp c)) (Vault ExitDeadlineNotReached) (
    Inr (c\<lparr>vaults := (vaults c)(vault_config \<mapsto> vault\<lparr>vc_status := VAULT_STATUS_RETIRED\<rparr>)\<rparr>)))))"

definition rotate_auditor :: "pubkey \<Rightarrow> pubkey \<Rightarrow> bytes \<Rightarrow> chain \<Rightarrow> chain tx" where
  "rotate_auditor governance vault_config new_auditor_master_pubkey c =
    ok_or (vaults c vault_config) AccountNotInitialized (\<lambda>vault.
    require (vc_governance vault = governance) ConstraintRaw (
    ok_or (checked_add (vc_auditor_epoch vault) 1) (Vault ArithmeticOverflow) (\<lambda>epoch.
    Inr (c\<lparr>vaults := (vaults c)(vault_config \<mapsto>
      vault\<lparr>vc_auditor_master_pubkey := new_auditor_master_pubkey, vc_auditor_epoch := epoch\<rparr>)\<rparr>))))"

section \<open>What a successful instruction did\<close>

lemma vault_err_ok [result_simps]: "vault_err r = Inr x \<longleftrightarrow> r = Inr x"
  by (simp add: vault_err_def split: sum.splits)

lemma init_account_ok [result_simps]:
  "init_account S seeds key c = Inr b \<longleftrightarrow>
    sol_pda S seeds = (key, b) \<and> \<not> in_use c key"
  by (auto simp: init_account_def result_simps prod_eq_iff)

lemma token_transfer_ok [result_simps]:
  "token_transfer S s d a n c = Inr c' \<longleftrightarrow>
    (\<exists>T. sol_transfer S s d a n (tokens c) = Some T \<and> c' = c\<lparr>tokens := T\<rparr>)"
  by (auto simp: token_transfer_def result_simps)

lemma verify_signature_ok [result_simps]:
  "verify_ed25519_signature S sv pk = Inr m \<longleftrightarrow>
    (\<exists>v. verify_ed25519_signature_details S sv pk = Inr v \<and> m = ve_message v)"
  by (auto simp: verify_ed25519_signature_def result_simps)

lemma deposit_ok:
  assumes "deposit S client vk ctk vtk amount c = Inr c'"
  obtains vault ct T total where "vaults c vk = Some vault" "tokens c ctk = Some ct"
    "vc_status vault = VAULT_STATUS_ACTIVE" "ta_owner ct = client"
    "ta_mint ct = vc_usdc_mint vault" "vtk = vc_vault_token_account vault" "0 < amount"
    "sol_transfer S ctk vtk client amount (tokens c) = Some T"
    "checked_add (vc_lifetime_deposited vault) amount = Some total"
    "c' = c\<lparr>tokens := T, vaults := (vaults c)(vk \<mapsto> vault\<lparr>vc_lifetime_deposited := total\<rparr>)\<rparr>"
  using assms by (auto simp: deposit_def result_simps)

lemma withdraw_ok:
  assumes "withdraw S sv client vk vtk ctk nk amount nonce expires c = Inr c'"
  obtains vault ct bump v T total where "vaults c vk = Some vault" "tokens c ctk = Some ct"
    "sol_pda S (withdraw_nonce_seeds vk client nonce) = (nk, bump)" "\<not> in_use c nk"
    "vc_status vault = VAULT_STATUS_ACTIVE \<or> vc_status vault = VAULT_STATUS_MIGRATING"
    "vtk = vc_vault_token_account vault" "ta_mint ct = vc_usdc_mint vault" "ta_owner ct = client"
    "0 < amount" "check_exit_deadline vault (unix_timestamp c)"
    "sint (unix_timestamp c) \<le> sint expires"
    "verify_ed25519_signature_details S sv (vc_vault_signer_pubkey vault) = Inr v"
    "ve_message v = build_withdraw_authorization_message vk client ctk amount nonce expires"
    "sol_transfer S vtk ctk vk amount (tokens c) = Some T"
    "checked_add (vc_lifetime_withdrawn vault) amount = Some total"
    "c' = c\<lparr>tokens := T,
      used_nonces := (used_nonces c)(nk \<mapsto> \<lparr>un_bump = bump, un_vault = vk, un_client = client,
        un_withdraw_nonce = nonce\<rparr>),
      vaults := (vaults c)(vk \<mapsto> vault\<lparr>vc_lifetime_withdrawn := total\<rparr>)\<rparr>"
  using assms unfolding withdraw_def Let_def result_simps
  by (elim exE conjE, intro that)
    (assumption | simp add: build_withdraw_authorization_message_def)+

lemmas lifecycle_defs = pause_vault_def announce_migration_def retire_vault_def rotate_auditor_def

end
