(* ===== verification/Vault_Settle.thy ===== *)
theory Vault_Settle
  imports Vault_Funds
begin

text \<open>
  The atomic settlement of a batch: \<^verbatim>\<open>settle_vault\<close> pays the providers, \<^verbatim>\<open>record_audit\<close> stores
  the encrypted audit records, and each of the two refuses to run unless the other is an
  instruction of the same transaction with the same batch identifier and chunk hash
  (\<^verbatim>\<open>batch_hash.rs\<close>, \<^verbatim>\<open>instructions/settle_vault.rs\<close>, \<^verbatim>\<open>instructions/record_audit.rs\<close>).
\<close>

section \<open>Entries, records and the chunk hash\<close>

record SettlementEntry =
  se_provider_token_account :: pubkey
  se_amount :: u64

record AuditRecordData =
  rd_encrypted_sender :: bytes
  rd_encrypted_amount :: bytes
  rd_provider :: pubkey
  rd_timestamp :: i64

text \<open>The bytes an entry or a record contributes to the hash; they are also its serialized form.\<close>
definition settlement_bytes :: "SettlementEntry \<Rightarrow> bytes" where
  "settlement_bytes s = se_provider_token_account s @ to_le_bytes (se_amount s)"

definition record_bytes :: "AuditRecordData \<Rightarrow> bytes" where
  "record_bytes r = rd_encrypted_sender r @ rd_encrypted_amount r @ rd_provider r @
    to_le_bytes (rd_timestamp r)"

definition batch_chunk_preimage ::
  "u64 \<Rightarrow> SettlementEntry list \<Rightarrow> AuditRecordData list \<Rightarrow> bytes" where
  "batch_chunk_preimage batch_id settlements records =
    str_bytes ''subly402-batch-chunk-v1'' @ to_le_bytes batch_id @
    concat (map settlement_bytes settlements) @ concat (map record_bytes records)"

definition compute_batch_chunk_hash ::
  "solana \<Rightarrow> u64 \<Rightarrow> SettlementEntry list \<Rightarrow> AuditRecordData list \<Rightarrow> bytes" where
  "compute_batch_chunk_hash S batch_id settlements records =
    sol_sha256 S (batch_chunk_preimage batch_id settlements records)"

section \<open>Deserialization\<close>

text \<open>Borsh reads the fields of a struct in order and a vector as a 32-bit count followed by its
  elements; what follows the vector is ignored.\<close>

definition deser_settlement :: "bytes \<Rightarrow> (SettlementEntry \<times> bytes) option" where
  "deser_settlement bs = (if length bs < 40 then None
    else Some (\<lparr>se_provider_token_account = slice bs 0 32,
                se_amount = from_le_bytes (slice bs 32 8)\<rparr>, drop 40 bs))"

definition deser_record :: "bytes \<Rightarrow> (AuditRecordData \<times> bytes) option" where
  "deser_record bs = (if length bs < 168 then None
    else Some (\<lparr>rd_encrypted_sender = slice bs 0 64, rd_encrypted_amount = slice bs 64 64,
                rd_provider = slice bs 128 32,
                rd_timestamp = from_le_bytes (slice bs 160 8)\<rparr>, drop 168 bs))"

fun deser_elems :: "nat \<Rightarrow> (bytes \<Rightarrow> ('a \<times> bytes) option) \<Rightarrow> bytes \<Rightarrow> 'a list option" where
  "deser_elems 0 f bs = Some []"
| "deser_elems (Suc n) f bs =
    (case f bs of None \<Rightarrow> None
     | Some (x, rest) \<Rightarrow> map_option (\<lambda>xs. x # xs) (deser_elems n f rest))"

definition deser_vec :: "(bytes \<Rightarrow> ('a \<times> bytes) option) \<Rightarrow> bytes \<Rightarrow> 'a list option" where
  "deser_vec f bs = (if length bs < 4 then None
    else deser_elems (unat (u32_from_le (take 4 bs))) f (drop 4 bs))"

definition instruction_discriminator :: "solana \<Rightarrow> string \<Rightarrow> bytes" where
  "instruction_discriminator S name = take 8 (sol_sha256 S (str_bytes (''global:'' @ name)))"

record ParsedRecordAudit =
  pa_batch_id :: u64
  pa_batch_chunk_hash :: bytes
  pa_records :: "AuditRecordData list"

record ParsedSettleVault =
  ps_batch_id :: u64
  ps_batch_chunk_hash :: bytes
  ps_settlements :: "SettlementEntry list"

definition parse_record_audit_instruction ::
  "solana \<Rightarrow> instruction \<Rightarrow> bytes \<Rightarrow> ParsedRecordAudit option" where
  "parse_record_audit_instruction S ix disc =
    (let d = ix_data ix in
     if ix_program_id ix \<noteq> sol_program_id S \<or> length d < 48 \<or> take 8 d \<noteq> disc then None
     else map_option
       (\<lambda>rs. \<lparr>pa_batch_id = from_le_bytes (slice d 8 8), pa_batch_chunk_hash = slice d 16 32,
              pa_records = rs\<rparr>)
       (deser_vec deser_record (drop 48 d)))"

definition parse_settle_vault_instruction ::
  "solana \<Rightarrow> instruction \<Rightarrow> bytes \<Rightarrow> ParsedSettleVault option" where
  "parse_settle_vault_instruction S ix disc =
    (let d = ix_data ix in
     if ix_program_id ix \<noteq> sol_program_id S \<or> length d < 48 \<or> take 8 d \<noteq> disc then None
     else map_option
       (\<lambda>ss. \<lparr>ps_batch_id = from_le_bytes (slice d 8 8), ps_batch_chunk_hash = slice d 16 32,
              ps_settlements = ss\<rparr>)
       (deser_vec deser_settlement (drop 48 d)))"

section \<open>Pairing\<close>

text \<open>The scan over the first 32 instructions: the argument is how many indexes are left.
  The current instruction is skipped, an index that cannot be loaded ends the scan.\<close>
fun scan_record_audit ::
  "solana \<Rightarrow> sysvar \<Rightarrow> nat \<Rightarrow> u64 \<Rightarrow> bytes \<Rightarrow> pubkey \<Rightarrow> SettlementEntry list \<Rightarrow> nat \<Rightarrow>
    (VaultError, unit) result" where
  "scan_record_audit S sv cur batch_id chunk_hash vault_config settlements 0 =
    Inl SettleVaultWithoutAudit"
| "scan_record_audit S sv cur batch_id chunk_hash vault_config settlements (Suc n) =
    (let i = 31 - n in
     if i = cur then scan_record_audit S sv cur batch_id chunk_hash vault_config settlements n
     else case load_instruction_at_checked i sv of
       None \<Rightarrow> Inl SettleVaultWithoutAudit
     | Some ix \<Rightarrow>
         (case parse_record_audit_instruction S ix (instruction_discriminator S ''record_audit'') of
            None \<Rightarrow> scan_record_audit S sv cur batch_id chunk_hash vault_config settlements n
          | Some parsed \<Rightarrow>
              if pa_batch_id parsed \<noteq> batch_id \<or> pa_batch_chunk_hash parsed \<noteq> chunk_hash \<or>
                 length (ix_accounts ix) < 2 \<or> ix_accounts ix ! 1 \<noteq> vault_config
              then scan_record_audit S sv cur batch_id chunk_hash vault_config settlements n
              else require
                (compute_batch_chunk_hash S batch_id settlements (pa_records parsed) = chunk_hash)
                AtomicChunkHashMismatch (Inr ())))"

definition verify_record_audit_pairing ::
  "solana \<Rightarrow> sysvar \<Rightarrow> u64 \<Rightarrow> bytes \<Rightarrow> pubkey \<Rightarrow> SettlementEntry list \<Rightarrow>
    (VaultError, unit) result" where
  "verify_record_audit_pairing S sv batch_id chunk_hash vault_config settlements =
    ok_or (sv_current_index sv) SettleVaultWithoutAudit (\<lambda>cur.
      scan_record_audit S sv (unat cur) batch_id chunk_hash vault_config settlements 32)"

fun scan_settle_vault ::
  "solana \<Rightarrow> sysvar \<Rightarrow> nat \<Rightarrow> u64 \<Rightarrow> bytes \<Rightarrow> pubkey \<Rightarrow> AuditRecordData list \<Rightarrow> nat \<Rightarrow>
    (VaultError, unit) result" where
  "scan_settle_vault S sv cur batch_id chunk_hash vault_config records 0 =
    Inl RecordAuditWithoutSettle"
| "scan_settle_vault S sv cur batch_id chunk_hash vault_config records (Suc n) =
    (let i = 31 - n in
     if i = cur then scan_settle_vault S sv cur batch_id chunk_hash vault_config records n
     else case load_instruction_at_checked i sv of
       None \<Rightarrow> Inl RecordAuditWithoutSettle
     | Some ix \<Rightarrow>
         (case parse_settle_vault_instruction S ix (instruction_discriminator S ''settle_vault'') of
            None \<Rightarrow> scan_settle_vault S sv cur batch_id chunk_hash vault_config records n
          | Some parsed \<Rightarrow>
              if ps_batch_id parsed \<noteq> batch_id \<or> ps_batch_chunk_hash parsed \<noteq> chunk_hash \<or>
                 length (ix_accounts ix) < 2 \<or> ix_accounts ix ! 1 \<noteq> vault_config
              then scan_settle_vault S sv cur batch_id chunk_hash vault_config records n
              else require
                (compute_batch_chunk_hash S batch_id (ps_settlements parsed) records = chunk_hash)
                AtomicChunkHashMismatch (Inr ())))"

definition verify_settle_vault_pairing ::
  "solana \<Rightarrow> sysvar \<Rightarrow> u64 \<Rightarrow> bytes \<Rightarrow> pubkey \<Rightarrow> AuditRecordData list \<Rightarrow>
    (VaultError, unit) result" where
  "verify_settle_vault_pairing S sv batch_id chunk_hash vault_config records =
    ok_or (sv_current_index sv) RecordAuditWithoutSettle (\<lambda>cur.
      scan_settle_vault S sv (unat cur) batch_id chunk_hash vault_config records 32)"

section \<open>The two instructions\<close>

text \<open>The payment loop: entries with the remaining account at the same position, the running
  total and the chain.\<close>
fun settle_loop ::
  "solana \<Rightarrow> pubkey \<Rightarrow> pubkey \<Rightarrow> (SettlementEntry \<times> pubkey) list \<Rightarrow> u64 \<Rightarrow> chain \<Rightarrow>
    (u64 \<times> chain) tx" where
  "settle_loop S vault_config vault_token_account [] total_settled c = Inr (total_settled, c)"
| "settle_loop S vault_config vault_token_account ((entry, provider_account) # rest) total_settled c =
    require (0 < se_amount entry) (Vault InvalidAmount) (
    require (provider_account = se_provider_token_account entry) (Vault InvalidAmount) (
    rbind (token_transfer S vault_token_account provider_account vault_config (se_amount entry) c)
      (\<lambda>c1.
    ok_or (checked_add total_settled (se_amount entry)) (Vault ArithmeticOverflow) (\<lambda>total1.
    settle_loop S vault_config vault_token_account rest total1 c1))))"

definition settle_vault ::
  "solana \<Rightarrow> sysvar \<Rightarrow> pubkey \<Rightarrow> pubkey \<Rightarrow> pubkey \<Rightarrow> pubkey list \<Rightarrow> u64 \<Rightarrow> bytes \<Rightarrow>
    SettlementEntry list \<Rightarrow> chain \<Rightarrow> chain tx" where
  "settle_vault S sv vault_signer vault_config vault_token_account remaining_accounts batch_id
      batch_chunk_hash settlements c =
    ok_or (vaults c vault_config) AccountNotInitialized (\<lambda>vault.
    ok_or (tokens c vault_token_account) AccountNotInitialized (\<lambda>_.
    require (vc_vault_signer_pubkey vault = vault_signer) (Vault InvalidVaultSigner) (
    require (vc_status vault = VAULT_STATUS_ACTIVE \<or> vc_status vault = VAULT_STATUS_MIGRATING)
      (Vault VaultInactive) (
    require (vault_token_account = vc_vault_token_account vault) ConstraintAddress (
    require (length settlements \<le> MAX_SETTLEMENTS_PER_TX) (Vault TooManySettlements) (
    require (settlements \<noteq> []) (Vault InvalidAmount) (
    require (check_exit_deadline vault (unix_timestamp c)) (Vault ExitDeadlineExceeded) (
    rbind (vault_err (verify_record_audit_pairing S sv batch_id batch_chunk_hash vault_config
      settlements)) (\<lambda>_.
    require (length remaining_accounts = length settlements) (Vault InvalidAmount) (
    rbind (settle_loop S vault_config vault_token_account (zip settlements remaining_accounts) 0 c)
      (\<lambda>(total_settled, c1).
    ok_or (checked_add (vc_lifetime_settled vault) total_settled) (Vault ArithmeticOverflow) (\<lambda>l.
    Inr (c1\<lparr>vaults := (vaults c1)(vault_config \<mapsto> vault\<lparr>vc_lifetime_settled := l\<rparr>)\<rparr>)))))))))))))"

definition audit_seeds :: "pubkey \<Rightarrow> u64 \<Rightarrow> u8 \<Rightarrow> bytes list" where
  "audit_seeds vault_key batch_id index =
    [str_bytes ''audit'', vault_key, to_le_bytes batch_id, [index]]"

text \<open>The search over the 256 possible indexes, in order.\<close>
definition resolve_audit_index ::
  "solana \<Rightarrow> pubkey \<Rightarrow> u64 \<Rightarrow> pubkey \<Rightarrow> (VaultError, u8 \<times> u8) result" where
  "resolve_audit_index S vault_key batch_id account_key =
    (case find (\<lambda>index. fst (sol_pda S (audit_seeds vault_key batch_id index)) = account_key)
        (map word_of_nat [0..<256]) of
       None \<Rightarrow> Inl AuditRecordIndexOutOfOrder
     | Some index \<Rightarrow> Inr (index, snd (sol_pda S (audit_seeds vault_key batch_id index))))"

fun audit_loop ::
  "solana \<Rightarrow> pubkey \<Rightarrow> u64 \<Rightarrow> u32 \<Rightarrow> (AuditRecordData \<times> pubkey) list \<Rightarrow> u8 option \<Rightarrow> chain \<Rightarrow>
    chain tx" where
  "audit_loop S vault_key batch_id auditor_epoch [] next_expected_index c = Inr c"
| "audit_loop S vault_key batch_id auditor_epoch ((d, audit_account) # rest) next_expected_index c =
    rbind (vault_err (resolve_audit_index S vault_key batch_id audit_account)) (\<lambda>(index, bump).
    require (case next_expected_index of None \<Rightarrow> True | Some e \<Rightarrow> index = e)
      (Vault AuditRecordIndexOutOfOrder) (
    require (\<not> in_use c audit_account) AccountAlreadyInUse (
    audit_loop S vault_key batch_id auditor_epoch rest (checked_add index 1)
      (c\<lparr>audits := (audits c)(audit_account \<mapsto>
        \<lparr>au_bump = bump, au_vault = vault_key, au_batch_id = batch_id, au_index = index,
         au_encrypted_sender = rd_encrypted_sender d, au_encrypted_amount = rd_encrypted_amount d,
         au_provider = rd_provider d, au_timestamp = rd_timestamp d,
         au_auditor_epoch = auditor_epoch\<rparr>)\<rparr>))))"

definition record_audit ::
  "solana \<Rightarrow> sysvar \<Rightarrow> pubkey \<Rightarrow> pubkey \<Rightarrow> pubkey list \<Rightarrow> u64 \<Rightarrow> bytes \<Rightarrow> AuditRecordData list \<Rightarrow>
    chain \<Rightarrow> chain tx" where
  "record_audit S sv vault_signer vault_config remaining batch_id batch_chunk_hash records c =
    ok_or (vaults c vault_config) AccountNotInitialized (\<lambda>vault.
    require (vc_vault_signer_pubkey vault = vault_signer) (Vault InvalidVaultSigner) (
    require (vc_status vault = VAULT_STATUS_ACTIVE \<or> vc_status vault = VAULT_STATUS_MIGRATING)
      (Vault VaultInactive) (
    require (records \<noteq> [] \<and> length records \<le> MAX_ATOMIC_AUDITS_PER_TX) (Vault InvalidAmount) (
    require (check_exit_deadline vault (unix_timestamp c)) (Vault ExitDeadlineExceeded) (
    rbind (vault_err (verify_settle_vault_pairing S sv batch_id batch_chunk_hash vault_config
      records)) (\<lambda>_.
    require (length remaining = length records) (Vault InvalidAmount) (
    audit_loop S vault_config batch_id (vc_auditor_epoch vault) (zip records remaining) None c)))))))"

section \<open>The chunk hash determines the chunk\<close>

definition settlement_wf :: "SettlementEntry \<Rightarrow> bool" where
  "settlement_wf s = (length (se_provider_token_account s) = 32)"

definition record_wf :: "AuditRecordData \<Rightarrow> bool" where
  "record_wf r = (length (rd_encrypted_sender r) = 64 \<and> length (rd_encrypted_amount r) = 64 \<and>
    length (rd_provider r) = 32)"

text \<open>A chunk within the limits of the two instructions, with byte arrays of their declared
  lengths.\<close>
definition chunk_wf :: "SettlementEntry list \<Rightarrow> AuditRecordData list \<Rightarrow> bool" where
  "chunk_wf ss rs = (list_all settlement_wf ss \<and> list_all record_wf rs \<and>
    ss \<noteq> [] \<and> length ss \<le> MAX_SETTLEMENTS_PER_TX \<and>
    rs \<noteq> [] \<and> length rs \<le> MAX_ATOMIC_AUDITS_PER_TX)"

definition decode_settlement :: "bytes \<Rightarrow> SettlementEntry option" where
  "decode_settlement bs = (if length bs = 40 then map_option fst (deser_settlement bs) else None)"

definition decode_record :: "bytes \<Rightarrow> AuditRecordData option" where
  "decode_record bs = (if length bs = 168 then map_option fst (deser_record bs) else None)"

interpretation settlement_codec: fixed_codec settlement_bytes decode_settlement settlement_wf 40
proof unfold_locales
  fix x :: SettlementEntry and bs :: bytes
  show "settlement_wf x \<Longrightarrow> decode_settlement (settlement_bytes x) = Some x"
    by (cases x) (simp add: settlement_wf_def settlement_bytes_def decode_settlement_def
        deser_settlement_def slice_simps)
  show "settlement_wf x \<Longrightarrow> length (settlement_bytes x) = 40"
    by (simp add: settlement_wf_def settlement_bytes_def)
  show "decode_settlement bs = Some x \<Longrightarrow> settlement_wf x \<and> settlement_bytes x = bs"
  proof -
    assume "decode_settlement bs = Some x"
    then have len: "length bs = 40" and x: "x = \<lparr>se_provider_token_account = slice bs 0 32,
        se_amount = from_le_bytes (slice bs 32 8)\<rparr>"
      by (auto simp: decode_settlement_def deser_settlement_def split: if_splits)
    have "settlement_bytes x = slice bs 0 32 @ slice bs 32 8"
      using len by (simp add: x settlement_bytes_def to_from_le_slice)
    also have "\<dots> = bs"
      using len slice_full [of bs] by (simp add: slice_join slice_join_rest)
    finally show ?thesis
      using len by (simp add: x settlement_wf_def)
  qed
qed

interpretation record_codec: fixed_codec record_bytes decode_record record_wf 168
proof unfold_locales
  fix x :: AuditRecordData and bs :: bytes
  show "record_wf x \<Longrightarrow> decode_record (record_bytes x) = Some x"
    by (cases x) (simp add: record_wf_def record_bytes_def decode_record_def
        deser_record_def slice_simps)
  show "record_wf x \<Longrightarrow> length (record_bytes x) = 168"
    by (simp add: record_wf_def record_bytes_def)
  show "decode_record bs = Some x \<Longrightarrow> record_wf x \<and> record_bytes x = bs"
  proof -
    assume "decode_record bs = Some x"
    then have len: "length bs = 168" and x: "x = \<lparr>rd_encrypted_sender = slice bs 0 64, rd_encrypted_amount = slice bs 64 64,
        rd_provider = slice bs 128 32, rd_timestamp = from_le_bytes (slice bs 160 8)\<rparr>"
      by (auto simp: decode_record_def deser_record_def split: if_splits)
    have "record_bytes x = slice bs 0 64 @ slice bs 64 64 @ slice bs 128 32 @ slice bs 160 8"
      using len by (simp add: x record_bytes_def to_from_le_slice)
    also have "\<dots> = bs"
      using len slice_full [of bs] by (simp add: slice_join slice_join_rest)
    finally show ?thesis
      using len by (simp add: x record_wf_def)
  qed
qed

text \<open>There are no length fields in the preimage.  Within the limits the total length still
  determines both counts: entries contribute 40 bytes, records 168.\<close>
lemma chunk_counts:
  fixes s r s' r' :: nat
  assumes "40 * s + 168 * r = 40 * s' + 168 * r'" "1 \<le> r" "r \<le> 5" "1 \<le> r'" "r' \<le> 5"
  shows "s = s' \<and> r = r'"
proof -
  have "5 * s + 21 * r = 5 * s' + 21 * r'" using assms(1) by simp
  then have "r + 5 * (s + 4 * r) = r' + 5 * (s' + 4 * r')" by simp
  then have m: "r mod 5 = r' mod 5" by (metis mod_mult_self2)
  have five: "k mod 5 = (if k = 5 then 0 else k)" if "k \<le> 5" for k :: nat
    using that by auto
  have "r = r'" using m five [OF assms(3)] five [OF assms(5)] assms(2,4) by (auto split: if_splits)
  then show ?thesis using assms(1) by simp
qed

lemma preimage_inject:
  assumes wf: "chunk_wf ss rs" "chunk_wf ss' rs'"
    and eq: "batch_chunk_preimage b ss rs = batch_chunk_preimage b' ss' rs'"
  shows "b = b' \<and> ss = ss' \<and> rs = rs'"
proof -
  let ?s = "concat (map settlement_bytes ss)" and ?s' = "concat (map settlement_bytes ss')"
  let ?r = "concat (map record_bytes rs)" and ?r' = "concat (map record_bytes rs')"
  have all: "\<forall>x\<in>set ss. settlement_wf x" "\<forall>x\<in>set ss'. settlement_wf x"
      "\<forall>x\<in>set rs. record_wf x" "\<forall>x\<in>set rs'. record_wf x"
    using wf by (auto simp: chunk_wf_def list_all_iff)
  have body: "b = b'" "?s @ ?r = ?s' @ ?r'"
    using eq by (simp_all add: batch_chunk_preimage_def)
  then have "length (?s @ ?r) = length (?s' @ ?r')" by simp
  then have lens: "40 * length ss + 168 * length rs = 40 * length ss' + 168 * length rs'"
    unfolding length_append
    by (simp only: settlement_codec.concat_length [OF all(1)]
        settlement_codec.concat_length [OF all(2)] record_codec.concat_length [OF all(3)]
        record_codec.concat_length [OF all(4)])
  have "1 \<le> length rs" "length rs \<le> 5" "1 \<le> length rs'" "length rs' \<le> 5"
    using wf by (simp_all add: chunk_wf_def MAX_ATOMIC_AUDITS_PER_TX_def Suc_le_eq)
  then have counts: "length ss = length ss'" "length rs = length rs'"
    using chunk_counts [OF lens] by simp_all
  have "ss = ss' \<and> ?r = ?r'"
    using settlement_codec.concat_inject [OF all(1,2) counts(1)] body(2) by blast
  moreover have "rs = rs' \<longleftrightarrow> ?r = ?r'"
    using record_codec.concat_inject [OF all(3,4) counts(2), of "[]" "[]"] by simp
  ultimately show ?thesis using body(1) by simp
qed

section \<open>What the pairing checks found\<close>

lemma scan_record_audit_ok:
  "scan_record_audit S sv cur b h vk ss n = Inr () \<Longrightarrow>
    \<exists>i ix p. i < 32 \<and> i \<noteq> cur \<and> load_instruction_at_checked i sv = Some ix \<and>
      parse_record_audit_instruction S ix (instruction_discriminator S ''record_audit'') = Some p \<and>
      pa_batch_id p = b \<and> pa_batch_chunk_hash p = h \<and> 2 \<le> length (ix_accounts ix) \<and>
      ix_accounts ix ! 1 = vk \<and> compute_batch_chunk_hash S b ss (pa_records p) = h"
proof (induction n)
  case (Suc n)
  let ?i = "31 - n"
  show ?case
  proof (cases "scan_record_audit S sv cur b h vk ss n = Inr ()")
    case True
    then show ?thesis by (rule Suc.IH)
  next
    case False
    with Suc.prems have "?i \<noteq> cur" by (auto simp: Let_def split: if_splits)
    moreover from Suc.prems False \<open>?i \<noteq> cur\<close> obtain ix where
      ix: "load_instruction_at_checked ?i sv = Some ix"
      by (auto simp: Let_def split: if_splits option.splits)
    moreover from Suc.prems False \<open>?i \<noteq> cur\<close> ix obtain p where
      "parse_record_audit_instruction S ix (instruction_discriminator S ''record_audit'') = Some p"
      "pa_batch_id p = b" "pa_batch_chunk_hash p = h" "2 \<le> length (ix_accounts ix)"
      "ix_accounts ix ! 1 = vk" "compute_batch_chunk_hash S b ss (pa_records p) = h"
      by (fastforce simp: Let_def result_simps split: if_splits option.splits)
    ultimately show ?thesis by (intro exI [of _ ?i] exI [of _ ix] exI [of _ p]) simp
  qed
qed simp

lemma scan_settle_vault_ok:
  "scan_settle_vault S sv cur b h vk rs n = Inr () \<Longrightarrow>
    \<exists>i ix p. i < 32 \<and> i \<noteq> cur \<and> load_instruction_at_checked i sv = Some ix \<and>
      parse_settle_vault_instruction S ix (instruction_discriminator S ''settle_vault'') = Some p \<and>
      ps_batch_id p = b \<and> ps_batch_chunk_hash p = h \<and> 2 \<le> length (ix_accounts ix) \<and>
      ix_accounts ix ! 1 = vk \<and> compute_batch_chunk_hash S b (ps_settlements p) rs = h"
proof (induction n)
  case (Suc n)
  let ?i = "31 - n"
  show ?case
  proof (cases "scan_settle_vault S sv cur b h vk rs n = Inr ()")
    case True
    then show ?thesis by (rule Suc.IH)
  next
    case False
    with Suc.prems have "?i \<noteq> cur" by (auto simp: Let_def split: if_splits)
    moreover from Suc.prems False \<open>?i \<noteq> cur\<close> obtain ix where
      ix: "load_instruction_at_checked ?i sv = Some ix"
      by (auto simp: Let_def split: if_splits option.splits)
    moreover from Suc.prems False \<open>?i \<noteq> cur\<close> ix obtain p where
      "parse_settle_vault_instruction S ix (instruction_discriminator S ''settle_vault'') = Some p"
      "ps_batch_id p = b" "ps_batch_chunk_hash p = h" "2 \<le> length (ix_accounts ix)"
      "ix_accounts ix ! 1 = vk" "compute_batch_chunk_hash S b (ps_settlements p) rs = h"
      by (fastforce simp: Let_def result_simps split: if_splits option.splits)
    ultimately show ?thesis by (intro exI [of _ ?i] exI [of _ ix] exI [of _ p]) simp
  qed
qed simp

lemma settle_pairing_ok:
  assumes "verify_record_audit_pairing S sv b h vk ss = Inr ()"
  obtains i ix p where "load_instruction_at_checked i sv = Some ix"
    "sv_current_index sv \<noteq> Some (word_of_nat i)"
    "parse_record_audit_instruction S ix (instruction_discriminator S ''record_audit'') = Some p"
    "pa_batch_id p = b" "pa_batch_chunk_hash p = h" "2 \<le> length (ix_accounts ix)"
    "ix_accounts ix ! 1 = vk" "compute_batch_chunk_hash S b ss (pa_records p) = h"
proof -
  obtain cur where cur: "sv_current_index sv = Some cur"
      and scan: "scan_record_audit S sv (unat cur) b h vk ss 32 = Inr ()"
    using assms by (auto simp: verify_record_audit_pairing_def result_simps)
  from scan_record_audit_ok [OF scan] obtain i ix p where
    *: "i < 32" "i \<noteq> unat cur" "load_instruction_at_checked i sv = Some ix"
      "parse_record_audit_instruction S ix (instruction_discriminator S ''record_audit'') = Some p"
      "pa_batch_id p = b" "pa_batch_chunk_hash p = h" "2 \<le> length (ix_accounts ix)"
      "ix_accounts ix ! 1 = vk" "compute_batch_chunk_hash S b ss (pa_records p) = h"
    by blast
  have "cur \<noteq> word_of_nat i" using *(1,2) by (auto simp: unat_of_nat)
  with cur that * show thesis by simp
qed

lemma audit_pairing_ok:
  assumes "verify_settle_vault_pairing S sv b h vk rs = Inr ()"
  obtains i ix p where "load_instruction_at_checked i sv = Some ix"
    "sv_current_index sv \<noteq> Some (word_of_nat i)"
    "parse_settle_vault_instruction S ix (instruction_discriminator S ''settle_vault'') = Some p"
    "ps_batch_id p = b" "ps_batch_chunk_hash p = h" "2 \<le> length (ix_accounts ix)"
    "ix_accounts ix ! 1 = vk" "compute_batch_chunk_hash S b (ps_settlements p) rs = h"
proof -
  obtain cur where cur: "sv_current_index sv = Some cur"
      and scan: "scan_settle_vault S sv (unat cur) b h vk rs 32 = Inr ()"
    using assms by (auto simp: verify_settle_vault_pairing_def result_simps)
  from scan_settle_vault_ok [OF scan] obtain i ix p where
    *: "i < 32" "i \<noteq> unat cur" "load_instruction_at_checked i sv = Some ix"
      "parse_settle_vault_instruction S ix (instruction_discriminator S ''settle_vault'') = Some p"
      "ps_batch_id p = b" "ps_batch_chunk_hash p = h" "2 \<le> length (ix_accounts ix)"
      "ix_accounts ix ! 1 = vk" "compute_batch_chunk_hash S b (ps_settlements p) rs = h"
    by blast
  have "cur \<noteq> word_of_nat i" using *(1,2) by (auto simp: unat_of_nat)
  with cur that * show thesis by simp
qed

section \<open>What the loops do\<close>

text \<open>The sum of the amounts, and the part of it that goes to one account.\<close>
definition amount_sum :: "SettlementEntry list \<Rightarrow> nat" where
  "amount_sum es = sum_list (map (\<lambda>e. unat (se_amount e)) es)"

definition paid_to :: "pubkey \<Rightarrow> SettlementEntry list \<Rightarrow> nat" where
  "paid_to k es = amount_sum (filter (\<lambda>e. se_provider_token_account e = k) es)"

lemma amount_sum_simps [simp]:
  "amount_sum [] = 0" "amount_sum (e # es) = unat (se_amount e) + amount_sum es"
  by (simp_all add: amount_sum_def)

lemma paid_to_simps [simp]:
  "paid_to k [] = 0"
  "paid_to k (e # es) =
    (if se_provider_token_account e = k then unat (se_amount e) else 0) + paid_to k es"
  by (simp_all add: paid_to_def)

lemma paid_to_le: "paid_to k es \<le> amount_sum es"
  by (induction es) auto

lemma settle_loop_Cons:
  assumes "settle_loop S vk vtk (x # es) t c = Inr (t', c')"
  obtains T t1 where "0 < se_amount (fst x)" "snd x = se_provider_token_account (fst x)"
    "sol_transfer S vtk (snd x) vk (se_amount (fst x)) (tokens c) = Some T"
    "checked_add t (se_amount (fst x)) = Some t1"
    "settle_loop S vk vtk es t1 (c\<lparr>tokens := T\<rparr>) = Inr (t', c')"
  using assms by (cases x) (auto simp: result_simps)

lemma settle_loop_frame:
  assumes "settle_loop S vk vtk es t c = Inr (t', c')"
  shows "c' = c\<lparr>tokens := tokens c'\<rparr>"
  using assms
proof (induction es arbitrary: t c)
  case (Cons x es)
  then show ?case by (elim settle_loop_Cons) (drule Cons.IH, simp)
qed simp

lemma settle_loop_total:
  assumes "settle_loop S vk vtk es t c = Inr (t', c')"
  shows "unat t' = unat t + amount_sum (map fst es)"
  using assms
proof (induction es arbitrary: t c)
  case (Cons x es)
  from Cons.prems show ?case
    by (elim settle_loop_Cons) (drule Cons.IH, simp add: unat_checked_add)
qed simp

lemma settle_loop_balance:
  assumes tp: "token_program (sol_transfer S)"
    and "settle_loop S vk vtk es t c = Inr (t', c')"
  shows "k \<noteq> vtk \<longrightarrow> balance (tokens c') k = balance (tokens c) k + paid_to k (map fst es)"
    and "balance (tokens c) vtk + paid_to vtk (map fst es) =
      balance (tokens c') vtk + amount_sum (map fst es)"
    and "map_option ta_owner (tokens c' k) = map_option ta_owner (tokens c k)"
  using assms(2)
proof (induction es arbitrary: t c)
  case (Cons x es)
  { case 1
    then show ?case
    proof (elim settle_loop_Cons)
      fix T t1
      assume T: "sol_transfer S vtk (snd x) vk (se_amount (fst x)) (tokens c) = Some T"
        and l: "settle_loop S vk vtk es t1 (c\<lparr>tokens := T\<rparr>) = Inr (t', c')"
        and x: "snd x = se_provider_token_account (fst x)"
      show ?thesis
        using Cons.IH(1) [OF l] token_program.transfer_credit [OF tp T]
          token_program.balance_other [OF tp T, of k] x by auto
    qed
  next
    case 2
    then show ?case
    proof (elim settle_loop_Cons)
      fix T t1
      assume T: "sol_transfer S vtk (snd x) vk (se_amount (fst x)) (tokens c) = Some T"
        and l: "settle_loop S vk vtk es t1 (c\<lparr>tokens := T\<rparr>) = Inr (t', c')"
        and x: "snd x = se_provider_token_account (fst x)"
      show ?thesis
        using Cons.IH(2) [OF l] token_program.transfer_debit [OF tp T]
          token_program.transfer_source [OF tp T] x
          token_program.transfer_self [OF tp, of vtk vk "se_amount (fst x)" "tokens c" T] T
        by (cases "snd x = vtk") auto
    qed
  next
    case 3
    then show ?case
    proof (elim settle_loop_Cons)
      fix T t1
      assume T: "sol_transfer S vtk (snd x) vk (se_amount (fst x)) (tokens c) = Some T"
        and l: "settle_loop S vk vtk es t1 (c\<lparr>tokens := T\<rparr>) = Inr (t', c')"
      show ?thesis using Cons.IH(3) [OF l] token_program.transfer_owner [OF tp T, of k] by simp
    qed
  }
qed simp_all

lemma map_fst_zip_eq: "length ys = length xs \<Longrightarrow> map fst (zip xs ys) = xs"
  by simp

lemma settle_vault_ok:
  assumes "settle_vault S sv signer vk vtk rem b h ss c = Inr c'"
  obtains vault t c1 l where "vaults c vk = Some vault" "vc_vault_signer_pubkey vault = signer"
    "vc_status vault = VAULT_STATUS_ACTIVE \<or> vc_status vault = VAULT_STATUS_MIGRATING"
    "vtk = vc_vault_token_account vault" "length ss \<le> MAX_SETTLEMENTS_PER_TX" "ss \<noteq> []"
    "check_exit_deadline vault (unix_timestamp c)"
    "verify_record_audit_pairing S sv b h vk ss = Inr ()" "length rem = length ss"
    "settle_loop S vk vtk (zip ss rem) 0 c = Inr (t, c1)"
    "checked_add (vc_lifetime_settled vault) t = Some l"
    "c' = c1\<lparr>vaults := (vaults c1)(vk \<mapsto> vault\<lparr>vc_lifetime_settled := l\<rparr>)\<rparr>"
  using assms unfolding settle_vault_def Let_def result_simps
  by (elim exE conjE) (auto simp: result_simps split: prod.splits intro: that)

text \<open>The record written for one entry at an index.\<close>
definition audit_entry ::
  "solana \<Rightarrow> pubkey \<Rightarrow> u64 \<Rightarrow> u32 \<Rightarrow> u8 \<Rightarrow> AuditRecordData \<Rightarrow> AuditRecord" where
  "audit_entry S vk b epoch i d =
    \<lparr>au_bump = snd (sol_pda S (audit_seeds vk b i)), au_vault = vk, au_batch_id = b, au_index = i,
     au_encrypted_sender = rd_encrypted_sender d, au_encrypted_amount = rd_encrypted_amount d,
     au_provider = rd_provider d, au_timestamp = rd_timestamp d, au_auditor_epoch = epoch\<rparr>"

lemma resolve_audit_index_ok:
  "resolve_audit_index S vk b key = Inr (i, bump) \<Longrightarrow>
    sol_pda S (audit_seeds vk b i) = (key, bump)"
  by (auto simp: resolve_audit_index_def find_Some_iff prod_eq_iff split: option.splits)

lemma audit_loop_Cons:
  assumes "audit_loop S vk b epoch (x # es) nx c = Inr c'"
  obtains i where "fst (sol_pda S (audit_seeds vk b i)) = snd x" "\<forall>e. nx = Some e \<longrightarrow> i = e"
    "\<not> in_use c (snd x)"
    "audit_loop S vk b epoch es (checked_add i 1)
      (c\<lparr>audits := (audits c)(snd x \<mapsto> audit_entry S vk b epoch i (fst x))\<rparr>) = Inr c'"
proof -
  obtain i bump where r: "resolve_audit_index S vk b (snd x) = Inr (i, bump)"
      and "\<forall>e. nx = Some e \<longrightarrow> i = e" "\<not> in_use c (snd x)"
      and l: "audit_loop S vk b epoch es (checked_add i 1) (c\<lparr>audits := (audits c)(snd x \<mapsto>
        \<lparr>au_bump = bump, au_vault = vk, au_batch_id = b, au_index = i,
         au_encrypted_sender = rd_encrypted_sender (fst x),
         au_encrypted_amount = rd_encrypted_amount (fst x), au_provider = rd_provider (fst x),
         au_timestamp = rd_timestamp (fst x), au_auditor_epoch = epoch\<rparr>)\<rparr>) = Inr c'"
    using assms by (cases x) (auto simp: result_simps split: option.splits)
  moreover have "bump = snd (sol_pda S (audit_seeds vk b i))"
    "fst (sol_pda S (audit_seeds vk b i)) = snd x"
    using resolve_audit_index_ok [OF r] by simp_all
  ultimately show thesis
    by (intro that [of i]) (simp_all add: audit_entry_def)
qed

lemma audit_loop_frame:
  "audit_loop S vk b epoch es nx c = Inr c' \<Longrightarrow> c' = c\<lparr>audits := audits c'\<rparr>"
proof (induction es arbitrary: nx c)
  case (Cons x es)
  from Cons.prems show ?case by (elim audit_loop_Cons) (drule Cons.IH, simp)
qed simp

lemma audit_loop_unused:
  "audit_loop S vk b epoch es nx c = Inr c' \<Longrightarrow>
    distinct (map snd es) \<and> list_all (\<lambda>k. \<not> in_use c k) (map snd es)"
proof (induction es arbitrary: nx c)
  case (Cons x es)
  from Cons.prems show ?case
    by (elim audit_loop_Cons)
      (drule Cons.IH, auto simp: in_use_def list_all_iff split: if_splits)
qed simp

lemma audit_loop_other:
  "audit_loop S vk b epoch es nx c = Inr c' \<Longrightarrow> k \<notin> set (map snd es) \<Longrightarrow>
    audits c' k = audits c k"
proof (induction es arbitrary: nx c)
  case (Cons x es)
  from Cons.prems(1) show ?case
    by (elim audit_loop_Cons) (drule Cons.IH, use Cons.prems(2) in auto)
qed simp

text \<open>The indexes are consecutive, except that nothing is expected after index 255.\<close>
fun consecutive :: "u8 option \<Rightarrow> u8 list \<Rightarrow> bool" where
  "consecutive nx [] = True"
| "consecutive nx (i # is) = ((nx = None \<or> nx = Some i) \<and> consecutive (checked_add i 1) is)"

lemma audit_loop_records:
  "audit_loop S vk b epoch es nx c = Inr c' \<Longrightarrow>
    \<exists>is. length is = length es \<and> consecutive nx is \<and>
      map (audits c') (map snd es) =
        map2 (\<lambda>i x. Some (audit_entry S vk b epoch i (fst x))) is es"
proof (induction es arbitrary: nx c)
  case (Cons x es)
  have d: "snd x \<notin> set (map snd es)" using audit_loop_unused [OF Cons.prems] by auto
  from Cons.prems show ?case
  proof (elim audit_loop_Cons)
    fix i
    assume nx: "\<forall>e. nx = Some e \<longrightarrow> i = e"
      and l: "audit_loop S vk b epoch es (checked_add i 1)
        (c\<lparr>audits := (audits c)(snd x \<mapsto> audit_entry S vk b epoch i (fst x))\<rparr>) = Inr c'"
    obtain is' where "length is' = length es" "consecutive (checked_add i 1) is'"
      "map (audits c') (map snd es) =
        map2 (\<lambda>i x. Some (audit_entry S vk b epoch i (fst x))) is' es"
      using Cons.IH [OF l] by blast
    moreover have "audits c' (snd x) = Some (audit_entry S vk b epoch i (fst x))"
      using audit_loop_other [OF l d] by simp
    ultimately show ?thesis
      using nx by (intro exI [of _ "i # is'"]) (cases nx; simp)
  qed
qed simp

lemma record_audit_ok:
  assumes "record_audit S sv signer vk rem b h rs c = Inr c'"
  obtains vault where "vaults c vk = Some vault" "vc_vault_signer_pubkey vault = signer"
    "vc_status vault = VAULT_STATUS_ACTIVE \<or> vc_status vault = VAULT_STATUS_MIGRATING"
    "rs \<noteq> []" "length rs \<le> MAX_ATOMIC_AUDITS_PER_TX"
    "check_exit_deadline vault (unix_timestamp c)"
    "verify_settle_vault_pairing S sv b h vk rs = Inr ()" "length rem = length rs"
    "audit_loop S vk b (vc_auditor_epoch vault) (zip rs rem) None c = Inr c'"
  using assms unfolding record_audit_def result_simps
  by (elim exE conjE) (rule that; simp)

section \<open>Instruction data\<close>

text \<open>The serialized instructions: discriminator, arguments in order, vectors with their length.\<close>
definition record_audit_data :: "solana \<Rightarrow> u64 \<Rightarrow> bytes \<Rightarrow> AuditRecordData list \<Rightarrow> bytes" where
  "record_audit_data S b h rs = instruction_discriminator S ''record_audit'' @ to_le_bytes b @ h @
    u32_to_le (word_of_nat (length rs)) @ concat (map record_bytes rs)"

definition settle_vault_data :: "solana \<Rightarrow> u64 \<Rightarrow> bytes \<Rightarrow> SettlementEntry list \<Rightarrow> bytes" where
  "settle_vault_data S b h ss = instruction_discriminator S ''settle_vault'' @ to_le_bytes b @ h @
    u32_to_le (word_of_nat (length ss)) @ concat (map settlement_bytes ss)"

lemma deser_record_bytes: "record_wf r \<Longrightarrow> deser_record (record_bytes r @ rest) = Some (r, rest)"
  by (cases r) (simp add: record_wf_def record_bytes_def deser_record_def slice_simps)

lemma deser_settlement_bytes:
  "settlement_wf s \<Longrightarrow> deser_settlement (settlement_bytes s @ rest) = Some (s, rest)"
  by (cases s) (simp add: settlement_wf_def settlement_bytes_def deser_settlement_def slice_simps)

lemma deser_elems_concat:
  assumes "\<And>x rest. P x \<Longrightarrow> f (enc x @ rest) = Some (x, rest)"
  shows "\<forall>x\<in>set xs. P x \<Longrightarrow> deser_elems (length xs) f (concat (map enc xs) @ rest) = Some xs"
  using assms by (induction xs) auto

lemma deser_vec_concat:
  assumes "\<And>x rest. P x \<Longrightarrow> f (enc x @ rest) = Some (x, rest)"
    and "\<forall>x\<in>set xs. P x" "length xs < 2 ^ 32"
  shows "deser_vec f (u32_to_le (word_of_nat (length xs)) @ concat (map enc xs)) = Some xs"
proof -
  have "unat (word_of_nat (length xs) :: u32) = length xs"
    using assms(3) by (simp add: unat_of_nat)
  then show ?thesis
    using deser_elems_concat [of P f enc xs "[]", OF assms(1,2)]
    by (simp add: deser_vec_def)
qed

lemma data_fields:
  assumes "length d = 8" "length h = 32"
  shows "take 8 (d @ to_le_bytes b @ h @ r) = d" "slice (d @ to_le_bytes b @ h @ r) 8 8 = to_le_bytes b"
    "slice (d @ to_le_bytes b @ h @ r) 16 32 = h" "drop 48 (d @ to_le_bytes b @ h @ r) = r"
    "48 \<le> length (d @ to_le_bytes b @ h @ r)"
  using assms by (simp_all add: slice_simps)

lemma parse_record_audit_data:
  assumes "length (instruction_discriminator S ''record_audit'') = 8" "length h = 32"
    and "list_all record_wf rs" "length rs < 2 ^ 32"
  shows "parse_record_audit_instruction S
    \<lparr>ix_program_id = sol_program_id S, ix_accounts = ks, ix_data = record_audit_data S b h rs\<rparr>
    (instruction_discriminator S ''record_audit'') =
      Some \<lparr>pa_batch_id = b, pa_batch_chunk_hash = h, pa_records = rs\<rparr>"
  using data_fields [OF assms(1,2), of b "u32_to_le (word_of_nat (length rs)) @ concat (map record_bytes rs)"]
    deser_vec_concat [of record_wf deser_record record_bytes rs, OF deser_record_bytes] assms(3,4)
  by (simp add: parse_record_audit_instruction_def record_audit_data_def list_all_iff Let_def
      del: length_append take_append drop_append)

lemma parse_settle_vault_data:
  assumes "length (instruction_discriminator S ''settle_vault'') = 8" "length h = 32"
    and "list_all settlement_wf ss" "length ss < 2 ^ 32"
  shows "parse_settle_vault_instruction S
    \<lparr>ix_program_id = sol_program_id S, ix_accounts = ks, ix_data = settle_vault_data S b h ss\<rparr>
    (instruction_discriminator S ''settle_vault'') =
      Some \<lparr>ps_batch_id = b, ps_batch_chunk_hash = h, ps_settlements = ss\<rparr>"
  using data_fields [OF assms(1,2), of b "u32_to_le (word_of_nat (length ss)) @ concat (map settlement_bytes ss)"]
    deser_vec_concat [of settlement_wf deser_settlement settlement_bytes ss, OF deser_settlement_bytes]
    assms(3,4)
  by (simp add: parse_settle_vault_instruction_def settle_vault_data_def list_all_iff Let_def
      del: length_append take_append drop_append)

section \<open>Properties\<close>

text \<open>The preimage of the chunk hash determines the batch identifier, the settlement list and
  the audit records, although it has no length fields: two chunks within the limits that the
  two instructions enforce have the same preimage only if they are the same chunk.\<close>
theorem batch_chunk_preimage_binds:
  assumes "chunk_wf ss rs" "chunk_wf ss' rs'"
  shows "batch_chunk_preimage b ss rs = batch_chunk_preimage b' ss' rs' \<longleftrightarrow>
    b = b' \<and> ss = ss' \<and> rs = rs'"
  using preimage_inject [OF assms] by blast

text \<open>C21. A successful \<^verbatim>\<open>settle_vault\<close> pays every provider account exactly the sum of its entries,
  takes exactly that much out of the vault's token account, adds exactly the sum of all
  entries to \<^verbatim>\<open>lifetime_settled\<close>, and changes nothing else of the vault.  Entries that name
  the vault's own token account move nothing but are counted.\<close>
theorem settle_vault_pays:
  assumes tp: "token_program (sol_transfer S)"
    and ok: "settle_vault S sv signer vk vtk rem b h ss c = Inr c'"
    and v: "vaults c vk = Some vault"
  shows "(\<forall>k. k \<noteq> vtk \<longrightarrow> balance (tokens c') k = balance (tokens c) k + paid_to k ss) \<and>
    balance (tokens c) vtk + paid_to vtk ss = balance (tokens c') vtk + amount_sum ss \<and>
    (\<exists>l. unat l = unat (vc_lifetime_settled vault) + amount_sum ss \<and>
      vaults c' = (vaults c)(vk \<mapsto> vault\<lparr>vc_lifetime_settled := l\<rparr>))"
proof -
  from ok v obtain t c1 l where len: "length rem = length ss"
      and loop: "settle_loop S vk vtk (zip ss rem) 0 c = Inr (t, c1)"
      and l: "checked_add (vc_lifetime_settled vault) t = Some l"
      and c': "c' = c1\<lparr>vaults := (vaults c1)(vk \<mapsto> vault\<lparr>vc_lifetime_settled := l\<rparr>)\<rparr>"
    by (elim settle_vault_ok) simp
  have "unat t = amount_sum ss" using settle_loop_total [OF loop] len by simp
  moreover have "vaults c1 = vaults c"
    by (subst settle_loop_frame [OF loop]) simp
  ultimately show ?thesis
    using settle_loop_balance(1) [OF tp loop] settle_loop_balance(2) [OF tp loop] len
      unat_checked_add [OF l] c' by auto
qed


text \<open>A successful \<^verbatim>\<open>record_audit\<close> writes one audit record per entry, at distinct addresses
  that held no account before, with the vault's current auditor epoch and the data of the entry; the indexes are
  consecutive, except that any index is accepted after 255.  Nothing else changes.\<close>
theorem record_audit_writes:
  assumes ok: "record_audit S sv signer vk rem b h rs c = Inr c'"
    and v: "vaults c vk = Some vault"
  shows "c' = c\<lparr>audits := audits c'\<rparr> \<and> distinct rem \<and> list_all (\<lambda>k. \<not> in_use c k) rem \<and>
    (\<forall>k. k \<notin> set rem \<longrightarrow> audits c' k = audits c k) \<and>
    (\<exists>is. length is = length rs \<and> consecutive None is \<and>
      map (audits c') rem =
        map2 (\<lambda>i d. Some (audit_entry S vk b (vc_auditor_epoch vault) i d)) is rs)"
proof -
  from ok v have len: "length rem = length rs"
    and l: "audit_loop S vk b (vc_auditor_epoch vault) (zip rs rem) None c = Inr c'"
    by (elim record_audit_ok, simp)+
  have rem: "map snd (zip rs rem) = rem" using len by simp
  obtain js where js: "length js = length rs" "consecutive None js"
    "map (audits c') rem =
      map2 (\<lambda>i x. Some (audit_entry S vk b (vc_auditor_epoch vault) i (fst x))) js (zip rs rem)"
    using audit_loop_records [OF l] rem len by auto
  have "map2 (\<lambda>i x. Some (audit_entry S vk b (vc_auditor_epoch vault) i (fst x))) js (zip rs rem) =
      map2 (\<lambda>i d. Some (audit_entry S vk b (vc_auditor_epoch vault) i d)) js rs"
    using js(1) len by (intro nth_equalityI) simp_all
  with js show ?thesis
    using audit_loop_frame [OF l] audit_loop_unused [OF l] audit_loop_other [OF l] rem by auto
qed

end
