(* ===== verification/Batch.thy ===== *)
theory Batch
  imports Snapshot Vault_Settle
begin

text \<open>
  The batching of settlements (\<^verbatim>\<open>src/enclave/src/batch.rs\<close>): which settlements a batch takes, how
  they are cut into chunks, the transaction that is submitted for a chunk, the confirmation of a
  chunk, and when the background task fires.  The RPC client is a function from the index of the chunk
  and its instructions to the signature of the confirmed transaction; the program client of the
  Anchor library puts the declared accounts before the remaining ones and the Borsh encoding of the
  arguments after the discriminator.  Random values and clocks are arguments.
\<close>

section \<open>The code\<close>

definition DEFAULT_BATCH_WINDOW_SEC :: int where "DEFAULT_BATCH_WINDOW_SEC = 120"
definition MAX_SETTLEMENT_DELAY_SEC :: int where "MAX_SETTLEMENT_DELAY_SEC = 900"
definition MAX_BATCH_SETTLEMENTS :: nat where "MAX_BATCH_SETTLEMENTS = 20"
definition MAX_ATOMIC_SETTLEMENTS_WITH_AUDIT :: nat where "MAX_ATOMIC_SETTLEMENTS_WITH_AUDIT = 2"
definition SETTLEMENT_HISTORY_MAX_AGE_SEC :: int where "SETTLEMENT_HISTORY_MAX_AGE_SEC = 1800"
definition DEFAULT_AUTO_BATCH_MIN_PROVIDER_PAYOUT_ATOMIC :: u64 where
  "DEFAULT_AUTO_BATCH_MIN_PROVIDER_PAYOUT_ATOMIC = 1000000"
definition DEFAULT_MIN_ANONYMITY_WINDOW_SEC :: int where "DEFAULT_MIN_ANONYMITY_WINDOW_SEC = 300"
definition DEFAULT_MIN_BATCH_PROVIDERS :: nat where "DEFAULT_MIN_BATCH_PROVIDERS = 2"

record BatchSettlementEntry =
  bs_provider_token_account :: pubkey
  bs_amount :: u64

record BatchAuditEntry =
  ba_encrypted_sender :: bytes
  ba_encrypted_amount :: bytes
  ba_provider :: pubkey
  ba_timestamp :: int

record PreparedSettlement =
  ps_settlement_id :: string
  ps_provider_id :: string
  ps_settlement :: BatchSettlementEntry
  ps_audit :: BatchAuditEntry

record ProviderBatchCursor =
  cu_provider_id :: string
  cu_oldest_credit_at :: int
  cu_settlement_ids :: "string list"
  cu_next_index :: nat

record BatchSubmitResult =
  br_submitted :: bool
  br_batch_id :: "u64 option"
  br_provider_count :: nat
  br_settlement_count :: nat
  br_total_amount :: u64
  br_tx_signatures :: "string list"

definition no_op :: BatchSubmitResult where
  "no_op = \<lparr>br_submitted = False, br_batch_id = None, br_provider_count = 0, br_settlement_count = 0,
    br_total_amount = 0, br_tx_signatures = []\<rparr>"

record BatchPrivacyConfig =
  bp_batch_window_sec :: int
  bp_auto_batch_min_provider_payout_atomic :: u64
  bp_min_anonymity_window_sec :: int
  bp_min_batch_providers :: nat

definition batch_privacy_default :: BatchPrivacyConfig where
  "batch_privacy_default = \<lparr>bp_batch_window_sec = DEFAULT_BATCH_WINDOW_SEC,
    bp_auto_batch_min_provider_payout_atomic = DEFAULT_AUTO_BATCH_MIN_PROVIDER_PAYOUT_ATOMIC,
    bp_min_anonymity_window_sec = DEFAULT_MIN_ANONYMITY_WINDOW_SEC,
    bp_min_batch_providers = DEFAULT_MIN_BATCH_PROVIDERS\<rparr>"

datatype BatchBuildMode = Auto | Flush
datatype BatchLoopDecision = Skip | Wait | Fire

definition decide_batch_action ::
  "int \<Rightarrow> int \<Rightarrow> int \<Rightarrow> nat \<Rightarrow> int \<Rightarrow> int option \<Rightarrow> int \<Rightarrow> nat \<Rightarrow> BatchLoopDecision \<times> int option" where
  "decide_batch_action now elapsed batch_window_sec provider_count oldest_credit_age jitter_deadline
      sampled_jitter_sec min_batch_providers =
    (if provider_count = 0 then (Skip, None)
     else if \<not> (elapsed \<ge> batch_window_sec \<or> provider_count \<ge> MAX_BATCH_SETTLEMENTS \<or>
       oldest_credit_age \<ge> MAX_SETTLEMENT_DELAY_SEC) then (Skip, None)
     else
       let deadline_reached = oldest_credit_age \<ge> MAX_SETTLEMENT_DELAY_SEC in
       if provider_count < min_batch_providers \<and> \<not> deadline_reached then (Skip, None)
       else if deadline_reached then (Fire, None)
       else
         let deadline = (case jitter_deadline of Some d \<Rightarrow> d | None \<Rightarrow> now + sampled_jitter_sec) in
         if now < deadline then (Wait, Some deadline) else (Fire, None))"

definition settlement_is_age_eligible :: "int \<Rightarrow> BatchPrivacyConfig \<Rightarrow> bool" where
  "settlement_is_age_eligible age config =
    (if age \<ge> MAX_SETTLEMENT_DELAY_SEC then True else age \<ge> bp_min_anonymity_window_sec config)"

definition provider_payout_floor_satisfied :: "u64 \<Rightarrow> int \<Rightarrow> BatchPrivacyConfig \<Rightarrow> bool" where
  "provider_payout_floor_satisfied eligible_amount eligible_oldest_age config =
    (if eligible_amount = 0 then False
     else if eligible_oldest_age \<ge> MAX_SETTLEMENT_DELAY_SEC then True
     else bp_auto_batch_min_provider_payout_atomic config = 0 \<or>
       eligible_amount \<ge> bp_auto_batch_min_provider_payout_atomic config)"

record ProviderBatchSelection =
  sl_settlement_ids :: "string list"
  sl_oldest_timestamp :: int

text \<open>The loop over the candidates: identifiers, amount and oldest time stamp of the eligible ones.\<close>
fun eligible_entries ::
  "(string \<times> int \<times> u64) list \<Rightarrow> int \<Rightarrow> BatchBuildMode \<Rightarrow> BatchPrivacyConfig \<Rightarrow>
    string list \<times> u64 \<times> int option \<Rightarrow> string list \<times> u64 \<times> int option" where
  "eligible_entries [] batch_timestamp mode config acc = acc"
| "eligible_entries ((sid, timestamp, amount) # candidates) batch_timestamp mode config (ids, amount_so_far, oldest) =
    (let age = batch_timestamp - timestamp;
         is_eligible = (case mode of Flush \<Rightarrow> True | Auto \<Rightarrow> settlement_is_age_eligible age config) in
     if \<not> is_eligible then eligible_entries candidates batch_timestamp mode config (ids, amount_so_far, oldest)
     else eligible_entries candidates batch_timestamp mode config
       (ids @ [sid], saturating_add amount_so_far amount,
        Some (case oldest of Some current \<Rightarrow> min current timestamp | None \<Rightarrow> timestamp)))"

definition select_provider_batch_entries ::
  "(string \<times> int \<times> u64) list \<Rightarrow> int \<Rightarrow> BatchBuildMode \<Rightarrow> BatchPrivacyConfig \<Rightarrow>
    ProviderBatchSelection option" where
  "select_provider_batch_entries candidates batch_timestamp mode config =
    (let (eligible_ids, eligible_amount, eligible_oldest_timestamp) =
           eligible_entries candidates batch_timestamp mode config ([], 0, None) in
     if eligible_ids = [] then None
     else
       let oldest_timestamp = (case eligible_oldest_timestamp of Some t \<Rightarrow> t | None \<Rightarrow> batch_timestamp);
           eligible_oldest_age = batch_timestamp - oldest_timestamp in
       if mode = Auto \<and> \<not> provider_payout_floor_satisfied eligible_amount eligible_oldest_age config
       then None
       else Some \<lparr>sl_settlement_ids = eligible_ids, sl_oldest_timestamp = oldest_timestamp\<rparr>)"

definition reconstruct_settlement_record ::
  "VaultState \<Rightarrow> string \<Rightarrow> string \<Rightarrow> SettlementRecord option" where
  "reconstruct_settlement_record st provider_id settlement_id =
    (case find (\<lambda>r. rv_settlement_id r = Some settlement_id) (avals (es_reservations st)) of
       None \<Rightarrow> None
     | Some reservation \<Rightarrow>
         if rv_provider_id reservation \<noteq> provider_id \<or> rv_status reservation \<noteq> SettledOffchain then None
         else case aget (es_providers st) provider_id of
           None \<Rightarrow> None
         | Some provider \<Rightarrow> Some \<lparr>sr_settlement_id = settlement_id, sr_client = rv_client reservation,
             sr_provider = rg_settlement_token_account provider, sr_amount = rv_amount reservation,
             sr_timestamp = (case rv_settled_at reservation of Some t \<Rightarrow> t | None \<Rightarrow> rv_created_at reservation)\<rparr>)"

fun remaining_credit :: "VaultState \<Rightarrow> string list \<Rightarrow> u64 \<times> int option \<Rightarrow> u64 \<times> int option" where
  "remaining_credit st [] acc = acc"
| "remaining_credit st (sid # sids) (credited_amount, oldest) =
    (case aget (es_settlement_history st) sid of
       None \<Rightarrow> remaining_credit st sids (credited_amount, oldest)
     | Some r \<Rightarrow> remaining_credit st sids (saturating_add credited_amount (sr_amount r),
         Some (case oldest of Some current \<Rightarrow> min current (sr_timestamp r) | None \<Rightarrow> sr_timestamp r)))"

definition prune_missing_settlement_reference :: "string \<Rightarrow> string \<Rightarrow> VaultState \<Rightarrow> VaultState" where
  "prune_missing_settlement_reference provider_id settlement_id st =
    (case aget (es_provider_credits st) provider_id of
       None \<Rightarrow> st
     | Some credit \<Rightarrow>
         let ids = filter (\<lambda>sid. sid \<noteq> settlement_id) (pc_settlement_ids credit);
             (credited_amount, oldest) = remaining_credit st ids (0, None);
             credit1 = credit\<lparr>pc_settlement_ids := ids, pc_credited_amount := credited_amount,
               pc_oldest_credit_at := (case oldest of Some t \<Rightarrow> t | None \<Rightarrow> pc_oldest_credit_at credit)\<rparr> in
         st\<lparr>es_provider_credits :=
           (if credited_amount = 0 \<or> ids = [] then adel provider_id (es_provider_credits st)
            else aput provider_id credit1 (es_provider_credits st))\<rparr>)"

text \<open>The records of a provider's settlements; a missing record is rebuilt and stored, or reported.\<close>
fun provider_records ::
  "string \<Rightarrow> string list \<Rightarrow> ((string \<times> int \<times> u64) list \<times> (string \<times> string) list) est" where
  "provider_records provider_id [] = sret ([], [])"
| "provider_records provider_id (sid # sids) =
    sbind (sget (\<lambda>st. aget (es_settlement_history st) sid)) (\<lambda>found.
    sbind (case found of
        Some r \<Rightarrow> sret (Some r)
      | None \<Rightarrow>
          sbind (sget (\<lambda>st. reconstruct_settlement_record st provider_id sid)) (\<lambda>rebuilt.
          case rebuilt of
            None \<Rightarrow> sret None
          | Some r \<Rightarrow> sbind (smodify (\<lambda>st. st\<lparr>es_settlement_history := aput sid r (es_settlement_history st)\<rparr>))
              (\<lambda>_. sret (Some r)))) (\<lambda>record_opt.
    sbind (provider_records provider_id sids) (\<lambda>(timestamped, missing).
    sret (case record_opt of
        Some r \<Rightarrow> ((sid, sr_timestamp r, sr_amount r) # timestamped, missing)
      | None \<Rightarrow> (timestamped, (provider_id, sid) # missing)))))"

fun collect_cursors ::
  "(string \<times> string list) list \<Rightarrow> int \<Rightarrow> BatchBuildMode \<Rightarrow> BatchPrivacyConfig \<Rightarrow>
    (ProviderBatchCursor list \<times> (string \<times> string) list) est" where
  "collect_cursors [] batch_timestamp mode config = sret ([], [])"
| "collect_cursors ((provider_id, settlement_ids) # snapshots) batch_timestamp mode config =
    sbind (provider_records provider_id settlement_ids) (\<lambda>(timestamped, missing).
    sbind (collect_cursors snapshots batch_timestamp mode config) (\<lambda>(cursors, missing').
    sret (case select_provider_batch_entries timestamped batch_timestamp mode config of
        None \<Rightarrow> (cursors, missing @ missing')
      | Some selection \<Rightarrow>
          (\<lparr>cu_provider_id = provider_id, cu_oldest_credit_at = sl_oldest_timestamp selection,
            cu_settlement_ids = sl_settlement_ids selection, cu_next_index = 0\<rparr> # cursors,
           missing @ missing'))))"

definition build_provider_batch_cursors ::
  "int \<Rightarrow> BatchBuildMode \<Rightarrow> BatchPrivacyConfig \<Rightarrow> ProviderBatchCursor list est" where
  "build_provider_batch_cursors batch_timestamp mode config =
    sbind (sget (\<lambda>st. map (\<lambda>credit. (pc_provider_id credit, pc_settlement_ids credit))
      (avals (es_provider_credits st)))) (\<lambda>snapshots.
    sbind (collect_cursors snapshots batch_timestamp mode config) (\<lambda>(cursors, missing).
    sbind (smodify (fold (\<lambda>(provider_id, sid). prune_missing_settlement_reference provider_id sid) missing)) (\<lambda>_.
    sret cursors)))"

text \<open>One pass of the \<^verbatim>\<open>for\<close> loop over the cursors, with the entries selected so far; the flag says
  whether a cursor advanced.\<close>
fun select_pass ::
  "nat \<Rightarrow> ProviderBatchCursor list \<Rightarrow> (string \<times> string) list \<Rightarrow>
    ProviderBatchCursor list \<times> (string \<times> string) list \<times> bool" where
  "select_pass max_entries [] selected = ([], selected, False)"
| "select_pass max_entries (cursor # cursors) selected =
    (if length selected \<ge> max_entries then (cursor # cursors, selected, False)
     else if cu_next_index cursor < length (cu_settlement_ids cursor) then
       let settlement_id = cu_settlement_ids cursor ! cu_next_index cursor;
           (cursors1, selected1, _) =
             select_pass max_entries cursors (selected @ [(cu_provider_id cursor, settlement_id)]) in
       (cursor\<lparr>cu_next_index := cu_next_index cursor + 1\<rparr> # cursors1, selected1, True)
     else
       let (cursors1, selected1, advanced) = select_pass max_entries cursors selected in
       (cursor # cursors1, selected1, advanced))"

lemma select_pass_grows:
  "select_pass m cs sel = (cs', sel', adv) \<Longrightarrow> length sel \<le> length sel' \<and> (adv \<longrightarrow> length sel < length sel')"
  by (induction m cs sel arbitrary: cs' sel' adv rule: select_pass.induct)
    (fastforce split: if_splits prod.splits simp: Let_def)+

function select_loop ::
  "nat \<Rightarrow> ProviderBatchCursor list \<Rightarrow> (string \<times> string) list \<Rightarrow> (string \<times> string) list" where
  "select_loop max_entries cursors selected =
    (if length selected < max_entries then
       (case select_pass max_entries cursors selected of
          (cursors1, selected1, advanced) \<Rightarrow>
            if advanced then select_loop max_entries cursors1 selected1 else selected1)
     else selected)"
  by pat_completeness auto
termination
  by (relation "measure (\<lambda>(m, _, sel). m - length sel)") (auto dest!: sym [THEN select_pass_grows])

declare select_loop.simps [simp del]

text \<open>The stable sort by the age of the oldest credit, then by provider.\<close>
definition sort_cursors :: "ProviderBatchCursor list \<Rightarrow> ProviderBatchCursor list" where
  "sort_cursors = sort_key cu_oldest_credit_at \<circ> sort_key cu_provider_id"

definition select_batch_settlement_ids ::
  "ProviderBatchCursor list \<Rightarrow> nat \<Rightarrow> (string \<times> string) list" where
  "select_batch_settlement_ids cursors max_entries =
    select_loop max_entries (sort_cursors (filter (\<lambda>cursor. cu_settlement_ids cursor \<noteq> []) cursors)) []"

definition prepare_entry ::
  "('p::ab_group_add, 's::comm_ring_1) curve \<Rightarrow> (bytes \<Rightarrow> bytes \<Rightarrow> bytes \<Rightarrow> nat \<Rightarrow> bytes) \<Rightarrow> (bytes \<Rightarrow> bytes) \<Rightarrow>
    's \<times> 's \<Rightarrow> VaultState \<Rightarrow> int \<Rightarrow> string \<times> string \<Rightarrow> PreparedSettlement option" where
  "prepare_entry C hkdf sha256 rnd st batch_timestamp = (\<lambda>(provider_id, sid).
    (case aget (es_settlement_history st) sid of
       None \<Rightarrow> None
     | Some r \<Rightarrow>
         let encrypted = generate_audit_record_at C hkdf sha256 rnd (sr_client r) (sr_provider r) (sr_amount r)
               (es_auditor_epoch st) (es_auditor_master_secret st) batch_timestamp in
         Some \<lparr>ps_settlement_id = sid, ps_provider_id = provider_id,
           ps_settlement = \<lparr>bs_provider_token_account = sr_provider r, bs_amount = sr_amount r\<rparr>,
           ps_audit = \<lparr>ba_encrypted_sender = ea_encrypted_sender encrypted,
             ba_encrypted_amount = ea_encrypted_amount encrypted, ba_provider = ea_provider encrypted,
             ba_timestamp = ea_timestamp encrypted\<rparr>\<rparr>))"

definition prepare_batch ::
  "('p::ab_group_add, 's::comm_ring_1) curve \<Rightarrow> (bytes \<Rightarrow> bytes \<Rightarrow> bytes \<Rightarrow> nat \<Rightarrow> bytes) \<Rightarrow> (bytes \<Rightarrow> bytes) \<Rightarrow>
    (nat \<Rightarrow> 's \<times> 's) \<Rightarrow> BatchPrivacyConfig \<Rightarrow> int \<Rightarrow> BatchBuildMode \<Rightarrow> PreparedSettlement list est" where
  "prepare_batch C hkdf sha256 rnd config batch_timestamp mode =
    sbind (build_provider_batch_cursors batch_timestamp mode config) (\<lambda>cursors.
    sget (\<lambda>st. List.map_filter (\<lambda>(i, selected). prepare_entry C hkdf sha256 (rnd i) st batch_timestamp selected)
      (enumerate 0 (select_batch_settlement_ids cursors MAX_BATCH_SETTLEMENTS))))"

record BatchChunk =
  bc_start_index :: u8
  bc_entries :: "PreparedSettlement list"

definition audits_of :: "BatchChunk \<Rightarrow> BatchAuditEntry list" where
  "audits_of chunk = map ps_audit (bc_entries chunk)"

text \<open>The \<^verbatim>\<open>for\<close> loop over the chunk indexes: \<open>left\<close> chunks are still to be cut.\<close>
fun cut_chunks :: "PreparedSettlement list \<Rightarrow> nat \<Rightarrow> nat \<Rightarrow> nat \<Rightarrow> nat \<Rightarrow> nat \<Rightarrow> BatchChunk list" where
  "cut_chunks entries base_chunk_size extra_entries chunk_idx start 0 = []"
| "cut_chunks entries base_chunk_size extra_entries chunk_idx start (Suc left) =
    (let chunk_size = base_chunk_size + (if chunk_idx < extra_entries then 1 else 0);
         end_index = start + chunk_size in
     \<lparr>bc_start_index = word_of_nat start, bc_entries = take chunk_size (drop start entries)\<rparr> #
     cut_chunks entries base_chunk_size extra_entries (chunk_idx + 1) end_index left)"

definition build_batch_chunks :: "PreparedSettlement list \<Rightarrow> BatchChunk list" where
  "build_batch_chunks entries =
    (if entries = [] then []
     else
       let chunk_count = (length entries + MAX_ATOMIC_SETTLEMENTS_WITH_AUDIT - 1) div
             MAX_ATOMIC_SETTLEMENTS_WITH_AUDIT;
           base_chunk_size = length entries div chunk_count;
           extra_entries = length entries mod chunk_count in
       cut_chunks entries base_chunk_size extra_entries 0 0 chunk_count)"

definition privacy_filter_batch_chunks ::
  "BatchChunk list \<Rightarrow> int \<Rightarrow> BatchBuildMode \<Rightarrow> BatchPrivacyConfig \<Rightarrow> BatchChunk list" where
  "privacy_filter_batch_chunks chunks batch_timestamp mode config =
    (if mode = Flush \<or> bp_min_batch_providers config \<le> 1 then chunks
     else filter (\<lambda>chunk.
       let provider_count = length (remdups (map (bs_provider_token_account \<circ> ps_settlement) (bc_entries chunk)));
           liveness_deadline_reached = list_ex (\<lambda>entry.
             batch_timestamp - ba_timestamp (ps_audit entry) \<ge> MAX_SETTLEMENT_DELAY_SEC) (bc_entries chunk) in
       provider_count \<ge> bp_min_batch_providers config \<or> liveness_deadline_reached) chunks)"

text \<open>\<^verbatim>\<open>BTreeMap::entry(key).or_insert(0)\<close> followed by the checked addition; the map is the list of its
  entries in the order of the keys.\<close>
fun add_amount ::
  "pubkey \<Rightarrow> u64 \<Rightarrow> BatchSettlementEntry list \<Rightarrow> BatchSettlementEntry list option" where
  "add_amount k a [] = Some [\<lparr>bs_provider_token_account = k, bs_amount = a\<rparr>]"
| "add_amount k a (e # es) =
    (if k = bs_provider_token_account e then
       map_option (\<lambda>t. e\<lparr>bs_amount := t\<rparr> # es) (checked_add (bs_amount e) a)
     else if k < bs_provider_token_account e then
       Some (\<lparr>bs_provider_token_account = k, bs_amount = a\<rparr> # e # es)
     else map_option (\<lambda>es'. e # es') (add_amount k a es))"

fun aggregate_from ::
  "PreparedSettlement list \<Rightarrow> BatchSettlementEntry list \<Rightarrow> BatchSettlementEntry list option" where
  "aggregate_from [] aggregated = Some aggregated"
| "aggregate_from (entry # entries) aggregated =
    (case add_amount (bs_provider_token_account (ps_settlement entry)) (bs_amount (ps_settlement entry)) aggregated of
       None \<Rightarrow> None
     | Some aggregated1 \<Rightarrow> aggregate_from entries aggregated1)"

definition aggregate_settlements :: "PreparedSettlement list \<Rightarrow> BatchSettlementEntry list option" where
  "aggregate_settlements entries = aggregate_from entries []"

definition settlement_entry :: "BatchSettlementEntry \<Rightarrow> SettlementEntry" where
  "settlement_entry e = \<lparr>se_provider_token_account = bs_provider_token_account e, se_amount = bs_amount e\<rparr>"

definition audit_record_data :: "BatchAuditEntry \<Rightarrow> AuditRecordData" where
  "audit_record_data a = \<lparr>rd_encrypted_sender = ba_encrypted_sender a, rd_encrypted_amount = ba_encrypted_amount a,
    rd_provider = ba_provider a, rd_timestamp = word_of_int (ba_timestamp a)\<rparr>"

definition enclave_batch_chunk_hash ::
  "(bytes \<Rightarrow> bytes) \<Rightarrow> u64 \<Rightarrow> BatchSettlementEntry list \<Rightarrow> BatchAuditEntry list \<Rightarrow> bytes" where
  "enclave_batch_chunk_hash sha256 batch_id settlements audit_entries =
    sha256 (str_bytes ''subly402-batch-chunk-v1'' @ to_le_bytes batch_id @
      concat (map (\<lambda>s. bs_provider_token_account s @ to_le_bytes (bs_amount s)) settlements) @
      concat (map (\<lambda>a. ba_encrypted_sender a @ ba_encrypted_amount a @ ba_provider a @
        to_le_bytes (word_of_int (ba_timestamp a) :: i64)) audit_entries))"

text \<open>What a submission depends on outside the enclave: the program and its address derivation, the
  addresses of the token account and of the programs, and the RPC client.\<close>
record batch_env =
  be_solana :: solana
  be_vault_token_account :: pubkey
  be_instructions_sysvar :: pubkey
  be_token_program :: pubkey
  be_system_program :: pubkey
  be_send :: "nat \<Rightarrow> instruction list \<Rightarrow> string option"
  be_privacy :: BatchPrivacyConfig

text \<open>\<^verbatim>\<open>chunk.start_index + offset as u8\<close> for every entry; the addition panics on overflow.\<close>
definition audit_indexes :: "BatchChunk \<Rightarrow> u8 list option" where
  "audit_indexes chunk =
    (if unat (bc_start_index chunk) + length (bc_entries chunk) \<le> 256
     then Some (map (\<lambda>offset. bc_start_index chunk + word_of_nat offset) [0..<length (bc_entries chunk)])
     else None)"

definition atomic_chunk_instructions ::
  "batch_env \<Rightarrow> VaultState \<Rightarrow> u64 \<Rightarrow> BatchChunk \<Rightarrow> BatchSettlementEntry list \<Rightarrow> bytes \<Rightarrow> u8 list \<Rightarrow>
    instruction list" where
  "atomic_chunk_instructions B st batch_id chunk aggregated batch_chunk_hash indexes =
    (let S = be_solana B;
         settlements = map settlement_entry aggregated;
         records = map audit_record_data (audits_of chunk);
         audit_accounts = map (\<lambda>i. fst (sol_pda S (audit_seeds (es_vault_config st) batch_id i))) indexes in
     [\<lparr>ix_program_id = sol_program_id S,
       ix_accounts = [es_vault_signer_pubkey st, es_vault_config st, be_vault_token_account B,
         be_instructions_sysvar B, be_token_program B] @ map bs_provider_token_account aggregated,
       ix_data = settle_vault_data S batch_id batch_chunk_hash settlements\<rparr>,
      \<lparr>ix_program_id = sol_program_id S,
       ix_accounts = [es_vault_signer_pubkey st, es_vault_config st, be_instructions_sysvar B,
         be_system_program B] @ audit_accounts,
       ix_data = record_audit_data S batch_id batch_chunk_hash records\<rparr>])"

definition submit_atomic_chunk ::
  "batch_env \<Rightarrow> nat \<Rightarrow> u64 \<Rightarrow> BatchChunk \<Rightarrow> BatchSettlementEntry list \<Rightarrow> bytes \<Rightarrow> string app" where
  "submit_atomic_chunk B chunk_idx batch_id chunk aggregated batch_chunk_hash =
    (case audit_indexes chunk of
       None \<Rightarrow> sfail Panic
     | Some indexes \<Rightarrow>
         sbind (sget (\<lambda>app. atomic_chunk_instructions B (app_vault app) batch_id chunk aggregated
           batch_chunk_hash indexes)) (\<lambda>instructions.
         case be_send B chunk_idx instructions of
           None \<Rightarrow> sfail (Err (Internal ''failed to submit atomic chunk''))
         | Some signature \<Rightarrow> sret signature))"

text \<open>The retry loops of the mirrors: up to \<open>n\<close> further attempts after an error.\<close>
fun retried :: "nat \<Rightarrow> 'a app \<Rightarrow> unit app" where
  "retried 0 m = sbind m (\<lambda>_. sret ())"
| "retried (Suc n) m = (\<lambda>app. case m app of
      (Inr _, app1) \<Rightarrow> (Inr (), app1)
    | (Inl Panic, app1) \<Rightarrow> (Inl Panic, app1)
    | (Inl (Err _), app1) \<Rightarrow> retried n m app1)"

definition retry_provider_receipt_mirror :: "enclave_env \<Rightarrow> string \<Rightarrow> nat \<Rightarrow> int \<Rightarrow> unit app" where
  "retry_provider_receipt_mirror env provider_id attempts now =
    retried (max attempts 1 - 1) (issue_provider_receipt_locked env provider_id now)"

definition retry_client_receipt_mirror :: "enclave_env \<Rightarrow> pubkey \<Rightarrow> nat \<Rightarrow> int \<Rightarrow> unit app" where
  "retry_client_receipt_mirror env client attempts now =
    retried (max attempts 1 - 1) (issue_client_receipt_locked env client now)"

fun each :: "('a \<Rightarrow> unit app) \<Rightarrow> 'a list \<Rightarrow> unit app" where
  "each f [] = sret ()"
| "each f (x # xs) = sbind (f x) (\<lambda>_. each f xs)"

fun sum_amounts :: "PreparedSettlement list \<Rightarrow> u64 \<Rightarrow> u64 app" where
  "sum_amounts [] acc = sret acc"
| "sum_amounts (entry # entries) acc =
    sbind (sadd acc (bs_amount (ps_settlement entry))) (\<lambda>acc1. sum_amounts entries acc1)"

text \<open>The loop of \<^verbatim>\<open>fire_batch_at\<close> over the chunks.\<close>
fun fire_chunks ::
  "enclave_env \<Rightarrow> batch_env \<Rightarrow> (bytes \<Rightarrow> bytes) \<Rightarrow> u64 \<Rightarrow> int \<Rightarrow> nat \<Rightarrow> BatchChunk list \<Rightarrow> string list app" where
  "fire_chunks env B sha256 batch_id now chunk_idx [] = sret []"
| "fire_chunks env B sha256 batch_id now chunk_idx (chunk # chunks) =
    sok_or (aggregate_settlements (bc_entries chunk)) (Internal ''aggregated provider amount overflow'') (\<lambda>settlements.
    let batch_chunk_hash = enclave_batch_chunk_hash sha256 batch_id settlements (audits_of chunk) in
    sbind (submit_atomic_chunk B chunk_idx batch_id chunk settlements batch_chunk_hash) (\<lambda>signature.
    sbind (batch_confirm_section (map ps_settlement_id (bc_entries chunk)) batch_id signature now) (\<lambda>_.
    sbind (each (\<lambda>provider_id. sattempt (retry_provider_receipt_mirror env provider_id 3 now))
      (remdups (map ps_provider_id (bc_entries chunk)))) (\<lambda>_.
    sbind (fire_chunks env B sha256 batch_id now (chunk_idx + 1) chunks) (\<lambda>signatures.
    sret (signature # signatures))))))"

definition fire_batch_at ::
  "enclave_env \<Rightarrow> batch_env \<Rightarrow> ('p::ab_group_add, 's::comm_ring_1) curve \<Rightarrow>
    (bytes \<Rightarrow> bytes \<Rightarrow> bytes \<Rightarrow> nat \<Rightarrow> bytes) \<Rightarrow> (bytes \<Rightarrow> bytes) \<Rightarrow> (nat \<Rightarrow> 's \<times> 's) \<Rightarrow> int \<Rightarrow> BatchBuildMode \<Rightarrow>
    BatchSubmitResult app" where
  "fire_batch_at env B C hkdf sha256 rnd now mode =
    sbind (in_vault (prepare_batch C hkdf sha256 rnd (be_privacy B) now mode)) (\<lambda>prepared.
    if prepared = [] then sret no_op
    else
      let batch_id = word_of_int now;
          chunks = privacy_filter_batch_chunks (build_batch_chunks prepared) now mode (be_privacy B) in
      if chunks = [] then sret no_op
      else
        let submitted_entries = concat (map bc_entries chunks);
            provider_count = length (remdups (map ps_provider_id submitted_entries)) in
        sbind (sum_amounts submitted_entries 0) (\<lambda>total_amount.
        sbind (fire_chunks env B sha256 batch_id now 0 chunks) (\<lambda>tx_signatures.
        sbind (wal_append_or_fail now (BatchSubmitted batch_id provider_count total_amount)) (\<lambda>_.
        sret \<lparr>br_submitted = True, br_batch_id = Some batch_id, br_provider_count = provider_count,
          br_settlement_count = length submitted_entries, br_total_amount = total_amount,
          br_tx_signatures = tx_signatures\<rparr>))))"

text \<open>The age of the oldest credit among the cursors, or 0.\<close>
definition oldest_age :: "int \<Rightarrow> ProviderBatchCursor list \<Rightarrow> int" where
  "oldest_age now cursors =
    (case map (\<lambda>cursor. now - cu_oldest_credit_at cursor) cursors of [] \<Rightarrow> 0 | ages \<Rightarrow> fold max (tl ages) (hd ages))"

text \<open>One iteration of \<^verbatim>\<open>batch_settlement_loop\<close>: from the jitter deadline to the next one.\<close>
definition batch_settlement_tick ::
  "enclave_env \<Rightarrow> batch_env \<Rightarrow> ('p::ab_group_add, 's::comm_ring_1) curve \<Rightarrow>
    (bytes \<Rightarrow> bytes \<Rightarrow> bytes \<Rightarrow> nat \<Rightarrow> bytes) \<Rightarrow> (bytes \<Rightarrow> bytes) \<Rightarrow> (nat \<Rightarrow> 's \<times> 's) \<Rightarrow> int \<Rightarrow> int \<Rightarrow> int option \<Rightarrow>
    int option app" where
  "batch_settlement_tick env B C hkdf sha256 rnd now sampled_jitter_sec jitter_deadline =
    sbind (sget (\<lambda>app. es_last_batch_at (app_vault app))) (\<lambda>last_batch.
    sbind (in_vault (build_provider_batch_cursors now Auto (be_privacy B))) (\<lambda>cursors.
    let (decision, next_deadline) = decide_batch_action now (now - last_batch)
          (bp_batch_window_sec (be_privacy B)) (length cursors) (oldest_age now cursors) jitter_deadline
          sampled_jitter_sec (bp_min_batch_providers (be_privacy B)) in
    sbind (if decision = Fire then sattempt (fire_batch_at env B C hkdf sha256 rnd now Auto) else sret ()) (\<lambda>_.
    sret next_deadline)))"

definition fire_ready_batch_now ::
  "enclave_env \<Rightarrow> batch_env \<Rightarrow> ('p::ab_group_add, 's::comm_ring_1) curve \<Rightarrow>
    (bytes \<Rightarrow> bytes \<Rightarrow> bytes \<Rightarrow> nat \<Rightarrow> bytes) \<Rightarrow> (bytes \<Rightarrow> bytes) \<Rightarrow> (nat \<Rightarrow> 's \<times> 's) \<Rightarrow> int \<Rightarrow> BatchSubmitResult app" where
  "fire_ready_batch_now env B C hkdf sha256 rnd now =
    sbind (sget (\<lambda>app. es_last_batch_at (app_vault app))) (\<lambda>last_batch.
    sbind (in_vault (build_provider_batch_cursors now Auto (be_privacy B))) (\<lambda>cursors.
    if fst (decide_batch_action now (now - last_batch) (bp_batch_window_sec (be_privacy B)) (length cursors)
        (oldest_age now cursors) None 0 (bp_min_batch_providers (be_privacy B))) \<noteq> Fire
    then sret no_op
    else fire_batch_at env B C hkdf sha256 rnd now Auto))"

definition fire_batch_privacy_bypass_now ::
  "enclave_env \<Rightarrow> batch_env \<Rightarrow> ('p::ab_group_add, 's::comm_ring_1) curve \<Rightarrow>
    (bytes \<Rightarrow> bytes \<Rightarrow> bytes \<Rightarrow> nat \<Rightarrow> bytes) \<Rightarrow> (bytes \<Rightarrow> bytes) \<Rightarrow> (nat \<Rightarrow> 's \<times> 's) \<Rightarrow> int \<Rightarrow> BatchSubmitResult app" where
  "fire_batch_privacy_bypass_now env B C hkdf sha256 rnd now = fire_batch_at env B C hkdf sha256 rnd now Flush"

section \<open>Expiry and recovery\<close>

text \<open>The body of the loop of \<^verbatim>\<open>recover_pending_channel_claims\<close> for one channel whose claim account holds
  a signature; every error is logged and skipped.\<close>
definition recover_claim ::
  "enclave_env \<Rightarrow> ('p::ab_group_add, 's::comm_ring_1) curve \<Rightarrow> (bytes \<Rightarrow> bytes) \<Rightarrow> string \<Rightarrow> bytes \<Rightarrow> bytes \<Rightarrow> int \<Rightarrow>
    unit app" where
  "recover_claim env C sha256 channel_id full_sig_r full_sig_s now =
    sbind (in_vault (finalize_onchain_claim C sha256 channel_id full_sig_r full_sig_s now)) (\<lambda>outcome.
    sbind (wal_append_or_rollback now
      (ChannelFinalized channel_id (fo_request_id outcome) (fo_amount outcome))
      (rollback_finalize_offchain channel_id (fo_request outcome) now)) (\<lambda>_.
    sbind (channel_client channel_id) (\<lambda>client.
    sbind (sattempt (in_vault (refresh_client_max_lock_expires_at client))) (\<lambda>_.
    retry_client_receipt_mirror env client 3 now))))"

text \<open>The claim accounts are read by the RPC client: \<open>claim_of\<close> is the decoded signature of the claim
  for a channel and a request, when there is one.\<close>
definition recover_pending_channel_claims ::
  "enclave_env \<Rightarrow> ('p::ab_group_add, 's::comm_ring_1) curve \<Rightarrow> (bytes \<Rightarrow> bytes) \<Rightarrow>
    (string \<Rightarrow> string \<Rightarrow> (bytes \<times> bytes) option) \<Rightarrow> int \<Rightarrow> unit app" where
  "recover_pending_channel_claims env C sha256 claim_of now =
    sbind (sget (\<lambda>app. List.map_filter (\<lambda>channel.
        if ch_status channel = Pending
        then map_option (\<lambda>request. (ch_channel_id channel, cr_request_id request)) (ch_active_request channel)
        else None) (avals (es_active_channels (app_vault app))))) (\<lambda>pending_channels.
    each (\<lambda>(channel_id, request_id). case claim_of channel_id request_id of
        None \<Rightarrow> sret ()
      | Some (full_sig_r, full_sig_s) \<Rightarrow>
          sattempt (recover_claim env C sha256 channel_id full_sig_r full_sig_s now)) pending_channels)"

definition clean_settlement_history :: "int \<Rightarrow> VaultState \<Rightarrow> VaultState" where
  "clean_settlement_history now st =
    (let referenced = concat (map pc_settlement_ids (avals (es_provider_credits st)));
         stale = map sr_settlement_id (filter (\<lambda>r. now - sr_timestamp r > SETTLEMENT_HISTORY_MAX_AGE_SEC \<and>
           sr_settlement_id r \<notin> set referenced) (avals (es_settlement_history st))) in
     st\<lparr>es_settlement_history := fold adel stale (es_settlement_history st)\<rparr>)"

text \<open>One iteration of \<^verbatim>\<open>reservation_expiry_loop\<close>; \<open>recorded\<close> is the answer of the RPC client to whether
  the nonce of a withdrawal is recorded on chain, or an error.\<close>
definition reservation_expiry_tick ::
  "enclave_env \<Rightarrow> ('p::ab_group_add, 's::comm_ring_1) curve \<Rightarrow> (bytes \<Rightarrow> bytes) \<Rightarrow>
    (PendingWithdrawal \<Rightarrow> bool option) \<Rightarrow> (string \<Rightarrow> string \<Rightarrow> (bytes \<times> bytes) option) \<Rightarrow> int \<Rightarrow> unit app" where
  "reservation_expiry_tick env C sha256 recorded claim_of now =
    sbind (sget (\<lambda>app. map rv_verification_id (filter (\<lambda>r. rv_status r = Reserved \<and> now > rv_expires_at r)
      (avals (es_reservations (app_vault app)))))) (\<lambda>expired_ids.
    sbind (each (\<lambda>ver_id. sattempt (expire_reserved_reservation_with_lock env ver_id now)) expired_ids) (\<lambda>_.
    sbind (sget (\<lambda>app. filter (\<lambda>w. now > pw_expires_at w) (avals (es_pending_withdrawals (app_vault app))))) (\<lambda>expired_withdrawals.
    sbind (each (\<lambda>w. if recorded w = Some False
        then sattempt (expire_pending_withdrawal_section env (pw_withdraw_nonce w) now) else sret ())
      expired_withdrawals) (\<lambda>_.
    sbind (in_vault (smodify (clean_settlement_history now))) (\<lambda>_.
    sbind (sget (\<lambda>app. map ch_channel_id (filter (\<lambda>channel. ch_status channel \<in> {Locked, Pending} \<and>
        (case ch_active_request channel of None \<Rightarrow> False | Some request \<Rightarrow> now > cr_expires_at request))
      (avals (es_active_channels (app_vault app)))))) (\<lambda>expired_channel_ids.
    sbind (each (\<lambda>channel_id. sattempt (expire_stale_channel_request_with_lock env channel_id now))
      expired_channel_ids) (\<lambda>_.
    recover_pending_channel_claims env C sha256 claim_of now)))))))"

end
