(* ===== verification/Batch_Correct.thy ===== *)
theory Batch_Correct
  imports Batch
begin

text \<open>
  What the batching promises: settlements are taken round robin from the providers, chunks cut the
  batch without loss, every transaction pays exactly what its settlements sum up to and satisfies
  the checks of the on-chain program, and automatic batches keep the privacy rules.
\<close>

section \<open>Selection\<close>

text \<open>The \<open>k\<close>-th settlement of every provider that has one.\<close>
definition round_of :: "ProviderBatchCursor list \<Rightarrow> nat \<Rightarrow> (string \<times> string) list" where
  "round_of cursors k = List.map_filter (\<lambda>c. if k < length (cu_settlement_ids c)
    then Some (cu_provider_id c, cu_settlement_ids c ! k) else None) cursors"

text \<open>All cursors after \<open>k\<close> rounds.\<close>
definition at_round :: "nat \<Rightarrow> ProviderBatchCursor list \<Rightarrow> ProviderBatchCursor list" where
  "at_round k = map (\<lambda>c. c\<lparr>cu_next_index := min k (length (cu_settlement_ids c))\<rparr>)"

lemma round_of_simps [simp]:
  "round_of [] k = []"
  "round_of (c # cs) k = (if k < length (cu_settlement_ids c)
    then (cu_provider_id c, cu_settlement_ids c ! k) # round_of cs k else round_of cs k)"
  by (simp_all add: round_of_def List.map_filter_def)

lemma select_pass_round:
  assumes "length sel \<le> m"
  shows "\<exists>cs' adv. select_pass m (at_round k cs) sel = (cs', take m (sel @ round_of cs k), adv) \<and>
    (length (sel @ round_of cs k) < m \<longrightarrow> cs' = at_round (Suc k) cs \<and> (adv \<longleftrightarrow> round_of cs k \<noteq> [])) \<and>
    (length sel < m \<longrightarrow> round_of cs k \<noteq> [] \<longrightarrow> adv)"
  using assms
proof (induction cs arbitrary: sel)
  case Nil
  then show ?case by (auto simp: at_round_def)
next
  case (Cons c cs)
  show ?case
  proof (cases "m \<le> length sel")
    case True
    with Cons.prems have "length sel = m" by simp
    then show ?thesis by (auto simp: at_round_def)
  next
    case False
    show ?thesis
    proof (cases "k < length (cu_settlement_ids c)")
      case True
      let ?sel = "sel @ [(cu_provider_id c, cu_settlement_ids c ! k)]"
      obtain cs' adv where *: "select_pass m (at_round k cs) ?sel = (cs', take m (?sel @ round_of cs k), adv)"
        "length (?sel @ round_of cs k) < m \<longrightarrow> cs' = at_round (Suc k) cs \<and> (adv \<longleftrightarrow> round_of cs k \<noteq> [])"
        using Cons.IH [of ?sel] False by auto
      show ?thesis
        using True False * by (auto simp: at_round_def min_def Suc_le_eq)
    next
      case False': False
      obtain cs' adv where *: "select_pass m (at_round k cs) sel = (cs', take m (sel @ round_of cs k), adv)"
        "length (sel @ round_of cs k) < m \<longrightarrow> cs' = at_round (Suc k) cs \<and> (adv \<longleftrightarrow> round_of cs k \<noteq> [])"
        "length sel < m \<longrightarrow> round_of cs k \<noteq> [] \<longrightarrow> adv"
        using Cons.IH [of sel] Cons.prems by blast
      show ?thesis
        using False False' * by (simp add: at_round_def min_def Suc_le_eq)
    qed
  qed
qed

lemma round_of_late: "\<forall>c\<in>set cs. length (cu_settlement_ids c) \<le> k \<Longrightarrow> round_of cs k = []"
  by (induction cs) auto

lemma round_of_empty: "round_of cs k = [] \<Longrightarrow> k \<le> j \<Longrightarrow> round_of cs j = []"
  by (induction cs) (auto split: if_splits)

lemma rounds_empty: "round_of cs k = [] \<Longrightarrow> concat (map (round_of cs) [k..<n]) = []"
  using round_of_empty by fastforce

lemma select_loop_rounds:
  assumes "length sel \<le> m" "\<forall>c\<in>set cs. length (cu_settlement_ids c) \<le> n"
  shows "select_loop m (at_round k cs) sel = take m (sel @ concat (map (round_of cs) [k..<n]))"
  using assms
proof (induction "m - length sel" arbitrary: sel k rule: less_induct)
  case less
  show ?case
  proof (cases "length sel < m")
    case False
    with less.prems show ?thesis by (simp add: select_loop.simps [of m])
  next
    case True
    obtain cs' adv where pass: "select_pass m (at_round k cs) sel = (cs', take m (sel @ round_of cs k), adv)"
      and few: "length (sel @ round_of cs k) < m \<Longrightarrow> cs' = at_round (Suc k) cs \<and> (adv \<longleftrightarrow> round_of cs k \<noteq> [])"
      and adv: "round_of cs k \<noteq> [] \<Longrightarrow> adv"
      using select_pass_round [OF less.prems(1)] True by blast
    show ?thesis
    proof (cases "round_of cs k = []")
      case empty: True
      with True few pass rounds_empty [OF empty] show ?thesis
        by (simp add: select_loop.simps [of m])
    next
      case False
      have k: "k < n"
        using False round_of_late [of cs k] less.prems(2) by (meson le_trans not_less)
      have rounds: "concat (map (round_of cs) [k..<n]) = round_of cs k @ concat (map (round_of cs) [Suc k..<n])"
        using k by (simp add: upt_conv_Cons)
      show ?thesis
      proof (cases "length (sel @ round_of cs k) < m")
        case True': True
        have "select_loop m (at_round (Suc k) cs) (sel @ round_of cs k) =
            take m ((sel @ round_of cs k) @ concat (map (round_of cs) [Suc k..<n]))"
          by (rule less.hyps) (use True True' False less.prems(2) in \<open>auto simp: length_greater_0_conv [symmetric] simp del: length_greater_0_conv\<close>)
        then show ?thesis
          using True True' few False pass rounds by (simp add: select_loop.simps [of m "at_round k cs"])
      next
        case full: False
        then show ?thesis
          using True adv [OF False] pass rounds
          by (simp add: select_loop.simps [of m "at_round k cs"] select_loop.simps [of m cs'])
      qed
    qed
  qed
qed

lemma select_rounds:
  assumes "\<forall>c\<in>set cursors. cu_next_index c = 0" "\<forall>c\<in>set cursors. length (cu_settlement_ids c) \<le> n"
  shows "select_batch_settlement_ids cursors m = take m (concat (map (round_of (sort_cursors cursors)) [0..<n]))"
proof -
  let ?cs = "sort_cursors (filter (\<lambda>c. cu_settlement_ids c \<noteq> []) cursors)"
  have cs: "set ?cs \<subseteq> set cursors" by (auto simp: sort_cursors_def)
  then have "at_round 0 ?cs = ?cs"
    unfolding at_round_def using assms(1) by (intro map_idI) auto
  then have "select_batch_settlement_ids cursors m = take m (concat (map (round_of ?cs) [0..<n]))"
    using select_loop_rounds [of "[]" m ?cs n 0] cs assms(2) by (auto simp: select_batch_settlement_ids_def)
  moreover have "round_of ?cs = round_of (sort_cursors cursors)"
  proof
    fix k
    have "round_of (filter (\<lambda>c. cu_settlement_ids c \<noteq> []) cs) k = round_of cs k" for cs
      by (induction cs) auto
    moreover have "?cs = filter (\<lambda>c. cu_settlement_ids c \<noteq> []) (sort_cursors cursors)"
      by (simp add: sort_cursors_def filter_sort)
    ultimately show "round_of ?cs k = round_of (sort_cursors cursors) k" by simp
  qed
  ultimately show ?thesis by simp
qed

text \<open>C28. The selection is fair.  The settlements of a batch are exactly the first \<open>m\<close> of the round-robin
  order: first the oldest eligible settlement of every provider, providers in the order of their
  oldest credit, then the second of every provider, and so on.  The loop with its cursors ends, and
  takes \<open>m\<close> settlements whenever there are that many.\<close>
theorem selection_is_round_robin:
  assumes "\<forall>c\<in>set cursors. cu_next_index c = 0" "\<forall>c\<in>set cursors. length (cu_settlement_ids c) \<le> n"
  shows "select_batch_settlement_ids cursors m = take m (concat (map (round_of (sort_cursors cursors)) [0..<n]))"
  by (rule select_rounds [OF assms])

section \<open>Chunks\<close>

lemma cut_chunks_step: "cut_chunks es base extra idx start (Suc left) =
  \<lparr>bc_start_index = word_of_nat start,
    bc_entries = take (base + (if idx < extra then 1 else 0)) (drop start es)\<rparr> #
  cut_chunks es base extra (Suc idx) (start + base + (if idx < extra then 1 else 0)) left"
  by (simp add: Let_def)

text \<open>The number of entries that the chunks from \<open>idx\<close> on take.\<close>
fun chunk_total :: "nat \<Rightarrow> nat \<Rightarrow> nat \<Rightarrow> nat \<Rightarrow> nat" where
  "chunk_total base extra idx 0 = 0"
| "chunk_total base extra idx (Suc left) =
    base + (if idx < extra then 1 else 0) + chunk_total base extra (Suc idx) left"

lemma chunk_total_eq: "chunk_total base extra idx left = left * base + min left (extra - idx)"
  by (induction left arbitrary: idx) (auto simp: min_def)

lemma cut_chunks_concat:
  assumes "start + chunk_total base extra idx left = length es"
  shows "concat (map bc_entries (cut_chunks es base extra idx start left)) = drop start es"
  using assms
proof (induction left arbitrary: idx start)
  case (Suc left)
  define n where "n = base + (if idx < extra then 1 else 0)"
  have "concat (map bc_entries (cut_chunks es base extra (Suc idx) (start + n) left)) = drop (start + n) es"
    using Suc.prems by (intro Suc.IH) (simp add: n_def)
  moreover have "cut_chunks es base extra idx start (Suc left) =
      \<lparr>bc_start_index = word_of_nat start, bc_entries = take n (drop start es)\<rparr> #
      cut_chunks es base extra (Suc idx) (start + n) left"
    by (simp add: n_def)
  moreover have "take n (drop start es) @ drop (start + n) es = drop start es"
    using append_take_drop_id [of n "drop start es"] by (simp add: add.commute)
  ultimately show ?case by simp
qed simp

lemma cut_chunks_nth:
  assumes "start + chunk_total base extra idx left = length es"
    and "chunk \<in> set (cut_chunks es base extra idx start left)"
  shows "\<exists>i n. bc_start_index chunk = word_of_nat i \<and> bc_entries chunk = take n (drop i es) \<and> i + n \<le> length es \<and>
    base \<le> n \<and> n \<le> base + (if idx < extra then 1 else 0)"
  using assms
proof (induction left arbitrary: idx start)
  case (Suc left)
  show ?case
  proof (cases "chunk = hd (cut_chunks es base extra idx start (Suc left))")
    case True
    with Suc.prems show ?thesis
      by (intro exI [of _ start] exI [of _ "base + (if idx < extra then 1 else 0)"]) (auto simp: cut_chunks_step)
  next
    case False
    with Suc.prems have "chunk \<in> set (cut_chunks es base extra (Suc idx) (start + base + (if idx < extra then 1 else 0)) left)"
      by (auto simp: cut_chunks_step)
    then show ?thesis
      using Suc.IH [of "start + base + (if idx < extra then 1 else 0)" "Suc idx"] Suc.prems(1)
      by (fastforce simp: add.assoc split: if_splits)
  qed
qed simp

lemma chunk_sizes:
  fixes n :: nat
  assumes "0 < n"
  defines "cc \<equiv> (n + 1) div 2"
  shows "0 < n div cc" "n div cc + (if 0 < n mod cc then 1 else 0) \<le> 2" "cc * (n div cc) + min cc (n mod cc) = n"
proof -
  have cc: "0 < cc" "n \<le> 2 * cc" "cc \<le> n" using assms by simp_all
  then show "0 < n div cc" by (simp add: div_greater_zero_iff)
  show "n div cc + (if 0 < n mod cc then 1 else 0) \<le> 2"
  proof (cases "n = 2 * cc")
    case True
    with cc(1) show ?thesis by simp
  next
    case False
    with cc have "n div cc < 2" by (simp add: div_less_iff_less_mult)
    then show ?thesis by simp
  qed
  show "cc * (n div cc) + min cc (n mod cc) = n"
    using mod_less_divisor [OF cc(1), of n] by (simp add: min_def)
qed

lemma build_batch_chunks_ne:
  assumes "es \<noteq> []"
  defines "cc \<equiv> (length es + 1) div 2"
  shows "build_batch_chunks es = cut_chunks es (length es div cc) (length es mod cc) 0 0 cc"
    "chunk_total (length es div cc) (length es mod cc) 0 cc = length es"
  using assms chunk_sizes(3) [of "length es"]
  by (simp_all add: build_batch_chunks_def Let_def MAX_ATOMIC_SETTLEMENTS_WITH_AUDIT_def chunk_total_eq)

lemma build_batch_chunks_concat: "concat (map bc_entries (build_batch_chunks es)) = es"
  using build_batch_chunks_ne [of es] cut_chunks_concat [of 0 _ _ 0 _ es]
  by (cases "es = []") (auto simp: build_batch_chunks_def)

lemma build_batch_chunks_nth:
  assumes "chunk \<in> set (build_batch_chunks es)"
  shows "\<exists>i n. bc_start_index chunk = word_of_nat i \<and> bc_entries chunk = take n (drop i es) \<and> i + n \<le> length es \<and>
    0 < n \<and> n \<le> 2"
proof -
  define cc where "cc = (length es + 1) div 2"
  have "es \<noteq> []" using assms by (auto simp: build_batch_chunks_def)
  note ne = build_batch_chunks_ne [OF this, folded cc_def]
  have size: "0 < length es div cc" "length es div cc + (if 0 < length es mod cc then 1 else 0) \<le> 2"
    using chunk_sizes [of "length es"] \<open>es \<noteq> []\<close> by (simp_all add: cc_def)
  obtain i n where "bc_start_index chunk = word_of_nat i" "bc_entries chunk = take n (drop i es)" "i + n \<le> length es"
      "length es div cc \<le> n" "n \<le> length es div cc + (if 0 < length es mod cc then 1 else 0)"
    using cut_chunks_nth [of 0 _ _ 0 cc es chunk] ne assms by fastforce
  with size show ?thesis by (intro exI [of _ i] exI [of _ n]) simp
qed

lemma audit_indexes_eq:
  assumes "i + length (bc_entries chunk) \<le> 256" "0 < length (bc_entries chunk)" "bc_start_index chunk = word_of_nat i"
  shows "audit_indexes chunk = Some (map word_of_nat [i..<i + length (bc_entries chunk)])"
proof -
  have "unat (word_of_nat i :: u8) = i"
  proof -
    have "i < 256" using assms(1,2) by linarith
    then show ?thesis by (simp add: unat_of_nat)
  qed
  moreover have "map word_of_nat [i..<i + n] = map (\<lambda>j. word_of_nat i + word_of_nat j :: u8) [0..<n]" for n
    by (induction n) auto
  ultimately show ?thesis using assms by (simp add: audit_indexes_def)
qed

lemma cut_chunks_indexes:
  assumes "start + chunk_total base extra idx left = length es" "0 < base" "length es \<le> 256"
  shows "concat (map (the \<circ> audit_indexes) (cut_chunks es base extra idx start left)) = map word_of_nat [start..<length es]"
  using assms(1)
proof (induction left arbitrary: idx start)
  case (Suc left)
  define n where "n = base + (if idx < extra then 1 else 0)"
  let ?chunk = "\<lparr>bc_start_index = word_of_nat start, bc_entries = take n (drop start es)\<rparr>"
  have len: "length (bc_entries ?chunk) = n" "start + n \<le> length es" "0 < n"
    using Suc.prems assms(2) by (auto simp: n_def)
  have "audit_indexes ?chunk = Some (map word_of_nat [start..<start + n])"
    using audit_indexes_eq [of start ?chunk] len assms(3) by simp
  moreover have "concat (map (the \<circ> audit_indexes) (cut_chunks es base extra (Suc idx) (start + n) left)) =
      map word_of_nat [start + n..<length es]"
    using Suc.prems by (intro Suc.IH) (simp add: n_def)
  moreover have "[start..<length es] = [start..<start + n] @ [start + n..<length es]"
    using upt_add_eq_append [of start "start + n" "length es - (start + n)"] len(2) by simp
  moreover have "cut_chunks es base extra idx start (Suc left) = ?chunk # cut_chunks es base extra (Suc idx) (start + n) left"
    by (simp add: n_def)
  ultimately show ?case by (simp add: comp_def)
qed simp

text \<open>C29. A batch is cut into transactions without loss.  The chunks hold the prepared settlements in
  order, one or two in each, so that a transaction stays within its size limit; no index computation
  panics, and the audit indexes of all chunks together are 0, 1, 2, ..., one per settlement, so that no
  two records of a batch share an account.\<close>
theorem batch_chunks_cover:
  assumes "length entries \<le> 256"
  shows "concat (map bc_entries (build_batch_chunks entries)) = entries \<and>
    (\<forall>chunk\<in>set (build_batch_chunks entries). bc_entries chunk \<noteq> [] \<and>
      length (bc_entries chunk) \<le> MAX_ATOMIC_SETTLEMENTS_WITH_AUDIT \<and> audit_indexes chunk \<noteq> None) \<and>
    concat (map (the \<circ> audit_indexes) (build_batch_chunks entries)) = map word_of_nat [0..<length entries]"
proof (intro conjI)
  show "concat (map bc_entries (build_batch_chunks entries)) = entries"
    by (rule build_batch_chunks_concat)
  show "\<forall>chunk\<in>set (build_batch_chunks entries). bc_entries chunk \<noteq> [] \<and>
      length (bc_entries chunk) \<le> MAX_ATOMIC_SETTLEMENTS_WITH_AUDIT \<and> audit_indexes chunk \<noteq> None"
  proof
    fix chunk assume "chunk \<in> set (build_batch_chunks entries)"
    then obtain i n where "bc_start_index chunk = word_of_nat i" "bc_entries chunk = take n (drop i entries)"
        "i + n \<le> length entries" "0 < n" "n \<le> 2"
      using build_batch_chunks_nth by blast
    then show "bc_entries chunk \<noteq> [] \<and> length (bc_entries chunk) \<le> MAX_ATOMIC_SETTLEMENTS_WITH_AUDIT \<and>
        audit_indexes chunk \<noteq> None"
      using audit_indexes_eq [of i chunk] assms by (auto simp: MAX_ATOMIC_SETTLEMENTS_WITH_AUDIT_def)
  qed
  show "concat (map (the \<circ> audit_indexes) (build_batch_chunks entries)) = map word_of_nat [0..<length entries]"
  proof (cases "entries = []")
    case False
    then show ?thesis
      unfolding build_batch_chunks_ne(1) [OF False]
      by (intro cut_chunks_indexes)
        (use assms build_batch_chunks_ne(2) [OF False] chunk_sizes(1) [of "length entries"] in simp_all)
  qed (simp add: build_batch_chunks_def)
qed

section \<open>Aggregation\<close>

text \<open>What a list of prepared settlements owes to a token account.\<close>
definition owed_to :: "pubkey \<Rightarrow> PreparedSettlement list \<Rightarrow> nat" where
  "owed_to k entries = sum_list (map (\<lambda>e. if bs_provider_token_account (ps_settlement e) = k
    then unat (bs_amount (ps_settlement e)) else 0) entries)"

definition paid_by :: "pubkey \<Rightarrow> BatchSettlementEntry list \<Rightarrow> nat" where
  "paid_by k ss = sum_list (map (\<lambda>s. if bs_provider_token_account s = k then unat (bs_amount s) else 0) ss)"

abbreviation accounts :: "BatchSettlementEntry list \<Rightarrow> pubkey list" where
  "accounts \<equiv> map bs_provider_token_account"

lemma paid_by_simps [simp]:
  "paid_by k [] = 0"
  "paid_by k (s # ss) = (if bs_provider_token_account s = k then unat (bs_amount s) else 0) + paid_by k ss"
  by (simp_all add: paid_by_def)

lemma paid_by_None: "k \<notin> set (accounts ss) \<Longrightarrow> paid_by k ss = 0"
  by (induction ss) auto

lemma checked_add_Some_unat: "checked_add a b = Some c \<longleftrightarrow> unat a + unat b < 2 ^ 64 \<and> c = a + (b :: u64)"
  by (auto simp: checked_add_def)

lemma add_amount_Some:
  assumes "sorted_wrt (<) (accounts ss)" "add_amount k a ss = Some ss'"
  shows "sorted_wrt (<) (accounts ss') \<and> set (accounts ss') = insert k (set (accounts ss)) \<and>
    (\<forall>j. paid_by j ss' = paid_by j ss + (if j = k then unat a else 0))"
  using assms
proof (induction ss arbitrary: ss')
  case (Cons e es)
  consider "k = bs_provider_token_account e" | "k < bs_provider_token_account e" |
    "bs_provider_token_account e < k" by force
  then show ?case
  proof cases
    case 1
    with Cons.prems show ?thesis by (auto simp: unat_checked_add)
  next
    case 2
    have "k < bs_provider_token_account x" if "x \<in> set es" for x
      by (rule order.strict_trans [OF 2]) (use Cons.prems(1) that in simp)
    with 2 Cons.prems show ?thesis by auto
  next
    case 3
    then have "k \<noteq> bs_provider_token_account e" "\<not> k < bs_provider_token_account e" by auto
    with Cons.prems obtain es' where "add_amount k a es = Some es'" "ss' = e # es'" by auto
    with Cons.IH [of es'] Cons.prems 3 show ?thesis by auto
  qed
qed auto

lemma add_amount_None:
  "sorted_wrt (<) (accounts ss) \<Longrightarrow> add_amount k a ss = None \<longleftrightarrow> 2 ^ 64 \<le> paid_by k ss + unat a"
proof (induction ss)
  case Nil
  then show ?case using unat_less_pow [of a] by simp
next
  case (Cons e es)
  have 0: "k \<notin> set (accounts es)" if "k \<le> bs_provider_token_account e"
    using Cons.prems that by force
  show ?case
    using Cons 0 paid_by_None [OF 0] unat_less_pow [of a]
    by (auto simp: checked_add_def not_less)
qed

lemma aggregate_from_spec:
  assumes "sorted_wrt (<) (accounts ss)" "\<And>k. paid_by k ss < 2 ^ 64"
  shows "(aggregate_from es ss = None \<longleftrightarrow> (\<exists>k. 2 ^ 64 \<le> paid_by k ss + owed_to k es)) \<and>
    (\<forall>ss'. aggregate_from es ss = Some ss' \<longrightarrow> sorted_wrt (<) (accounts ss') \<and>
      set (accounts ss') = set (accounts ss) \<union> set (map (bs_provider_token_account \<circ> ps_settlement) es) \<and>
      (\<forall>k. paid_by k ss' = paid_by k ss + owed_to k es))"
  using assms
proof (induction es arbitrary: ss)
  case Nil
  then show ?case by (simp add: owed_to_def not_le)
next
  case (Cons e es)
  let ?k = "bs_provider_token_account (ps_settlement e)" and ?a = "bs_amount (ps_settlement e)"
  have owed: "owed_to k (e # es) = (if k = ?k then unat ?a else 0) + owed_to k es" for k
    by (auto simp: owed_to_def)
  show ?case
  proof (cases "add_amount ?k ?a ss")
    case None
    then have "2 ^ 64 \<le> paid_by ?k ss + owed_to ?k (e # es)"
      using add_amount_None [OF Cons.prems(1), of ?k ?a] by (simp add: owed)
    with None show ?thesis by auto
  next
    case (Some ss1)
    note ss1 = add_amount_Some [OF Cons.prems(1) Some]
    have "paid_by k ss1 < 2 ^ 64" for k
      using ss1 Cons.prems(2) [of k] Some add_amount_None [OF Cons.prems(1), of ?k ?a] by (auto simp: not_le)
    note IH = Cons.IH [of ss1, OF conjunct1 [OF ss1] this]
    have paid: "paid_by k ss1 + owed_to k es = paid_by k ss + owed_to k (e # es)" for k
      using ss1 by (simp add: owed)
    have agg: "aggregate_from (e # es) ss = aggregate_from es ss1" by (simp add: Some)
    have accts: "set (accounts ss1) \<union> set (map (bs_provider_token_account \<circ> ps_settlement) es) =
        set (accounts ss) \<union> set (map (bs_provider_token_account \<circ> ps_settlement) (e # es))"
      using ss1 by auto
    show ?thesis unfolding agg using IH unfolding paid accts .
  qed
qed

lemma aggregate_spec:
  "(aggregate_settlements es = None \<longleftrightarrow> (\<exists>k. 2 ^ 64 \<le> owed_to k es)) \<and>
    (\<forall>ss. aggregate_settlements es = Some ss \<longrightarrow> sorted_wrt (<) (accounts ss) \<and>
      set (accounts ss) = set (map (bs_provider_token_account \<circ> ps_settlement) es) \<and> (\<forall>k. paid_by k ss = owed_to k es))"
  unfolding aggregate_settlements_def using aggregate_from_spec [of "[]" es] by simp

section \<open>The transaction of a chunk\<close>

definition prepared_wf :: "PreparedSettlement \<Rightarrow> bool" where
  "prepared_wf e \<longleftrightarrow> length (bs_provider_token_account (ps_settlement e)) = 32 \<and>
    length (ba_encrypted_sender (ps_audit e)) = 64 \<and> length (ba_encrypted_amount (ps_audit e)) = 64 \<and>
    length (ba_provider (ps_audit e)) = 32"

lemma enclave_hash_eq:
  "enclave_batch_chunk_hash (sol_sha256 S) batch_id ss as =
    compute_batch_chunk_hash S batch_id (map settlement_entry ss) (map audit_record_data as)"
  by (simp add: enclave_batch_chunk_hash_def compute_batch_chunk_hash_def batch_chunk_preimage_def
      settlement_entry_def audit_record_data_def settlement_bytes_def record_bytes_def comp_def)

lemma length_accounts_le: "sorted_wrt (<) (accounts ss) \<Longrightarrow> set (accounts ss) = set xs \<Longrightarrow> length ss \<le> length xs"
proof -
  assume "sorted_wrt (<) (accounts ss)" and eq: "set (accounts ss) = set xs"
  then have "distinct (accounts ss)" by (simp add: strict_sorted_iff)
  then have "length ss = card (set xs)" using distinct_card [of "accounts ss"] eq by simp
  then show ?thesis using card_length [of xs] by simp
qed

text \<open>C12. The enclave's transaction for a chunk is one that the vault program accepts as a pair: from the
  settlement instruction the program finds the audit instruction next to it, from the audit
  instruction the settlement, and both agree on the hash of the chunk, which the enclave has
  computed independently.  The settlement pays every token account exactly what the settlements of
  the chunk owe it, one transfer per account.\<close>
theorem chunk_transaction_accepted:
  fixes B :: batch_env
  defines "S \<equiv> be_solana B"
  assumes sha: "\<And>m. length (sol_sha256 S m) = 32"
    and chunk: "length (bc_entries chunk) \<le> 256" "\<forall>e\<in>set (bc_entries chunk). prepared_wf e"
    and agg: "aggregate_settlements (bc_entries chunk) = Some settlements"
    and hash: "h = enclave_batch_chunk_hash (sol_sha256 S) batch_id settlements (audits_of chunk)"
    and tx: "ixs = atomic_chunk_instructions B st batch_id chunk settlements h indexes"
  shows "verify_record_audit_pairing S \<lparr>sv_current_index = Some 0, sv_instructions = ixs\<rparr> batch_id h
      (es_vault_config st) (map settlement_entry settlements) = Inr () \<and>
    verify_settle_vault_pairing S \<lparr>sv_current_index = Some 1, sv_instructions = ixs\<rparr> batch_id h
      (es_vault_config st) (map audit_record_data (audits_of chunk)) = Inr () \<and>
    (\<forall>k. paid_by k settlements = owed_to k (bc_entries chunk)) \<and> distinct (accounts settlements)"
proof -
  let ?ss = "map settlement_entry settlements" and ?rs = "map audit_record_data (audits_of chunk)"
  note spec = conjunct2 [OF aggregate_spec, rule_format, OF agg]
  have disc: "length (instruction_discriminator S name) = 8" for name
    by (simp add: instruction_discriminator_def sha)
  have h: "length h = 32"
    by (simp add: hash enclave_batch_chunk_hash_def sha)
  have same: "compute_batch_chunk_hash S batch_id ?ss ?rs = h"
    by (simp only: hash enclave_hash_eq)
  have rs: "list_all record_wf ?rs" "length ?rs < 2 ^ 32"
    using chunk by (auto simp: list_all_iff audits_of_def audit_record_data_def record_wf_def prepared_wf_def)
  have "length settlements \<le> length (bc_entries chunk)"
    using length_accounts_le [of settlements "map (bs_provider_token_account \<circ> ps_settlement) (bc_entries chunk)"] spec
    by simp
  moreover have "length (bs_provider_token_account s) = 32" if "s \<in> set settlements" for s
  proof -
    have "bs_provider_token_account s \<in> set (map (bs_provider_token_account \<circ> ps_settlement) (bc_entries chunk))"
      using spec that by force
    with chunk(2) show ?thesis by (auto simp: prepared_wf_def)
  qed
  ultimately have ss: "list_all settlement_wf ?ss" "length ?ss < 2 ^ 32"
    using chunk(1) by (auto simp: list_all_iff settlement_wf_def settlement_entry_def)
  note audit = parse_record_audit_data [OF disc h rs, of _ batch_id]
    and settle = parse_settle_vault_data [OF disc h ss, of _ batch_id]
  have "verify_record_audit_pairing S \<lparr>sv_current_index = Some 0, sv_instructions = ixs\<rparr> batch_id h
      (es_vault_config st) ?ss = Inr ()"
    unfolding tx atomic_chunk_instructions_def Let_def
    by (simp add: verify_record_audit_pairing_def numeral_eq_Suc load_instruction_at_checked_def
        audit [folded S_def] S_def [symmetric] same)
  moreover have "verify_settle_vault_pairing S \<lparr>sv_current_index = Some 1, sv_instructions = ixs\<rparr> batch_id h
      (es_vault_config st) ?rs = Inr ()"
    unfolding tx atomic_chunk_instructions_def Let_def
    by (simp add: verify_settle_vault_pairing_def numeral_eq_Suc load_instruction_at_checked_def
        settle [folded S_def] S_def [symmetric] same)
  ultimately show ?thesis using spec by (simp add: strict_sorted_iff)
qed

section \<open>Eligible settlements\<close>

definition extends :: "('k, 'v) amap \<Rightarrow> ('k, 'v) amap \<Rightarrow> bool" where
  "extends m m' \<longleftrightarrow> (\<forall>k v. aget m k = Some v \<longrightarrow> aget m' k = Some v)"

lemma extends_refl [simp]: "extends m m" and extends_trans: "extends m m' \<Longrightarrow> extends m' m'' \<Longrightarrow> extends m m''"
  by (auto simp: extends_def)

lemma extends_fresh: "aget m k = None \<Longrightarrow> extends m (aput k v m)"
  by (auto simp: extends_def)

text \<open>A step that only adds records for identifiers that satisfy \<open>P\<close>.\<close>
definition adds_records :: "(string \<Rightarrow> bool) \<Rightarrow> VaultState \<Rightarrow> VaultState \<Rightarrow> bool" where
  "adds_records P st st' \<longleftrightarrow> (\<exists>h. st' = st\<lparr>es_settlement_history := h\<rparr> \<and> extends (es_settlement_history st) h \<and>
    (\<forall>sid. aget (es_settlement_history st) sid = None \<longrightarrow> aget h sid \<noteq> None \<longrightarrow> P sid))"

lemma adds_records_refl [simp]: "adds_records P st st"
  unfolding adds_records_def by (intro exI [of _ "es_settlement_history st"]) simp

lemma adds_records_trans: "adds_records P st st1 \<Longrightarrow> adds_records P st1 st2 \<Longrightarrow> adds_records P st st2"
  unfolding adds_records_def
proof (elim exE conjE)
  fix h h' assume "st1 = st\<lparr>es_settlement_history := h\<rparr>" "st2 = st1\<lparr>es_settlement_history := h'\<rparr>"
    "extends (es_settlement_history st) h" "extends (es_settlement_history st1) h'"
    "\<forall>sid. aget (es_settlement_history st) sid = None \<longrightarrow> aget h sid \<noteq> None \<longrightarrow> P sid"
    "\<forall>sid. aget (es_settlement_history st1) sid = None \<longrightarrow> aget h' sid \<noteq> None \<longrightarrow> P sid"
  then show "\<exists>h. st2 = st\<lparr>es_settlement_history := h\<rparr> \<and> extends (es_settlement_history st) h \<and>
      (\<forall>sid. aget (es_settlement_history st) sid = None \<longrightarrow> aget h sid \<noteq> None \<longrightarrow> P sid)"
    by (intro exI [of _ h']) (auto intro: extends_trans, metis not_None_eq)
qed

lemma adds_records_none: "adds_records P st st' \<Longrightarrow> aget (es_settlement_history st) sid = None \<Longrightarrow> \<not> P sid \<Longrightarrow>
    aget (es_settlement_history st') sid = None"
  unfolding adds_records_def by force

lemma adds_record:
  assumes "aget (es_settlement_history st) sid = None" "P sid"
  shows "adds_records P st (st\<lparr>es_settlement_history := aput sid r (es_settlement_history st)\<rparr>)"
  unfolding adds_records_def
  by (intro exI [of _ "aput sid r (es_settlement_history st)"]) (use assms in \<open>auto simp: extends_fresh split: if_splits\<close>)

definition reserved_settlement :: "VaultState \<Rightarrow> string \<Rightarrow> bool" where
  "reserved_settlement st sid \<longleftrightarrow> (\<exists>r\<in>set (avals (es_reservations st)). rv_settlement_id r = Some sid)"

lemma reconstruct_reserved: "reconstruct_settlement_record st p sid = Some r \<Longrightarrow> reserved_settlement st sid"
  by (auto simp: reconstruct_settlement_record_def reserved_settlement_def find_Some_iff split: option.splits if_splits
      intro!: bexI [OF _ nth_mem])

text \<open>The records that are found or rebuilt, and the identifiers that are reported missing.\<close>
lemma provider_records_spec:
  "\<exists>ts ms st'. provider_records p sids st = (Inr (ts, ms), st') \<and> adds_records (reserved_settlement st) st st' \<and>
    (\<forall>(sid, t, a)\<in>set ts. sid \<in> set sids \<and> (\<exists>r. aget (es_settlement_history st') sid = Some r \<and> t = sr_timestamp r \<and> a = sr_amount r)) \<and>
    set ms \<subseteq> {p} \<times> set sids \<and>
    (\<forall>sid\<in>set sids. aget (es_settlement_history st) sid = None \<longrightarrow> \<not> reserved_settlement st sid \<longrightarrow> (p, sid) \<in> set ms)"
proof (induction sids arbitrary: st)
  case Nil
  then show ?case by (simp add: sret_def)
next
  case (Cons sid sids)
  define st1 where "st1 = (case aget (es_settlement_history st) sid of Some _ \<Rightarrow> st
    | None \<Rightarrow> (case reconstruct_settlement_record st p sid of None \<Rightarrow> st
      | Some r \<Rightarrow> st\<lparr>es_settlement_history := aput sid r (es_settlement_history st)\<rparr>))"
  define found where "found = aget (es_settlement_history st1) sid"
  have st1: "adds_records (reserved_settlement st) st st1" "es_reservations st1 = es_reservations st"
    by (auto simp: st1_def adds_record reconstruct_reserved split: option.splits)
  then have res: "reserved_settlement st1 = reserved_settlement st" by (simp add: reserved_settlement_def fun_eq_iff)
  obtain ts ms st' where IH: "provider_records p sids st1 = (Inr (ts, ms), st')"
      "adds_records (reserved_settlement st) st1 st'"
      "\<forall>(sid, t, a)\<in>set ts. sid \<in> set sids \<and> (\<exists>r. aget (es_settlement_history st') sid = Some r \<and> t = sr_timestamp r \<and> a = sr_amount r)"
      "set ms \<subseteq> {p} \<times> set sids"
      "\<forall>sid\<in>set sids. aget (es_settlement_history st1) sid = None \<longrightarrow> \<not> reserved_settlement st sid \<longrightarrow> (p, sid) \<in> set ms"
    using Cons.IH [of st1] unfolding res by blast
  have run: "provider_records p (sid # sids) st = (Inr (case found of
      Some r \<Rightarrow> ((sid, sr_timestamp r, sr_amount r) # ts, ms) | None \<Rightarrow> (ts, (p, sid) # ms)), st')"
    using IH(1) unfolding found_def st1_def
    by (auto simp: sbind_def sget_def sret_def smodify_def split: option.splits)
  have keep: "aget (es_settlement_history st1) k = None" if "aget (es_settlement_history st) k = None" "\<not> reserved_settlement st k" for k
    using adds_records_none [OF st1(1)] that by blast
  have kept: "aget (es_settlement_history st') sid = Some r" if "found = Some r" for r
    using IH(2) that unfolding found_def adds_records_def extends_def by auto
  show ?case
    unfolding run
    using IH(3-5) keep kept adds_records_trans [OF st1(1) IH(2)]
    by (cases found) (fastforce simp: found_def)+
qed

text \<open>The settlements that a mode admits at a time.\<close>
definition eligible_at :: "BatchBuildMode \<Rightarrow> BatchPrivacyConfig \<Rightarrow> int \<Rightarrow> int \<Rightarrow> bool" where
  "eligible_at mode config now t \<longleftrightarrow> mode = Flush \<or> settlement_is_age_eligible (now - t) config"

lemma eligible_entries_ids:
  "fst (eligible_entries cands now mode config (ids, total_so_far, oldest)) =
    ids @ map fst (filter (\<lambda>(sid, t, a). eligible_at mode config now t) cands)"
  by (induction cands arbitrary: ids total_so_far oldest)
    (auto simp: eligible_at_def Let_def split: BatchBuildMode.splits)

lemma select_provider_ids:
  assumes "select_provider_batch_entries cands now mode config = Some sel" "sid \<in> set (sl_settlement_ids sel)"
  shows "\<exists>t a. (sid, t, a) \<in> set cands \<and> eligible_at mode config now t"
proof -
  obtain ids total_amount oldest where eq: "eligible_entries cands now mode config ([], 0, None) = (ids, total_amount, oldest)"
    by (metis prod_cases3)
  then have "sl_settlement_ids sel = ids"
    using assms(1) by (auto simp: select_provider_batch_entries_def Let_def split: if_splits)
  moreover have "ids = map fst (filter (\<lambda>(sid, t, a). eligible_at mode config now t) cands)"
    using eligible_entries_ids [of cands now mode config "[]" 0 None] eq by simp
  ultimately show ?thesis using assms(2) by fastforce
qed

text \<open>A cursor whose every settlement has an eligible record.\<close>
definition cursor_ok :: "BatchBuildMode \<Rightarrow> BatchPrivacyConfig \<Rightarrow> int \<Rightarrow> (string, SettlementRecord) amap \<Rightarrow> ProviderBatchCursor \<Rightarrow> bool" where
  "cursor_ok mode config now h c \<longleftrightarrow> cu_next_index c = 0 \<and>
    (\<forall>sid\<in>set (cu_settlement_ids c). \<exists>r. aget h sid = Some r \<and> eligible_at mode config now (sr_timestamp r))"

lemma cursor_ok_extends: "cursor_ok mode config now h c \<Longrightarrow> extends h h' \<Longrightarrow> cursor_ok mode config now h' c"
  unfolding cursor_ok_def extends_def by meson

lemma collect_cursors_spec:
  "\<exists>cs ms st'. collect_cursors snaps now mode config st = (Inr (cs, ms), st') \<and>
    adds_records (reserved_settlement st) st st' \<and> (\<forall>c\<in>set cs. cursor_ok mode config now (es_settlement_history st') c) \<and>
    set ms \<subseteq> {(p, sid). \<exists>sids. (p, sids) \<in> set snaps \<and> sid \<in> set sids} \<and>
    (\<forall>p sids sid. (p, sids) \<in> set snaps \<longrightarrow> sid \<in> set sids \<longrightarrow> aget (es_settlement_history st) sid = None \<longrightarrow>
      \<not> reserved_settlement st sid \<longrightarrow> (p, sid) \<in> set ms)"
proof (induction snaps arbitrary: st)
  case Nil
  then show ?case by (simp add: sret_def)
next
  case (Cons snap snaps)
  obtain p sids where snap: "snap = (p, sids)" by fastforce
  obtain ts ms1 st1 where rec: "provider_records p sids st = (Inr (ts, ms1), st1)"
      "adds_records (reserved_settlement st) st st1"
      "\<forall>(sid, t, a)\<in>set ts. sid \<in> set sids \<and> (\<exists>r. aget (es_settlement_history st1) sid = Some r \<and> t = sr_timestamp r \<and> a = sr_amount r)"
      "set ms1 \<subseteq> {p} \<times> set sids"
      "\<forall>sid\<in>set sids. aget (es_settlement_history st) sid = None \<longrightarrow> \<not> reserved_settlement st sid \<longrightarrow> (p, sid) \<in> set ms1"
    using provider_records_spec [of p sids st] by blast
  have res: "reserved_settlement st1 = reserved_settlement st"
    using rec(2) by (auto simp: adds_records_def reserved_settlement_def fun_eq_iff)
  obtain cs ms2 st' where IH: "collect_cursors snaps now mode config st1 = (Inr (cs, ms2), st')"
      "adds_records (reserved_settlement st) st1 st'" "\<forall>c\<in>set cs. cursor_ok mode config now (es_settlement_history st') c"
      "set ms2 \<subseteq> {(p, sid). \<exists>sids. (p, sids) \<in> set snaps \<and> sid \<in> set sids}"
      "\<forall>p sids sid. (p, sids) \<in> set snaps \<longrightarrow> sid \<in> set sids \<longrightarrow> aget (es_settlement_history st1) sid = None \<longrightarrow>
        \<not> reserved_settlement st sid \<longrightarrow> (p, sid) \<in> set ms2"
    using Cons.IH [of st1] unfolding res by blast
  define cs1 where "cs1 = (case select_provider_batch_entries ts now mode config of None \<Rightarrow> cs
    | Some sel \<Rightarrow> \<lparr>cu_provider_id = p, cu_oldest_credit_at = sl_oldest_timestamp sel,
        cu_settlement_ids = sl_settlement_ids sel, cu_next_index = 0\<rparr> # cs)"
  have run: "collect_cursors (snap # snaps) now mode config st = (Inr (cs1, ms1 @ ms2), st')"
    using rec(1) IH(1) by (auto simp: snap cs1_def sbind_def sret_def split: option.splits)
  have ext: "extends (es_settlement_history st1) (es_settlement_history st')"
    using IH(2) by (auto simp: adds_records_def)
  have ok: "cursor_ok mode config now (es_settlement_history st') c" if "c \<in> set cs1" for c
  proof (cases "c \<in> set cs")
    case False
    with that obtain sel where sel: "select_provider_batch_entries ts now mode config = Some sel"
        "cu_settlement_ids c = sl_settlement_ids sel" "cu_next_index c = 0"
      by (auto simp: cs1_def split: option.splits)
    have "cursor_ok mode config now (es_settlement_history st1) c"
      unfolding cursor_ok_def sel(2) using select_provider_ids [OF sel(1)] rec(3) sel(3) by fastforce
    then show ?thesis using ext by (rule cursor_ok_extends)
  qed (use IH(3) in simp)
  have keep: "aget (es_settlement_history st1) k = None" if "aget (es_settlement_history st) k = None" "\<not> reserved_settlement st k" for k
    using adds_records_none [OF rec(2)] that by blast
  have "set (ms1 @ ms2) \<subseteq> {(p, sid). \<exists>sids. (p, sids) \<in> set (snap # snaps) \<and> sid \<in> set sids}"
    using rec(4) IH(4) by (fastforce simp: snap)
  moreover have "\<forall>q qs sid. (q, qs) \<in> set (snap # snaps) \<longrightarrow> sid \<in> set qs \<longrightarrow>
      aget (es_settlement_history st) sid = None \<longrightarrow> \<not> reserved_settlement st sid \<longrightarrow> (q, sid) \<in> set (ms1 @ ms2)"
    using rec(5) IH(5) keep by (fastforce simp: snap)
  ultimately show ?case
    using run ok adds_records_trans [OF rec(2) IH(2)] by blast
qed

lemma prune_history [simp]:
  "es_settlement_history (prune_missing_settlement_reference p sid st) = es_settlement_history st"
  by (auto simp: prune_missing_settlement_reference_def Let_def split: option.splits prod.splits)

lemma prune_all_history [simp]:
  "es_settlement_history (fold (\<lambda>(p, sid). prune_missing_settlement_reference p sid) ms st) = es_settlement_history st"
  by (induction ms arbitrary: st) auto

lemma build_cursors_ok:
  assumes "build_provider_batch_cursors now mode config st = (Inr cs, st')"
  shows "\<forall>c\<in>set cs. cursor_ok mode config now (es_settlement_history st') c"
proof -
  obtain ms st1 where "collect_cursors (map (\<lambda>credit. (pc_provider_id credit, pc_settlement_ids credit))
      (avals (es_provider_credits st))) now mode config st = (Inr (cs, ms), st1)"
    "st' = fold (\<lambda>(p, sid). prune_missing_settlement_reference p sid) ms st1"
    using assms by (auto simp: build_provider_batch_cursors_def sbind_def sget_def smodify_def sret_def
        split: prod.splits sum.splits)
  then show ?thesis
    using collect_cursors_spec [of "map (\<lambda>credit. (pc_provider_id credit, pc_settlement_ids credit))
      (avals (es_provider_credits st))" now mode config st] by auto
qed

lemma round_of_mem: "(p, sid) \<in> set (round_of cs k) \<Longrightarrow> \<exists>c\<in>set cs. sid \<in> set (cu_settlement_ids c)"
  by (induction cs) (auto split: if_splits)

lemma selected_mem:
  assumes "\<forall>c\<in>set cs. cu_next_index c = 0" "(p, sid) \<in> set (select_batch_settlement_ids cs m)"
  shows "\<exists>c\<in>set cs. sid \<in> set (cu_settlement_ids c)"
proof -
  define n where "n = Max (insert 0 ((\<lambda>c. length (cu_settlement_ids c)) ` set cs))"
  have "\<forall>c\<in>set cs. length (cu_settlement_ids c) \<le> n" by (simp add: n_def)
  from select_rounds [OF assms(1) this] assms(2)
  have "(p, sid) \<in> set (concat (map (round_of (sort_cursors cs)) [0..<n]))" by (metis in_set_takeD)
  then show ?thesis by (auto dest!: round_of_mem simp: sort_cursors_def)
qed

lemma set_map_filter: "x \<in> set (List.map_filter f xs) \<longleftrightarrow> (\<exists>y\<in>set xs. f y = Some x)"
  by (force simp: List.map_filter_def)

lemma prepared_entry:
  assumes prep: "prepare_batch C hkdf sha256 rnd config now mode st = (Inr prepared, st')" and e: "e \<in> set prepared"
  shows "\<exists>r. aget (es_settlement_history st') (ps_settlement_id e) = Some r \<and> eligible_at mode config now (sr_timestamp r) \<and>
    ps_settlement e = \<lparr>bs_provider_token_account = sr_provider r, bs_amount = sr_amount r\<rparr> \<and>
    ba_provider (ps_audit e) = sr_provider r \<and> ba_timestamp (ps_audit e) = now"
proof -
  obtain cs where cs: "build_provider_batch_cursors now mode config st = (Inr cs, st')"
    and prepared: "prepared = List.map_filter (\<lambda>(i, selected). prepare_entry C hkdf sha256 (rnd i) st' now selected)
      (enumerate 0 (select_batch_settlement_ids cs MAX_BATCH_SETTLEMENTS))"
    using prep by (auto simp: prepare_batch_def sbind_def sget_def split: prod.splits sum.splits)
  from e obtain i p sid where sel: "(p, sid) \<in> set (select_batch_settlement_ids cs MAX_BATCH_SETTLEMENTS)"
    and entry: "prepare_entry C hkdf sha256 (rnd i) st' now (p, sid) = Some e"
    unfolding prepared set_map_filter by (auto simp: in_set_enumerate_eq) (metis nth_mem prod.collapse)
  obtain c where "c \<in> set cs" "sid \<in> set (cu_settlement_ids c)"
    using selected_mem [OF _ sel] build_cursors_ok [OF cs] by (auto simp: cursor_ok_def)
  with build_cursors_ok [OF cs] obtain r where r: "aget (es_settlement_history st') sid = Some r"
      "eligible_at mode config now (sr_timestamp r)" by (auto simp: cursor_ok_def)
  with entry show ?thesis
    by (intro exI [of _ r]) (auto simp: prepare_entry_def Let_def generate_audit_record_at_def)
qed


section \<open>Credits without a record\<close>

lemma prune_other: "p \<noteq> q \<Longrightarrow>
  aget (es_provider_credits (prune_missing_settlement_reference p sid st)) q = aget (es_provider_credits st) q"
  by (auto simp: prune_missing_settlement_reference_def Let_def split: option.splits prod.splits)

lemma prune_only:
  assumes "aget (es_provider_credits st) p = Some credit" "pc_settlement_ids credit = [sid]"
  shows "aget (es_provider_credits (prune_missing_settlement_reference p sid st)) p = None"
  using assms by (simp add: prune_missing_settlement_reference_def)

lemma prune_none:
  "aget (es_provider_credits st) p = None \<Longrightarrow> prune_missing_settlement_reference p sid st = st"
  by (simp add: prune_missing_settlement_reference_def)

lemma prune_all_only:
  assumes "\<And>x. (p, x) \<in> set ms \<Longrightarrow> x = sid"
    and "aget (es_provider_credits st) p = None \<or>
      (p, sid) \<in> set ms \<and> (\<exists>credit. aget (es_provider_credits st) p = Some credit \<and> pc_settlement_ids credit = [sid])"
  shows "aget (es_provider_credits (fold (\<lambda>(p, sid). prune_missing_settlement_reference p sid) ms st)) p = None"
  using assms
proof (induction ms arbitrary: st)
  case (Cons m ms)
  obtain q x where m: "m = (q, x)" by fastforce
  have "aget (es_provider_credits (prune_missing_settlement_reference q x st)) p = None \<or>
      (p, sid) \<in> set ms \<and> (\<exists>credit. aget (es_provider_credits (prune_missing_settlement_reference q x st)) p = Some credit \<and>
        pc_settlement_ids credit = [sid])"
  proof (cases "q = p")
    case True
    with Cons.prems(1) [of x] Cons.prems(2) show ?thesis
      by (auto simp: m prune_none prune_only)
  next
    case False
    with Cons.prems(2) show ?thesis by (auto simp: m prune_other)
  qed
  with Cons.prems(1) show ?case by (auto simp: m intro!: Cons.IH)
qed auto

lemma first_channel_credit:
  assumes close: "close_channel uuid cid now st = (Inr out, st1)"
    and earned: "0 < co_provider_earned out" and first: "aget (es_provider_credits st) (co_provider_id out) = None"
  shows "\<exists>credit. pc_credited_amount credit = co_provider_earned out \<and> pc_settlement_ids credit = [''asc_'' @ uuid] \<and>
    pc_provider_id credit = co_provider_id out \<and>
    es_provider_credits st1 = aput (co_provider_id out) credit (es_provider_credits st) \<and>
    es_settlement_history st1 = es_settlement_history st \<and> es_reservations st1 = es_reservations st"
proof (rule close_channel_ok [OF close [unfolded close_channel_def]])
  fix ch bs cs sid
  assume "sid = (case None of Some s \<Rightarrow> s | None \<Rightarrow> ''asc_'' @ uuid)" "close_credits ch sid now st cs"
    "st1 = st\<lparr>es_active_channels := adel cid (es_active_channels st), es_client_balances := bs, es_provider_credits := cs\<rparr>"
    "out = \<lparr>co_client = ch_client ch, co_provider_id = ch_provider_id ch,
      co_returned_to_client = client_free (ch_balance ch), co_provider_earned = provider_earned (ch_balance ch),
      co_settlement_id = (if provider_earned (ch_balance ch) > 0 then Some sid else None), co_closed_channel = ch,
      co_previous_provider_credit = (if provider_earned (ch_balance ch) > 0
        then aget (es_provider_credits st) (ch_provider_id ch) else None)\<rparr>"
  then show ?thesis
    using earned first
    by (intro exI [of _ "the (aget (es_provider_credits st1) (co_provider_id out))"])
      (auto simp: close_credits_def credit_or_new_def Let_def checked_add_def split: if_splits)
qed

lemma keyed_by_aput: "keyed_by key m \<Longrightarrow> key v = k \<Longrightarrow> keyed_by key (aput k v m)"
proof -
  assume m: "keyed_by key m" and v: "key v = k"
  have "\<forall>(j, x)\<in>set (aput k v m). (j, x) \<in> set m \<or> (j, x) = (k, v)"
    by (induction m) auto
  with m v show ?thesis by (auto simp: keyed_by_def)
qed

lemma keyed_by_avals: "keyed_by key m \<Longrightarrow> v \<in> set (avals m) \<longleftrightarrow> aget m (key v) = Some v"
proof
  assume m: "keyed_by key m"
  show "aget m (key v) = Some v" if "v \<in> set (avals m)"
    using that m by (fastforce simp: avals_def keyed_by_def intro: in_set_aget)
  show "v \<in> set (avals m)" if "aget m (key v) = Some v"
    using aget_in_set [OF that] by (force simp: avals_def)
qed

text \<open>C38. Earnings of a channel are dropped by the next look at the batch.  Closing a channel credits its
  provider under a new settlement identifier, for which no settlement record exists.  The code that
  collects the credits for a batch finds neither a record nor a reservation under it: no batch ever
  takes it, and the credit of a provider that has no other is removed without being paid.\<close>
theorem channel_earnings_dropped:
  assumes keyed: "keyed_by pc_provider_id (es_provider_credits st)"
    and close: "close_channel uuid cid now st = (Inr out, st1)"
    and earned: "0 < co_provider_earned out" and first: "aget (es_provider_credits st) (co_provider_id out) = None"
    and fresh: "aget (es_settlement_history st) (''asc_'' @ uuid) = None" "\<not> reserved_settlement st (''asc_'' @ uuid)"
  shows "\<exists>credit cs st2. aget (es_provider_credits st1) (co_provider_id out) = Some credit \<and>
    pc_credited_amount credit = co_provider_earned out \<and>
    build_provider_batch_cursors t mode config st1 = (Inr cs, st2) \<and>
    (\<forall>c\<in>set cs. ''asc_'' @ uuid \<notin> set (cu_settlement_ids c)) \<and>
    aget (es_provider_credits st2) (co_provider_id out) = None"
proof -
  let ?p = "co_provider_id out" and ?sid = "''asc_'' @ uuid"
  obtain credit where credit: "pc_credited_amount credit = co_provider_earned out"
      "pc_settlement_ids credit = [?sid]" "pc_provider_id credit = ?p"
    and st1: "es_provider_credits st1 = aput ?p credit (es_provider_credits st)"
      "es_settlement_history st1 = es_settlement_history st" "es_reservations st1 = es_reservations st"
    using first_channel_credit [OF close earned first] by blast
  have keyed1: "keyed_by pc_provider_id (es_provider_credits st1)"
    unfolding st1 using keyed credit(3) by (rule keyed_by_aput)
  let ?snaps = "map (\<lambda>c. (pc_provider_id c, pc_settlement_ids c)) (avals (es_provider_credits st1))"
  have res: "reserved_settlement st1 = reserved_settlement st"
    by (simp add: reserved_settlement_def st1 fun_eq_iff)
  have own: "sids = [?sid]" if "(?p, sids) \<in> set ?snaps" for sids
    using that credit(2) by (auto simp: keyed_by_avals [OF keyed1], simp add: st1)
  obtain cs ms st' where coll: "collect_cursors ?snaps t mode config st1 = (Inr (cs, ms), st')"
      "adds_records (reserved_settlement st) st1 st'" "\<forall>c\<in>set cs. cursor_ok mode config t (es_settlement_history st') c"
      "set ms \<subseteq> {(p, sid). \<exists>sids. (p, sids) \<in> set ?snaps \<and> sid \<in> set sids}"
      "\<forall>p sids sid. (p, sids) \<in> set ?snaps \<longrightarrow> sid \<in> set sids \<longrightarrow> aget (es_settlement_history st1) sid = None \<longrightarrow>
        \<not> reserved_settlement st sid \<longrightarrow> (p, sid) \<in> set ms"
    using collect_cursors_spec [of ?snaps t mode config st1] unfolding res by blast
  let ?st2 = "fold (\<lambda>(p, sid). prune_missing_settlement_reference p sid) ms st'"
  have "credit \<in> set (avals (es_provider_credits st1))"
    using keyed_by_avals [OF keyed1, of credit] credit(3) by (simp add: st1)
  then have "(?p, [?sid]) \<in> set ?snaps"
    unfolding set_map by (rule rev_image_eqI) (simp add: credit)
  then have ms: "(?p, ?sid) \<in> set ms" using coll(5) fresh by (simp add: st1)
  have credits: "aget (es_provider_credits st') ?p = Some credit"
    using coll(2) st1(1) by (auto simp: adds_records_def)
  have none: "aget (es_settlement_history st') ?sid = None"
    using adds_records_none [OF coll(2)] fresh by (simp add: st1)
  have "aget (es_provider_credits ?st2) ?p = None"
  proof (rule prune_all_only)
    fix x assume "(?p, x) \<in> set ms"
    then obtain sids where "(?p, sids) \<in> set ?snaps" "x \<in> set sids" using coll(4) by blast
    with own [of sids] show "x = ?sid" by simp
  qed (use ms credits credit(2) in blast)
  moreover have "\<forall>c\<in>set cs. ?sid \<notin> set (cu_settlement_ids c)"
    using coll(3) none unfolding cursor_ok_def by fastforce
  moreover have "build_provider_batch_cursors t mode config st1 = (Inr cs, ?st2)"
    using coll(1) by (simp add: build_provider_batch_cursors_def sbind_def sget_def smodify_def sret_def)
  ultimately show ?thesis using credit(1) st1(1) by auto
qed

end
