(* ===== verification/Batch_Example.thy ===== *)
theory Batch_Example
  imports Batch_Correct Enclave_Example
begin

text \<open>
  The properties of batches on concrete credits, chunks and transactions.
\<close>

definition ex_record :: "string \<Rightarrow> u8 \<Rightarrow> u64 \<Rightarrow> int \<Rightarrow> SettlementRecord" where
  "ex_record sid account amount t = \<lparr>sr_settlement_id = sid, sr_client = replicate 32 8,
    sr_provider = replicate 32 account, sr_amount = amount, sr_timestamp = t\<rparr>"

definition ex_credit :: "string \<Rightarrow> u8 \<Rightarrow> u64 \<Rightarrow> string list \<Rightarrow> ProviderCredit" where
  "ex_credit p account amount sids = \<lparr>pc_provider_id = p, pc_settlement_token_account = replicate 32 account,
    pc_credited_amount = amount, pc_oldest_credit_at = 100, pc_settlement_ids = sids\<rparr>"

text \<open>Two providers with settlements of which one is too young for a batch at 1000.\<close>
definition ex_credits :: VaultState where
  "ex_credits = (new_vault_state (replicate 32 10) (replicate 32 11) (replicate 32 12) (replicate 32 13))
    \<lparr>es_provider_credits := [(''a'', ex_credit ''a'' 4 2000000 [''s1'', ''s2'']), (''b'', ex_credit ''b'' 5 3000000 [''s3''])],
     es_settlement_history := [(''s1'', ex_record ''s1'' 4 1500000 100), (''s2'', ex_record ''s2'' 4 500000 900),
       (''s3'', ex_record ''s3'' 5 3000000 200)]\<rparr>"

definition ex_cursor :: "string \<Rightarrow> int \<Rightarrow> string list \<Rightarrow> ProviderBatchCursor" where
  "ex_cursor p t sids = \<lparr>cu_provider_id = p, cu_oldest_credit_at = t, cu_settlement_ids = sids, cu_next_index = 0\<rparr>"

theorem selection_is_round_robin_witness:
  "select_batch_settlement_ids [ex_cursor ''a'' 20 [''s1'', ''s2'', ''s4''], ex_cursor ''b'' 10 [''s3'']] 3 =
    [(''b'', ''s3''), (''a'', ''s1''), (''a'', ''s2'')]"
proof -
  let ?cs = "[ex_cursor ''a'' 20 [''s1'', ''s2'', ''s4''], ex_cursor ''b'' 10 [''s3'']]"
  have "select_batch_settlement_ids ?cs 3 = take 3 (concat (map (round_of (sort_cursors ?cs)) [0..<3]))"
    by (rule selection_is_round_robin) (simp_all add: ex_cursor_def)
  then show ?thesis
    by (simp add: sort_cursors_def ex_cursor_def upt_rec numeral_eq_Suc)
qed

definition ex_prepared :: "string \<Rightarrow> u8 \<Rightarrow> u64 \<Rightarrow> PreparedSettlement" where
  "ex_prepared sid account amount = \<lparr>ps_settlement_id = sid, ps_provider_id = ''a'',
    ps_settlement = \<lparr>bs_provider_token_account = replicate 32 account, bs_amount = amount\<rparr>,
    ps_audit = \<lparr>ba_encrypted_sender = replicate 64 1, ba_encrypted_amount = replicate 64 2,
      ba_provider = replicate 32 account, ba_timestamp = 1000\<rparr>\<rparr>"

theorem batch_chunks_cover_witness:
  "concat (map (the \<circ> audit_indexes) (build_batch_chunks
    [ex_prepared ''s1'' 4 10, ex_prepared ''s2'' 4 20, ex_prepared ''s3'' 5 30])) = [0, 1, 2]"
  using batch_chunks_cover [of "[ex_prepared ''s1'' 4 10, ex_prepared ''s2'' 4 20, ex_prepared ''s3'' 5 30]"]
  by (simp add: upt_rec)

definition ex_solana :: solana where
  "ex_solana = \<lparr>sol_sha256 = (\<lambda>m. take 32 (m @ replicate 32 0)), sol_pda = (\<lambda>seeds. (take 32 (concat seeds), 255)),
    sol_program_id = replicate 32 1, sol_ed25519_program = replicate 32 2, sol_transfer = (\<lambda>_ _ _ _ t. Some t)\<rparr>"

definition ex_privacy :: BatchPrivacyConfig where
  "ex_privacy = batch_privacy_default"

definition ex_batch_env :: batch_env where
  "ex_batch_env = \<lparr>be_solana = ex_solana, be_vault_token_account = replicate 32 20, be_instructions_sysvar = replicate 32 21,
    be_token_program = replicate 32 22, be_system_program = replicate 32 23, be_send = (\<lambda>_ _. Some ''tx''),
    be_privacy = ex_privacy\<rparr>"

definition ex_chunk :: BatchChunk where
  "ex_chunk = \<lparr>bc_start_index = 0, bc_entries = [ex_prepared ''s1'' 4 10, ex_prepared ''s2'' 4 20]\<rparr>"

theorem chunk_transaction_accepted_witness:
  "\<exists>settlements h ixs. aggregate_settlements (bc_entries ex_chunk) = Some settlements \<and>
    verify_record_audit_pairing ex_solana \<lparr>sv_current_index = Some 0, sv_instructions = ixs\<rparr> 7 h
      (es_vault_config ex_credits) (map settlement_entry settlements) = Inr () \<and>
    paid_by (replicate 32 4) settlements = 30"
proof -
  obtain settlements where agg: "aggregate_settlements (bc_entries ex_chunk) = Some settlements"
    by (simp add: aggregate_settlements_def ex_chunk_def ex_prepared_def checked_add_def)
  have sha: "length (sol_sha256 (be_solana ex_batch_env) m) = 32" for m
    by (simp add: ex_batch_env_def ex_solana_def)
  have wf: "length (bc_entries ex_chunk) \<le> 256" "\<forall>e\<in>set (bc_entries ex_chunk). prepared_wf e"
    by (simp_all add: ex_chunk_def ex_prepared_def prepared_wf_def)
  have "owed_to (replicate 32 4) (bc_entries ex_chunk) = 30"
    by (simp add: owed_to_def ex_chunk_def ex_prepared_def)
  then show ?thesis
    using chunk_transaction_accepted [OF sha wf agg refl refl, where st = ex_credits and batch_id = 7 and indexes = "[0, 1]"] agg
    by (auto simp: ex_batch_env_def)
qed

lemmas batch_eval = prepare_batch_def build_provider_batch_cursors_def collect_cursors.simps provider_records.simps
  select_provider_batch_entries_def eligible_entries.simps settlement_is_age_eligible_def
  provider_payout_floor_satisfied_def select_batch_settlement_ids_def sort_cursors_def select_loop.simps
  select_pass.simps prepare_entry_def ex_credits_def ex_credit_def ex_record_def ex_privacy_def batch_privacy_default_def
  DEFAULT_BATCH_WINDOW_SEC_def DEFAULT_AUTO_BATCH_MIN_PROVIDER_PAYOUT_ATOMIC_def DEFAULT_MIN_ANONYMITY_WINDOW_SEC_def
  DEFAULT_MIN_BATCH_PROVIDERS_def MAX_SETTLEMENT_DELAY_SEC_def MAX_BATCH_SETTLEMENTS_def Let_def sbind_def sret_def sget_def
  smodify_def avals_def saturating_add_def checked_add_def new_vault_state_def List.map_filter_def

lemma ex_prepare:
  "\<exists>e1 e2. prepare_batch ex_C ex_hkdf ex_sha256 (\<lambda>_. (1, 2)) ex_privacy 1000 Auto ex_credits = (Inr [e1, e2], ex_credits) \<and>
    bs_provider_token_account (ps_settlement e1) = replicate 32 4 \<and>
    bs_provider_token_account (ps_settlement e2) = replicate 32 5"
  by (simp add: batch_eval)


definition ex_earned :: VaultState where
  "ex_earned = ex_state\<lparr>es_active_channels := [(''ch_1'', ex_channel\<lparr>ch_status := Open, ch_active_request := None,
      ch_balance := \<lparr>client_free = 70, client_locked = 0, provider_earned = 30\<rparr>\<rparr>)],
    es_client_balances := [(replicate 32 8, \<lparr>cb_free = 0, cb_locked = 100, cb_max_lock_expires_at = 0,
      cb_total_deposited = 100, cb_total_withdrawn = 0\<rparr>)],
    es_providers := [(''prov'', \<lparr>rg_provider_id = ''prov'', rg_display_name = ''p'', rg_participant_pubkey = Some ex_pk,
      rg_participant_attestation_policy_hash = None, rg_participant_attestation_verified_at_ms = None,
      rg_participant_attestation_mode = None, rg_settlement_token_account = replicate 32 4,
      rg_network = ''n'', rg_asset_mint = replicate 32 12, rg_allowed_origins = [],
      rg_auth_mode = ''none'', rg_api_key_hash = None, rg_mtls_cert_fingerprint = None\<rparr>)]\<rparr>"

lemma ex_closes:
  "\<exists>out st1. close_channel ''u'' ''ch_1'' 300 ex_earned = (Inr out, st1) \<and> co_provider_earned out = 30 \<and> co_provider_id out = ''prov''"
  by (simp add: close_channel_def close_channel_with_settlement_id_def close_release_def close_credit_provider_def
      put_credit_def state_op_defs asc_defs Let_def checked_add_def ex_earned_def ex_state_def ex_channel_def new_vault_state_def)

theorem channel_earnings_dropped_witness:
  "\<exists>out st1 credit cs st2. close_channel ''u'' ''ch_1'' 300 ex_earned = (Inr out, st1) \<and>
    aget (es_provider_credits st1) ''prov'' = Some credit \<and> pc_credited_amount credit = 30 \<and>
    build_provider_batch_cursors 310 Auto ex_privacy st1 = (Inr cs, st2) \<and> aget (es_provider_credits st2) ''prov'' = None"
proof -
  obtain out st1 where close: "close_channel ''u'' ''ch_1'' 300 ex_earned = (Inr out, st1)"
    and out: "co_provider_earned out = 30" "co_provider_id out = ''prov''"
    using ex_closes by blast
  have "\<exists>credit cs st2. aget (es_provider_credits st1) (co_provider_id out) = Some credit \<and>
      pc_credited_amount credit = co_provider_earned out \<and>
      build_provider_batch_cursors 310 Auto ex_privacy st1 = (Inr cs, st2) \<and>
      (\<forall>c\<in>set cs. ''asc_'' @ ''u'' \<notin> set (cu_settlement_ids c)) \<and>
      aget (es_provider_credits st2) (co_provider_id out) = None"
    by (rule channel_earnings_dropped [OF _ close])
      (simp_all add: out keyed_by_def ex_earned_def ex_state_def new_vault_state_def reserved_settlement_def avals_def)
  then show ?thesis using close unfolding out by blast
qed

end
