(* ===== verification/Force_Settle.thy ===== *)
theory Force_Settle
  imports Vault_Funds
begin

text \<open>
  The way out of the vault without the enclave: a participant publishes the last receipt it holds
  (\<^verbatim>\<open>force_settle_init\<close>), anybody can replace it by a newer one within the dispute window
  (\<^verbatim>\<open>force_settle_challenge\<close>), and after the window the balances of the receipt are paid out
  (\<^verbatim>\<open>force_settle_finalize\<close>).  Also \<^verbatim>\<open>asc_close_claim\<close>, which records on chain that a
  payment-channel request was paid, from the enclave's voucher and the provider's signature.
\<close>

section \<open>Definitions\<close>

definition force_settle_seeds :: "pubkey \<Rightarrow> pubkey \<Rightarrow> u8 \<Rightarrow> bytes list" where
  "force_settle_seeds vault_config participant participant_kind =
    [str_bytes ''force_settle'', vault_config, participant, [participant_kind]]"

text \<open>The comparison of a decoded receipt with the arguments of the instruction, in the order of
  the handler; \<^verbatim>\<open>force_settle_init\<close> and \<^verbatim>\<open>force_settle_challenge\<close> both make it.\<close>
definition check_receipt ::
  "bytes \<Rightarrow> pubkey \<Rightarrow> u8 \<Rightarrow> pubkey \<Rightarrow> u64 \<Rightarrow> u64 \<Rightarrow> i64 \<Rightarrow> u64 \<Rightarrow> pubkey \<Rightarrow> (VaultError, unit) result"
  where
  "check_receipt receipt_message participant participant_kind recipient_ata free_balance
      locked_balance max_lock_expires_at receipt_nonce vault_config =
    rbind (decode_participant_receipt_message receipt_message) (\<lambda>decoded.
    require (pr_participant decoded = participant) InvalidReceiptMessage (
    require (pr_participant_kind decoded = participant_kind) InvalidReceiptMessage (
    require (pr_recipient_ata decoded = recipient_ata) InvalidReceiptMessage (
    require (pr_free_balance decoded = free_balance) InvalidReceiptMessage (
    require (pr_locked_balance decoded = locked_balance) InvalidReceiptMessage (
    require (pr_max_lock_expires_at decoded = max_lock_expires_at) InvalidReceiptMessage (
    require (pr_nonce decoded = receipt_nonce) InvalidReceiptMessage (
    require (pr_vault_config decoded = vault_config) InvalidReceiptMessage (
    Inr ())))))))))"

definition force_settle_init ::
  "solana \<Rightarrow> sysvar \<Rightarrow> pubkey \<Rightarrow> pubkey \<Rightarrow> pubkey \<Rightarrow> u8 \<Rightarrow> pubkey \<Rightarrow> u64 \<Rightarrow> u64 \<Rightarrow> i64 \<Rightarrow> u64 \<Rightarrow>
    bytes \<Rightarrow> bytes \<Rightarrow> chain \<Rightarrow> chain tx" where
  "force_settle_init S sv participant vault_config force_settle_request participant_kind
      recipient_ata free_balance locked_balance max_lock_expires_at receipt_nonce
      receipt_signature receipt_message c =
    ok_or (vaults c vault_config) AccountNotInitialized (\<lambda>vault.
    rbind (init_account S (force_settle_seeds vault_config participant participant_kind)
      force_settle_request c) (\<lambda>bump.
    rbind (vault_err (verify_ed25519_signature_details S sv (vc_vault_signer_pubkey vault)))
      (\<lambda>verified.
    require (ve_message verified = receipt_message) (Vault InvalidParticipantReceipt) (
    require (ve_signature verified = receipt_signature) (Vault InvalidParticipantReceipt) (
    rbind (vault_err (check_receipt receipt_message participant participant_kind recipient_ata
      free_balance locked_balance max_lock_expires_at receipt_nonce vault_config)) (\<lambda>_.
    ok_or (checked_add_i64 (unix_timestamp c) DISPUTE_WINDOW_SEC) (Vault ArithmeticOverflow)
      (\<lambda>deadline.
    Inr (c\<lparr>requests := (requests c)(force_settle_request \<mapsto>
      \<lparr>fs_bump = bump, fs_vault = vault_config, fs_participant = participant,
       fs_participant_kind = participant_kind, fs_recipient_ata = recipient_ata,
       fs_free_balance_due = free_balance, fs_locked_balance_due = locked_balance,
       fs_max_lock_expires_at = max_lock_expires_at, fs_receipt_nonce = receipt_nonce,
       fs_receipt_signature = receipt_signature, fs_initiated_at = unix_timestamp c,
       fs_dispute_deadline = deadline, fs_is_resolved = False\<rparr>)\<rparr>))))))))"

definition force_settle_challenge ::
  "solana \<Rightarrow> sysvar \<Rightarrow> pubkey \<Rightarrow> pubkey \<Rightarrow> pubkey \<Rightarrow> u64 \<Rightarrow> u64 \<Rightarrow> i64 \<Rightarrow> u64 \<Rightarrow> bytes \<Rightarrow> bytes \<Rightarrow>
    chain \<Rightarrow> chain tx" where
  "force_settle_challenge S sv vault_config force_settle_request newer_recipient_ata
      newer_free_balance newer_locked_balance newer_max_lock_expires_at newer_receipt_nonce
      newer_receipt_signature newer_receipt_message c =
    ok_or (vaults c vault_config) AccountNotInitialized (\<lambda>vault.
    ok_or (requests c force_settle_request) AccountNotInitialized (\<lambda>request.
    require (fs_vault request = vault_config) ConstraintRaw (
    require (\<not> fs_is_resolved request) (Vault AlreadyResolved) (
    require (sint (unix_timestamp c) \<le> sint (fs_dispute_deadline request))
      (Vault DisputeWindowExpired) (
    require (fs_receipt_nonce request < newer_receipt_nonce) (Vault StaleReceiptNonce) (
    rbind (vault_err (verify_ed25519_signature_details S sv (vc_vault_signer_pubkey vault)))
      (\<lambda>verified.
    require (ve_message verified = newer_receipt_message) (Vault InvalidParticipantReceipt) (
    require (ve_signature verified = newer_receipt_signature) (Vault InvalidParticipantReceipt) (
    rbind (vault_err (check_receipt newer_receipt_message (fs_participant request)
      (fs_participant_kind request) newer_recipient_ata newer_free_balance newer_locked_balance
      newer_max_lock_expires_at newer_receipt_nonce vault_config)) (\<lambda>_.
    Inr (c\<lparr>requests := (requests c)(force_settle_request \<mapsto>
      request\<lparr>fs_recipient_ata := newer_recipient_ata, fs_free_balance_due := newer_free_balance,
        fs_locked_balance_due := newer_locked_balance,
        fs_max_lock_expires_at := newer_max_lock_expires_at,
        fs_receipt_nonce := newer_receipt_nonce,
        fs_receipt_signature := newer_receipt_signature\<rparr>)\<rparr>)))))))))))"

text \<open>The update of the request after a payment.\<close>
definition finalize_request :: "ForceSettleRequest \<Rightarrow> i64 \<Rightarrow> ForceSettleRequest" where
  "finalize_request request now =
    (let request1 = request\<lparr>fs_free_balance_due := 0\<rparr>;
         request2 = (if sint (fs_max_lock_expires_at request1) \<le> sint now
                     then request1\<lparr>fs_locked_balance_due := 0\<rparr> else request1)
     in if fs_free_balance_due request2 = 0 \<and> fs_locked_balance_due request2 = 0
        then request2\<lparr>fs_is_resolved := True\<rparr> else request2)"

definition force_settle_finalize ::
  "solana \<Rightarrow> pubkey \<Rightarrow> pubkey \<Rightarrow> pubkey \<Rightarrow> pubkey \<Rightarrow> chain \<Rightarrow> chain tx" where
  "force_settle_finalize S vault_config force_settle_request vault_token_account
      recipient_token_account c =
    ok_or (vaults c vault_config) AccountNotInitialized (\<lambda>vault.
    ok_or (requests c force_settle_request) AccountNotInitialized (\<lambda>request.
    ok_or (tokens c vault_token_account) AccountNotInitialized (\<lambda>vault_token.
    ok_or (tokens c recipient_token_account) AccountNotInitialized (\<lambda>_.
    require (fs_vault request = vault_config) ConstraintRaw (
    require (\<not> fs_is_resolved request) (Vault AlreadyResolved) (
    require (vault_token_account = vc_vault_token_account vault) ConstraintAddress (
    require (recipient_token_account = fs_recipient_ata request) ConstraintAddress (
    require (sint (fs_dispute_deadline request) < sint (unix_timestamp c))
      (Vault DisputeWindowActive) (
    let free = fs_free_balance_due request;
        locked = (if sint (fs_max_lock_expires_at request) \<le> sint (unix_timestamp c)
                  then fs_locked_balance_due request else 0)
    in ok_or (checked_add free locked) (Vault ArithmeticOverflow) (\<lambda>claimable.
    if claimable = 0 then
      if fs_locked_balance_due request = 0
      then Inr (c\<lparr>requests := (requests c)(force_settle_request \<mapsto> request\<lparr>fs_is_resolved := True\<rparr>)\<rparr>)
      else Inr c
    else
      require (claimable \<le> ta_amount vault_token) (Vault VaultInsolvent) (
      rbind (token_transfer S vault_token_account recipient_token_account vault_config claimable c)
        (\<lambda>c1.
      Inr (c1\<lparr>requests := (requests c1)(force_settle_request \<mapsto>
        finalize_request request (unix_timestamp c))\<rparr>)))))))))))))"

definition asc_close_claim_seeds :: "pubkey \<Rightarrow> bytes \<Rightarrow> bytes \<Rightarrow> bytes list" where
  "asc_close_claim_seeds vault_config channel_id_hash request_id_hash =
    [str_bytes ''asc_close_claim'', vault_config, channel_id_hash, request_id_hash]"

definition asc_close_claim ::
  "solana \<Rightarrow> sysvar \<Rightarrow> pubkey \<Rightarrow> pubkey \<Rightarrow> bytes \<Rightarrow> bytes \<Rightarrow> chain \<Rightarrow> chain tx" where
  "asc_close_claim S sv vault_config claim_account channel_id_hash request_id_hash c =
    ok_or (vaults c vault_config) AccountNotInitialized (\<lambda>vault.
    rbind (init_account S (asc_close_claim_seeds vault_config channel_id_hash request_id_hash)
      claim_account c) (\<lambda>bump.
    rbind (vault_err (verify_ed25519_signature_details_relative S sv 2
      (vc_vault_signer_pubkey vault))) (\<lambda>voucher_verified.
    ok_or (parse_asc_claim_voucher_message (ve_message voucher_verified))
      (Vault InvalidAscClaimVoucher) (\<lambda>voucher.
    require (cv_channel_id_hash voucher = channel_id_hash) (Vault InvalidAscClaimVoucher) (
    require (cv_request_id_hash voucher = request_id_hash) (Vault InvalidAscClaimVoucher) (
    require (cv_vault_config voucher = vault_config) (Vault InvalidAscClaimVoucher) (
    rbind (vault_err (verify_ed25519_signature_details_relative S sv 1
      (cv_provider_pubkey voucher))) (\<lambda>payment_verified.
    let payment_message = build_asc_payment_message_from_hashes channel_id_hash request_id_hash
      (cv_amount voucher) (cv_request_hash voucher) in
    require (ve_message payment_verified = payment_message) (Vault InvalidAscCloseClaim) (
    require (length (ve_signature payment_verified) = 64) (Vault InvalidAscCloseClaim) (
    Inr (c\<lparr>claims := (claims c)(claim_account \<mapsto>
      \<lparr>ac_bump = bump, ac_vault = vault_config, ac_channel_id_hash = channel_id_hash,
       ac_request_id_hash = request_id_hash, ac_request_hash = cv_request_hash voucher,
       ac_provider_pubkey = cv_provider_pubkey voucher,
       ac_full_sig_r = take 32 (ve_signature payment_verified),
       ac_full_sig_s = drop 32 (ve_signature payment_verified), ac_amount = cv_amount voucher,
       ac_voucher_issued_at = cv_issued_at voucher, ac_claimed_at = unix_timestamp c\<rparr>)\<rparr>)))))))))))"

section \<open>What a successful instruction did\<close>

lemma check_receipt_ok [result_simps]:
  "check_receipt msg p k r f l m n v = Inr u \<longleftrightarrow>
    (\<exists>d. decode_participant_receipt_message msg = Inr d \<and> pr_participant d = p \<and>
      pr_participant_kind d = k \<and> pr_recipient_ata d = r \<and> pr_free_balance d = f \<and>
      pr_locked_balance d = l \<and> pr_max_lock_expires_at d = m \<and> pr_nonce d = n \<and>
      pr_vault_config d = v)"
  by (auto simp: check_receipt_def result_simps)

lemma force_settle_init_ok:
  assumes "force_settle_init S sv p vk rk kind rcp free locked mle nonce sig msg c = Inr c'"
  obtains vault v d deadline bump where "vaults c vk = Some vault"
    "sol_pda S (force_settle_seeds vk p kind) = (rk, bump)" "\<not> in_use c rk"
    "verify_ed25519_signature_details S sv (vc_vault_signer_pubkey vault) = Inr v"
    "ve_message v = msg" "ve_signature v = sig"
    "decode_participant_receipt_message msg = Inr d" "pr_participant d = p"
    "pr_participant_kind d = kind" "pr_recipient_ata d = rcp" "pr_free_balance d = free"
    "pr_locked_balance d = locked" "pr_max_lock_expires_at d = mle" "pr_nonce d = nonce"
    "pr_vault_config d = vk"
    "checked_add_i64 (unix_timestamp c) DISPUTE_WINDOW_SEC = Some deadline"
    "c' = c\<lparr>requests := (requests c)(rk \<mapsto>
      \<lparr>fs_bump = bump, fs_vault = vk, fs_participant = p, fs_participant_kind = kind,
       fs_recipient_ata = rcp, fs_free_balance_due = free, fs_locked_balance_due = locked,
       fs_max_lock_expires_at = mle, fs_receipt_nonce = nonce, fs_receipt_signature = sig,
       fs_initiated_at = unix_timestamp c, fs_dispute_deadline = deadline,
       fs_is_resolved = False\<rparr>)\<rparr>"
  using assms unfolding force_settle_init_def Let_def result_simps
  by (elim exE conjE, intro that) (assumption | (drule sum.inject(2) [THEN iffD1], erule sym))+

lemma force_settle_challenge_ok:
  assumes "force_settle_challenge S sv vk rk rcp free locked mle nonce sig msg c = Inr c'"
  obtains vault r v d where "vaults c vk = Some vault" "requests c rk = Some r" "fs_vault r = vk"
    "\<not> fs_is_resolved r" "sint (unix_timestamp c) \<le> sint (fs_dispute_deadline r)"
    "fs_receipt_nonce r < nonce"
    "verify_ed25519_signature_details S sv (vc_vault_signer_pubkey vault) = Inr v"
    "ve_message v = msg" "ve_signature v = sig"
    "decode_participant_receipt_message msg = Inr d" "pr_participant d = fs_participant r"
    "pr_participant_kind d = fs_participant_kind r" "pr_recipient_ata d = rcp"
    "pr_free_balance d = free" "pr_locked_balance d = locked" "pr_max_lock_expires_at d = mle"
    "pr_nonce d = nonce" "pr_vault_config d = vk"
    "c' = c\<lparr>requests := (requests c)(rk \<mapsto> r\<lparr>fs_recipient_ata := rcp,
      fs_free_balance_due := free, fs_locked_balance_due := locked,
      fs_max_lock_expires_at := mle, fs_receipt_nonce := nonce, fs_receipt_signature := sig\<rparr>)\<rparr>"
  using assms unfolding force_settle_challenge_def Let_def result_simps
  by (elim exE conjE, intro that) (assumption | (drule sum.inject(2) [THEN iffD1], erule sym))+

text \<open>The part of the balances that can be paid at a time, and the request after paying it.\<close>
definition lock_expired :: "ForceSettleRequest \<Rightarrow> i64 \<Rightarrow> bool" where
  "lock_expired r now = (sint (fs_max_lock_expires_at r) \<le> sint now)"

definition due_now :: "ForceSettleRequest \<Rightarrow> i64 \<Rightarrow> nat" where
  "due_now r now = unat (fs_free_balance_due r) +
    (if lock_expired r now then unat (fs_locked_balance_due r) else 0)"

definition due_total :: "ForceSettleRequest \<Rightarrow> nat" where
  "due_total r = unat (fs_free_balance_due r) + unat (fs_locked_balance_due r)"

definition after_payment :: "ForceSettleRequest \<Rightarrow> i64 \<Rightarrow> ForceSettleRequest" where
  "after_payment r now = r\<lparr>fs_free_balance_due := 0,
     fs_locked_balance_due := (if lock_expired r now then 0 else fs_locked_balance_due r),
     fs_is_resolved := fs_is_resolved r \<or> lock_expired r now \<or> fs_locked_balance_due r = 0\<rparr>"

lemma finalize_request_eq: "\<not> fs_is_resolved r \<Longrightarrow> finalize_request r now = after_payment r now"
  by (cases r) (simp add: finalize_request_def after_payment_def lock_expired_def Let_def)

lemma after_payment_nothing:
  assumes "due_now r now = 0" "\<not> fs_is_resolved r"
  shows "after_payment r now = (if fs_locked_balance_due r = 0 then r\<lparr>fs_is_resolved := True\<rparr> else r)"
  using assms
  by (cases r) (auto simp: due_now_def after_payment_def unat_eq_0 split: if_splits)

lemma due_total_after_payment: "due_total (after_payment r now) + due_now r now = due_total r"
  by (simp add: due_total_def after_payment_def due_now_def)

lemma force_settle_finalize_body:
  assumes "force_settle_finalize S vk rk vtk rtk c = Inr c'"
  obtains vault r cl and vt :: TokenAccount where "vaults c vk = Some vault" "requests c rk = Some r" "fs_vault r = vk"
      "\<not> fs_is_resolved r" "vtk = vc_vault_token_account vault" "rtk = fs_recipient_ata r"
      "sint (fs_dispute_deadline r) < sint (unix_timestamp c)"
      "checked_add (fs_free_balance_due r)
        (if lock_expired r (unix_timestamp c) then fs_locked_balance_due r else 0) = Some cl"
      "(if cl = 0 then
        if fs_locked_balance_due r = 0
        then Inr (c\<lparr>requests := (requests c)(rk \<mapsto> r\<lparr>fs_is_resolved := True\<rparr>)\<rparr>) else Inr c
      else require (cl \<le> ta_amount vt) (Vault VaultInsolvent) (
        rbind (token_transfer S vtk rtk vk cl c) (\<lambda>c1.
        Inr (c1\<lparr>requests := (requests c1)(rk \<mapsto> finalize_request r (unix_timestamp c))\<rparr>)))) = Inr c'"
  using assms
  unfolding force_settle_finalize_def Let_def ok_or_ok require_ok lock_expired_def [symmetric]
  by (elim exE conjE, intro that) assumption+

lemma force_settle_finalize_ok:
  assumes "force_settle_finalize S vk rk vtk rtk c = Inr c'"
  obtains vault r where "vaults c vk = Some vault" "requests c rk = Some r" "fs_vault r = vk"
    "\<not> fs_is_resolved r" "vtk = vc_vault_token_account vault" "rtk = fs_recipient_ata r"
    "sint (fs_dispute_deadline r) < sint (unix_timestamp c)"
    "due_now r (unix_timestamp c) < 2 ^ 64" "due_now r (unix_timestamp c) = 0 \<Longrightarrow>
      tokens c' = tokens c"
    "due_now r (unix_timestamp c) \<noteq> 0 \<Longrightarrow>
      sol_transfer S vtk rtk vk (word_of_nat (due_now r (unix_timestamp c))) (tokens c) =
        Some (tokens c')"
    "c' = c\<lparr>tokens := tokens c',
      requests := (requests c)(rk \<mapsto> after_payment r (unix_timestamp c))\<rparr>"
proof -
  from assms obtain vault r cl and vt :: TokenAccount where
    *: "vaults c vk = Some vault" "requests c rk = Some r" "fs_vault r = vk"
      "\<not> fs_is_resolved r" "vtk = vc_vault_token_account vault" "rtk = fs_recipient_ata r"
      "sint (fs_dispute_deadline r) < sint (unix_timestamp c)"
      "checked_add (fs_free_balance_due r)
        (if lock_expired r (unix_timestamp c) then fs_locked_balance_due r else 0) = Some cl"
    and body: "(if cl = 0 then
        if fs_locked_balance_due r = 0
        then Inr (c\<lparr>requests := (requests c)(rk \<mapsto> r\<lparr>fs_is_resolved := True\<rparr>)\<rparr>) else Inr c
      else require (cl \<le> ta_amount vt) (Vault VaultInsolvent) (
        rbind (token_transfer S vtk rtk vk cl c) (\<lambda>c1.
        Inr (c1\<lparr>requests := (requests c1)(rk \<mapsto> finalize_request r (unix_timestamp c))\<rparr>)))) = Inr c'"
    by (rule force_settle_finalize_body)
  have cl: "unat cl = due_now r (unix_timestamp c)"
    using unat_checked_add [OF *(8)] by (simp add: due_now_def)
  then have w: "word_of_nat (due_now r (unix_timestamp c)) = cl"
    by (metis word_of_unat)
  have z: "cl = 0 \<longleftrightarrow> due_now r (unix_timestamp c) = 0"
    using cl by (metis unat_0 unsigned_word_eq_iff)
  have lim: "due_now r (unix_timestamp c) < 2 ^ 64"
    using unat_less_pow [of cl] cl by simp
  have paid: "c' = c\<lparr>tokens := tokens c', requests := (requests c)(rk \<mapsto>
        after_payment r (unix_timestamp c))\<rparr> \<and>
      (if cl = 0 then tokens c' = tokens c
       else sol_transfer S vtk rtk vk cl (tokens c) = Some (tokens c'))"
  proof (cases "cl = 0")
    case True
    then have "after_payment r (unix_timestamp c) =
        (if fs_locked_balance_due r = 0 then r\<lparr>fs_is_resolved := True\<rparr> else r)"
      using z after_payment_nothing [OF _ *(4)] by blast
    moreover have "(requests c)(rk \<mapsto> r) = requests c"
      using *(2) by (simp add: fun_upd_idem)
    ultimately show ?thesis
      using body True by (cases "fs_locked_balance_due r = 0") auto
  next
    case False
    then show ?thesis
      using body finalize_request_eq [OF *(4), of "unix_timestamp c"] by (auto simp: result_simps)
  qed
  show thesis
    by (rule that [of vault r, OF *(1-7) lim]) (use paid z w in simp_all)
qed

lemma asc_close_claim_ok:
  assumes "asc_close_claim S sv vk ck ch rh c = Inr c'"
  obtains vault bump vv voucher pv where "vaults c vk = Some vault"
    "sol_pda S (asc_close_claim_seeds vk ch rh) = (ck, bump)" "\<not> in_use c ck"
    "verify_ed25519_signature_details_relative S sv 2 (vc_vault_signer_pubkey vault) = Inr vv"
    "parse_asc_claim_voucher_message (ve_message vv) = Some voucher"
    "cv_channel_id_hash voucher = ch" "cv_request_id_hash voucher = rh"
    "cv_vault_config voucher = vk"
    "verify_ed25519_signature_details_relative S sv 1 (cv_provider_pubkey voucher) = Inr pv"
    "ve_message pv = build_asc_payment_message_from_hashes ch rh (cv_amount voucher)
      (cv_request_hash voucher)"
    "length (ve_signature pv) = 64"
    "c' = c\<lparr>claims := (claims c)(ck \<mapsto>
      \<lparr>ac_bump = bump, ac_vault = vk, ac_channel_id_hash = ch, ac_request_id_hash = rh,
       ac_request_hash = cv_request_hash voucher, ac_provider_pubkey = cv_provider_pubkey voucher,
       ac_full_sig_r = take 32 (ve_signature pv), ac_full_sig_s = drop 32 (ve_signature pv),
       ac_amount = cv_amount voucher, ac_voucher_issued_at = cv_issued_at voucher,
       ac_claimed_at = unix_timestamp c\<rparr>)\<rparr>"
  using assms unfolding asc_close_claim_def Let_def result_simps
  by (elim exE conjE, intro that) (assumption | (drule sum.inject(2) [THEN iffD1], erule sym))+

lemma details_genuine:
  "verify_ed25519_signature_details S sv pk = Inr v \<Longrightarrow> precompile_ok S verify sv \<Longrightarrow>
    verify pk (ve_signature v) (ve_message v)"
  using verified_signature_genuine by (simp add: verify_ed25519_signature_details_def)

section \<open>Properties\<close>

text \<open>C16. A force-settle request is opened only from a receipt that the vault signer signed for
  this vault and this participant; the request carries the balances, the recipient, the lock
  expiry and the nonce of that receipt, is unresolved, and its dispute window ends 24 hours
  after the current time.  The address held no account before.\<close>
theorem force_settle_init_from_receipt:
  assumes ok: "force_settle_init S sv p vk rk kind rcp free locked mle nonce sig msg c = Inr c'"
    and pre: "precompile_ok S verify sv"
    and v: "vaults c vk = Some vault"
  shows "\<exists>m r. receipt_wf m \<and> receipt_bytes m = msg \<and> verify (vc_vault_signer_pubkey vault) sig msg \<and>
    pr_participant m = p \<and> pr_vault_config m = vk \<and> requests c rk = None \<and>
    c' = c\<lparr>requests := (requests c)(rk \<mapsto> r)\<rparr> \<and> fs_vault r = vk \<and> fs_participant r = p \<and>
    fs_participant_kind r = pr_participant_kind m \<and> fs_recipient_ata r = pr_recipient_ata m \<and>
    fs_free_balance_due r = pr_free_balance m \<and> fs_locked_balance_due r = pr_locked_balance m \<and>
    fs_max_lock_expires_at r = pr_max_lock_expires_at m \<and> fs_receipt_nonce r = pr_nonce m \<and>
    sint (fs_dispute_deadline r) = sint (unix_timestamp c) + 86400 \<and> \<not> fs_is_resolved r"
  using ok
proof (elim force_settle_init_ok)
  fix vault' w d deadline bump
  let ?r = "\<lparr>fs_bump = bump, fs_vault = vk, fs_participant = p, fs_participant_kind = kind,
       fs_recipient_ata = rcp, fs_free_balance_due = free, fs_locked_balance_due = locked,
       fs_max_lock_expires_at = mle, fs_receipt_nonce = nonce, fs_receipt_signature = sig,
       fs_initiated_at = unix_timestamp c, fs_dispute_deadline = deadline,
       fs_is_resolved = False\<rparr>"
  assume *: "vaults c vk = Some vault'" "\<not> in_use c rk"
    "verify_ed25519_signature_details S sv (vc_vault_signer_pubkey vault') = Inr w"
    "ve_message w = msg" "ve_signature w = sig" "decode_participant_receipt_message msg = Inr d"
    "pr_participant d = p" "pr_participant_kind d = kind" "pr_recipient_ata d = rcp"
    "pr_free_balance d = free" "pr_locked_balance d = locked" "pr_max_lock_expires_at d = mle"
    "pr_nonce d = nonce" "pr_vault_config d = vk"
    "checked_add_i64 (unix_timestamp c) DISPUTE_WINDOW_SEC = Some deadline"
    "c' = c\<lparr>requests := (requests c)(rk \<mapsto> ?r)\<rparr>"
  have "sint deadline = sint (unix_timestamp c) + 86400"
    using sint_checked_add_i64 [OF *(15)] by (simp add: DISPUTE_WINDOW_SEC_def)
  moreover have "verify (vc_vault_signer_pubkey vault) sig msg"
    using details_genuine [OF *(3) pre] *(1,4,5) v by simp
  moreover have "requests c rk = None" using *(2) by (simp add: in_use_def)
  ultimately show ?thesis
    using build_decode_receipt [OF *(6)] * by (intro exI [of _ d] exI [of _ ?r]) simp
qed

text \<open>C17. A challenge succeeds only within the dispute window, on an unresolved request, with a
  receipt that the vault signer signed for the same vault, participant and kind and whose nonce
  is strictly larger; it replaces the recipient, the balances, the lock expiry and the nonce by those
  of the newer receipt and leaves the deadline alone.\<close>
theorem force_settle_challenge_newer:
  assumes ok: "force_settle_challenge S sv vk rk rcp free locked mle nonce sig msg c = Inr c'"
    and pre: "precompile_ok S verify sv"
    and v: "vaults c vk = Some vault" and r: "requests c rk = Some r"
  shows "\<exists>m. receipt_wf m \<and> receipt_bytes m = msg \<and> verify (vc_vault_signer_pubkey vault) sig msg \<and>
    pr_vault_config m = vk \<and> pr_participant m = fs_participant r \<and>
    pr_participant_kind m = fs_participant_kind r \<and> \<not> fs_is_resolved r \<and>
    sint (unix_timestamp c) \<le> sint (fs_dispute_deadline r) \<and>
    unat (fs_receipt_nonce r) < unat (pr_nonce m) \<and>
    c' = c\<lparr>requests := (requests c)(rk \<mapsto> r\<lparr>fs_recipient_ata := pr_recipient_ata m,
      fs_free_balance_due := pr_free_balance m, fs_locked_balance_due := pr_locked_balance m,
      fs_max_lock_expires_at := pr_max_lock_expires_at m, fs_receipt_nonce := pr_nonce m,
      fs_receipt_signature := sig\<rparr>)\<rparr>"
  using ok
proof (elim force_settle_challenge_ok)
  fix vault' r' w d
  assume *: "vaults c vk = Some vault'" "requests c rk = Some r'" "\<not> fs_is_resolved r'"
    "sint (unix_timestamp c) \<le> sint (fs_dispute_deadline r')" "fs_receipt_nonce r' < nonce"
    "verify_ed25519_signature_details S sv (vc_vault_signer_pubkey vault') = Inr w"
    "ve_message w = msg" "ve_signature w = sig" "decode_participant_receipt_message msg = Inr d"
    "pr_participant d = fs_participant r'" "pr_participant_kind d = fs_participant_kind r'"
    "pr_recipient_ata d = rcp" "pr_free_balance d = free" "pr_locked_balance d = locked"
    "pr_max_lock_expires_at d = mle" "pr_nonce d = nonce" "pr_vault_config d = vk"
    "c' = c\<lparr>requests := (requests c)(rk \<mapsto> r'\<lparr>fs_recipient_ata := rcp,
      fs_free_balance_due := free, fs_locked_balance_due := locked,
      fs_max_lock_expires_at := mle, fs_receipt_nonce := nonce, fs_receipt_signature := sig\<rparr>)\<rparr>"
  have "verify (vc_vault_signer_pubkey vault) sig msg"
    using details_genuine [OF *(6) pre] *(1,7,8) v by simp
  then show ?thesis
    using build_decode_receipt [OF *(9)] * r
    by (intro exI [of _ d]) (simp add: word_less_nat_alt)
qed




end
