(* ===== verification/Watchtower.thy ===== *)
theory Watchtower
  imports Force_Settle
begin

text \<open>
  The receipt watchtower (\<^verbatim>\<open>src/watchtower/src\<close>): the store of the newest receipt of every participant
  (\<^verbatim>\<open>receipt_store.rs\<close>), the validation of receipts that are handed in (\<^verbatim>\<open>main.rs\<close>) and the challenge of
  stale force-settle requests on chain (\<^verbatim>\<open>challenger.rs\<close>).  Base58, base64, Ed25519 verification, the
  accounts read over RPC and the sending of a transaction are parameters.
\<close>

section \<open>The receipt store\<close>

record StoredReceipt =
  st_participant :: string
  st_participant_kind :: u8
  st_recipient_ata :: string
  st_free_balance :: u64
  st_locked_balance :: u64
  st_max_lock_expires_at :: i64
  st_nonce :: u64
  st_timestamp :: i64
  st_snapshot_seqno :: u64
  st_vault_config :: string
  st_signature :: string
  st_message :: string

record ReceiptKey =
  rk_vault :: pubkey
  rk_participant :: pubkey
  rk_participant_kind :: u8

type_synonym receipts = "(string, StoredReceipt) amap"

text \<open>A number in decimal.\<close>
fun decimal :: "nat \<Rightarrow> string" where
  "decimal n = (if n < 10 then [char_of (48 + n)] else decimal (n div 10) @ [char_of (48 + n mod 10)])"

declare decimal.simps [simp del]

definition storage_key :: "(pubkey \<Rightarrow> string) \<Rightarrow> ReceiptKey \<Rightarrow> string" where
  "storage_key to_string key =
    to_string (rk_vault key) @ '':'' @ to_string (rk_participant key) @ '':'' @ decimal (unat (rk_participant_kind key))"

definition store_receipt ::
  "(pubkey \<Rightarrow> string) \<Rightarrow> ReceiptKey \<Rightarrow> StoredReceipt \<Rightarrow> receipts \<Rightarrow> bool \<times> receipts" where
  "store_receipt to_string key receipt receipts =
    (let sk = storage_key to_string key;
         should_store = (case aget receipts sk of
             Some existing \<Rightarrow> st_nonce receipt > st_nonce existing | None \<Rightarrow> True) in
     if should_store then (True, aput sk receipt receipts) else (False, receipts))"

definition get_receipt :: "(pubkey \<Rightarrow> string) \<Rightarrow> ReceiptKey \<Rightarrow> receipts \<Rightarrow> StoredReceipt option" where
  "get_receipt to_string key receipts = aget receipts (storage_key to_string key)"

definition get_nonce :: "(pubkey \<Rightarrow> string) \<Rightarrow> ReceiptKey \<Rightarrow> receipts \<Rightarrow> u64" where
  "get_nonce to_string key receipts = (case get_receipt to_string key receipts of Some r \<Rightarrow> st_nonce r | None \<Rightarrow> 0)"

text \<open>The entries that \<^verbatim>\<open>persist\<close> writes, and \<^verbatim>\<open>load_from_disk\<close> on the entries of a file that is there and
  parses.\<close>
definition persist_entries :: "receipts \<Rightarrow> (string \<times> StoredReceipt) list" where
  "persist_entries receipts = map (\<lambda>(k, r). (k, r)) receipts"

definition load_from_disk :: "(string \<times> StoredReceipt) list option \<Rightarrow> receipts" where
  "load_from_disk file = (case file of None \<Rightarrow> [] | Some entries \<Rightarrow> fold (\<lambda>(k, r) m. aput k r m) entries [])"

section \<open>Validation\<close>

record StoreReceiptRequest =
  sq_participant :: string
  sq_participant_kind :: u8
  sq_recipient_ata :: string
  sq_free_balance :: u64
  sq_locked_balance :: u64
  sq_max_lock_expires_at :: i64
  sq_nonce :: u64
  sq_timestamp :: i64
  sq_snapshot_seqno :: u64
  sq_vault_config :: string
  sq_signature :: string
  sq_message :: string

text \<open>What the watchtower calls: base58 and base64, strict Ed25519 verification with a key that may be
  invalid, the data of an account, and the vault it is configured for (all zero when it is not).\<close>
record wt_env =
  wt_solana :: solana
  wt_from_str :: "string \<Rightarrow> pubkey option"
  wt_to_string :: "pubkey \<Rightarrow> string"
  wt_b64_decode :: "string \<Rightarrow> bytes option"
  wt_verify_strict :: "bytes \<Rightarrow> bytes \<Rightarrow> bytes \<Rightarrow> bool"
  wt_account_data :: "pubkey \<Rightarrow> bytes option"
  wt_vault_config :: pubkey
  wt_challenger :: pubkey
  wt_instructions_sysvar :: pubkey

datatype StatusCode = BAD_REQUEST | SERVICE_UNAVAILABLE

type_synonym wt_error = "StatusCode \<times> string"

definition signer_offset :: nat where "signer_offset = 8 + 1 + 8 + 32 + 1"

definition fetch_vault_signer_pubkey :: "wt_env \<Rightarrow> pubkey \<Rightarrow> (string, bytes) result" where
  "fetch_vault_signer_pubkey W vault =
    ok_or (wt_account_data W vault) ''failed to fetch vault config'' (\<lambda>vault_config_data.
    require (signer_offset + 32 \<le> length vault_config_data) ''vault config account data too short''
    (Inr (slice vault_config_data signer_offset 32)))"

definition require_match :: "'a \<Rightarrow> 'a \<Rightarrow> string \<Rightarrow> (wt_error, 'b) result \<Rightarrow> (wt_error, 'b) result" where
  "require_match actual expected message r = require (actual = expected) (BAD_REQUEST, message) r"

definition validate_store_receipt_request_inner ::
  "wt_env \<Rightarrow> StoreReceiptRequest \<Rightarrow> pubkey option \<Rightarrow> bytes \<Rightarrow> (wt_error, ReceiptKey \<times> StoredReceipt) result" where
  "validate_store_receipt_request_inner W req expected_vault vault_signer =
    require (sq_participant_kind req \<le> 1) (BAD_REQUEST, ''participantKind must be 0 or 1'') (
    ok_or (wt_from_str W (sq_participant req)) (BAD_REQUEST, ''invalid participant'') (\<lambda>participant.
    ok_or (wt_from_str W (sq_recipient_ata req)) (BAD_REQUEST, ''invalid recipientAta'') (\<lambda>recipient_ata.
    ok_or (wt_from_str W (sq_vault_config req)) (BAD_REQUEST, ''invalid vaultConfig'') (\<lambda>vault.
    require (case expected_vault of Some e \<Rightarrow> vault = e | None \<Rightarrow> True)
      (BAD_REQUEST, ''receipt vaultConfig does not match this watchtower'') (
    ok_or (wt_b64_decode W (sq_signature req)) (BAD_REQUEST, ''invalid signature base64'') (\<lambda>signature.
    require (length signature = 64) (BAD_REQUEST, ''invalid signature bytes'') (
    ok_or (wt_b64_decode W (sq_message req)) (BAD_REQUEST, ''invalid message base64'') (\<lambda>message.
    rbind (case decode_participant_receipt_message message of
        Inl _ \<Rightarrow> Inl (BAD_REQUEST, ''invalid receipt message'') | Inr d \<Rightarrow> Inr d) (\<lambda>decoded.
    require_match (pr_participant decoded) participant ''participant mismatch in receipt message'' (
    require_match (pr_participant_kind decoded) (sq_participant_kind req) ''participantKind mismatch in receipt message'' (
    require_match (pr_recipient_ata decoded) recipient_ata ''recipientAta mismatch in receipt message'' (
    require_match (pr_free_balance decoded) (sq_free_balance req) ''freeBalance mismatch in receipt message'' (
    require_match (pr_locked_balance decoded) (sq_locked_balance req) ''lockedBalance mismatch in receipt message'' (
    require_match (pr_max_lock_expires_at decoded) (sq_max_lock_expires_at req) ''maxLockExpiresAt mismatch in receipt message'' (
    require_match (pr_nonce decoded) (sq_nonce req) ''nonce mismatch in receipt message'' (
    require_match (pr_timestamp decoded) (sq_timestamp req) ''timestamp mismatch in receipt message'' (
    require_match (pr_snapshot_seqno decoded) (sq_snapshot_seqno req) ''snapshotSeqno mismatch in receipt message'' (
    require_match (pr_vault_config decoded) vault ''vaultConfig mismatch in receipt message'' (
    require (wt_verify_strict W vault_signer signature message)
      (BAD_REQUEST, ''receipt signature verification failed'') (
    Inr (\<lparr>rk_vault = vault, rk_participant = participant, rk_participant_kind = sq_participant_kind req\<rparr>,
      \<lparr>st_participant = sq_participant req, st_participant_kind = sq_participant_kind req,
       st_recipient_ata = sq_recipient_ata req, st_free_balance = sq_free_balance req,
       st_locked_balance = sq_locked_balance req, st_max_lock_expires_at = sq_max_lock_expires_at req,
       st_nonce = sq_nonce req, st_timestamp = sq_timestamp req, st_snapshot_seqno = sq_snapshot_seqno req,
       st_vault_config = sq_vault_config req, st_signature = sq_signature req, st_message = sq_message req\<rparr>)))))))))))))))))))))"

definition validate_store_receipt_request ::
  "wt_env \<Rightarrow> StoreReceiptRequest \<Rightarrow> (wt_error, ReceiptKey \<times> StoredReceipt) result" where
  "validate_store_receipt_request W req =
    ok_or (wt_from_str W (sq_vault_config req)) (BAD_REQUEST, ''invalid vaultConfig'') (\<lambda>vault.
    rbind (case fetch_vault_signer_pubkey W vault of
        Inl e \<Rightarrow> Inl (SERVICE_UNAVAILABLE, e) | Inr s \<Rightarrow> Inr s) (\<lambda>vault_signer.
    validate_store_receipt_request_inner W req
      (if wt_vault_config W \<noteq> replicate 32 0 then Some (wt_vault_config W) else None) vault_signer))"

text \<open>\<^verbatim>\<open>post_store_receipt\<close>: whether the receipt was stored and the current nonce, or the error.\<close>
definition post_store_receipt ::
  "wt_env \<Rightarrow> StoreReceiptRequest \<Rightarrow> receipts \<Rightarrow> (wt_error, bool \<times> u64) result \<times> receipts" where
  "post_store_receipt W req receipts =
    (case validate_store_receipt_request W req of
       Inl e \<Rightarrow> (Inl e, receipts)
     | Inr (key, receipt) \<Rightarrow>
         let (stored, receipts1) = store_receipt (wt_to_string W) key receipt receipts in
         (Inr (stored, get_nonce (wt_to_string W) key receipts1), receipts1))"

section \<open>Challenges\<close>

record OnChainForceSettleRequest =
  oc_address :: pubkey
  oc_vault :: pubkey
  oc_participant :: pubkey
  oc_participant_kind :: u8
  oc_recipient_ata :: pubkey
  oc_free_balance_due :: u64
  oc_locked_balance_due :: u64
  oc_max_lock_expires_at :: i64
  oc_receipt_nonce :: u64
  oc_dispute_deadline :: i64
  oc_is_resolved :: bool

definition parse_force_settle_request :: "pubkey \<Rightarrow> bytes \<Rightarrow> OnChainForceSettleRequest option" where
  "parse_force_settle_request address data =
    (if length data < 219 then None
     else Some \<lparr>oc_address = address, oc_vault = slice data 9 32, oc_participant = slice data 41 32,
       oc_participant_kind = data ! 73, oc_recipient_ata = slice data 74 32,
       oc_free_balance_due = from_le_bytes (slice data 106 8),
       oc_locked_balance_due = from_le_bytes (slice data 114 8),
       oc_max_lock_expires_at = from_le_bytes (slice data 122 8),
       oc_receipt_nonce = from_le_bytes (slice data 130 8),
       oc_dispute_deadline = from_le_bytes (slice data 210 8), oc_is_resolved = data ! 218 \<noteq> 0\<rparr>)"

definition anchor_discriminator :: "(bytes \<Rightarrow> bytes) \<Rightarrow> string \<Rightarrow> bytes" where
  "anchor_discriminator sha256 name = take 8 (sha256 (str_bytes (''global:'' @ name)))"

text \<open>The transaction of \<^verbatim>\<open>submit_challenge\<close>; an error when the receipt or the vault account is not as
  expected.\<close>
definition challenge_transaction ::
  "wt_env \<Rightarrow> pubkey \<Rightarrow> StoredReceipt \<Rightarrow> (string, instruction list) result" where
  "challenge_transaction W force_settle_address receipt =
    ok_or (wt_b64_decode W (st_signature receipt)) ''Invalid receipt signature base64'' (\<lambda>signature_bytes.
    ok_or (wt_b64_decode W (st_message receipt)) ''Invalid receipt message base64'' (\<lambda>message_bytes.
    ok_or (wt_from_str W (st_vault_config receipt)) ''Invalid vault_config'' (\<lambda>vault_config.
    ok_or (wt_account_data W vault_config) ''Failed to fetch vault config'' (\<lambda>vault_config_data.
    require (signer_offset + 32 \<le> length vault_config_data) ''VaultConfig data too short'' (
    let vault_signer_bytes = slice vault_config_data signer_offset 32;
        ed25519_ix = build_ed25519_verify_instruction (wt_solana W) vault_signer_bytes signature_bytes message_bytes in
    require (length signature_bytes = 64) ''Signature must be 64 bytes'' (
    ok_or (wt_from_str W (st_recipient_ata receipt)) ''Invalid recipient_ata'' (\<lambda>recipient_ata.
    let data = anchor_discriminator (sol_sha256 (wt_solana W)) ''force_settle_challenge'' @ recipient_ata @
          to_le_bytes (st_free_balance receipt) @ to_le_bytes (st_locked_balance receipt) @
          to_le_bytes (st_max_lock_expires_at receipt) @ to_le_bytes (st_nonce receipt) @ signature_bytes @
          u32_to_le (word_of_nat (length message_bytes)) @ message_bytes in
    Inr [ed25519_ix, \<lparr>ix_program_id = sol_program_id (wt_solana W),
      ix_accounts = [wt_challenger W, vault_config, force_settle_address, wt_instructions_sysvar W],
      ix_data = data\<rparr>])))))))"

definition submit_challenge ::
  "wt_env \<Rightarrow> (instruction list \<Rightarrow> string option) \<Rightarrow> pubkey \<Rightarrow> StoredReceipt \<Rightarrow> (string, string) result" where
  "submit_challenge W send force_settle_address receipt =
    rbind (challenge_transaction W force_settle_address receipt) (\<lambda>tx.
    ok_or (send tx) ''Transaction failed'' (\<lambda>sig. Inr sig))"

text \<open>The request of an account that is to be challenged, and the receipt to do it with.\<close>
definition stale_request ::
  "wt_env \<Rightarrow> receipts \<Rightarrow> int \<Rightarrow> pubkey \<Rightarrow> bytes \<Rightarrow> StoredReceipt option" where
  "stale_request W receipts now address data =
    (if length data \<noteq> 219 then None
     else case parse_force_settle_request address data of
       None \<Rightarrow> None
     | Some request \<Rightarrow>
         if oc_is_resolved request \<or> now > sint (oc_dispute_deadline request) then None
         else
           let key = \<lparr>rk_vault = oc_vault request, rk_participant = oc_participant request,
                 rk_participant_kind = oc_participant_kind request\<rparr> in
           if get_nonce (wt_to_string W) key receipts \<le> oc_receipt_nonce request then None
           else get_receipt (wt_to_string W) key receipts)"

fun scan_accounts ::
  "wt_env \<Rightarrow> (instruction list \<Rightarrow> string option) \<Rightarrow> receipts \<Rightarrow> int \<Rightarrow> (pubkey \<times> bytes) list \<Rightarrow> nat" where
  "scan_accounts W send receipts now [] = 0"
| "scan_accounts W send receipts now ((address, data) # accounts) =
    (case stale_request W receipts now address data of
       None \<Rightarrow> 0
     | Some receipt \<Rightarrow> (case submit_challenge W send address receipt of Inr _ \<Rightarrow> 1 | Inl _ \<Rightarrow> 0)) +
    scan_accounts W send receipts now accounts"

definition scan_and_challenge ::
  "wt_env \<Rightarrow> (instruction list \<Rightarrow> string option) \<Rightarrow> receipts \<Rightarrow> int \<Rightarrow> (pubkey \<times> bytes) list option \<Rightarrow>
    (string, nat) result" where
  "scan_and_challenge W send receipts now program_accounts =
    ok_or program_accounts ''RPC get_program_accounts failed'' (\<lambda>accounts.
    Inr (scan_accounts W send receipts now accounts))"

section \<open>The newest receipt\<close>

definition receipts_after :: "wt_env \<Rightarrow> StoreReceiptRequest list \<Rightarrow> receipts" where
  "receipts_after W reqs = foldl (\<lambda>s req. snd (post_store_receipt W req s)) [] reqs"

definition from_decimal :: "string \<Rightarrow> nat" where
  "from_decimal = foldl (\<lambda>n c. 10 * n + (of_char c - 48)) 0"

lemma from_decimal: "from_decimal (decimal n) = n"
proof (induction n rule: decimal.induct)
  case (1 n)
  have digit: "(of_char (char_of (48 + d) :: char) :: nat) = 48 + d" if "d < 10" for d :: nat
    using that by simp
  show ?case
  proof (cases "n < 10")
    case True
    then show ?thesis by (simp add: decimal.simps [of n] from_decimal_def)
  next
    case False
    with 1 show ?thesis
      by (simp add: decimal.simps [of n] from_decimal_def del: of_char_of) (simp add: digit)
  qed
qed

lemma split_at:
  "c \<notin> set xs \<Longrightarrow> c \<notin> set xs' \<Longrightarrow> xs @ c # ys = xs' @ c # ys' \<Longrightarrow> xs = xs' \<and> ys = ys'"
proof (induction xs arbitrary: xs')
  case (Cons x xs)
  then show ?case by (cases xs') auto
qed (auto simp: Cons_eq_append_conv)

lemma storage_key_inj:
  assumes "inj to_string" "\<And>k. CHR '':'' \<notin> set (to_string k)" "storage_key to_string a = storage_key to_string b"
  shows "a = b"
proof -
  have "to_string (rk_vault a) = to_string (rk_vault b)"
    and tl: "to_string (rk_participant a) @ CHR '':'' # decimal (unat (rk_participant_kind a)) =
      to_string (rk_participant b) @ CHR '':'' # decimal (unat (rk_participant_kind b))"
    using split_at [OF assms(2) assms(2)] assms(3) unfolding storage_key_def append_Cons append_Nil by blast+
  moreover from tl have "to_string (rk_participant a) = to_string (rk_participant b)"
    "decimal (unat (rk_participant_kind a)) = decimal (unat (rk_participant_kind b))"
    using split_at [OF assms(2) assms(2)] by blast+
  moreover from this(2) have "rk_participant_kind a = rk_participant_kind b"
    by (metis from_decimal word_unat_eq_iff)
  ultimately show ?thesis using assms(1) by (cases a, cases b) (auto dest: injD)
qed

text \<open>The store after some requests: every entry comes from an accepted request, and no accepted receipt
  is newer than the entry of its key.\<close>
definition store_inv :: "wt_env \<Rightarrow> StoreReceiptRequest list \<Rightarrow> receipts \<Rightarrow> bool" where
  "store_inv W reqs s \<longleftrightarrow>
    (\<forall>sk r. aget s sk = Some r \<longrightarrow> (\<exists>req key. req \<in> set reqs \<and> validate_store_receipt_request W req = Inr (key, r) \<and>
      storage_key (wt_to_string W) key = sk)) \<and>
    (\<forall>req key r. req \<in> set reqs \<longrightarrow> validate_store_receipt_request W req = Inr (key, r) \<longrightarrow>
      (\<exists>r'. aget s (storage_key (wt_to_string W) key) = Some r' \<and> st_nonce r \<le> st_nonce r'))"

lemma store_inv_post:
  assumes "store_inv W reqs s"
  shows "store_inv W (reqs @ [req]) (snd (post_store_receipt W req s))"
proof (cases "validate_store_receipt_request W req")
  case (Inl e)
  then have "snd (post_store_receipt W req s) = s" by (simp add: post_store_receipt_def)
  moreover have "req' \<in> set (reqs @ [req]) \<and> validate_store_receipt_request W req' = Inr x \<longleftrightarrow>
      req' \<in> set reqs \<and> validate_store_receipt_request W req' = Inr x" for req' x
    using Inl by auto
  ultimately show ?thesis using assms unfolding store_inv_def by metis
next
  case (Inr x)
  obtain key r where x: "x = (key, r)" by fastforce
  let ?sk = "storage_key (wt_to_string W) key"
  let ?s' = "snd (post_store_receipt W req s)"
  have s': "?s' = (if (case aget s ?sk of Some e \<Rightarrow> st_nonce r > st_nonce e | None \<Rightarrow> True) then aput ?sk r s else s)"
    by (simp add: post_store_receipt_def store_receipt_def Inr x Let_def)
  have grows: "\<exists>r'. aget ?s' sk = Some r' \<and> n \<le> st_nonce r'" if "aget s sk = Some r0" "n \<le> st_nonce r0" for sk r0 n
    using that by (auto simp: s' split: option.splits)
  have new: "\<exists>r'. aget ?s' ?sk = Some r' \<and> st_nonce r \<le> st_nonce r'"
    by (auto simp: s' not_less split: option.splits)
  have "\<exists>req' key'. req' \<in> set (reqs @ [req]) \<and> validate_store_receipt_request W req' = Inr (key', r') \<and>
      storage_key (wt_to_string W) key' = sk" if "aget ?s' sk = Some r'" for sk r'
  proof (cases "aget s sk = Some r'")
    case True
    with assms show ?thesis by (fastforce simp: store_inv_def)
  next
    case False
    with that have "sk = ?sk" "r' = r" by (auto simp: s' split: if_splits)
    with Inr x show ?thesis by auto
  qed
  moreover have "\<exists>r''. aget ?s' (storage_key (wt_to_string W) key') = Some r'' \<and> st_nonce r' \<le> st_nonce r''"
    if "req' \<in> set (reqs @ [req])" "validate_store_receipt_request W req' = Inr (key', r')" for req' key' r'
  proof (cases "req' \<in> set reqs")
    case True
    with that(2) assms obtain r0 where "aget s (storage_key (wt_to_string W) key') = Some r0" "st_nonce r' \<le> st_nonce r0"
      unfolding store_inv_def by blast
    then show ?thesis by (rule grows)
  next
    case False
    with that Inr x new show ?thesis by auto
  qed
  ultimately show ?thesis unfolding store_inv_def by blast
qed

lemma store_inv_after: "store_inv W reqs (receipts_after W reqs)"
proof (induction reqs rule: rev_induct)
  case Nil
  then show ?case by (simp add: store_inv_def receipts_after_def)
next
  case (snoc req reqs)
  from store_inv_post [OF this, of req] show ?case by (simp add: receipts_after_def)
qed

text \<open>C31. The watchtower keeps the newest receipt.  Whatever requests it has been sent, in whatever
  order and however many it rejected, the receipt it holds for a participant of a vault was accepted for
  just this vault, participant and kind, and no accepted receipt of this participant is newer.\<close>
theorem watchtower_keeps_newest:
  assumes base58: "inj (wt_to_string W)" "\<And>k. CHR '':'' \<notin> set (wt_to_string W k)"
    and accepted: "req \<in> set reqs" "validate_store_receipt_request W req = Inr (key, receipt)"
  shows "\<exists>r req'. get_receipt (wt_to_string W) key (receipts_after W reqs) = Some r \<and> st_nonce receipt \<le> st_nonce r \<and>
    req' \<in> set reqs \<and> validate_store_receipt_request W req' = Inr (key, r)"
proof -
  obtain r where r: "aget (receipts_after W reqs) (storage_key (wt_to_string W) key) = Some r" "st_nonce receipt \<le> st_nonce r"
    using store_inv_after [of W reqs] accepted unfolding store_inv_def by blast
  then obtain req' key' where "req' \<in> set reqs" "validate_store_receipt_request W req' = Inr (key', r)"
      "storage_key (wt_to_string W) key' = storage_key (wt_to_string W) key"
    using store_inv_after [of W reqs] unfolding store_inv_def by blast
  with storage_key_inj [OF base58] r show ?thesis by (auto simp: get_receipt_def)
qed

section \<open>Challenges succeed\<close>

text \<open>The account data of a request and of a vault: the discriminator and the fields in order.\<close>
definition force_settle_request_bytes :: "bytes \<Rightarrow> ForceSettleRequest \<Rightarrow> bytes" where
  "force_settle_request_bytes disc r = disc @ [fs_bump r] @ fs_vault r @ fs_participant r @ [fs_participant_kind r] @
    fs_recipient_ata r @ to_le_bytes (fs_free_balance_due r) @ to_le_bytes (fs_locked_balance_due r) @
    to_le_bytes (fs_max_lock_expires_at r) @ to_le_bytes (fs_receipt_nonce r) @ fs_receipt_signature r @
    to_le_bytes (fs_initiated_at r) @ to_le_bytes (fs_dispute_deadline r) @ [if fs_is_resolved r then 1 else 0]"

definition vault_config_bytes :: "bytes \<Rightarrow> VaultConfig \<Rightarrow> bytes" where
  "vault_config_bytes disc v = disc @ [vc_bump v] @ to_le_bytes (vc_vault_id v) @ vc_governance v @ [vc_status v] @
    vc_vault_signer_pubkey v @ vc_usdc_mint v @ vc_vault_token_account v @ vc_auditor_master_pubkey v @
    u32_to_le (vc_auditor_epoch v) @ vc_attestation_policy_hash v @ vc_successor_vault v @
    to_le_bytes (vc_exit_deadline v) @ to_le_bytes (vc_lifetime_deposited v) @
    to_le_bytes (vc_lifetime_withdrawn v) @ to_le_bytes (vc_lifetime_settled v)"

definition request_wf :: "ForceSettleRequest \<Rightarrow> bool" where
  "request_wf r \<longleftrightarrow> length (fs_vault r) = 32 \<and> length (fs_participant r) = 32 \<and> length (fs_recipient_ata r) = 32 \<and>
    length (fs_receipt_signature r) = 64"

definition vault_wf :: "VaultConfig \<Rightarrow> bool" where
  "vault_wf v \<longleftrightarrow> length (vc_governance v) = 32 \<and> length (vc_vault_signer_pubkey v) = 32"

text \<open>The arguments that the program reads from the data of the challenge instruction.\<close>
definition challenge_args ::
  "solana \<Rightarrow> bytes \<Rightarrow> (pubkey \<times> u64 \<times> u64 \<times> i64 \<times> u64 \<times> bytes \<times> bytes) option" where
  "challenge_args S d =
    (let n = unat (u32_from_le (slice d 136 4)) in
     if length d < 140 + n \<or> take 8 d \<noteq> take 8 (sol_sha256 S (str_bytes ''global:force_settle_challenge'')) then None
     else Some (slice d 8 32, from_le_bytes (slice d 40 8), from_le_bytes (slice d 48 8), from_le_bytes (slice d 56 8),
       from_le_bytes (slice d 64 8), slice d 72 64, slice d 140 n))"

lemma parse_request_bytes:
  assumes "length disc = 8" "request_wf r"
  shows "length (force_settle_request_bytes disc r) = 219"
    "parse_force_settle_request address (force_settle_request_bytes disc r) = Some \<lparr>oc_address = address,
      oc_vault = fs_vault r, oc_participant = fs_participant r, oc_participant_kind = fs_participant_kind r,
      oc_recipient_ata = fs_recipient_ata r, oc_free_balance_due = fs_free_balance_due r,
      oc_locked_balance_due = fs_locked_balance_due r, oc_max_lock_expires_at = fs_max_lock_expires_at r,
      oc_receipt_nonce = fs_receipt_nonce r, oc_dispute_deadline = fs_dispute_deadline r,
      oc_is_resolved = fs_is_resolved r\<rparr>"
proof -
  show len: "length (force_settle_request_bytes disc r) = 219"
    using assms by (simp add: force_settle_request_bytes_def request_wf_def)
  show "parse_force_settle_request address (force_settle_request_bytes disc r) = Some \<lparr>oc_address = address,
      oc_vault = fs_vault r, oc_participant = fs_participant r, oc_participant_kind = fs_participant_kind r,
      oc_recipient_ata = fs_recipient_ata r, oc_free_balance_due = fs_free_balance_due r,
      oc_locked_balance_due = fs_locked_balance_due r, oc_max_lock_expires_at = fs_max_lock_expires_at r,
      oc_receipt_nonce = fs_receipt_nonce r, oc_dispute_deadline = fs_dispute_deadline r,
      oc_is_resolved = fs_is_resolved r\<rparr>"
    unfolding parse_force_settle_request_def len using assms
    by (simp add: force_settle_request_bytes_def request_wf_def slice_simps nth_append)
qed

lemma fetch_signer:
  assumes "length disc = 8" "vault_wf v" "wt_account_data W vcfg = Some (vault_config_bytes disc v)"
  shows "signer_offset + 32 \<le> length (vault_config_bytes disc v)"
    "slice (vault_config_bytes disc v) signer_offset 32 = vc_vault_signer_pubkey v"
  using assms by (simp_all add: vault_config_bytes_def vault_wf_def signer_offset_def slice_simps)

lemma challenge_args_data:
  assumes "length (sol_sha256 S (str_bytes ''global:force_settle_challenge'')) = 32" "length ata = 32" "length sig = 64"
    "length msg < 2 ^ 32"
  shows "challenge_args S (anchor_discriminator (sol_sha256 S) ''force_settle_challenge'' @ ata @ to_le_bytes free @
      to_le_bytes locked @ to_le_bytes maxl @ to_le_bytes nonce @ sig @ u32_to_le (word_of_nat (length msg)) @ msg) =
    Some (ata, free, locked, maxl, nonce, sig, msg)"
  using assms by (simp add: challenge_args_def anchor_discriminator_def Let_def slice_simps unat_of_nat)

lemma map_err_ok [result_simps]: "(case r of Inl e \<Rightarrow> Inl (f e) | Inr x \<Rightarrow> Inr x) = Inr y \<longleftrightarrow> r = Inr y"
  by (cases r) auto

text \<open>What an accepted request has been checked for.\<close>
lemma validated:
  assumes "validate_store_receipt_request W req = Inr (key, r)"
  obtains ata vault sig msg decoded signer where
    "wt_from_str W (st_recipient_ata r) = Some ata" "wt_from_str W (st_vault_config r) = Some vault"
    "wt_b64_decode W (st_signature r) = Some sig" "length sig = 64" "wt_b64_decode W (st_message r) = Some msg"
    "decode_participant_receipt_message msg = Inr decoded" "key = \<lparr>rk_vault = vault, rk_participant = pr_participant decoded,
      rk_participant_kind = pr_participant_kind decoded\<rparr>" "pr_recipient_ata decoded = ata" "pr_vault_config decoded = vault"
    "pr_free_balance decoded = st_free_balance r" "pr_locked_balance decoded = st_locked_balance r"
    "pr_max_lock_expires_at decoded = st_max_lock_expires_at r" "pr_nonce decoded = st_nonce r"
    "fetch_vault_signer_pubkey W vault = Inr signer" "wt_verify_strict W signer sig msg"
  using assms unfolding validate_store_receipt_request_def validate_store_receipt_request_inner_def require_match_def
  by (auto simp: result_simps)

lemma check_receipt_decoded:
  "decode_participant_receipt_message msg = Inr d \<Longrightarrow>
    check_receipt msg (pr_participant d) (pr_participant_kind d) (pr_recipient_ata d) (pr_free_balance d)
      (pr_locked_balance d) (pr_max_lock_expires_at d) (pr_nonce d) (pr_vault_config d) = Inr ()"
  by (simp add: check_receipt_def)

text \<open>C9. A stale exit is always answered.  When a request on chain carries an older receipt than the one
  the watchtower has accepted and holds for this participant, and the dispute window is open, then the
  watchtower recognizes the account, and the transaction it builds (the signature check followed by the
  challenge, with the vault's signer read at a fixed offset of the vault account) is one that the vault
  program executes successfully: the request then carries the balances and the nonce of the newer receipt.\<close>
theorem stale_exit_challenged:
  fixes W :: wt_env
  defines "S \<equiv> wt_solana W"
  assumes base58: "\<And>s k. wt_from_str W s = Some k \<Longrightarrow> length k = 32"
    and sha: "\<And>m. length (sol_sha256 S m) = 32" and disc: "length disc = 8" "length vdisc = 8"
    and vault: "vaults c (fs_vault request) = Some vault" "vault_wf vault"
      "wt_account_data W (fs_vault request) = Some (vault_config_bytes vdisc vault)"
    and request: "requests c address = Some request" "request_wf request" "\<not> fs_is_resolved request"
    and accepted: "validate_store_receipt_request W req = Inr (key, receipt)"
      "key = \<lparr>rk_vault = fs_vault request, rk_participant = fs_participant request,
        rk_participant_kind = fs_participant_kind request\<rparr>"
      "get_receipt (wt_to_string W) key receipts = Some receipt"
    and stale: "fs_receipt_nonce request < st_nonce receipt"
    and in_time: "now \<le> sint (fs_dispute_deadline request)"
      "sint (unix_timestamp c) \<le> sint (fs_dispute_deadline request)"
  shows "\<exists>tx ata sig msg. stale_request W receipts now address (force_settle_request_bytes disc request) = Some receipt \<and>
    challenge_transaction W address receipt = Inr tx \<and>
    challenge_args S (ix_data (tx ! 1)) = Some (ata, st_free_balance receipt, st_locked_balance receipt,
      st_max_lock_expires_at receipt, st_nonce receipt, sig, msg) \<and>
    force_settle_challenge S \<lparr>sv_current_index = Some 1, sv_instructions = tx\<rparr> (fs_vault request) address ata
      (st_free_balance receipt) (st_locked_balance receipt) (st_max_lock_expires_at receipt) (st_nonce receipt) sig msg c =
    Inr (c\<lparr>requests := (requests c)(address \<mapsto> request\<lparr>fs_recipient_ata := ata,
      fs_free_balance_due := st_free_balance receipt, fs_locked_balance_due := st_locked_balance receipt,
      fs_max_lock_expires_at := st_max_lock_expires_at receipt, fs_receipt_nonce := st_nonce receipt,
      fs_receipt_signature := sig\<rparr>)\<rparr>)"
proof -
  obtain ata sig msg d where v: "wt_from_str W (st_recipient_ata receipt) = Some ata"
      "wt_from_str W (st_vault_config receipt) = Some (fs_vault request)"
      "wt_b64_decode W (st_signature receipt) = Some sig" "length sig = 64" "wt_b64_decode W (st_message receipt) = Some msg"
    and d: "decode_participant_receipt_message msg = Inr d" "pr_participant d = fs_participant request"
      "pr_participant_kind d = fs_participant_kind request" "pr_recipient_ata d = ata" "pr_vault_config d = fs_vault request"
      "pr_free_balance d = st_free_balance receipt" "pr_locked_balance d = st_locked_balance receipt"
      "pr_max_lock_expires_at d = st_max_lock_expires_at receipt" "pr_nonce d = st_nonce receipt"
    using validated [OF accepted(1)] unfolding accepted(2) by (metis ReceiptKey.select_convs)
  have msg: "length msg < 2 ^ 16"
    using d(1) by (auto simp: decode_participant_receipt_message_def result_simps PARTICIPANT_RECEIPT_MESSAGE_LEN_def)
  note signer = fetch_signer [OF disc(2) vault(2,3)]
  let ?ed = "build_ed25519_verify_instruction S (vc_vault_signer_pubkey vault) sig msg"
  let ?data = "anchor_discriminator (sol_sha256 S) ''force_settle_challenge'' @ ata @
    to_le_bytes (st_free_balance receipt) @ to_le_bytes (st_locked_balance receipt) @
    to_le_bytes (st_max_lock_expires_at receipt) @ to_le_bytes (st_nonce receipt) @ sig @
    u32_to_le (word_of_nat (length msg)) @ msg"
  let ?tx = "[?ed, \<lparr>ix_program_id = sol_program_id S,
    ix_accounts = [wt_challenger W, fs_vault request, address, wt_instructions_sysvar W], ix_data = ?data\<rparr>]"
  have tx: "challenge_transaction W address receipt = Inr ?tx"
    using v vault(3) signer by (simp add: challenge_transaction_def S_def Let_def)
  have args: "challenge_args S ?data = Some (ata, st_free_balance receipt, st_locked_balance receipt,
      st_max_lock_expires_at receipt, st_nonce receipt, sig, msg)"
    by (rule challenge_args_data) (use sha v base58 msg in \<open>auto\<close>)
  have "verify_ed25519_signature_details S \<lparr>sv_current_index = Some 1, sv_instructions = ?tx\<rparr> (vc_vault_signer_pubkey vault) =
      Inr \<lparr>ve_signature = sig, ve_message = msg\<rparr>"
    by (rule verify_build_ed25519 [where ci = 1])
      (use v(4) msg vault(2) in \<open>simp_all add: vault_wf_def load_instruction_at_checked_def\<close>)
  then have "force_settle_challenge S \<lparr>sv_current_index = Some 1, sv_instructions = ?tx\<rparr> (fs_vault request) address ata
      (st_free_balance receipt) (st_locked_balance receipt) (st_max_lock_expires_at receipt) (st_nonce receipt) sig msg c =
    Inr (c\<lparr>requests := (requests c)(address \<mapsto> request\<lparr>fs_recipient_ata := ata,
      fs_free_balance_due := st_free_balance receipt, fs_locked_balance_due := st_locked_balance receipt,
      fs_max_lock_expires_at := st_max_lock_expires_at receipt, fs_receipt_nonce := st_nonce receipt,
      fs_receipt_signature := sig\<rparr>)\<rparr>)"
    using check_receipt_decoded [OF d(1), unfolded d] vault(1) request stale in_time(2)
    by (simp add: force_settle_challenge_def vault_err_def)
  moreover have "stale_request W receipts now address (force_settle_request_bytes disc request) = Some receipt"
    using parse_request_bytes [OF disc(1) request(2)] request(3) in_time(1) stale accepted(3)
    by (simp add: stale_request_def get_nonce_def accepted(2) Let_def)
  ultimately show ?thesis using tx args by auto
qed

end
