(* ===== verification/Vault_System.thy ===== *)
theory Vault_System
  imports Vault_Settle Force_Settle
begin

text \<open>
  The vault program as a transition system: the thirteen instructions that \<^verbatim>\<open>lib.rs\<close>
  dispatches, the clock, and token movements the program does not take part in.  The invariants
  hold for every sequence of these steps.

  A program-derived address has no private key, so the key of a vault account never signs a
  deposit or a withdrawal; and nobody but the program can move tokens out of a token account
  that a vault owns.  These two facts of the runtime are the side conditions of the steps.
\<close>

section \<open>Steps\<close>

text \<open>What a step shows: the amount a finalized request paid out of a vault, or nothing.\<close>
datatype vault_event = Forced pubkey nat | Silent

text \<open>Token movements outside the program: accounts owned by a vault keep owner and mint and lose
  nothing.\<close>
definition external_ok :: "chain \<Rightarrow> tokens \<Rightarrow> bool" where
  "external_ok c T = (\<forall>k a. tokens c k = Some a \<longrightarrow> vaults c (ta_owner a) \<noteq> None \<longrightarrow>
    (\<exists>a'. T k = Some a' \<and> ta_owner a' = ta_owner a \<and> ta_mint a' = ta_mint a \<and>
      unat (ta_amount a) \<le> unat (ta_amount a')))"

text \<open>The amount that finalizing a request pays now.\<close>
definition finalize_event :: "pubkey \<Rightarrow> pubkey \<Rightarrow> chain \<Rightarrow> vault_event" where
  "finalize_event vk rk c =
    (case requests c rk of None \<Rightarrow> Silent | Some r \<Rightarrow> Forced vk (due_now r (unix_timestamp c)))"

inductive vault_step :: "solana \<Rightarrow> vault_event \<Rightarrow> chain \<Rightarrow> chain \<Rightarrow> bool" for S where
  step_initialize: "initialize_vault S g vk mint vtk vid signer aud pol c = Inr c' \<Longrightarrow>
    vault_step S Silent c c'"
| step_deposit: "deposit S client vk ctk vtk amount c = Inr c' \<Longrightarrow> vaults c client = None \<Longrightarrow>
    vault_step S Silent c c'"
| step_withdraw: "withdraw S sv client vk vtk ctk nk amount nonce expires c = Inr c' \<Longrightarrow>
    vaults c client = None \<Longrightarrow> vault_step S Silent c c'"
| step_settle: "settle_vault S sv signer vk vtk rem b h ss c = Inr c' \<Longrightarrow> vault_step S Silent c c'"
| step_audit: "record_audit S sv signer vk rem b h rs c = Inr c' \<Longrightarrow> vault_step S Silent c c'"
| step_pause: "pause_vault g vk c = Inr c' \<Longrightarrow> vault_step S Silent c c'"
| step_migrate: "announce_migration g vk succ_vault dl c = Inr c' \<Longrightarrow> vault_step S Silent c c'"
| step_retire: "retire_vault g vk c = Inr c' \<Longrightarrow> vault_step S Silent c c'"
| step_rotate: "rotate_auditor g vk aud c = Inr c' \<Longrightarrow> vault_step S Silent c c'"
| step_init: "force_settle_init S sv p vk rk kind rcp free locked mle nonce sig msg c = Inr c' \<Longrightarrow>
    vault_step S Silent c c'"
| step_challenge: "force_settle_challenge S sv vk rk rcp free locked mle nonce sig msg c = Inr c' \<Longrightarrow>
    vault_step S Silent c c'"
| step_finalize: "force_settle_finalize S vk rk vtk rtk c = Inr c' \<Longrightarrow>
    vault_step S (finalize_event vk rk c) c c'"
| step_claim: "asc_close_claim S sv vk ck ch rh c = Inr c' \<Longrightarrow> vault_step S Silent c c'"
| step_clock: "sint (unix_timestamp c) \<le> sint t \<Longrightarrow> vault_step S Silent c (c\<lparr>unix_timestamp := t\<rparr>)"
| step_external: "external_ok c T \<Longrightarrow> vault_step S Silent c (c\<lparr>tokens := T\<rparr>)"

section \<open>Vaults\<close>

text \<open>How a vault may change: its identity and keys never, its counters only upwards, its status
  only forward.\<close>
definition status_next :: "u8 \<Rightarrow> u8 \<Rightarrow> bool" where
  "status_next s t = (s = t \<or>
    (s, t) \<in> {(VAULT_STATUS_ACTIVE, VAULT_STATUS_PAUSED), (VAULT_STATUS_ACTIVE, VAULT_STATUS_MIGRATING),
      (VAULT_STATUS_ACTIVE, VAULT_STATUS_RETIRED), (VAULT_STATUS_PAUSED, VAULT_STATUS_RETIRED),
      (VAULT_STATUS_MIGRATING, VAULT_STATUS_RETIRED)})"

definition vault_evolves :: "VaultConfig \<Rightarrow> VaultConfig \<Rightarrow> bool" where
  "vault_evolves v v' = (vc_bump v' = vc_bump v \<and> vc_vault_id v' = vc_vault_id v \<and>
    vc_governance v' = vc_governance v \<and> vc_vault_signer_pubkey v' = vc_vault_signer_pubkey v \<and>
    vc_usdc_mint v' = vc_usdc_mint v \<and> vc_vault_token_account v' = vc_vault_token_account v \<and>
    vc_attestation_policy_hash v' = vc_attestation_policy_hash v \<and>
    status_next (vc_status v) (vc_status v') \<and>
    unat (vc_auditor_epoch v) \<le> unat (vc_auditor_epoch v') \<and>
    unat (vc_lifetime_deposited v) \<le> unat (vc_lifetime_deposited v') \<and>
    unat (vc_lifetime_withdrawn v) \<le> unat (vc_lifetime_withdrawn v') \<and>
    unat (vc_lifetime_settled v) \<le> unat (vc_lifetime_settled v') \<and>
    (vc_auditor_epoch v' = vc_auditor_epoch v \<longrightarrow>
      vc_auditor_master_pubkey v' = vc_auditor_master_pubkey v))"

lemma status_next_refl [simp]: "status_next s s"
  by (simp add: status_next_def)

lemma status_next_trans: "status_next s t \<Longrightarrow> status_next t u \<Longrightarrow> status_next s u"
  by (auto simp: status_next_def status_defs)

lemma vault_evolves_refl [simp]: "vault_evolves v v"
  by (simp add: vault_evolves_def)

lemma vault_evolves_trans: "vault_evolves u v \<Longrightarrow> vault_evolves v w \<Longrightarrow> vault_evolves u w"
  unfolding vault_evolves_def
  by (intro conjI; (elim conjE; (simp; fail | metis status_next_trans le_trans le_antisym
    unsigned_word_eq_iff)))

lemma settle_vault_frame:
  assumes "settle_vault S sv signer vk vtk rem b h ss c = Inr c'"
  obtains vault l T t where "vaults c vk = Some vault" "vtk = vc_vault_token_account vault"
    "unat l = unat (vc_lifetime_settled vault) + amount_sum ss" "length rem = length ss"
    "settle_loop S vk vtk (zip ss rem) 0 c = Inr (t, c\<lparr>tokens := T\<rparr>)"
    "c' = c\<lparr>tokens := T, vaults := (vaults c)(vk \<mapsto> vault\<lparr>vc_lifetime_settled := l\<rparr>)\<rparr>"
  using assms
proof (elim settle_vault_ok)
  fix vault t c1 l
  assume *: "vaults c vk = Some vault" "vtk = vc_vault_token_account vault" "length rem = length ss"
    "settle_loop S vk vtk (zip ss rem) 0 c = Inr (t, c1)"
    "checked_add (vc_lifetime_settled vault) t = Some l"
    "c' = c1\<lparr>vaults := (vaults c1)(vk \<mapsto> vault\<lparr>vc_lifetime_settled := l\<rparr>)\<rparr>"
  obtain T where c1: "c1 = c\<lparr>tokens := T\<rparr>" using settle_loop_frame [OF *(4)] by blast
  have "unat l = unat (vc_lifetime_settled vault) + amount_sum ss"
    using unat_checked_add [OF *(5)] settle_loop_total [OF *(4)] *(3) by simp
  then show thesis using that [of vault l t T] * c1 by simp
qed

lemma record_audit_frame:
  assumes "record_audit S sv signer vk rem b h rs c = Inr c'"
  obtains A where "c' = c\<lparr>audits := A\<rparr>"
  using assms that by (elim record_audit_ok) (drule audit_loop_frame, blast)

lemma finalize_frame:
  assumes "force_settle_finalize S vk rk vtk rtk c = Inr c'"
  obtains vault r T where "vaults c vk = Some vault" "requests c rk = Some r"
    "vtk = vc_vault_token_account vault" "\<not> fs_is_resolved r"
    "T = tokens c \<or> sol_transfer S vtk rtk vk (word_of_nat (due_now r (unix_timestamp c))) (tokens c) = Some T"
    "due_now r (unix_timestamp c) < 2 ^ 64"
    "c' = c\<lparr>tokens := T, requests := (requests c)(rk \<mapsto> after_payment r (unix_timestamp c))\<rparr>"
  using assms by (elim force_settle_finalize_ok) (rule that; blast)

lemma fresh_vault: "\<not> in_use c k \<Longrightarrow> vaults c k = None \<and> tokens c k = None \<and> requests c k = None"
  by (simp add: in_use_def)

lemma initialize_vault_ok:
  assumes "initialize_vault S g vk mint vtk vid signer aud pol c = Inr c'"
  obtains v where "c' = c\<lparr>vaults := (vaults c)(vk \<mapsto> v),
      tokens := (tokens c)(vtk \<mapsto> \<lparr>ta_mint = mint, ta_owner = vk, ta_amount = 0\<rparr>)\<rparr>"
    "\<not> in_use c vk" "\<not> in_use c vtk" "vtk \<noteq> vk" "vc_vault_token_account v = vtk"
    "vc_lifetime_deposited v = 0" "vc_status v = VAULT_STATUS_ACTIVE" "vc_governance v = g"
  using assms unfolding initialize_vault_def Let_def result_simps
  by (elim exE conjE, intro that) (assumption | (drule sum.inject(2) [THEN iffD1], erule sym) | simp)+

text \<open>What a step does to the vault accounts.\<close>
lemma step_vaults:
  assumes "vault_step S e c c'" "vaults c k = Some v"
  shows "\<exists>v'. vaults c' k = Some v' \<and> vault_evolves v v'"
  using assms
proof (induction rule: vault_step.induct)
  case step_initialize
  then show ?case by (elim initialize_vault_ok) (auto dest: fresh_vault)
next
  case step_deposit
  then show ?case
    by (elim deposit_ok) (auto simp: vault_evolves_def dest!: unat_checked_add)
next
  case step_withdraw
  then show ?case
    by (elim withdraw_ok) (auto simp: vault_evolves_def dest!: unat_checked_add)
next
  case step_settle
  then show ?case by (elim settle_vault_frame) (auto simp: vault_evolves_def)
next
  case step_audit
  then show ?case by (elim record_audit_frame) auto
next
  case step_pause
  then show ?case
    by (auto simp: lifecycle_defs result_simps vault_evolves_def status_next_def)
next
  case step_migrate
  then show ?case
    by (auto simp: lifecycle_defs result_simps vault_evolves_def status_next_def)
next
  case step_retire
  then show ?case
    by (auto simp: lifecycle_defs result_simps vault_evolves_def status_next_def)
next
  case step_rotate
  then show ?case
    by (auto simp: lifecycle_defs result_simps vault_evolves_def dest!: unat_checked_add)
next
  case step_init
  then show ?case by (elim force_settle_init_ok) auto
next
  case step_challenge
  then show ?case by (elim force_settle_challenge_ok) auto
next
  case step_finalize
  then show ?case by (elim finalize_frame) auto
next
  case step_claim
  then show ?case by (elim asc_close_claim_ok) auto
qed auto

section \<open>Force-settle requests and used nonces\<close>

text \<open>How a request may change: who it is for and its deadline never, its nonce only upwards, and
  nothing at all once it is resolved.\<close>
definition request_evolves :: "ForceSettleRequest \<Rightarrow> ForceSettleRequest \<Rightarrow> bool" where
  "request_evolves r r' = (fs_vault r' = fs_vault r \<and> fs_participant r' = fs_participant r \<and>
    fs_participant_kind r' = fs_participant_kind r \<and>
    fs_dispute_deadline r' = fs_dispute_deadline r \<and>
    unat (fs_receipt_nonce r) \<le> unat (fs_receipt_nonce r') \<and>
    (fs_is_resolved r \<longrightarrow> r' = r))"

lemma request_evolves_refl [simp]: "request_evolves r r"
  by (simp add: request_evolves_def)

lemma request_evolves_trans:
  "request_evolves r s \<Longrightarrow> request_evolves s t \<Longrightarrow> request_evolves r t"
  by (auto simp: request_evolves_def)

lemma step_requests:
  assumes "vault_step S e c c'" "requests c k = Some r"
  shows "\<exists>r'. requests c' k = Some r' \<and> request_evolves r r'"
  using assms
proof (induction rule: vault_step.induct)
  case step_initialize
  then show ?case by (elim initialize_vault_ok) auto
next
  case step_deposit
  then show ?case by (elim deposit_ok) auto
next
  case step_withdraw
  then show ?case by (elim withdraw_ok) auto
next
  case step_settle
  then show ?case by (elim settle_vault_frame) auto
next
  case step_audit
  then show ?case by (elim record_audit_frame) auto
next
  case step_init
  then show ?case by (elim force_settle_init_ok) (auto dest: fresh_vault)
next
  case step_challenge
  then show ?case
    by (elim force_settle_challenge_ok) (auto simp: request_evolves_def word_less_nat_alt)
next
  case step_finalize
  then show ?case
    by (elim finalize_frame) (auto simp: request_evolves_def after_payment_def)
next
  case step_claim
  then show ?case by (elim asc_close_claim_ok) auto
qed (auto simp: lifecycle_defs result_simps)

lemma step_nonces:
  assumes "vault_step S e c c'" "used_nonces c k \<noteq> None"
  shows "used_nonces c' k = used_nonces c k"
  using assms
proof (induction rule: vault_step.induct)
  case step_initialize
  then show ?case by (elim initialize_vault_ok) auto
next
  case step_deposit
  then show ?case by (elim deposit_ok) auto
next
  case step_withdraw
  then show ?case by (elim withdraw_ok) (auto simp: in_use_def)
next
  case step_settle
  then show ?case by (elim settle_vault_frame) auto
next
  case step_audit
  then show ?case by (elim record_audit_frame) auto
next
  case step_init
  then show ?case by (elim force_settle_init_ok) auto
next
  case step_challenge
  then show ?case by (elim force_settle_challenge_ok) auto
next
  case step_finalize
  then show ?case by (elim finalize_frame) auto
next
  case step_claim
  then show ?case by (elim asc_close_claim_ok) auto
qed (auto simp: lifecycle_defs result_simps)

section \<open>Backing\<close>

text \<open>Every vault has its token account and owns it.\<close>
definition chain_wf :: "chain \<Rightarrow> bool" where
  "chain_wf c = (\<forall>k v. vaults c k = Some v \<longrightarrow>
    (\<exists>a. tokens c (vc_vault_token_account v) = Some a \<and> ta_owner a = k))"

lemma chain_wfD:
  "chain_wf c \<Longrightarrow> vaults c k = Some v \<Longrightarrow>
    map_option ta_owner (tokens c (vc_vault_token_account v)) = Some k"
  by (fastforce simp: chain_wf_def)

lemma chain_wf_owner_iff:
  "chain_wf c \<longleftrightarrow> (\<forall>k v. vaults c k = Some v \<longrightarrow>
    map_option ta_owner (tokens c (vc_vault_token_account v)) = Some k)"
  by (fastforce simp: chain_wf_def)

text \<open>A chain whose vaults keep their token accounts and whose token accounts keep their owners
  stays well formed.\<close>
lemma chain_wf_keeps:
  assumes "chain_wf c"
    and "\<And>k v'. vaults c' k = Some v' \<Longrightarrow>
      \<exists>v. vaults c k = Some v \<and> vc_vault_token_account v' = vc_vault_token_account v"
    and "\<And>k. map_option ta_owner (tokens c' k) = map_option ta_owner (tokens c k)"
  shows "chain_wf c'"
  using assms by (fastforce simp: chain_wf_owner_iff)

lemma step_wf:
  assumes "vault_step S e c c'" "token_program (sol_transfer S)" "chain_wf c"
  shows "chain_wf c'"
  using assms
proof (induction rule: vault_step.induct)
  case step_initialize
  then show ?case
    by (elim initialize_vault_ok) (fastforce simp: chain_wf_def dest: fresh_vault)
next
  case step_deposit
  then show ?case
    by (elim deposit_ok, intro chain_wf_keeps [OF step_deposit(4)])
      (auto split: if_splits dest: token_program.transfer_owner)
next
  case step_withdraw
  then show ?case
    by (elim withdraw_ok, intro chain_wf_keeps [OF step_withdraw(4)])
      (auto split: if_splits dest: token_program.transfer_owner)
next
  case (step_settle sv signer vk vtk rem b h ss c c')
  from step_settle(1) show ?case
    by (elim settle_vault_frame, intro chain_wf_keeps [OF step_settle(3)])
      (auto split: if_splits dest: settle_loop_balance(3) [OF step_settle(2)])
next
  case step_audit
  then show ?case by (elim record_audit_frame) (simp add: chain_wf_def)
next
  case step_init
  then show ?case by (elim force_settle_init_ok) (simp add: chain_wf_def)
next
  case step_challenge
  then show ?case by (elim force_settle_challenge_ok) (simp add: chain_wf_def)
next
  case step_finalize
  then show ?case
    by (elim finalize_frame, intro chain_wf_keeps [OF step_finalize(3)])
      (auto dest: token_program.transfer_owner)
next
  case step_claim
  then show ?case by (elim asc_close_claim_ok) (simp add: chain_wf_def)
next
  case (step_external c T)
  then show ?case by (fastforce simp: chain_wf_def external_ok_def)
qed (auto simp: lifecycle_defs result_simps chain_wf_def split: if_splits)

text \<open>What a vault can answer for: the tokens it holds and the tokens that left it through the
  counted ways out.\<close>
definition accounted :: "chain \<Rightarrow> VaultConfig \<Rightarrow> nat" where
  "accounted c v = balance (tokens c) (vc_vault_token_account v) +
    unat (vc_lifetime_withdrawn v) + unat (vc_lifetime_settled v)"

fun forced_by :: "pubkey \<Rightarrow> vault_event \<Rightarrow> nat" where
  "forced_by k (Forced k' n) = (if k = k' then n else 0)"
| "forced_by k Silent = 0"

definition forced_sum :: "pubkey \<Rightarrow> vault_event list \<Rightarrow> nat" where
  "forced_sum k es = sum_list (map (forced_by k) es)"

text \<open>Two vaults never share a token account, and an account whose owner is no vault is no
  vault's token account.\<close>
lemma vault_account_unique:
  "chain_wf c \<Longrightarrow> vaults c k = Some v \<Longrightarrow> vaults c k' = Some v' \<Longrightarrow> k \<noteq> k' \<Longrightarrow>
    vc_vault_token_account v \<noteq> vc_vault_token_account v'"
  using chain_wfD by (metis option.inject)

lemma client_account_no_vault:
  "chain_wf c \<Longrightarrow> vaults c k = Some v \<Longrightarrow> tokens c a = Some t \<Longrightarrow> vaults c (ta_owner t) = None \<Longrightarrow>
    vc_vault_token_account v \<noteq> a"
  using chain_wfD by (metis option.distinct(1) option.inject option.simps(9))

lemma deposit_backs:
  assumes "deposit S client vk ctk vtk amount c = Inr c'" "vaults c client = None"
    and tp: "token_program (sol_transfer S)" and wf: "chain_wf c" and v: "vaults c k = Some v"
  shows "\<exists>v'. vaults c' k = Some v' \<and>
    unat (vc_lifetime_deposited v') + accounted c v \<le> unat (vc_lifetime_deposited v) + accounted c' v'"
  using assms(1)
proof (elim deposit_ok)
  fix vault ct T d
  assume *: "vaults c vk = Some vault" "tokens c ctk = Some ct" "ta_owner ct = client"
    "vtk = vc_vault_token_account vault"
    "sol_transfer S ctk vtk client amount (tokens c) = Some T"
    "checked_add (vc_lifetime_deposited vault) amount = Some d"
    "c' = c\<lparr>tokens := T, vaults := (vaults c)(vk \<mapsto> vault\<lparr>vc_lifetime_deposited := d\<rparr>)\<rparr>"
  have ne: "vc_vault_token_account v \<noteq> ctk" and ne': "vtk \<noteq> ctk"
    using client_account_no_vault [OF wf v *(2)] client_account_no_vault [OF wf *(1,2)] *(3,4)
      assms(2) by auto
  have "balance (tokens c) (vc_vault_token_account v) \<le> balance T (vc_vault_token_account v)"
    using token_program.balance_not_source [OF tp *(5) ne] .
  moreover have "balance T vtk = balance (tokens c) vtk + unat amount"
    using token_program.transfer_credit [OF tp *(5)] ne' by simp
  ultimately show ?thesis
    using * v unat_checked_add [OF *(6)] by (cases "k = vk") (auto simp: accounted_def)
qed

lemma withdraw_backs:
  assumes "withdraw S sv client vk vtk ctk nk amount nonce expires c = Inr c'"
    and tp: "token_program (sol_transfer S)" and wf: "chain_wf c" and v: "vaults c k = Some v"
  shows "\<exists>v'. vaults c' k = Some v' \<and>
    unat (vc_lifetime_deposited v') + accounted c v \<le> unat (vc_lifetime_deposited v) + accounted c' v'"
  using assms(1)
proof (elim withdraw_ok)
  fix vault ct bump w T d
  assume *: "vaults c vk = Some vault" "vtk = vc_vault_token_account vault"
    "sol_transfer S vtk ctk vk amount (tokens c) = Some T"
    "checked_add (vc_lifetime_withdrawn vault) amount = Some d"
    "c' = c\<lparr>tokens := T,
      used_nonces := (used_nonces c)(nk \<mapsto> \<lparr>un_bump = bump, un_vault = vk, un_client = client,
        un_withdraw_nonce = nonce\<rparr>),
      vaults := (vaults c)(vk \<mapsto> vault\<lparr>vc_lifetime_withdrawn := d\<rparr>)\<rparr>"
  show ?thesis
  proof (cases "k = vk")
    case True
    then show ?thesis
      using * v unat_checked_add [OF *(4)] token_program.balance_loss [OF tp *(3), of vtk]
      by (auto simp: accounted_def)
  next
    case False
    then have "vc_vault_token_account v \<noteq> vtk" using vault_account_unique [OF wf v *(1)] *(2) by simp
    then show ?thesis
      using * v False token_program.balance_not_source [OF tp *(3)] by (auto simp: accounted_def)
  qed
qed

lemma settle_backs:
  assumes "settle_vault S sv signer vk vtk rem b h ss c = Inr c'"
    and tp: "token_program (sol_transfer S)" and wf: "chain_wf c" and v: "vaults c k = Some v"
  shows "\<exists>v'. vaults c' k = Some v' \<and>
    unat (vc_lifetime_deposited v') + accounted c v \<le> unat (vc_lifetime_deposited v) + accounted c' v'"
  using assms(1)
proof (elim settle_vault_frame)
  fix vault l T t
  assume *: "vaults c vk = Some vault" "vtk = vc_vault_token_account vault"
    "unat l = unat (vc_lifetime_settled vault) + amount_sum ss" "length rem = length ss"
    "settle_loop S vk vtk (zip ss rem) 0 c = Inr (t, c\<lparr>tokens := T\<rparr>)"
    "c' = c\<lparr>tokens := T, vaults := (vaults c)(vk \<mapsto> vault\<lparr>vc_lifetime_settled := l\<rparr>)\<rparr>"
  show ?thesis
  proof (cases "k = vk")
    case True
    then show ?thesis
      using * v settle_loop_balance(2) [OF tp *(5)] by (auto simp: accounted_def)
  next
    case False
    then have "vc_vault_token_account v \<noteq> vtk" using vault_account_unique [OF wf v *(1)] *(2) by simp
    then show ?thesis
      using * v False settle_loop_balance(1) [OF tp *(5), of "vc_vault_token_account v"]
      by (auto simp: accounted_def)
  qed
qed

lemma finalize_backs:
  assumes "force_settle_finalize S vk rk vtk rtk c = Inr c'"
    and tp: "token_program (sol_transfer S)" and wf: "chain_wf c" and v: "vaults c k = Some v"
  shows "\<exists>v'. vaults c' k = Some v' \<and> unat (vc_lifetime_deposited v') + accounted c v \<le>
    unat (vc_lifetime_deposited v) + accounted c' v' + forced_by k (finalize_event vk rk c)"
  using assms(1)
proof (elim finalize_frame)
  fix vault r T
  let ?n = "due_now r (unix_timestamp c)"
  assume *: "vaults c vk = Some vault" "requests c rk = Some r"
    "vtk = vc_vault_token_account vault"
    "T = tokens c \<or> sol_transfer S vtk rtk vk (word_of_nat ?n) (tokens c) = Some T"
    "?n < 2 ^ 64"
    "c' = c\<lparr>tokens := T, requests := (requests c)(rk \<mapsto> after_payment r (unix_timestamp c))\<rparr>"
  have n: "unat (word_of_nat ?n :: u64) = ?n" using *(5) by (simp add: unat_of_nat)
  show ?thesis
  proof (cases "k = vk")
    case True
    have "balance (tokens c) vtk \<le> balance T vtk + ?n"
      using *(4) token_program.balance_loss [OF tp, of vtk rtk vk "word_of_nat ?n" "tokens c" T vtk] n
      by auto
    then show ?thesis
      using * v True by (auto simp: accounted_def finalize_event_def)
  next
    case False
    then have "vc_vault_token_account v \<noteq> vtk" using vault_account_unique [OF wf v *(1)] *(3) by simp
    then have "balance (tokens c) (vc_vault_token_account v) \<le> balance T (vc_vault_token_account v)"
      using *(4) token_program.balance_not_source [OF tp] by blast
    then show ?thesis using * v by (auto simp: accounted_def)
  qed
qed

lemma step_backs:
  assumes "vault_step S e c c'" "token_program (sol_transfer S)" "chain_wf c" "vaults c k = Some v"
  shows "\<exists>v'. vaults c' k = Some v' \<and> unat (vc_lifetime_deposited v') + accounted c v \<le>
    unat (vc_lifetime_deposited v) + accounted c' v' + forced_by k e"
  using assms
proof (induction rule: vault_step.induct)
  case (step_initialize g vk mint vtk vid signer aud pol c c')
  from step_initialize(1) show ?case
  proof (elim initialize_vault_ok)
    fix w
    assume *: "c' = c\<lparr>vaults := (vaults c)(vk \<mapsto> w),
      tokens := (tokens c)(vtk \<mapsto> \<lparr>ta_mint = mint, ta_owner = vk, ta_amount = 0\<rparr>)\<rparr>"
      "\<not> in_use c vk" "\<not> in_use c vtk"
    have "k \<noteq> vk" "vc_vault_token_account v \<noteq> vtk"
      using fresh_vault [OF *(2)] fresh_vault [OF *(3)] step_initialize(4)
        chain_wfD [OF step_initialize(3,4)] by auto
    then show ?thesis using * step_initialize(4) by (simp add: accounted_def balance_def)
  qed
next
  case step_deposit
  then show ?case by (simp add: deposit_backs)
next
  case step_withdraw
  then show ?case by (simp add: withdraw_backs)
next
  case step_settle
  then show ?case by (simp add: settle_backs)
next
  case step_audit
  then show ?case by (elim record_audit_frame) (auto simp: accounted_def)
next
  case step_init
  then show ?case by (elim force_settle_init_ok) (auto simp: accounted_def)
next
  case step_challenge
  then show ?case by (elim force_settle_challenge_ok) (auto simp: accounted_def)
next
  case step_finalize
  then show ?case by (rule finalize_backs)
next
  case step_claim
  then show ?case by (elim asc_close_claim_ok) (auto simp: accounted_def)
next
  case (step_external c T)
  then show ?case
    by (fastforce simp: accounted_def balance_def external_ok_def chain_wf_def)
qed (auto simp: lifecycle_defs result_simps accounted_def)

lemma run_backs:
  assumes "run (vault_step S) es c c'" "token_program (sol_transfer S)" "chain_wf c"
    "vaults c k = Some v"
  shows "chain_wf c' \<and> (\<exists>v'. vaults c' k = Some v' \<and>
    unat (vc_lifetime_deposited v') + accounted c v \<le>
      unat (vc_lifetime_deposited v) + accounted c' v' + forced_sum k es)"
  using assms
proof (induction rule: run.induct)
  case (run_snoc es c t e u)
  then obtain v1 where t: "chain_wf t" "vaults t k = Some v1"
    "unat (vc_lifetime_deposited v1) + accounted c v \<le>
      unat (vc_lifetime_deposited v) + accounted t v1 + forced_sum k es" by blast
  obtain v2 where "vaults u k = Some v2" "unat (vc_lifetime_deposited v2) + accounted t v1 \<le>
      unat (vc_lifetime_deposited v1) + accounted u v2 + forced_by k e"
    using step_backs [OF run_snoc(2) run_snoc(4) t(1,2)] by blast
  moreover have "chain_wf u" by (rule step_wf [OF run_snoc(2) run_snoc(4) t(1)])
  ultimately show ?case using t(3) by (auto simp: forced_sum_def intro!: exI [of _ v2])
qed (auto simp: forced_sum_def)

lemma run_vaults:
  assumes "run (vault_step S) es c c'" "vaults c k = Some v"
  shows "\<exists>v'. vaults c' k = Some v' \<and> vault_evolves v v'"
  using assms
  by (induction rule: run.induct) (use step_vaults vault_evolves_trans in \<open>blast intro: vault_evolves_refl\<close>)+

lemma run_requests:
  assumes "run (vault_step S) es c c'" "requests c k = Some r"
  shows "\<exists>r'. requests c' k = Some r' \<and> request_evolves r r'"
  using assms
  by (induction rule: run.induct) (use step_requests request_evolves_trans in \<open>blast intro: request_evolves_refl\<close>)+

lemma run_nonces:
  assumes "run (vault_step S) es c c'" "used_nonces c k \<noteq> None"
  shows "used_nonces c' k = used_nonces c k"
  using assms by (induction rule: run.induct) (simp_all add: step_nonces)

section \<open>Properties\<close>

text \<open>C1. Backing: from the moment a vault is initialized, whatever sequence of instructions of all
  clients, providers, governance keys and vaults follows, the sum of its deposits never exceeds the
  tokens it holds plus the tokens counted as withdrawn, counted as settled, or paid out to
  finalized force-settle requests.  Tokens leave a vault in no other way.\<close>
theorem vault_stays_backed:
  assumes "token_program (sol_transfer S)" "chain_wf c0"
    and "initialize_vault S g vk mint vtk vid signer aud pol c0 = Inr c"
    and "run (vault_step S) es c c'"
  shows "\<exists>v. vaults c' vk = Some v \<and> vc_vault_token_account v = vtk \<and>
    unat (vc_lifetime_deposited v) \<le> balance (tokens c') vtk + unat (vc_lifetime_withdrawn v) +
      unat (vc_lifetime_settled v) + forced_sum vk es"
proof -
  have wf: "chain_wf c"
    by (rule step_wf [OF step_initialize [OF assms(3)] assms(1,2)])
  obtain v0 where v0: "vaults c vk = Some v0" "vc_lifetime_deposited v0 = 0"
      "vc_vault_token_account v0 = vtk"
    using assms(3) by (elim initialize_vault_ok) simp
  obtain v where v: "vaults c' vk = Some v" "unat (vc_lifetime_deposited v) + accounted c v0 \<le>
      unat (vc_lifetime_deposited v0) + accounted c' v + forced_sum vk es"
    using run_backs [OF assms(4,1) wf v0(1)] by blast
  moreover have "vc_vault_token_account v = vtk"
    using run_vaults [OF assms(4) v0(1)] v(1) v0(3) by (auto simp: vault_evolves_def)
  ultimately show ?thesis using v0(2) by (simp add: accounted_def)
qed

text \<open>C32. Life cycle: along every sequence of instructions a vault keeps its identity, governance
  and signer keys, mint, token account and attestation policy, its counters and auditor epoch
  never decrease, the auditor key changes only with the epoch, and its status only moves from
  active to paused, migrating or retired and from paused or migrating to retired; in particular a
  retired vault stays retired and a paused vault is never active again.\<close>
theorem vault_lifecycle:
  assumes "run (vault_step S) es c c'" "vaults c k = Some v"
  shows "\<exists>v'. vaults c' k = Some v' \<and> vault_evolves v v' \<and>
    (vc_status v = VAULT_STATUS_RETIRED \<longrightarrow> vc_status v' = VAULT_STATUS_RETIRED) \<and>
    (vc_status v = VAULT_STATUS_PAUSED \<longrightarrow> vc_status v' \<in> {VAULT_STATUS_PAUSED, VAULT_STATUS_RETIRED})"
proof -
  obtain v' where "vaults c' k = Some v'" "vault_evolves v v'" using run_vaults [OF assms] by blast
  then show ?thesis
    by (auto simp: vault_evolves_def status_next_def status_defs intro!: exI [of _ v'])
qed

text \<open>C19. A withdrawal is paid only if the vault signer signed exactly this client, token account,
  amount, nonce, expiry and vault, before the expiry and, for a migrating vault, before the exit
  deadline; it moves exactly the amount from the vault's token account to the client's and
  counts it.\<close>
theorem withdraw_authorized:
  assumes ok: "withdraw S sv client vk vtk ctk nk amount nonce expires c = Inr c'"
    and pre: "precompile_ok S verify sv" and tp: "token_program (sol_transfer S)"
    and v: "vaults c vk = Some vault" and ne: "ctk \<noteq> vtk"
  shows "(\<exists>sig. verify (vc_vault_signer_pubkey vault) sig
      (build_withdraw_authorization_message vk client ctk amount nonce expires)) \<and>
    sint (unix_timestamp c) \<le> sint expires \<and> 0 < amount \<and>
    (vc_status vault = VAULT_STATUS_ACTIVE \<or>
      vc_status vault = VAULT_STATUS_MIGRATING \<and>
      sint (unix_timestamp c) \<le> sint (vc_exit_deadline vault)) \<and>
    balance (tokens c') vtk + unat amount = balance (tokens c) vtk \<and>
    balance (tokens c') ctk = balance (tokens c) ctk + unat amount \<and>
    (\<exists>w. unat w = unat (vc_lifetime_withdrawn vault) + unat amount \<and>
      vaults c' = (vaults c)(vk \<mapsto> vault\<lparr>vc_lifetime_withdrawn := w\<rparr>))"
  using ok
proof (elim withdraw_ok)
  fix vault' ct bump sg T w
  assume *: "vaults c vk = Some vault'"
    "vc_status vault' = VAULT_STATUS_ACTIVE \<or> vc_status vault' = VAULT_STATUS_MIGRATING"
    "0 < amount" "check_exit_deadline vault' (unix_timestamp c)"
    "sint (unix_timestamp c) \<le> sint expires"
    "verify_ed25519_signature_details S sv (vc_vault_signer_pubkey vault') = Inr sg"
    "ve_message sg = build_withdraw_authorization_message vk client ctk amount nonce expires"
    "sol_transfer S vtk ctk vk amount (tokens c) = Some T"
    "checked_add (vc_lifetime_withdrawn vault') amount = Some w"
    and c': "c' = c\<lparr>tokens := T,
      used_nonces := (used_nonces c)(nk \<mapsto> \<lparr>un_bump = bump, un_vault = vk, un_client = client,
        un_withdraw_nonce = nonce\<rparr>),
      vaults := (vaults c)(vk \<mapsto> vault'\<lparr>vc_lifetime_withdrawn := w\<rparr>)\<rparr>"
  have [simp]: "vault' = vault" using *(1) v by simp
  have "verify (vc_vault_signer_pubkey vault) (ve_signature sg)
      (build_withdraw_authorization_message vk client ctk amount nonce expires)"
    using details_genuine [OF *(6) pre] *(7) by simp
  moreover have "balance T vtk + unat amount = balance (tokens c) vtk"
    using token_program.transfer_debit [OF tp *(8)] token_program.transfer_source [OF tp *(8)] ne
    by simp
  moreover have "balance T ctk = balance (tokens c) ctk + unat amount"
    using token_program.transfer_credit [OF tp *(8)] ne by simp
  ultimately show ?thesis
    using *(2-5) unat_checked_add [OF *(9)] c'
    by (auto simp: check_exit_deadline_def status_defs)
qed

text \<open>C20. A withdraw authorization is used at most once: after a withdrawal with some nonce has
  succeeded, every later withdrawal for the same vault, client and nonce fails, whatever
  happened in between and whatever its other arguments are.\<close>
theorem withdraw_not_replayed:
  assumes "withdraw S sv client vk vtk ctk nk amount nonce expires c = Inr c1"
    and "run (vault_step S) es c1 c2"
  shows "\<exists>e. withdraw S sv' client vk vtk' ctk' nk' amount' nonce expires' c2 = Inl e"
proof -
  obtain bump where pda: "sol_pda S (withdraw_nonce_seeds vk client nonce) = (nk, bump)"
    and "used_nonces c1 nk \<noteq> None"
    using assms(1) by (elim withdraw_ok) simp
  then have "in_use c2 nk" using run_nonces [OF assms(2)] by (simp add: in_use_def)
  then have "withdraw S sv' client vk vtk' ctk' nk' amount' nonce expires' c2 \<noteq> Inr x" for x
    using pda by (auto elim!: withdraw_ok)
  then show ?thesis by (meson sum.exhaust)
qed

text \<open>C18. A force-settle request keeps its vault, participant, kind and dispute deadline for ever,
  its receipt nonce never decreases, and once it is resolved it never changes again: it can
  be neither challenged nor paid a second time.\<close>
theorem force_settle_request_monotone:
  assumes "run (vault_step S) es c c'" "requests c k = Some r"
  shows "\<exists>r'. requests c' k = Some r' \<and> fs_participant r' = fs_participant r \<and>
    fs_vault r' = fs_vault r \<and> fs_participant_kind r' = fs_participant_kind r \<and>
    fs_dispute_deadline r' = fs_dispute_deadline r \<and>
    unat (fs_receipt_nonce r) \<le> unat (fs_receipt_nonce r') \<and> (fs_is_resolved r \<longrightarrow> r' = r)"
  using run_requests [OF assms] by (auto simp: request_evolves_def)

end
