(* ===== verification/Vault_Example.thy ===== *)
theory Vault_Example
  imports Vault_System
begin

text \<open>
  One concrete vault, with a client, a provider and a participant that leaves, on which the
  properties of the on-chain program are applied: the runtime is instantiated by executable
  functions (the transfer is the concrete one of \<^verbatim>\<open>Vault_Types\<close>), and the instructions are
  evaluated on it.
\<close>

section \<open>The example\<close>

definition key :: "nat \<Rightarrow> pubkey" where
  "key n = replicate 32 (word_of_nat n)"

text \<open>A hash that keeps the first 32 bytes and an address that is the seeds themselves are enough
  for the example.\<close>
definition ex_S :: solana where
  "ex_S = \<lparr>sol_sha256 = (\<lambda>bs. take 32 (bs @ replicate 32 0)),
    sol_pda = (\<lambda>seeds. (concat seeds, 255)),
    sol_program_id = key 200, sol_ed25519_program = key 201, sol_transfer = spl_transfer\<rparr>"

text \<open>A signature is the key twice.\<close>
definition ex_verify :: "bytes \<Rightarrow> bytes \<Rightarrow> bytes \<Rightarrow> bool" where
  "ex_verify k s m = (s = k @ k)"

definition ex_vault :: VaultConfig where
  "ex_vault = \<lparr>vc_bump = 255, vc_vault_id = 1, vc_governance = key 1, vc_status = VAULT_STATUS_ACTIVE,
    vc_vault_signer_pubkey = key 2, vc_usdc_mint = key 3, vc_vault_token_account = key 4,
    vc_auditor_master_pubkey = key 5, vc_auditor_epoch = 7, vc_attestation_policy_hash = key 6,
    vc_successor_vault = pubkey_default, vc_exit_deadline = 0, vc_lifetime_deposited = 1000,
    vc_lifetime_withdrawn = 0, vc_lifetime_settled = 0\<rparr>"

definition ex_request :: ForceSettleRequest where
  "ex_request = \<lparr>fs_bump = 255, fs_vault = key 10, fs_participant = key 13, fs_participant_kind = 0,
    fs_recipient_ata = key 14, fs_free_balance_due = 30, fs_locked_balance_due = 20,
    fs_max_lock_expires_at = 400, fs_receipt_nonce = 5, fs_receipt_signature = key 2 @ key 2,
    fs_initiated_at = 10, fs_dispute_deadline = 300, fs_is_resolved = False\<rparr>"

text \<open>The vault is at key 10, its client at 11 with token account 12, the participant with a pending
  request is 13 with token account 14 and request account 15, the provider's token account is 16.\<close>
definition ex_chain :: "int \<Rightarrow> chain" where
  "ex_chain now = \<lparr>vaults = [key 10 \<mapsto> ex_vault], requests = [key 15 \<mapsto> ex_request],
    used_nonces = Map.empty, audits = Map.empty, claims = Map.empty,
    tokens = [key 4 \<mapsto> \<lparr>ta_mint = key 3, ta_owner = key 10, ta_amount = 1000\<rparr>,
      key 12 \<mapsto> \<lparr>ta_mint = key 3, ta_owner = key 11, ta_amount = 500\<rparr>,
      key 14 \<mapsto> \<lparr>ta_mint = key 3, ta_owner = key 13, ta_amount = 0\<rparr>,
      key 16 \<mapsto> \<lparr>ta_mint = key 3, ta_owner = key 17, ta_amount = 0\<rparr>],
    unix_timestamp = word_of_int now\<rparr>"

text \<open>A transaction whose last instruction is the current one, after Ed25519 instructions.\<close>
definition ex_sysvar :: "(bytes \<times> bytes) list \<Rightarrow> sysvar" where
  "ex_sysvar ms = \<lparr>sv_current_index = Some (word_of_nat (length ms)),
    sv_instructions = map (\<lambda>(k, m). build_ed25519_verify_instruction ex_S k (k @ k) m) ms @
      [\<lparr>ix_program_id = key 200, ix_accounts = [], ix_data = []\<rparr>]\<rparr>"

lemma ex_token_program: "token_program (sol_transfer ex_S)"
  by (simp add: ex_S_def spl.token_program_axioms)

lemma key_eq [simp]: "key m = key n \<longleftrightarrow> m mod 256 = n mod 256"
proof -
  have "word_of_nat m = (word_of_nat n :: u8) \<longleftrightarrow> m mod 256 = n mod 256"
    by (simp add: word_of_nat_eq_iff take_bit_eq_mod)
  then show ?thesis by (simp add: key_def)
qed

lemma length_key [simp]: "length (key n) = 32"
  by (simp add: key_def)

lemma ne_key: "length x \<noteq> 32 \<Longrightarrow> x \<noteq> key n" "length x \<noteq> 32 \<Longrightarrow> key n \<noteq> x"
  by auto

lemma pda_ex_S [simp]: "sol_pda ex_S seeds = (concat seeds, 255)"
  by (simp add: ex_S_def)

lemma ex_S_simps [simp]: "sol_program_id ex_S = key 200" "sol_ed25519_program ex_S = key 201"
    "sol_transfer ex_S = spl_transfer"
  by (simp_all add: ex_S_def)

text \<open>Every signature in an example transaction verifies, and the check before the current
  instruction returns it.\<close>
lemma ex_precompile:
  assumes "list_all (\<lambda>(k, m). length k = 32 \<and> length m < 2 ^ 16) ms"
  shows "precompile_ok ex_S ex_verify (ex_sysvar ms)"
  using assms
  by (auto simp: precompile_ok_def ex_sysvar_def list.pred_map o_def precompile_build ex_verify_def
      elim!: list.pred_mono_strong)

lemma ex_check:
  assumes "length k = 32" "length m < 2 ^ 16"
  shows "verify_ed25519_signature_details ex_S (ex_sysvar [(k, m)]) k =
    Inr \<lparr>ve_signature = k @ k, ve_message = m\<rparr>"
  using assms
  by (intro verify_build_ed25519 [where ci = 1])
    (simp_all add: ex_sysvar_def load_instruction_at_checked_def)

section \<open>A withdrawal\<close>

definition ex_withdraw_sysvar :: sysvar where
  "ex_withdraw_sysvar = ex_sysvar
    [(key 2, build_withdraw_authorization_message (key 10) (key 11) (key 12) 40 9 100)]"

definition ex_nonce_key :: pubkey where
  "ex_nonce_key = concat (withdraw_nonce_seeds (key 10) (key 11) 9)"

definition ex_withdraw :: "chain tx" where
  "ex_withdraw = withdraw ex_S ex_withdraw_sysvar (key 11) (key 10) (key 4) (key 12) ex_nonce_key
    40 9 100 (ex_chain 50)"

lemma ex_withdraw_ok: "is_ok ex_withdraw"
proof -
  have "verify_ed25519_signature_details ex_S ex_withdraw_sysvar (key 2) = Inr \<lparr>ve_signature = key 2 @ key 2,
      ve_message = build_withdraw_authorization_message (key 10) (key 11) (key 12) 40 9 100\<rparr>"
    unfolding ex_withdraw_sysvar_def by (rule ex_check) (simp_all add: withdraw_authorization_length)
  moreover have "\<not> in_use (ex_chain 50) ex_nonce_key"
    by (simp add: in_use_def ex_chain_def ne_key ex_nonce_key_def withdraw_nonce_seeds_def)
  ultimately show ?thesis
    by (simp add: ex_withdraw_def withdraw_def ex_chain_def ex_vault_def init_account_def
        ex_nonce_key_def verify_ed25519_signature_def status_defs check_exit_deadline_def
        build_withdraw_authorization_message_def token_transfer_def spl_transfer_def
        checked_add_def vault_err_def is_ok_def)
qed

lemma ex_withdraw_precompile: "precompile_ok ex_S ex_verify ex_withdraw_sysvar"
  unfolding ex_withdraw_sysvar_def by (rule ex_precompile) (simp add: withdraw_authorization_length)

lemma ex_withdraw_details:
  "verify_ed25519_signature_details_relative ex_S ex_withdraw_sysvar 1 (key 2) =
    Inr \<lparr>ve_signature = key 2 @ key 2,
      ve_message = build_withdraw_authorization_message (key 10) (key 11) (key 12) 40 9 100\<rparr>"
  unfolding ex_withdraw_sysvar_def verify_ed25519_signature_details_def [symmetric]
  by (rule ex_check) (simp_all add: withdraw_authorization_length)

theorem ed25519_check_sound_witness:
  "ex_verify (key 2) (key 2 @ key 2)
    (build_withdraw_authorization_message (key 10) (key 11) (key 12) 40 9 100)"
  using ed25519_check_sound [OF ex_withdraw_details ex_withdraw_precompile] by simp

theorem withdraw_authorized_witness:
  "\<exists>c'. ex_withdraw = Inr c' \<and> balance (tokens c') (key 4) + 40 = balance (tokens (ex_chain 50)) (key 4)"
proof -
  obtain c' where ok: "ex_withdraw = Inr c'" using ex_withdraw_ok by (auto simp: is_ok_iff)
  have "vaults (ex_chain 50) (key 10) = Some ex_vault" by (simp add: ex_chain_def)
  from withdraw_authorized [OF ok [unfolded ex_withdraw_def] ex_withdraw_precompile
    ex_token_program this] ok
  show ?thesis by auto
qed

theorem withdraw_not_replayed_witness:
  "\<exists>c' e. ex_withdraw = Inr c' \<and> withdraw ex_S ex_withdraw_sysvar (key 11) (key 10) (key 4) (key 12)
    ex_nonce_key 40 9 100 c' = Inl e"
proof -
  obtain c' where ok: "ex_withdraw = Inr c'" using ex_withdraw_ok by (auto simp: is_ok_iff)
  from withdraw_not_replayed [OF ok [unfolded ex_withdraw_def] run_nil] ok show ?thesis by blast
qed


section \<open>A settlement\<close>

definition ex_settlements :: "SettlementEntry list" where
  "ex_settlements = [\<lparr>se_provider_token_account = key 16, se_amount = 25\<rparr>]"

definition ex_records :: "AuditRecordData list" where
  "ex_records = [\<lparr>rd_encrypted_sender = key 30 @ key 31, rd_encrypted_amount = key 32 @ key 33,
    rd_provider = key 17, rd_timestamp = 44\<rparr>]"

definition ex_hash :: bytes where
  "ex_hash = compute_batch_chunk_hash ex_S 6 ex_settlements ex_records"

definition ex_batch_sysvar :: "u16 \<Rightarrow> sysvar" where
  "ex_batch_sysvar i = \<lparr>sv_current_index = Some i, sv_instructions =
    [\<lparr>ix_program_id = sol_program_id ex_S, ix_accounts = [key 2, key 10],
      ix_data = settle_vault_data ex_S 6 ex_hash ex_settlements\<rparr>,
     \<lparr>ix_program_id = sol_program_id ex_S, ix_accounts = [key 2, key 10],
      ix_data = record_audit_data ex_S 6 ex_hash ex_records\<rparr>]\<rparr>"

definition ex_audit_key :: pubkey where
  "ex_audit_key = concat (audit_seeds (key 10) 6 0)"

definition ex_settle :: "chain tx" where
  "ex_settle = settle_vault ex_S (ex_batch_sysvar 0) (key 2) (key 10) (key 4) [key 16] 6 ex_hash
    ex_settlements (ex_chain 50)"

definition ex_audit :: "chain tx" where
  "ex_audit = record_audit ex_S (ex_batch_sysvar 1) (key 2) (key 10) [ex_audit_key] 6 ex_hash
    ex_records (ex_chain 50)"

lemma ex_chunk_wf: "chunk_wf ex_settlements ex_records"
  by (simp add: chunk_wf_def ex_settlements_def ex_records_def settlement_wf_def record_wf_def
      MAX_SETTLEMENTS_PER_TX_def MAX_ATOMIC_AUDITS_PER_TX_def)

lemma ex_hash_length: "length ex_hash = 32"
  by (simp add: ex_hash_def compute_batch_chunk_hash_def ex_S_def)

lemma ex_discriminator_length: "length (instruction_discriminator ex_S n) = 8"
  by (simp add: instruction_discriminator_def ex_S_def)

lemma ex_parse:
  "parse_settle_vault_instruction ex_S (sv_instructions (ex_batch_sysvar i) ! 0)
    (instruction_discriminator ex_S ''settle_vault'') =
      Some \<lparr>ps_batch_id = 6, ps_batch_chunk_hash = ex_hash, ps_settlements = ex_settlements\<rparr>"
  "parse_record_audit_instruction ex_S (sv_instructions (ex_batch_sysvar i) ! 1)
    (instruction_discriminator ex_S ''record_audit'') =
      Some \<lparr>pa_batch_id = 6, pa_batch_chunk_hash = ex_hash, pa_records = ex_records\<rparr>"
  using ex_chunk_wf
  by (simp_all add: ex_batch_sysvar_def parse_settle_vault_data parse_record_audit_data
      ex_discriminator_length ex_hash_length chunk_wf_def MAX_SETTLEMENTS_PER_TX_def
      MAX_ATOMIC_AUDITS_PER_TX_def del: ex_S_simps)

lemma ex_pairing:
  "verify_record_audit_pairing ex_S (ex_batch_sysvar 0) 6 ex_hash (key 10) ex_settlements = Inr ()"
  "verify_settle_vault_pairing ex_S (ex_batch_sysvar 1) 6 ex_hash (key 10) ex_records = Inr ()"
proof -
  have sv: "load_instruction_at_checked 0 (ex_batch_sysvar i) = Some (sv_instructions (ex_batch_sysvar i) ! 0)"
    "load_instruction_at_checked 1 (ex_batch_sysvar i) = Some (sv_instructions (ex_batch_sysvar i) ! 1)"
    "ix_accounts (sv_instructions (ex_batch_sysvar i) ! 0) = [key 2, key 10]"
    "ix_accounts (sv_instructions (ex_batch_sysvar i) ! 1) = [key 2, key 10]"
    "sv_current_index (ex_batch_sysvar i) = Some i" for i
    by (simp_all add: load_instruction_at_checked_def ex_batch_sysvar_def)
  show "verify_record_audit_pairing ex_S (ex_batch_sysvar 0) 6 ex_hash (key 10) ex_settlements = Inr ()"
    using sv ex_parse
    by (simp add: verify_record_audit_pairing_def numeral_eq_Suc Let_def ex_hash_def)
  show "verify_settle_vault_pairing ex_S (ex_batch_sysvar 1) 6 ex_hash (key 10) ex_records = Inr ()"
    using sv ex_parse
    by (simp add: verify_settle_vault_pairing_def numeral_eq_Suc Let_def ex_hash_def)
qed

lemma ex_settle_ok: "is_ok ex_settle"
  using ex_pairing(1)
  by (simp add: ex_settle_def settle_vault_def ex_chain_def ex_vault_def status_defs
      MAX_SETTLEMENTS_PER_TX_def check_exit_deadline_def ex_settlements_def token_transfer_def
      spl_transfer_def checked_add_def vault_err_def is_ok_def)

lemma ex_audit_ok: "is_ok ex_audit"
proof -
  have "[0..<256] = 0 # [1..<256]" by (simp add: upt_conv_Cons)
  then have "resolve_audit_index ex_S (key 10) 6 ex_audit_key = Inr (0, 255)"
    by (simp add: resolve_audit_index_def ex_audit_key_def)
  moreover have "\<not> in_use (ex_chain 50) ex_audit_key"
    by (simp add: in_use_def ex_chain_def ne_key ex_audit_key_def audit_seeds_def)
  ultimately show ?thesis
    using ex_pairing(2)
    by (simp add: ex_audit_def record_audit_def ex_chain_def ex_vault_def status_defs
        MAX_ATOMIC_AUDITS_PER_TX_def check_exit_deadline_def ex_records_def vault_err_def is_ok_def)
qed

theorem batch_chunk_preimage_binds_witness:
  "batch_chunk_preimage 6 ex_settlements ex_records \<noteq>
    batch_chunk_preimage 7 ex_settlements ex_records"
  using batch_chunk_preimage_binds [OF ex_chunk_wf ex_chunk_wf, of 6 7] by simp

theorem settle_vault_pays_witness:
  "\<exists>c'. ex_settle = Inr c' \<and> balance (tokens c') (key 16) = 25 \<and> balance (tokens c') (key 4) = 975"
proof -
  obtain c' where ok: "ex_settle = Inr c'" using ex_settle_ok by (auto simp: is_ok_iff)
  have "vaults (ex_chain 50) (key 10) = Some ex_vault" by (simp add: ex_chain_def)
  from settle_vault_pays [OF ex_token_program ok [unfolded ex_settle_def] this]
  have "balance (tokens c') (key 16) = balance (tokens (ex_chain 50)) (key 16) + paid_to (key 16) ex_settlements"
    "balance (tokens (ex_chain 50)) (key 4) + paid_to (key 4) ex_settlements =
      balance (tokens c') (key 4) + amount_sum ex_settlements"
    by auto
  then show ?thesis
    using ok by (intro exI [of _ c']) (simp add: ex_settlements_def ex_chain_def balance_def)
qed


theorem record_audit_writes_witness:
  "\<exists>c'. ex_audit = Inr c' \<and> c' = (ex_chain 50)\<lparr>audits := audits c'\<rparr> \<and> distinct [ex_audit_key]"
proof -
  obtain c' where ok: "ex_audit = Inr c'" using ex_audit_ok by (auto simp: is_ok_iff)
  have "vaults (ex_chain 50) (key 10) = Some ex_vault" by (simp add: ex_chain_def)
  from record_audit_writes [OF ok [unfolded ex_audit_def] this] ok show ?thesis by blast
qed

section \<open>Leaving the vault\<close>

definition ex_receipt :: "pubkey \<Rightarrow> u64 \<Rightarrow> ParticipantReceiptMessage" where
  "ex_receipt p n = \<lparr>pr_participant = p, pr_participant_kind = 0, pr_recipient_ata = key 14,
    pr_free_balance = 70, pr_locked_balance = 0, pr_max_lock_expires_at = 0, pr_nonce = n,
    pr_timestamp = 45, pr_snapshot_seqno = 3, pr_vault_config = key 10\<rparr>"

definition ex_receipt_sysvar :: "pubkey \<Rightarrow> u64 \<Rightarrow> sysvar" where
  "ex_receipt_sysvar p n = ex_sysvar [(key 2, receipt_bytes (ex_receipt p n))]"

definition ex_init :: "chain tx" where
  "ex_init = force_settle_init ex_S (ex_receipt_sysvar (key 18) 8) (key 18) (key 10)
    (concat (force_settle_seeds (key 10) (key 18) 0)) 0 (key 14) 70 0 0 8 (key 2 @ key 2)
    (receipt_bytes (ex_receipt (key 18) 8)) (ex_chain 50)"

definition ex_challenge :: "chain tx" where
  "ex_challenge = force_settle_challenge ex_S (ex_receipt_sysvar (key 13) 6) (key 10) (key 15)
    (key 14) 70 0 0 6 (key 2 @ key 2) (receipt_bytes (ex_receipt (key 13) 6)) (ex_chain 50)"

definition ex_finalize :: "int \<Rightarrow> chain tx" where
  "ex_finalize now = force_settle_finalize ex_S (key 10) (key 15) (key 4) (key 14) (ex_chain now)"

lemma ex_vault_at: "vaults (ex_chain now) (key 10) = Some ex_vault"
  by (simp add: ex_chain_def)

lemma ex_request_at: "requests (ex_chain now) (key 15) = Some ex_request"
  by (simp add: ex_chain_def)

lemma ex_receipt_wf: "length p = 32 \<Longrightarrow> receipt_wf (ex_receipt p n)"
  by (simp add: receipt_wf_def ex_receipt_def)

lemma ex_receipt_precompile:
  "length p = 32 \<Longrightarrow> precompile_ok ex_S ex_verify (ex_receipt_sysvar p n)"
  unfolding ex_receipt_sysvar_def
  by (rule ex_precompile) (simp add: receipt_codec.enc_length ex_receipt_wf)

lemma ex_receipt_details:
  "length p = 32 \<Longrightarrow> verify_ed25519_signature_details ex_S (ex_receipt_sysvar p n) (key 2) =
    Inr \<lparr>ve_signature = key 2 @ key 2, ve_message = receipt_bytes (ex_receipt p n)\<rparr>"
  unfolding ex_receipt_sysvar_def
  by (rule ex_check) (simp_all add: receipt_codec.enc_length ex_receipt_wf)

lemma ex_check_receipt:
  "length p = 32 \<Longrightarrow> check_receipt (receipt_bytes (ex_receipt p n)) p 0 (key 14) 70 0 0 n (key 10) = Inr ()"
  by (simp add: check_receipt_def decode_build_receipt ex_receipt_wf) (simp add: ex_receipt_def)

lemma ex_init_ok: "is_ok ex_init"
proof -
  have "\<not> in_use (ex_chain 50) (concat (force_settle_seeds (key 10) (key 18) 0))"
    by (simp add: in_use_def ex_chain_def ne_key force_settle_seeds_def)
  then show ?thesis
    by (simp add: ex_init_def force_settle_init_def ex_vault_at init_account_def ex_check_receipt
        ex_receipt_details ex_vault_def vault_err_def is_ok_def)
      (simp add: ex_chain_def checked_add_i64_def DISPUTE_WINDOW_SEC_def)
qed

lemma ex_challenge_ok: "is_ok ex_challenge"
  by (simp add: ex_challenge_def force_settle_challenge_def ex_chain_def ex_vault_def
      ex_request_def ex_check_receipt ex_receipt_details vault_err_def is_ok_def)

lemma ex_finalize_ok: "is_ok (ex_finalize 350)"
  by (simp add: ex_finalize_def force_settle_finalize_def ex_chain_def ex_vault_def
      ex_request_def checked_add_def token_transfer_def spl_transfer_def Let_def is_ok_def)

theorem force_settle_init_from_receipt_witness:
  "\<exists>c' r. ex_init = Inr c' \<and> requests c' (concat (force_settle_seeds (key 10) (key 18) 0)) = Some r \<and>
    fs_free_balance_due r = 70"
proof -
  obtain c' where ok: "ex_init = Inr c'" using ex_init_ok by (auto simp: is_ok_iff)
  from force_settle_init_from_receipt [OF ok [unfolded ex_init_def] ex_receipt_precompile ex_vault_at]
  obtain m r where "receipt_wf m" "receipt_bytes m = receipt_bytes (ex_receipt (key 18) 8)"
    "c' = (ex_chain 50)\<lparr>requests := (requests (ex_chain 50))
      (concat (force_settle_seeds (key 10) (key 18) 0) \<mapsto> r)\<rparr>"
    "fs_free_balance_due r = pr_free_balance m" by auto
  moreover from this(1,2) have "m = ex_receipt (key 18) 8"
    using receipt_codec.enc_inject ex_receipt_wf by simp
  ultimately show ?thesis
    using ok by (intro exI [of _ c'] exI [of _ r]) (simp add: ex_receipt_def)
qed

theorem force_settle_challenge_newer_witness:
  "\<exists>c' r. ex_challenge = Inr c' \<and> requests c' (key 15) = Some r \<and> fs_receipt_nonce r = 6"
proof -
  obtain c' where ok: "ex_challenge = Inr c'" using ex_challenge_ok by (auto simp: is_ok_iff)
  from force_settle_challenge_newer [OF ok [unfolded ex_challenge_def] ex_receipt_precompile
    ex_vault_at ex_request_at]
  obtain m where "receipt_wf m" "receipt_bytes m = receipt_bytes (ex_receipt (key 13) 6)"
    "\<exists>r. requests c' (key 15) = Some r \<and> fs_receipt_nonce r = pr_nonce m" by auto
  moreover from this(1,2) have "m = ex_receipt (key 13) 6"
    using receipt_codec.enc_inject ex_receipt_wf by simp
  ultimately show ?thesis
    using ok by (intro exI [of _ c']) (simp add: ex_receipt_def)
qed



section \<open>A close claim\<close>

definition ex_voucher :: AscClaimVoucherFields where
  "ex_voucher = \<lparr>cv_channel_id_hash = key 40, cv_request_id_hash = key 41, cv_amount = 12,
    cv_request_hash = key 42, cv_provider_pubkey = key 43, cv_issued_at = 30,
    cv_vault_config = key 10\<rparr>"

definition ex_claim_sysvar :: sysvar where
  "ex_claim_sysvar = ex_sysvar [(key 2, build_asc_claim_voucher_message ex_voucher),
    (key 43, build_asc_payment_message_from_hashes (key 40) (key 41) 12 (key 42))]"

definition ex_claim :: "chain tx" where
  "ex_claim = asc_close_claim ex_S ex_claim_sysvar (key 10)
    (concat (asc_close_claim_seeds (key 10) (key 40) (key 41))) (key 40) (key 41) (ex_chain 50)"

lemma ex_voucher_wf: "voucher_wf ex_voucher"
  by (simp add: voucher_wf_def ex_voucher_def)

lemma ex_payment_length:
  "length (build_asc_payment_message_from_hashes (key 40) (key 41) 12 (key 42)) = 123"
  by (simp add: build_asc_payment_message_from_hashes_def ASC_PAYMENT_MESSAGE_PREFIX_def)

lemma ex_claim_precompile: "precompile_ok ex_S ex_verify ex_claim_sysvar"
  unfolding ex_claim_sysvar_def
  by (rule ex_precompile) (simp add: voucher_codec.enc_length ex_voucher_wf ex_payment_length)

lemma ex_claim_details:
  "verify_ed25519_signature_details_relative ex_S ex_claim_sysvar 2 (key 2) =
    Inr \<lparr>ve_signature = key 2 @ key 2, ve_message = build_asc_claim_voucher_message ex_voucher\<rparr>"
  "verify_ed25519_signature_details_relative ex_S ex_claim_sysvar 1 (key 43) =
    Inr \<lparr>ve_signature = key 43 @ key 43,
      ve_message = build_asc_payment_message_from_hashes (key 40) (key 41) 12 (key 42)\<rparr>"
  by (rule verify_build_ed25519_relative [where ci = 2];
      simp add: ex_claim_sysvar_def ex_sysvar_def load_instruction_at_checked_def
        voucher_codec.enc_length ex_voucher_wf ex_payment_length)+

lemma ex_claim_ok: "is_ok ex_claim"
proof -
  have "\<not> in_use (ex_chain 50) (concat (asc_close_claim_seeds (key 10) (key 40) (key 41)))"
    by (simp add: in_use_def ex_chain_def ne_key asc_close_claim_seeds_def)
  moreover have "vc_vault_signer_pubkey ex_vault = key 2" by (simp add: ex_vault_def)
  ultimately show ?thesis
    using ex_claim_details parse_build_voucher [OF ex_voucher_wf]
    by (simp add: ex_claim_def asc_close_claim_def ex_vault_at init_account_def vault_err_def
        is_ok_def) (simp add: ex_voucher_def Let_def)
qed


section \<open>Runs\<close>

lemma ex_withdraw_run:
  "ex_withdraw = Inr c' \<Longrightarrow> run (vault_step ex_S) [Silent] (ex_chain 50) c'"
  unfolding ex_withdraw_def
  by (rule run_single) (auto intro: step_withdraw simp: ex_chain_def)

theorem vault_lifecycle_witness:
  "\<exists>c' v'. ex_withdraw = Inr c' \<and> vaults c' (key 10) = Some v' \<and> vault_evolves ex_vault v'"
proof -
  obtain c' where ok: "ex_withdraw = Inr c'" using ex_withdraw_ok by (auto simp: is_ok_iff)
  from vault_lifecycle [OF ex_withdraw_run [OF ok] ex_vault_at] ok show ?thesis by blast
qed

theorem force_settle_request_monotone_witness:
  "\<exists>c' r'. ex_withdraw = Inr c' \<and> requests c' (key 15) = Some r' \<and> 5 \<le> unat (fs_receipt_nonce r')"
proof -
  obtain c' where ok: "ex_withdraw = Inr c'" using ex_withdraw_ok by (auto simp: is_ok_iff)
  from force_settle_request_monotone [OF ex_withdraw_run [OF ok] ex_request_at] ok
  show ?thesis by (auto simp: ex_request_def)
qed

text \<open>An empty chain with a client's token account, on which a vault is opened and used.\<close>
definition ex_genesis :: chain where
  "ex_genesis = \<lparr>vaults = Map.empty, requests = Map.empty, used_nonces = Map.empty,
    audits = Map.empty, claims = Map.empty,
    tokens = [key 12 \<mapsto> \<lparr>ta_mint = key 3, ta_owner = key 11, ta_amount = 500\<rparr>],
    unix_timestamp = 50\<rparr>"

definition ex_vk :: pubkey where "ex_vk = concat (vault_config_seeds (key 21) 1)"
definition ex_vtk :: pubkey where "ex_vtk = concat [str_bytes ''vault_token'', ex_vk]"

definition ex_open :: "chain tx" where
  "ex_open = initialize_vault ex_S (key 21) ex_vk (key 3) ex_vtk 1 (key 2) (key 5) (key 6) ex_genesis"

lemma ex_open_keys: "length ex_vk = 52" "length ex_vtk = 63"
  by (simp_all add: ex_vk_def ex_vtk_def vault_config_seeds_def)

lemma ex_open_ne [simp]: "ex_vk \<noteq> key n" "ex_vtk \<noteq> key n" "key n \<noteq> ex_vk" "key n \<noteq> ex_vtk"
    "ex_vk \<noteq> ex_vtk" "ex_vtk \<noteq> ex_vk"
  using ex_open_keys by (auto dest: arg_cong [where f = length])

lemma ex_open_ok:
  "ex_open = Inr (ex_genesis\<lparr>vaults := [ex_vk \<mapsto>
      \<lparr>vc_bump = 255, vc_vault_id = 1, vc_governance = key 21, vc_status = VAULT_STATUS_ACTIVE,
       vc_vault_signer_pubkey = key 2, vc_usdc_mint = key 3, vc_vault_token_account = ex_vtk,
       vc_auditor_master_pubkey = key 5, vc_auditor_epoch = 0, vc_attestation_policy_hash = key 6,
       vc_successor_vault = pubkey_default, vc_exit_deadline = 0, vc_lifetime_deposited = 0,
       vc_lifetime_withdrawn = 0, vc_lifetime_settled = 0\<rparr>],
    tokens := (tokens ex_genesis)(ex_vtk \<mapsto>
      \<lparr>ta_mint = key 3, ta_owner = ex_vk, ta_amount = 0\<rparr>)\<rparr>)"
proof -
  have "\<not> in_use ex_genesis ex_vk" "\<not> in_use ex_genesis ex_vtk"
    by (simp_all add: in_use_def ex_genesis_def)
  then have "init_account ex_S (vault_config_seeds (key 21) 1) ex_vk ex_genesis = Inr 255"
    "init_account ex_S [str_bytes ''vault_token'', ex_vk] ex_vtk ex_genesis = Inr 255"
    by (simp_all only: init_account_def pda_ex_S fst_conv snd_conv ex_vk_def [symmetric]
        ex_vtk_def [symmetric] require_simps not_False_eq_True simp_thms)
  then show ?thesis
    by (simp add: ex_open_def initialize_vault_def ex_genesis_def)
qed

lemma ex_open_deposit:
  "is_ok (rbind ex_open (deposit ex_S (key 11) ex_vk (key 12) ex_vtk 60))"
  by (simp add: ex_open_ok ex_genesis_def deposit_def status_defs token_transfer_def
      spl_transfer_def checked_add_def is_ok_def)

theorem vault_stays_backed_witness:
  "\<exists>c c' v. ex_open = Inr c \<and> deposit ex_S (key 11) ex_vk (key 12) ex_vtk 60 c = Inr c' \<and>
    vaults c' ex_vk = Some v \<and> unat (vc_lifetime_deposited v) \<le> balance (tokens c') ex_vtk +
      unat (vc_lifetime_withdrawn v) + unat (vc_lifetime_settled v)"
proof -
  obtain c c' where ok: "ex_open = Inr c" "deposit ex_S (key 11) ex_vk (key 12) ex_vtk 60 c = Inr c'"
    using ex_open_deposit by (auto simp: is_ok_iff result_simps)
  have wf: "chain_wf ex_genesis" by (simp add: chain_wf_def ex_genesis_def)
  have "vaults c (key 11) = None"
    using ok(1) by (auto simp: ex_open_ok)
  then have "run (vault_step ex_S) [Silent] c c'"
    using step_deposit [OF ok(2)] by (intro run_single) simp
  from vault_stays_backed [OF ex_token_program wf ok(1) [unfolded ex_open_def] this] ok
  show ?thesis by (auto simp: forced_sum_def)
qed

end
