(* ===== verification/Watchtower_Example.thy ===== *)
theory Watchtower_Example
  imports Watchtower Vault_Example
begin

text \<open>
  A watchtower for the vault of \<^verbatim>\<open>Vault_Example\<close> that holds a newer receipt of the participant with the
  pending request.
\<close>

text \<open>Keys are written with two letters per byte; the strings of the example are read from a table.\<close>
definition ex_key_string :: "pubkey \<Rightarrow> string" where
  "ex_key_string k = map (\<lambda>b. char_of (97 + unat b div 16)) k @ map (\<lambda>b. char_of (97 + unat b mod 16)) k"

definition ex_receipt_message :: bytes where
  "ex_receipt_message = build_participant_receipt_message (key 10) (key 13) 0 (key 14) 70 0 400 8 90 1"

definition ex_watchtower :: wt_env where
  "ex_watchtower = \<lparr>wt_solana = ex_S,
    wt_from_str = map_of [(''participant'', key 13), (''ata'', key 14), (''vault'', key 10)],
    wt_to_string = ex_key_string,
    wt_b64_decode = map_of [(''sig'', key 2 @ key 2), (''msg'', ex_receipt_message)],
    wt_verify_strict = ex_verify, wt_account_data = [key 10 \<mapsto> vault_config_bytes (replicate 8 1) ex_vault],
    wt_vault_config = key 10, wt_challenger = key 30, wt_instructions_sysvar = key 31\<rparr>"

definition ex_store_request :: StoreReceiptRequest where
  "ex_store_request = \<lparr>sq_participant = ''participant'', sq_participant_kind = 0, sq_recipient_ata = ''ata'',
    sq_free_balance = 70, sq_locked_balance = 0, sq_max_lock_expires_at = 400, sq_nonce = 8, sq_timestamp = 90,
    sq_snapshot_seqno = 1, sq_vault_config = ''vault'', sq_signature = ''sig'', sq_message = ''msg''\<rparr>"

definition ex_stored :: StoredReceipt where
  "ex_stored = \<lparr>st_participant = ''participant'', st_participant_kind = 0, st_recipient_ata = ''ata'',
    st_free_balance = 70, st_locked_balance = 0, st_max_lock_expires_at = 400, st_nonce = 8, st_timestamp = 90,
    st_snapshot_seqno = 1, st_vault_config = ''vault'', st_signature = ''sig'', st_message = ''msg''\<rparr>"

definition ex_receipt_key :: ReceiptKey where
  "ex_receipt_key = \<lparr>rk_vault = key 10, rk_participant = key 13, rk_participant_kind = 0\<rparr>"

lemma letter: "n < 16 \<Longrightarrow> (of_char (char_of (97 + n) :: char) :: nat) = 97 + n"
  by simp

lemma byte_digits: "unat (b :: u8) div 16 < 16" "unat b mod 16 < 16"
  using unat_less_pow [of b] by simp_all

lemma ex_key_string_inj: "inj ex_key_string"
proof (rule injI)
  fix k k' :: pubkey
  assume eq: "ex_key_string k = ex_key_string k'"
  then have "length (ex_key_string k) = length (ex_key_string k')" by simp
  then have len: "length k = length k'" by (simp add: ex_key_string_def)
  with eq have maps: "map (\<lambda>b. char_of (97 + unat b div 16) :: char) k = map (\<lambda>b. char_of (97 + unat b div 16)) k'"
    "map (\<lambda>b. char_of (97 + unat b mod 16) :: char) k = map (\<lambda>b. char_of (97 + unat b mod 16)) k'"
    by (simp_all add: ex_key_string_def)
  show "k = k'"
  proof (rule nth_equalityI [OF len])
    fix i assume i: "i < length k"
    have "unat (k ! i) div 16 = unat (k' ! i) div 16"
      using arg_cong [OF maps(1), where f = "\<lambda>xs. of_char (xs ! i) :: nat"] i len byte_digits(1) [of "k ! i"] byte_digits(1) [of "k' ! i"]
      by (simp add: letter del: of_char_of)
    moreover have "unat (k ! i) mod 16 = unat (k' ! i) mod 16"
      using arg_cong [OF maps(2), where f = "\<lambda>xs. of_char (xs ! i) :: nat"] i len byte_digits(2) [of "k ! i"] byte_digits(2) [of "k' ! i"]
      by (simp add: letter del: of_char_of)
    ultimately show "k ! i = k' ! i"
      by (metis div_mult_mod_eq word_unat_eq_iff)
  qed
qed

lemma ex_key_string_colon: "CHR '':'' \<notin> set (ex_key_string k)"
proof -
  have ne: "CHR '':'' \<noteq> char_of (97 + n)" if "n < 16" for n :: nat
  proof
    assume "CHR '':'' = char_of (97 + n)"
    then have "(of_char CHR '':'' :: nat) = of_char (char_of (97 + n) :: char)" by (rule arg_cong)
    then show False using letter [OF that] by simp
  qed
  show ?thesis
    unfolding ex_key_string_def set_append set_map using ne [OF byte_digits(1)] ne [OF byte_digits(2)] by blast
qed

lemma ex_accepted: "validate_store_receipt_request ex_watchtower ex_store_request = Inr (ex_receipt_key, ex_stored)"
  by (simp add: validate_store_receipt_request_def validate_store_receipt_request_inner_def fetch_vault_signer_pubkey_def
      require_match_def ex_watchtower_def ex_store_request_def ex_receipt_key_def ex_stored_def signer_offset_def
      vault_config_bytes_def ex_vault_def slice_simps ex_receipt_message_def build_participant_receipt_message_def
      decode_participant_receipt_message_def PARTICIPANT_RECEIPT_MESSAGE_LEN_def ex_verify_def nth_append key_def
      word_of_nat_eq_iff)

theorem watchtower_keeps_newest_witness:
  "\<exists>r. get_receipt ex_key_string ex_receipt_key (receipts_after ex_watchtower [ex_store_request]) = Some r \<and> 8 \<le> st_nonce r"
proof -
  have W: "wt_to_string ex_watchtower = ex_key_string" by (simp add: ex_watchtower_def)
  have "inj (wt_to_string ex_watchtower)" "\<And>k. CHR '':'' \<notin> set (wt_to_string ex_watchtower k)"
    unfolding W by (rule ex_key_string_inj, rule ex_key_string_colon)
  from watchtower_keeps_newest [OF this, of ex_store_request "[ex_store_request]", OF _ ex_accepted]
  show ?thesis by (auto simp: W ex_stored_def)
qed

theorem stale_exit_challenged_witness:
  "\<exists>tx c'. challenge_transaction ex_watchtower (key 15) ex_stored = Inr tx \<and>
    (\<exists>ata sig msg. force_settle_challenge ex_S \<lparr>sv_current_index = Some 1, sv_instructions = tx\<rparr> (key 10) (key 15) ata
      70 0 400 8 sig msg (ex_chain 100) = Inr c') \<and>
    map_option fs_receipt_nonce (requests c' (key 15)) = Some 8"
proof -
  let ?receipts = "[(storage_key ex_key_string ex_receipt_key, ex_stored)]"
  have W: "wt_solana ex_watchtower = ex_S" by (simp add: ex_watchtower_def)
  have "\<exists>tx ata sig msg. stale_request ex_watchtower ?receipts 100 (key 15) (force_settle_request_bytes (replicate 8 2) ex_request) = Some ex_stored \<and>
    challenge_transaction ex_watchtower (key 15) ex_stored = Inr tx \<and>
    challenge_args (wt_solana ex_watchtower) (ix_data (tx ! 1)) = Some (ata, st_free_balance ex_stored, st_locked_balance ex_stored,
      st_max_lock_expires_at ex_stored, st_nonce ex_stored, sig, msg) \<and>
    force_settle_challenge (wt_solana ex_watchtower) \<lparr>sv_current_index = Some 1, sv_instructions = tx\<rparr> (fs_vault ex_request) (key 15) ata
      (st_free_balance ex_stored) (st_locked_balance ex_stored) (st_max_lock_expires_at ex_stored) (st_nonce ex_stored) sig msg (ex_chain 100) =
    Inr ((ex_chain 100)\<lparr>requests := (requests (ex_chain 100))(key 15 \<mapsto> ex_request\<lparr>fs_recipient_ata := ata,
      fs_free_balance_due := st_free_balance ex_stored, fs_locked_balance_due := st_locked_balance ex_stored,
      fs_max_lock_expires_at := st_max_lock_expires_at ex_stored, fs_receipt_nonce := st_nonce ex_stored,
      fs_receipt_signature := sig\<rparr>)\<rparr>)"
    by (rule stale_exit_challenged [where vault = ex_vault and vdisc = "replicate 8 1", OF _ _ _ _ _ _ _ _ _ _ ex_accepted])
      (auto simp: ex_watchtower_def ex_chain_def ex_request_def ex_vault_def vault_wf_def request_wf_def ex_S_def
        ex_receipt_key_def ex_stored_def get_receipt_def split: if_splits)
  then obtain tx ata sig msg where tx: "challenge_transaction ex_watchtower (key 15) ex_stored = Inr tx"
    and c': "force_settle_challenge ex_S \<lparr>sv_current_index = Some 1, sv_instructions = tx\<rparr> (key 10) (key 15) ata
      70 0 400 8 sig msg (ex_chain 100) =
    Inr ((ex_chain 100)\<lparr>requests := (requests (ex_chain 100))(key 15 \<mapsto> ex_request\<lparr>fs_recipient_ata := ata,
      fs_free_balance_due := 70, fs_locked_balance_due := 0, fs_max_lock_expires_at := 400, fs_receipt_nonce := 8,
      fs_receipt_signature := sig\<rparr>)\<rparr>)" (is "_ = Inr ?c")
    unfolding W by (auto simp: ex_stored_def ex_request_def)
  show ?thesis
    by (rule exI [of _ tx], rule exI [of _ ?c]) (use tx c' in \<open>auto\<close>)
qed

end
