(* ===== verification/Requests.thy ===== *)
theory Requests
  imports Enclave_System "HOL-Library.List_Lexorder" "HOL-Library.Char_ord"
begin

text \<open>
  The request handlers of \<^verbatim>\<open>src/enclave/src/handlers.rs\<close> around their critical sections: the checks
  of the vault's status, of the payment, of signatures and of the provider's credentials, in the
  order of the code, and then the section of \<open>Enclave_Handlers\<close>.  A handler is one definition
  \<open>post_...\<close>; \<open>handle\<close> dispatches a request to its handler.

  A request is handled at one instant of the clock and with one answer of the Solana RPC node.
  Bodies arrive parsed, and responses are records: JSON and base64 of whole messages are left to the
  libraries that do it.
\<close>

section \<open>What the handlers use from libraries\<close>

text \<open>SHA-256, hexadecimal and base64, keys in base58, Ed25519, dates, and the text of scalars in
  JSON.  Dates are in nanoseconds.\<close>
record access_env =
  ax_sha256 :: "bytes \<Rightarrow> bytes"
  ax_hex_decode :: "string \<Rightarrow> bytes option"
  ax_hex_encode :: "bytes \<Rightarrow> string"
  ax_base64_decode :: "string \<Rightarrow> bytes option"
  ax_pubkey :: "string \<Rightarrow> pubkey option"
  ax_base58 :: "pubkey \<Rightarrow> string"
  ax_valid_key :: "pubkey \<Rightarrow> bool"
  ax_verify_strict :: "pubkey \<Rightarrow> bytes \<Rightarrow> bytes \<Rightarrow> bool"
  ax_rfc3339 :: "string \<Rightarrow> int option"

text \<open>What one call finds outside: the clock, the vault's account as read and decoded by the RPC
  client, the deposit detector, and two fresh identifiers.\<close>
record call =
  cl_now_ns :: int
  cl_vault_account :: "VaultConfig option"
  cl_detector_enabled :: bool
  cl_detector_ready :: bool
  cl_uuid :: string
  cl_uuid2 :: string

definition call_now :: "call \<Rightarrow> int" where
  "call_now cx = cl_now_ns cx div 1000000000"

text \<open>A result without state as the rest of a handler.\<close>
definition lift_result :: "(EnclaveError, 'a) result \<Rightarrow> 'a app" where
  "lift_result r = (case r of Inl e \<Rightarrow> sfail (Err e) | Inr x \<Rightarrow> sret x)"

text \<open>\<^verbatim>\<open>try_into::<[u8; 32]>().ok()\<close> after decoding hexadecimal.\<close>
definition hex_array32 :: "access_env \<Rightarrow> string \<Rightarrow> bytes option" where
  "hex_array32 ax s = (case ax_hex_decode ax s of
      None \<Rightarrow> None
    | Some bs \<Rightarrow> if length bs = 32 then Some bs else None)"

definition strip_prefix :: "string \<Rightarrow> string \<Rightarrow> string option" where
  "strip_prefix p s = (if take (length p) s = p then Some (drop (length p) s) else None)"

text \<open>\<^verbatim>\<open>str::parse::<u64>\<close>\<close>
fun parse_digits :: "nat \<Rightarrow> string \<Rightarrow> nat option" where
  "parse_digits n [] = Some n"
| "parse_digits n (c # cs) =
    (let d = of_char c in
     if 48 \<le> d \<and> d \<le> 57 \<and> n * 10 + (d - 48) < 2 ^ 64 then parse_digits (n * 10 + (d - 48)) cs
     else None)"

definition parse_u64 :: "string \<Rightarrow> u64 option" where
  "parse_u64 s =
    (if s = [] \<or> s = ''+'' then None
     else map_option word_of_nat (parse_digits 0 (if hd s = CHR ''+'' then tl s else s)))"

section \<open>JSON values\<close>

text \<open>\<^verbatim>\<open>serde_json::Value\<close>; the keys of an object are distinct.\<close>
datatype json_number = PosInt u64 | NegInt i64 | Float string

datatype json =
    JNull
  | JBool bool
  | JNumber json_number
  | JString string
  | JArray "json list"
  | JObject "(string \<times> json) list"

fun json_get :: "string \<Rightarrow> json \<Rightarrow> json option" where
  "json_get key (JObject m) = aget m key"
| "json_get key _ = None"

fun json_as_str :: "json \<Rightarrow> string option" where
  "json_as_str (JString s) = Some s"
| "json_as_str _ = None"

fun json_as_i64 :: "json \<Rightarrow> int option" where
  "json_as_i64 (JNumber (PosInt n)) = (if unat n < 2 ^ 63 then Some (int (unat n)) else None)"
| "json_as_i64 (JNumber (NegInt i)) = Some (sint i)"
| "json_as_i64 _ = None"

fun json_as_u64 :: "json \<Rightarrow> u64 option" where
  "json_as_u64 (JNumber (PosInt n)) = Some n"
| "json_as_u64 _ = None"

fun join :: "string \<Rightarrow> string list \<Rightarrow> string" where
  "join sep [] = []"
| "join sep [x] = x"
| "join sep (x # y # ys) = x @ sep @ join sep (y # ys)"

lemma size_json_field: "(k, v) \<in> set m \<Longrightarrow> size v < Suc (size_list (size_prod (\<lambda>_. 0) size) m)"
  by (induction m) auto

text \<open>\<open>scalar\<close> is \<^verbatim>\<open>serde_json::to_string\<close>, used for strings and for values without parts.\<close>
function canonical_json :: "(json \<Rightarrow> string) \<Rightarrow> json \<Rightarrow> string" where
  "canonical_json scalar (JObject m) =
    ''{'' @ join '','' (map (\<lambda>(k, v). scalar (JString k) @ '':'' @ canonical_json scalar v)
      (sort_key fst m)) @ ''}''"
| "canonical_json scalar (JArray vs) = ''['' @ join '','' (map (canonical_json scalar) vs) @ '']''"
| "canonical_json scalar JNull = scalar JNull"
| "canonical_json scalar (JBool b) = scalar (JBool b)"
| "canonical_json scalar (JNumber n) = scalar (JNumber n)"
| "canonical_json scalar (JString s) = scalar (JString s)"
  by pat_completeness auto

termination
  by (relation "measure (size \<circ> snd)") (auto simp: size_json_field size_list_estimation' less_Suc_eq_le)

definition compute_payment_details_hash :: "access_env \<Rightarrow> (json \<Rightarrow> string) \<Rightarrow> json \<Rightarrow> bytes" where
  "compute_payment_details_hash ax scalar details = ax_sha256 ax (str_bytes (canonical_json scalar details))"

fun payment_details_str :: "json \<Rightarrow> string list \<Rightarrow> (EnclaveError, string) result" where
  "payment_details_str current [] = ok_or (json_as_str current) InvalidPaymentDetails Inr"
| "payment_details_str current (key # path) =
    ok_or (json_get key current) InvalidPaymentDetails (\<lambda>inner. payment_details_str inner path)"

definition parse_verify_window_sec :: "json \<Rightarrow> (EnclaveError, int) result" where
  "parse_verify_window_sec details =
    ok_or (case json_get ''verifyWindowSec'' details of
        None \<Rightarrow> None
      | Some v \<Rightarrow> (case json_as_i64 v of
          Some i \<Rightarrow> Some i
        | None \<Rightarrow> (case json_as_u64 v of
            None \<Rightarrow> None
          | Some n \<Rightarrow> if unat n < 2 ^ 63 then Some (int (unat n)) else None)))
      VerifyWindowSecRequired (\<lambda>seconds.
    require (0 < seconds) InvalidVerifyWindowSec (Inr seconds))"

section \<open>The status of the vault\<close>

definition load_vault_lifecycle :: "call \<Rightarrow> VaultLifecycle app" where
  "load_vault_lifecycle cx =
    sok_or (cl_vault_account cx) VaultStatusUnavailable (\<lambda>vault_config.
    let lifecycle = \<lparr>lc_status = vc_status vault_config,
          lc_successor_vault = vc_successor_vault vault_config,
          lc_exit_deadline = sint (vc_exit_deadline vault_config),
          lc_synced_at_ms = cl_now_ns cx div 1000000\<rparr> in
    sbind (in_vault (smodify (\<lambda>st. st\<lparr>es_lifecycle := lifecycle\<rparr>))) (\<lambda>_.
    sret lifecycle))"

definition ensure_vault_allows_new_verification :: "call \<Rightarrow> unit app" where
  "ensure_vault_allows_new_verification cx =
    sbind (load_vault_lifecycle cx) (\<lambda>lifecycle.
    let status = lc_status lifecycle in
    if status = VAULT_STATUS_ACTIVE then sret ()
    else if status = VAULT_STATUS_PAUSED then sfail (Err EnclaveError.VaultPaused)
    else if status = VAULT_STATUS_MIGRATING then sfail (Err EnclaveError.VaultMigrating)
    else if status = VAULT_STATUS_RETIRED then sfail (Err EnclaveError.VaultRetired)
    else sfail (Err VaultStatusUnavailable))"

definition ensure_vault_allows_existing_reservation_ops :: "call \<Rightarrow> unit app" where
  "ensure_vault_allows_existing_reservation_ops cx =
    sbind (load_vault_lifecycle cx) (\<lambda>lifecycle.
    let status = lc_status lifecycle in
    if status = VAULT_STATUS_ACTIVE then sret ()
    else if status = VAULT_STATUS_PAUSED then sfail (Err EnclaveError.VaultPaused)
    else if status = VAULT_STATUS_MIGRATING
    then (if call_now cx \<le> lc_exit_deadline lifecycle then sret () else sfail (Err EnclaveError.VaultRetired))
    else if status = VAULT_STATUS_RETIRED then sfail (Err EnclaveError.VaultRetired)
    else sfail (Err VaultStatusUnavailable))"

definition ensure_vault_allows_withdraw :: "call \<Rightarrow> unit app" where
  "ensure_vault_allows_withdraw cx =
    sbind (load_vault_lifecycle cx) (\<lambda>lifecycle.
    let status = lc_status lifecycle in
    if status = VAULT_STATUS_ACTIVE then sret ()
    else if status = VAULT_STATUS_MIGRATING
    then (if call_now cx \<le> lc_exit_deadline lifecycle then sret () else sfail (Err EnclaveError.VaultRetired))
    else if status = VAULT_STATUS_PAUSED then sfail (Err EnclaveError.VaultPaused)
    else if status = VAULT_STATUS_RETIRED then sfail (Err EnclaveError.VaultRetired)
    else sfail (Err VaultStatusUnavailable))"

section \<open>Signatures\<close>

definition verify_ed25519_text :: "access_env \<Rightarrow> pubkey \<Rightarrow> string \<Rightarrow> string \<Rightarrow> (EnclaveError, unit) result" where
  "verify_ed25519_text ax signer message signature_b64 =
    require (ax_valid_key ax signer) InvalidClientSignature (
    ok_or (ax_base64_decode ax signature_b64) InvalidClientSignature (\<lambda>sig_bytes.
    require (length sig_bytes = 64) InvalidClientSignature (
    require (ax_verify_strict ax signer (str_bytes message) sig_bytes) InvalidClientSignature (Inr ()))))"

definition CLIENT_AUTH_MAX_WINDOW_SEC :: int where "CLIENT_AUTH_MAX_WINDOW_SEC = 300"

definition CLIENT_AUTH_MAX_CLOCK_SKEW_SEC :: int where "CLIENT_AUTH_MAX_CLOCK_SKEW_SEC = 60"

record ClientRequestAuth =
  ca_issued_at :: i64
  ca_expires_at :: i64
  ca_client_sig :: string

definition validate_client_auth_window :: "int \<Rightarrow> i64 \<Rightarrow> i64 \<Rightarrow> (EnclaveError, unit) result" where
  "validate_client_auth_window now issued_at expires_at =
    require (\<not> sint expires_at \<le> now) ClientAuthExpired (
    require (\<not> sint expires_at \<le> sint issued_at) InvalidClientAuthWindow (
    require (\<not> now + CLIENT_AUTH_MAX_CLOCK_SKEW_SEC < sint issued_at) InvalidClientAuthWindow (
    require (\<not> sint issued_at < now - CLIENT_AUTH_MAX_WINDOW_SEC) InvalidClientAuthWindow (
    require (\<not> CLIENT_AUTH_MAX_WINDOW_SEC < sint expires_at - sint issued_at) InvalidClientAuthWindow (
    Inr ())))))"

definition verify_client_request_auth ::
  "access_env \<Rightarrow> int \<Rightarrow> string \<Rightarrow> string \<Rightarrow> ClientRequestAuth \<Rightarrow> (EnclaveError, pubkey) result" where
  "verify_client_request_auth ax now client message auth =
    rbind (validate_client_auth_window now (ca_issued_at auth) (ca_expires_at auth)) (\<lambda>_.
    ok_or (ax_pubkey ax client) InvalidClientSignature (\<lambda>client_pubkey.
    rbind (verify_ed25519_text ax client_pubkey message (ca_client_sig auth)) (\<lambda>_.
    Inr client_pubkey)))"

text \<open>Every field of a signed message ends with a line break.\<close>
definition lines :: "string list \<Rightarrow> string" where
  "lines xs = concat (map (\<lambda>x. x @ newline) xs)"

definition build_balance_auth_message :: "string \<Rightarrow> i64 \<Rightarrow> i64 \<Rightarrow> string" where
  "build_balance_auth_message client issued_at expires_at =
    lines [''SUBLY402-CLIENT-BALANCE'', client, show_i64 issued_at, show_i64 expires_at]"

definition build_receipt_auth_message :: "string \<Rightarrow> string \<Rightarrow> i64 \<Rightarrow> i64 \<Rightarrow> string" where
  "build_receipt_auth_message client recipient_ata issued_at expires_at =
    lines [''SUBLY402-CLIENT-RECEIPT'', client, recipient_ata, show_i64 issued_at, show_i64 expires_at]"

definition build_withdraw_auth_message :: "string \<Rightarrow> string \<Rightarrow> u64 \<Rightarrow> i64 \<Rightarrow> i64 \<Rightarrow> string" where
  "build_withdraw_auth_message client recipient_ata amount issued_at expires_at =
    lines [''SUBLY402-CLIENT-WITHDRAW-AUTH'', client, recipient_ata, show_u64 amount,
      show_i64 issued_at, show_i64 expires_at]"

definition build_channel_open_message :: "string \<Rightarrow> string \<Rightarrow> u64 \<Rightarrow> string" where
  "build_channel_open_message client provider_id initial_deposit =
    lines [''SUBLY402-CHANNEL-OPEN'', client, provider_id, show_u64 initial_deposit]"

definition build_channel_request_message :: "string \<Rightarrow> string \<Rightarrow> u64 \<Rightarrow> string \<Rightarrow> string" where
  "build_channel_request_message channel_id request_id amount request_hash =
    lines [''SUBLY402-CHANNEL-REQUEST'', channel_id, request_id, show_u64 amount, request_hash]"

definition build_channel_finalize_message :: "string \<Rightarrow> string \<Rightarrow> string" where
  "build_channel_finalize_message channel_id adaptor_secret =
    lines [''SUBLY402-CHANNEL-FINALIZE'', channel_id, adaptor_secret]"

definition build_channel_close_message :: "string \<Rightarrow> string" where
  "build_channel_close_message channel_id = lines [''SUBLY402-CHANNEL-CLOSE'', channel_id]"

section \<open>Providers\<close>

text \<open>The headers of a request, names in lower case.  A value that is not printable ASCII is not
  read as text.\<close>
type_synonym HeaderMap = "(string, string) amap"

definition header_to_str :: "string \<Rightarrow> string option" where
  "header_to_str value_bytes =
    (if \<forall>c\<in>set value_bytes. c = CHR 0x09 \<or> (32 \<le> (of_char c :: nat) \<and> (of_char c :: nat) < 127)
     then Some value_bytes else None)"

definition header_value :: "HeaderMap \<Rightarrow> string \<Rightarrow> string option" where
  "header_value headers name = (case aget headers name of None \<Rightarrow> None | Some v \<Rightarrow> header_to_str v)"

definition PROVIDER_ID_HEADER :: string where "PROVIDER_ID_HEADER = ''x-subly402-provider-id''"

definition PROVIDER_AUTH_HEADER :: string where "PROVIDER_AUTH_HEADER = ''x-subly402-provider-auth''"

definition INTERNAL_MTLS_FINGERPRINT_HEADER :: string where
  "INTERNAL_MTLS_FINGERPRINT_HEADER = ''x-subly402-internal-mtls-fingerprint''"

definition AUTHORIZATION :: string where "AUTHORIZATION = ''authorization''"

definition bearer_header :: "HeaderMap \<Rightarrow> string option" where
  "bearer_header headers = (case header_value headers AUTHORIZATION of
      None \<Rightarrow> None | Some v \<Rightarrow> strip_prefix ''Bearer '' v)"

text \<open>\<^verbatim>\<open>if let Some(provider_id) = ... { if provider_id != ... }\<close>\<close>
definition named_provider_matches :: "HeaderMap \<Rightarrow> string \<Rightarrow> bool" where
  "named_provider_matches headers provider_id = (case header_value headers PROVIDER_ID_HEADER of
      None \<Rightarrow> True | Some named \<Rightarrow> named = provider_id)"

definition authenticate_registered_provider ::
  "access_env \<Rightarrow> ProviderRegistration \<Rightarrow> HeaderMap \<Rightarrow> (EnclaveError, unit) result" where
  "authenticate_registered_provider ax provider headers =
    (if rg_auth_mode provider = ''bearer'' then
       ok_or (rg_api_key_hash provider) InvalidProviderAuthConfig (\<lambda>api_key_hash.
       require (length api_key_hash = 32) InvalidProviderAuthConfig (
       ok_or (header_value headers PROVIDER_ID_HEADER) ProviderAuthFailed (\<lambda>provider_id.
       require (provider_id = rg_provider_id provider) ProviderIdMismatch (
       ok_or (header_value headers AUTHORIZATION) ProviderAuthFailed (\<lambda>auth_header.
       ok_or (strip_prefix ''Bearer '' auth_header) ProviderAuthFailed (\<lambda>token.
       require (ax_sha256 ax (str_bytes token) = api_key_hash) ProviderAuthFailed (Inr ())))))))
     else if rg_auth_mode provider = ''api-key'' then
       ok_or (rg_api_key_hash provider) InvalidProviderAuthConfig (\<lambda>api_key_hash.
       require (length api_key_hash = 32) InvalidProviderAuthConfig (
       require (named_provider_matches headers (rg_provider_id provider)) ProviderIdMismatch (
       ok_or (case header_value headers PROVIDER_AUTH_HEADER of
           Some token \<Rightarrow> Some token | None \<Rightarrow> bearer_header headers) ProviderAuthFailed (\<lambda>token.
       require (ax_sha256 ax (str_bytes token) = api_key_hash) ProviderAuthFailed (Inr ())))))
     else if rg_auth_mode provider = ''mtls'' then
       ok_or (rg_mtls_cert_fingerprint provider) InvalidProviderAuthConfig (\<lambda>expected.
       require (length expected = 32) InvalidProviderAuthConfig (
       require (named_provider_matches headers (rg_provider_id provider)) ProviderIdMismatch (
       ok_or (header_value headers INTERNAL_MTLS_FINGERPRINT_HEADER) ProviderAuthFailed (\<lambda>presented_hex.
       ok_or (ax_hex_decode ax presented_hex) ProviderAuthFailed (\<lambda>presented.
       require (presented = expected) ProviderAuthFailed (Inr ()))))))
     else if rg_auth_mode provider = ''none'' then
       require (named_provider_matches headers (rg_provider_id provider)) ProviderIdMismatch (Inr ())
     else Inl UnsupportedProviderAuthMode)"

definition authenticate_provider :: "access_env \<Rightarrow> HeaderMap \<Rightarrow> string \<Rightarrow> string app" where
  "authenticate_provider ax headers expected_provider_id =
    sbind (sfind (\<lambda>app. aget (es_providers (app_vault app)) expected_provider_id) ProviderNotFound) (\<lambda>provider.
    sbind (lift_result (authenticate_registered_provider ax provider headers)) (\<lambda>_.
    sret expected_provider_id))"

definition verify_channel_client_signature :: "access_env \<Rightarrow> string \<Rightarrow> string \<Rightarrow> string \<Rightarrow> unit app" where
  "verify_channel_client_signature ax channel_id message client_sig =
    sbind (channel_client channel_id) (\<lambda>client.
    lift_result (verify_ed25519_text ax client message client_sig))"

definition verify_channel_provider_auth :: "access_env \<Rightarrow> string \<Rightarrow> HeaderMap \<Rightarrow> unit app" where
  "verify_channel_provider_auth ax channel_id headers =
    sbind (sfind (\<lambda>app. map_option ch_provider_id (aget (es_active_channels (app_vault app)) channel_id))
      ChannelNotFound) (\<lambda>provider_id.
    sbind (sfind (\<lambda>app. aget (es_providers (app_vault app)) provider_id) ProviderNotFound) (\<lambda>provider.
    lift_result (authenticate_registered_provider ax provider headers)))"

section \<open>Payments: \<^verbatim>\<open>/verify\<close>\<close>

record RequestContext =
  rc_method :: string
  rc_origin :: string
  rc_path_and_query :: string
  rc_body_sha256 :: string

record PaymentPayload =
  pp_version :: u32
  pp_scheme :: string
  pp_payment_id :: string
  pp_client :: string
  pp_vault :: string
  pp_provider_id :: string
  pp_pay_to :: string
  pp_network :: string
  pp_asset_mint :: string
  pp_amount :: string
  pp_request_hash :: string
  pp_payment_details_hash :: string
  pp_expires_at :: string
  pp_nonce :: string
  pp_client_sig :: string

record VerifyRequest =
  vq_payload :: PaymentPayload
  vq_details :: "json option"
  vq_context :: RequestContext

definition compute_request_hash :: "access_env \<Rightarrow> RequestContext \<Rightarrow> string \<Rightarrow> bytes" where
  "compute_request_hash ax ctx payment_details_hash =
    ax_sha256 ax (str_bytes (lines [''SUBLY402-SVM-V1-REQ'', rc_method ctx, rc_origin ctx,
      rc_path_and_query ctx, rc_body_sha256 ctx, payment_details_hash]))"

definition payment_auth_message :: "PaymentPayload \<Rightarrow> string" where
  "payment_auth_message p =
    lines [''SUBLY402-SVM-V1-AUTH'', show_nat (unat (pp_version p)), pp_scheme p, pp_payment_id p,
      pp_client p, pp_vault p, pp_provider_id p, pp_pay_to p, pp_network p, pp_asset_mint p,
      pp_amount p, pp_request_hash p, pp_payment_details_hash p, pp_expires_at p, pp_nonce p]"

definition verify_client_signature :: "access_env \<Rightarrow> PaymentPayload \<Rightarrow> (EnclaveError, unit) result" where
  "verify_client_signature ax p =
    ok_or (ax_pubkey ax (pp_client p)) InvalidClientSignature (\<lambda>client_pubkey.
    verify_ed25519_text ax client_pubkey (payment_auth_message p) (pp_client_sig p))"

definition validate_payment_details_match_payload ::
  "json \<Rightarrow> PaymentPayload \<Rightarrow> (EnclaveError, unit) result" where
  "validate_payment_details_match_payload details p =
    rbind (payment_details_str details [''providerId'']) (\<lambda>x.
    require (x = pp_provider_id p) ProviderIdMismatch (
    rbind (payment_details_str details [''payTo'']) (\<lambda>x.
    require (x = pp_pay_to p) PayToMismatch (
    rbind (payment_details_str details [''network'']) (\<lambda>x.
    require (x = pp_network p) NetworkMismatch (
    rbind (payment_details_str details [''asset'', ''mint'']) (\<lambda>x.
    require (x = pp_asset_mint p) AssetMintMismatch (
    rbind (payment_details_str details [''amount'']) (\<lambda>x.
    require (x = pp_amount p) InvalidPaymentDetails (
    rbind (payment_details_str details [''vault'', ''config'']) (\<lambda>x.
    require (x = pp_vault p) VaultNotActive (
    Inr ()))))))))))))"

definition SCHEME :: string where "SCHEME = ''subly402-svm-v1''"

text \<open>From the check of the scheme to the window of the reservation: the client, the hash of the
  request, the amount and the window.\<close>
definition check_payment ::
  "access_env \<Rightarrow> (json \<Rightarrow> string) \<Rightarrow> int \<Rightarrow> pubkey \<Rightarrow> VerifyRequest \<Rightarrow> json \<Rightarrow>
    (EnclaveError, pubkey \<times> bytes \<times> u64 \<times> int) result" where
  "check_payment ax scalar now_ns vault_config req details =
    (let p = vq_payload req in
    require (pp_scheme p = SCHEME) InvalidScheme (
    require ((case json_get ''scheme'' details of None \<Rightarrow> None | Some v \<Rightarrow> json_as_str v) = Some SCHEME)
      InvalidScheme (
    ok_or (ax_hex_decode ax (pp_payment_details_hash p)) PaymentDetailsHashMismatch (\<lambda>provided_hash.
    require (compute_payment_details_hash ax scalar details = provided_hash) PaymentDetailsHashMismatch (
    rbind (validate_payment_details_match_payload details p) (\<lambda>_.
    require (pp_vault p = ax_base58 ax vault_config) VaultNotActive (
    ok_or (ax_rfc3339 ax (pp_expires_at p)) PaymentExpired (\<lambda>expires_at.
    require (\<not> expires_at < now_ns) PaymentExpired (
    ok_or (ax_pubkey ax (pp_client p)) InvalidClientSignature (\<lambda>client_pubkey.
    rbind (verify_client_signature ax p) (\<lambda>_.
    let computed = compute_request_hash ax (vq_context req) (pp_payment_details_hash p) in
    ok_or (ax_hex_decode ax (pp_request_hash p)) RequestHashMismatch (\<lambda>provided_request_hash.
    require (computed = provided_request_hash) RequestHashMismatch (
    ok_or (parse_u64 (pp_amount p)) (Internal ''Invalid amount'') (\<lambda>amount.
    rbind (parse_verify_window_sec details) (\<lambda>verify_window_sec.
    Inr (client_pubkey, computed, amount, verify_window_sec))))))))))))))))"

definition OPEN_PROVIDER_ID_PREFIX :: string where "OPEN_PROVIDER_ID_PREFIX = ''payto_''"

definition derive_open_provider_id :: "access_env \<Rightarrow> string \<Rightarrow> string \<Rightarrow> string \<Rightarrow> string" where
  "derive_open_provider_id ax network asset_mint pay_to =
    OPEN_PROVIDER_ID_PREFIX @ take 32 (ax_hex_encode ax (ax_sha256 ax (str_bytes
      (lines [''SUBLY402-OPEN-PROVIDER-V1'', network, asset_mint, pay_to]))))"

definition open_registration :: "PaymentPayload \<Rightarrow> pubkey \<Rightarrow> pubkey \<Rightarrow> ProviderRegistration" where
  "open_registration p settlement_token_account asset_mint =
    \<lparr>rg_provider_id = pp_provider_id p, rg_display_name = ''Open x402 seller'',
     rg_participant_pubkey = None, rg_participant_attestation_policy_hash = None,
     rg_participant_attestation_verified_at_ms = None, rg_participant_attestation_mode = None,
     rg_settlement_token_account = settlement_token_account, rg_network = pp_network p,
     rg_asset_mint = asset_mint, rg_allowed_origins = [], rg_auth_mode = ''none'',
     rg_api_key_hash = None, rg_mtls_cert_fingerprint = None\<rparr>"

definition ensure_open_provider_registered :: "access_env \<Rightarrow> PaymentPayload \<Rightarrow> int \<Rightarrow> unit app" where
  "ensure_open_provider_registered ax p now =
    sbind (sget (\<lambda>app. aget (es_providers (app_vault app)) (pp_provider_id p))) (\<lambda>known.
    if known \<noteq> None then sret ()
    else if pp_provider_id p \<noteq> derive_open_provider_id ax (pp_network p) (pp_asset_mint p) (pp_pay_to p)
    then sret ()
    else
      sok_or (ax_pubkey ax (pp_pay_to p)) InvalidPaymentDetails (\<lambda>settlement_token_account.
      sok_or (ax_pubkey ax (pp_asset_mint p)) InvalidPaymentDetails (\<lambda>asset_mint.
      open_provider_section (open_registration p settlement_token_account asset_mint) now)))"

text \<open>The registration of the provider against the payment.\<close>
definition check_provider ::
  "access_env \<Rightarrow> ProviderRegistration \<Rightarrow> VerifyRequest \<Rightarrow> (EnclaveError, unit) result" where
  "check_provider ax provider req =
    (let p = vq_payload req in
    require (pp_pay_to p = ax_base58 ax (rg_settlement_token_account provider)) PayToMismatch (
    require (pp_asset_mint p = ax_base58 ax (rg_asset_mint provider)) AssetMintMismatch (
    require (pp_network p = rg_network provider) NetworkMismatch (
    require (rg_allowed_origins provider = [] \<or>
        rc_origin (vq_context req) \<in> set (rg_allowed_origins provider)) OriginNotAllowed (
    Inr ())))))"

record VerificationReceiptEnvelope =
  ve_verification_id :: string
  ve_reservation_id :: string
  ve_payment_id :: string
  ve_client :: pubkey
  ve_provider_id :: string
  ve_amount :: u64
  ve_request_hash :: string
  ve_payment_details_hash :: string
  ve_reservation_expires_at :: int
  ve_vault_config :: pubkey
  ve_signature :: bytes
  ve_message :: bytes

definition issue_verification_receipt ::
  "enclave_env \<Rightarrow> access_env \<Rightarrow> Reservation \<Rightarrow> VerificationReceiptEnvelope app" where
  "issue_verification_receipt env ax r =
    sbind (sget (es_vault_config \<circ> app_vault)) (\<lambda>vault_config.
    let request_hash = ax_hex_encode ax (rv_request_hash r);
        payment_details_hash = ax_hex_encode ax (rv_payment_details_hash r);
        message = build_verification_receipt_message (ax_base58 ax) vault_config
          (rv_verification_id r) (rv_reservation_id r) (rv_payment_id r) (rv_client r)
          (rv_provider_id r) (rv_amount r) request_hash payment_details_hash
          (word_of_int (rv_expires_at r)) in
    sret \<lparr>ve_verification_id = rv_verification_id r, ve_reservation_id = rv_reservation_id r,
      ve_payment_id = rv_payment_id r, ve_client = rv_client r, ve_provider_id = rv_provider_id r,
      ve_amount = rv_amount r, ve_request_hash = request_hash,
      ve_payment_details_hash = payment_details_hash, ve_reservation_expires_at = rv_expires_at r,
      ve_vault_config = vault_config, ve_signature = ee_sign env message, ve_message = message\<rparr>)"

text \<open>A new reservation for a checked payment, and its receipt.\<close>
definition reserve_payment ::
  "enclave_env \<Rightarrow> access_env \<Rightarrow> call \<Rightarrow> PaymentPayload \<Rightarrow> pubkey \<Rightarrow> bytes \<Rightarrow> u64 \<Rightarrow> int \<Rightarrow>
    VerificationReceiptEnvelope app" where
  "reserve_payment env ax cx p client request_hash amount verify_window_sec =
    (let now = call_now cx; verification_id = ''ver_'' @ cl_uuid cx;
         reservation_id = ''res_'' @ cl_uuid2 cx in
    srequire (now + verify_window_sec < 2 ^ 63) InvalidVerifyWindowSec (
    if length request_hash \<noteq> 32 then sfail Panic else
    sok_or (hex_array32 ax (pp_payment_details_hash p)) PaymentDetailsHashMismatch (\<lambda>payment_details_hash.
    sbind (verify_section env (new_reservation verification_id reservation_id (pp_payment_id p) client
      (pp_provider_id p) amount request_hash payment_details_hash now (now + verify_window_sec)) now) (\<lambda>_.
    sbind (in_vault (get_reservation verification_id)) (\<lambda>r.
    issue_verification_receipt env ax r)))))"

text \<open>The response of \<^verbatim>\<open>post_verify\<close> repeats fields of the receipt.\<close>
definition post_verify ::
  "enclave_env \<Rightarrow> access_env \<Rightarrow> (json \<Rightarrow> string) \<Rightarrow> call \<Rightarrow> HeaderMap \<Rightarrow> VerifyRequest \<Rightarrow>
    VerificationReceiptEnvelope app" where
  "post_verify env ax scalar cx headers req =
    (let p = vq_payload req in
    sok_or (vq_details req) PaymentDetailsRequired (\<lambda>details.
    srequire (\<not> (cl_detector_enabled cx \<and> \<not> cl_detector_ready cx)) DepositSyncInProgress (
    sbind (ensure_vault_allows_new_verification cx) (\<lambda>_.
    sbind (sget (es_vault_config \<circ> app_vault)) (\<lambda>vault_config.
    sbind (lift_result (check_payment ax scalar (cl_now_ns cx) vault_config req details))
      (\<lambda>(client, request_hash, amount, verify_window_sec).
    sbind (ensure_open_provider_registered ax p (call_now cx)) (\<lambda>_.
    sbind (authenticate_provider ax headers (pp_provider_id p)) (\<lambda>authenticated_provider_id.
    sbind (sfind (\<lambda>app. aget (es_providers (app_vault app)) (pp_provider_id p)) ProviderNotFound) (\<lambda>provider.
    srequire (authenticated_provider_id = pp_provider_id p) ProviderIdMismatch (
    sbind (lift_result (check_provider ax provider req)) (\<lambda>_.
    sbind (sget (\<lambda>app. case aget (es_payment_id_index (app_vault app)) (pp_payment_id p) of
        None \<Rightarrow> None
      | Some verification_id \<Rightarrow> aget (es_reservations (app_vault app)) verification_id)) (\<lambda>existing.
    case existing of
      Some r \<Rightarrow>
        if length request_hash \<noteq> 32 then sfail Panic
        else if rv_request_hash r = request_hash then issue_verification_receipt env ax r
        else sfail (Err PaymentIdReused)
    | None \<Rightarrow> reserve_payment env ax cx p client request_hash amount verify_window_sec))))))))))))"

section \<open>Settlement and cancellation\<close>

record SettleResponse =
  sp_settlement_id :: string
  sp_offchain_settled_at :: int
  sp_provider_credit_amount :: u64
  sp_participant_receipt :: ReceiptResponse

definition post_settle ::
  "enclave_env \<Rightarrow> access_env \<Rightarrow> call \<Rightarrow> HeaderMap \<Rightarrow> string \<Rightarrow> SettleResponse app" where
  "post_settle env ax cx headers verification_id =
    (let now = call_now cx in
    sbind (in_vault (get_reservation verification_id)) (\<lambda>r.
    let provider_id = rv_provider_id r;
        respond = (\<lambda>settlement_id settled_at amount receipt. sret
          \<lparr>sp_settlement_id = settlement_id, sp_offchain_settled_at = settled_at,
           sp_provider_credit_amount = amount, sp_participant_receipt = receipt\<rparr>) in
    sbind (ensure_vault_allows_existing_reservation_ops cx) (\<lambda>_.
    sbind (authenticate_provider ax headers provider_id) (\<lambda>authenticated_provider_id.
    srequire (authenticated_provider_id = provider_id) ProviderIdMismatch (
    if rv_status r = SettledOffchain then
      sbind (issue_provider_receipt_locked env provider_id now) (
      respond (case rv_settlement_id r of None \<Rightarrow> [] | Some sid \<Rightarrow> sid)
        (case rv_settled_at r of None \<Rightarrow> 0 | Some t \<Rightarrow> t) (rv_amount r))
    else if rv_status r \<noteq> Reserved then
      sfail (Err (if rv_status r = Expired then EnclaveError.ReservationExpired
        else InvalidReservationStatus (debug_reservation_status (rv_status r))))
    else
      sbind (settle_section env verification_id provider_id (''set_'' @ cl_uuid cx) now) (\<lambda>decision.
      case decision of
        Idempotent settlement_id settled_at amount \<Rightarrow>
          sbind (issue_provider_receipt_locked env provider_id now) (respond settlement_id settled_at amount)
      | Fresh settlement_id settled_at amount receipt \<Rightarrow>
          respond settlement_id settled_at amount receipt))))))"

record SettlementStatusResponse =
  ss_settlement_id :: string
  ss_verification_id :: string
  ss_provider_id :: string
  ss_status :: string
  ss_batch_id :: "u64 option"
  ss_tx_signature :: "string option"

definition post_settlement_status ::
  "access_env \<Rightarrow> HeaderMap \<Rightarrow> string \<Rightarrow> SettlementStatusResponse app" where
  "post_settlement_status ax headers settlement_id =
    sbind (sfind (\<lambda>app. List.find (\<lambda>r. rv_settlement_id r = Some settlement_id)
      (avals (es_reservations (app_vault app)))) SettlementNotFound) (\<lambda>r.
    sbind (authenticate_provider ax headers (rv_provider_id r)) (\<lambda>_.
    sbind (sget (\<lambda>app. aget (es_settlement_batches (app_vault app)) settlement_id)) (\<lambda>batch_info.
    sret \<lparr>ss_settlement_id = settlement_id, ss_verification_id = rv_verification_id r,
      ss_provider_id = rv_provider_id r, ss_status = debug_reservation_status (rv_status r),
      ss_batch_id = map_option bi_batch_id batch_info,
      ss_tx_signature = map_option bi_tx_signature batch_info\<rparr>)))"

definition post_cancel ::
  "enclave_env \<Rightarrow> access_env \<Rightarrow> call \<Rightarrow> HeaderMap \<Rightarrow> string \<Rightarrow> string \<Rightarrow> unit app" where
  "post_cancel env ax cx headers verification_id reason =
    sbind (in_vault (get_reservation verification_id)) (\<lambda>r.
    sbind (ensure_vault_allows_existing_reservation_ops cx) (\<lambda>_.
    sbind (authenticate_provider ax headers (rv_provider_id r)) (\<lambda>authenticated_provider_id.
    srequire (authenticated_provider_id = rv_provider_id r) ProviderIdMismatch (
    if rv_status r = Cancelled then sret ()
    else srequire (rv_status r = Reserved)
      (InvalidReservationStatus (debug_reservation_status (rv_status r))) (
    cancel_section env verification_id reason (call_now cx))))))"

section \<open>Clients\<close>

record WithdrawAuthRequest =
  wq_client :: string
  wq_recipient_ata :: string
  wq_amount :: u64
  wq_auth :: ClientRequestAuth

definition post_withdraw_auth ::
  "enclave_env \<Rightarrow> access_env \<Rightarrow> call \<Rightarrow> WithdrawAuthRequest \<Rightarrow> (u64 \<times> int \<times> bytes \<times> bytes) app" where
  "post_withdraw_auth env ax cx req =
    sbind (ensure_vault_allows_withdraw cx) (\<lambda>_.
    let auth = wq_auth req;
        message = build_withdraw_auth_message (wq_client req) (wq_recipient_ata req) (wq_amount req)
          (ca_issued_at auth) (ca_expires_at auth) in
    sbind (lift_result (verify_client_request_auth ax (call_now cx) (wq_client req) message auth)) (\<lambda>client.
    sok_or (ax_pubkey ax (wq_recipient_ata req)) (Internal ''Invalid recipient ATA'') (\<lambda>recipient_ata.
    withdraw_auth_section env client recipient_ata (wq_amount req) (call_now cx))))"

record BalanceResponse =
  bp_client :: string
  bp_free :: u64
  bp_locked :: u64
  bp_total_deposited :: u64
  bp_total_withdrawn :: u64

definition post_balance :: "access_env \<Rightarrow> call \<Rightarrow> string \<Rightarrow> ClientRequestAuth \<Rightarrow> BalanceResponse app" where
  "post_balance ax cx client auth =
    sbind (lift_result (verify_client_request_auth ax (call_now cx) client
      (build_balance_auth_message client (ca_issued_at auth) (ca_expires_at auth)) auth)) (\<lambda>key.
    sbind (in_vault (get_balance key ClientNotFound)) (\<lambda>balance.
    sret \<lparr>bp_client = client, bp_free = cb_free balance, bp_locked = cb_locked balance,
      bp_total_deposited = cb_total_deposited balance, bp_total_withdrawn = cb_total_withdrawn balance\<rparr>))"

definition post_receipt ::
  "enclave_env \<Rightarrow> access_env \<Rightarrow> call \<Rightarrow> string \<Rightarrow> string \<Rightarrow> ClientRequestAuth \<Rightarrow> ReceiptResponse app" where
  "post_receipt env ax cx client recipient_ata auth =
    sbind (lift_result (verify_client_request_auth ax (call_now cx) client
      (build_receipt_auth_message client recipient_ata (ca_issued_at auth) (ca_expires_at auth)) auth)) (\<lambda>key.
    sok_or (ax_pubkey ax recipient_ata) (Internal ''Invalid recipient ATA'') (\<lambda>ata.
    sbind (in_vault (get_balance key ClientNotFound)) (\<lambda>balance.
    issue_participant_receipt_locked env key PARTICIPANT_KIND_CLIENT ata (cb_free balance)
      (cb_locked balance) (cb_max_lock_expires_at balance) (call_now cx))))"

section \<open>Channels\<close>

record OpenChannelRequest =
  oq_client :: string
  oq_provider_id :: string
  oq_initial_deposit :: u64
  oq_client_sig :: string

definition verify_channel_open_signature ::
  "access_env \<Rightarrow> OpenChannelRequest \<Rightarrow> (EnclaveError, unit) result" where
  "verify_channel_open_signature ax req =
    ok_or (ax_pubkey ax (oq_client req)) InvalidClientSignature (\<lambda>client_pubkey.
    verify_ed25519_text ax client_pubkey (build_channel_open_message (oq_client req)
      (oq_provider_id req) (oq_initial_deposit req)) (oq_client_sig req))"

definition post_channel_open ::
  "enclave_env \<Rightarrow> access_env \<Rightarrow> call \<Rightarrow> OpenChannelRequest \<Rightarrow> string app" where
  "post_channel_open env ax cx req =
    sbind (ensure_vault_allows_new_verification cx) (\<lambda>_.
    sok_or (ax_pubkey ax (oq_client req)) ClientNotFound (\<lambda>client.
    sbind (lift_result (verify_channel_open_signature ax req)) (\<lambda>_.
    channel_open_section env (cl_uuid cx) client (oq_provider_id req) (oq_initial_deposit req)
      (call_now cx))))"

record ChannelRequestReq =
  cq_channel_id :: string
  cq_request_id :: string
  cq_amount :: u64
  cq_request_hash :: string
  cq_client_sig :: string

definition post_channel_request ::
  "enclave_env \<Rightarrow> access_env \<Rightarrow> call \<Rightarrow> ChannelRequestReq \<Rightarrow> unit app" where
  "post_channel_request env ax cx req =
    sbind (ensure_vault_allows_new_verification cx) (\<lambda>_.
    sbind (verify_channel_client_signature ax (cq_channel_id req)
      (build_channel_request_message (cq_channel_id req) (cq_request_id req) (cq_amount req)
        (cq_request_hash req)) (cq_client_sig req)) (\<lambda>_.
    sok_or (hex_array32 ax (cq_request_hash req)) RequestHashMismatch (\<lambda>request_hash.
    channel_request_section env (cq_channel_id req) (cq_request_id req) (cq_amount req) request_hash
      (call_now cx))))"

record ChannelDeliverRequest =
  dq_channel_id :: string
  dq_adaptor_point :: string
  dq_pre_sig_r_prime :: string
  dq_pre_sig_s_prime :: string
  dq_encrypted_result :: string
  dq_result_hash :: string
  dq_provider_pubkey :: string

record AscClaimVoucherResponse =
  av_message :: bytes
  av_signature :: bytes
  av_issued_at :: int
  av_channel_id_hash :: bytes
  av_request_id_hash :: bytes

definition issue_asc_claim_voucher ::
  "enclave_env \<Rightarrow> access_env \<Rightarrow> string \<Rightarrow> string \<Rightarrow> u64 \<Rightarrow> bytes \<Rightarrow> bytes \<Rightarrow> int \<Rightarrow>
    AscClaimVoucherResponse app" where
  "issue_asc_claim_voucher env ax channel_id request_id amount request_hash provider_pubkey issued_at =
    sbind (sget (es_vault_config \<circ> app_vault)) (\<lambda>vault_config.
    let channel_id_hash = hash_identifier (ax_sha256 ax) channel_id;
        request_id_hash = hash_identifier (ax_sha256 ax) request_id;
        message = build_asc_claim_voucher_message \<lparr>cv_channel_id_hash = channel_id_hash,
          cv_request_id_hash = request_id_hash, cv_amount = amount, cv_request_hash = request_hash,
          cv_provider_pubkey = provider_pubkey, cv_issued_at = word_of_int issued_at,
          cv_vault_config = vault_config\<rparr> in
    sret \<lparr>av_message = message, av_signature = ee_sign env message, av_issued_at = issued_at,
      av_channel_id_hash = channel_id_hash, av_request_id_hash = request_id_hash\<rparr>)"

text \<open>The request is read before the delivery changes the channel; where there is none, the section
  fails.\<close>
definition post_channel_deliver ::
  "enclave_env \<Rightarrow> access_env \<Rightarrow> ('p::ab_group_add, 's::comm_ring_1) curve \<Rightarrow> call \<Rightarrow> HeaderMap \<Rightarrow>
    ChannelDeliverRequest \<Rightarrow> AscClaimVoucherResponse app" where
  "post_channel_deliver env ax C cx headers req =
    (let channel_id = dq_channel_id req in
    sbind (ensure_vault_allows_existing_reservation_ops cx) (\<lambda>_.
    sbind (verify_channel_provider_auth ax channel_id headers) (\<lambda>_.
    sok_or (hex_array32 ax (dq_adaptor_point req)) InvalidAdaptorSignature (\<lambda>adaptor_point.
    sok_or (hex_array32 ax (dq_pre_sig_r_prime req)) InvalidAdaptorSignature (\<lambda>rp.
    sok_or (hex_array32 ax (dq_pre_sig_s_prime req)) InvalidAdaptorSignature (\<lambda>sp.
    sok_or (ax_base64_decode ax (dq_encrypted_result req)) (Internal ''Invalid encrypted_result base64'')
      (\<lambda>encrypted_result.
    sok_or (ax_hex_decode ax (dq_result_hash req)) (Internal ''Invalid result_hash hex'') (\<lambda>result_hash.
    srequire (length result_hash = 32) (Internal ''result_hash must be 32 bytes'') (
    sok_or (ax_hex_decode ax (dq_provider_pubkey req)) (Internal ''Invalid provider_pubkey hex'')
      (\<lambda>provider_pubkey.
    srequire (length provider_pubkey = 32) (Internal ''provider_pubkey must be 32 bytes'') (
    sbind (sget (\<lambda>app. case aget (es_active_channels (app_vault app)) channel_id of
        None \<Rightarrow> None | Some ch \<Rightarrow> ch_active_request ch)) (\<lambda>request.
    sbind (channel_deliver_section env C (ax_sha256 ax) channel_id adaptor_point
      \<lparr>r_prime = rp, s_prime = sp\<rparr> encrypted_result result_hash provider_pubkey (call_now cx)) (\<lambda>_.
    sok_or request ChannelNotFound (\<lambda>r.
    issue_asc_claim_voucher env ax channel_id (cr_request_id r) (cr_amount r) (cr_request_hash r)
      provider_pubkey (call_now cx)))))))))))))))"

definition post_channel_finalize ::
  "enclave_env \<Rightarrow> access_env \<Rightarrow> ('p::ab_group_add, 's::comm_ring_1) curve \<Rightarrow> call \<Rightarrow> string \<Rightarrow> string \<Rightarrow>
    string \<Rightarrow> FinalizeOutcome app" where
  "post_channel_finalize env ax C cx channel_id adaptor_secret client_sig =
    sbind (ensure_vault_allows_existing_reservation_ops cx) (\<lambda>_.
    sbind (verify_channel_client_signature ax channel_id
      (build_channel_finalize_message channel_id adaptor_secret) client_sig) (\<lambda>_.
    sok_or (hex_array32 ax adaptor_secret) InvalidAdaptorSignature (\<lambda>secret.
    channel_finalize_section env C (ax_sha256 ax) channel_id secret (call_now cx))))"

definition post_channel_close ::
  "enclave_env \<Rightarrow> access_env \<Rightarrow> call \<Rightarrow> string \<Rightarrow> string \<Rightarrow> CloseOutcome app" where
  "post_channel_close env ax cx channel_id client_sig =
    sbind (ensure_vault_allows_existing_reservation_ops cx) (\<lambda>_.
    sbind (verify_channel_client_signature ax channel_id (build_channel_close_message channel_id)
      client_sig) (\<lambda>_.
    channel_close_section env (cl_uuid cx) channel_id (call_now cx)))"

section \<open>Requests\<close>

datatype api_request =
    VerifyReq HeaderMap VerifyRequest
  | SettleReq HeaderMap string
  | StatusReq HeaderMap string
  | CancelReq HeaderMap string string
  | WithdrawReq WithdrawAuthRequest
  | BalanceReq string ClientRequestAuth
  | ReceiptReq string string ClientRequestAuth
  | OpenReq OpenChannelRequest
  | ChannelReq ChannelRequestReq
  | DeliverReq HeaderMap ChannelDeliverRequest
  | FinalizeReq string string string
  | CloseReq string string

text \<open>The routes of \<^verbatim>\<open>src/enclave/src/main.rs\<close> that are open to clients and providers.\<close>
fun handle ::
  "enclave_env \<Rightarrow> access_env \<Rightarrow> (json \<Rightarrow> string) \<Rightarrow> ('p::ab_group_add, 's::comm_ring_1) curve \<Rightarrow> call \<Rightarrow>
    api_request \<Rightarrow> unit app" where
  "handle env ax scalar C cx (VerifyReq h q) = outcome (post_verify env ax scalar cx h q)"
| "handle env ax scalar C cx (SettleReq h vid) = outcome (post_settle env ax cx h vid)"
| "handle env ax scalar C cx (StatusReq h sid) = outcome (post_settlement_status ax h sid)"
| "handle env ax scalar C cx (CancelReq h vid reason) = post_cancel env ax cx h vid reason"
| "handle env ax scalar C cx (WithdrawReq q) = outcome (post_withdraw_auth env ax cx q)"
| "handle env ax scalar C cx (BalanceReq c auth) = outcome (post_balance ax cx c auth)"
| "handle env ax scalar C cx (ReceiptReq c ata auth) = outcome (post_receipt env ax cx c ata auth)"
| "handle env ax scalar C cx (OpenReq q) = outcome (post_channel_open env ax cx q)"
| "handle env ax scalar C cx (ChannelReq q) = post_channel_request env ax cx q"
| "handle env ax scalar C cx (DeliverReq h q) = outcome (post_channel_deliver env ax C cx h q)"
| "handle env ax scalar C cx (FinalizeReq cid secret sig) = outcome (post_channel_finalize env ax C cx cid secret sig)"
| "handle env ax scalar C cx (CloseReq cid sig) = outcome (post_channel_close env ax cx cid sig)"

end
