(* ===== verification/Section_Writes.thy ===== *)
theory Section_Writes
  imports Enclave_System
begin

text \<open>
  Which entries a critical section appends to the log.  \<open>logs\<close> says that the change of the ledger is
  explained by the appended entries; here are their kinds and contents.
\<close>

section \<open>What a computation appends to the log\<close>

fun is_receipt :: "WalEntry \<Rightarrow> bool" where
  "is_receipt (ParticipantReceiptIssued p k n) = True"
| "is_receipt (ParticipantReceiptMirrored p k n) = True"
| "is_receipt _ = False"

text \<open>From the state \<open>app\<close>, at most \<open>k\<close> attempts to append, and only entries with \<open>P\<close>.\<close>
definition writes :: "(WalEntry \<Rightarrow> bool) \<Rightarrow> nat \<Rightarrow> 'a app \<Rightarrow> App \<Rightarrow> bool" where
  "writes P k m app \<longleftrightarrow> (\<forall>r app'. m app = (r, app') \<longrightarrow> r \<noteq> Inl Panic \<longrightarrow>
    (\<exists>es. appended k es app app' \<and> (\<forall>e\<in>set es. P e)))"

lemma writesD:
  "writes P k m app \<Longrightarrow> m app = (r, app') \<Longrightarrow> r \<noteq> Inl Panic \<Longrightarrow>
    \<exists>es. appended k es app app' \<and> (\<forall>e\<in>set es. P e)"
  unfolding writes_def by blast

lemma writes_mono: "writes P k m app \<Longrightarrow> k \<le> l \<Longrightarrow> writes P l m app"
  unfolding writes_def using appended_mono by blast

lemma writes_sbind:
  assumes "writes P k m app" "\<And>x app1. m app = (Inr x, app1) \<Longrightarrow> writes P l (f x) app1"
  shows "writes P (k + l) (sbind m f) app"
  unfolding writes_def
proof (intro allI impI)
  fix r app'
  assume run: "sbind m f app = (r, app')" and r: "r \<noteq> Inl Panic"
  from run show "\<exists>es. appended (k + l) es app app' \<and> (\<forall>e\<in>set es. P e)"
  proof (rule sbindE)
    fix x app1
    assume m: "m app = (Inr x, app1)" and f: "f x app1 = (r, app')"
    obtain es where es: "appended k es app app1" "\<forall>e\<in>set es. P e"
      using writesD [OF assms(1) m] by auto
    obtain fs where fs: "appended l fs app1 app'" "\<forall>e\<in>set fs. P e"
      using writesD [OF assms(2) [OF m] f r] by auto
    show ?thesis
      using appended_trans [OF es(1) fs(1)] es(2) fs(2) by (intro exI [of _ "es @ fs"]) auto
  next
    fix e
    assume m: "m app = (Inl e, app')" and "r = Inl e"
    with r have "e \<noteq> Panic" by simp
    then obtain es where "appended k es app app'" "\<forall>e\<in>set es. P e"
      using writesD [OF assms(1) m] by auto
    then show ?thesis
      using appended_mono [of k es app app' "k + l"] by auto
  qed
qed

lemma appended_same_wal: "app_wal app' = app_wal app \<Longrightarrow> appended 0 [] app app'"
  by (simp add: appended_def room_def wal_entries_def)

lemma writes_quiet: "(\<And>r app'. m app = (r, app') \<Longrightarrow> app_wal app' = app_wal app) \<Longrightarrow> writes P 0 m app"
  unfolding writes_def by (intro allI impI exI [of _ "[]"]) (simp add: appended_same_wal)

lemma writes_base:
  "writes P 0 (sret x) app" "writes P 0 (sfail e) app" "writes P 0 (sget f) app" "writes P 0 (sfind g er) app"
  "writes P 0 (in_vault m) app" "writes P 0 (mark_processed s slot) app"
  by (rule writes_quiet; auto simp: sret_def sfail_def sget_def sfind_def mark_processed_def smodify_def
      elim: in_vaultE split: option.splits)+

lemma writes_next_io: "writes P 0 next_io app"
  by (auto simp: writes_def elim!: next_io_result intro!: exI [of _ "[]"])

lemma writes_srequire: "(c \<Longrightarrow> writes P k m app) \<Longrightarrow> writes P k (srequire c e m) app"
  using appended_mono [OF appended_refl, of k app]
  by (cases c) (auto simp: writes_def srequire_def intro!: exI [of _ "[]"])

lemma writes_append: "P e \<Longrightarrow> writes P 1 (wal_append_or_fail now e) app"
  unfolding writes_def
  by (intro allI impI; erule wal_append_or_fail_result) (auto intro: exI [of _ "[e]"] exI [of _ "[]"])

lemma writes_append_or_rollback: "P e \<Longrightarrow> writes P 1 (wal_append_or_rollback now e m) app"
  unfolding writes_def
  by (intro allI impI; erule (1) wal_append_or_rollback_result) (auto intro: exI [of _ "[e]"] exI [of _ "[]"])

lemmas writes_rules = writes_base writes_next_io writes_srequire writes_append writes_append_or_rollback


section \<open>The sections\<close>

lemma writes_case_option:
  "(\<And>y. x = Some y \<Longrightarrow> writes P k (f y) app) \<Longrightarrow> (x = None \<Longrightarrow> writes P k m app) \<Longrightarrow>
    writes P k (case x of None \<Rightarrow> m | Some y \<Rightarrow> f y) app"
  by (cases x) auto

lemma writes_if:
  "(c \<Longrightarrow> writes P k m app) \<Longrightarrow> (\<not> c \<Longrightarrow> writes P k m' app) \<Longrightarrow> writes P k (if c then m else m') app"
  by auto

lemma writes_issue_participant:
  assumes "\<And>e. is_receipt e \<Longrightarrow> P e"
  shows "writes P 2 (issue_participant_receipt_locked env participant kind ata free locked t now) app"
proof -
  have "writes P (0 + (0 + (1 + (0 + (1 + 0)))))
      (issue_participant_receipt_locked env participant kind ata free locked t now) app"
    unfolding issue_participant_receipt_locked_def Let_def
    by (intro writes_sbind writes_rules assms) simp_all
  then show ?thesis by (rule writes_mono) simp
qed

lemma writes_issue_client:
  assumes "\<And>e. is_receipt e \<Longrightarrow> P e"
  shows "writes P 2 (issue_client_receipt_locked env client now) app"
proof -
  have "writes P (0 + (0 + 2)) (issue_client_receipt_locked env client now) app"
    unfolding issue_client_receipt_locked_def by (intro writes_sbind writes_rules writes_issue_participant assms)
  then show ?thesis by (rule writes_mono) simp
qed

lemma writes_issue_provider:
  assumes "\<And>e. is_receipt e \<Longrightarrow> P e"
  shows "writes P 2 (issue_provider_receipt_locked env p now) app"
proof -
  have "writes P (0 + (0 + 2)) (issue_provider_receipt_locked env p now) app"
    unfolding issue_provider_receipt_locked_def Let_def
    by (intro writes_sbind writes_rules writes_issue_participant assms)
  then show ?thesis by (rule writes_mono) simp
qed

lemma writes_refresh_and_issue:
  assumes "\<And>e. is_receipt e \<Longrightarrow> P e"
  shows "writes P 2 (refresh_and_issue env c now) app"
proof -
  have "writes P (0 + (2 + 0)) (refresh_and_issue env c now) app"
    unfolding refresh_and_issue_def by (intro writes_sbind writes_rules writes_issue_client assms)
  then show ?thesis by (rule writes_mono) simp
qed

lemmas writes_receipts = writes_issue_participant writes_issue_client writes_issue_provider writes_refresh_and_issue

lemma writes_verify:
  assumes "\<And>e. is_receipt e \<Longrightarrow> P e"
    "P (ReservationCreated (rv_verification_id r) (Some (rv_reservation_id r)) (rv_payment_id r)
      (rv_client r) (rv_provider_id r) (rv_amount r) (Some (rv_request_hash r))
      (Some (rv_payment_details_hash r)) (Some (rv_created_at r)) (Some (rv_expires_at r)))"
  shows "writes P 3 (verify_section env r now) app"
proof -
  have "writes P (0 + (1 + (0 + (0 + 2)))) (verify_section env r now) app"
    unfolding verify_section_def by (intro writes_sbind writes_rules writes_receipts assms)
  then show ?thesis by (rule writes_mono) simp
qed

lemma writes_open_provider:
  assumes "aget (es_providers (app_vault app)) (rg_provider_id reg) = None \<Longrightarrow> P (ProviderRegistered reg)"
  shows "writes P 1 (open_provider_section reg now) app"
proof -
  have "writes P (0 + (1 + 0)) (open_provider_section reg now) app"
    unfolding open_provider_section_def
  proof (rule writes_sbind [OF writes_base(3)])
    fix known app1
    assume "sget (\<lambda>app. aget (es_providers (app_vault app)) (rg_provider_id reg)) app = (Inr known, app1)"
    then have "known = aget (es_providers (app_vault app)) (rg_provider_id reg)"
      by (auto simp: sget_def)
    with assms show "writes P (1 + 0) (if known \<noteq> None then sret () else
        sbind (wal_append_or_fail now (ProviderRegistered reg)) (\<lambda>_.
        in_vault (smodify (\<lambda>st. st\<lparr>es_providers := aput (rg_provider_id reg) reg (es_providers st)\<rparr>)))) app1"
      by (intro writes_if writes_sbind writes_rules) (auto intro: writes_mono [OF writes_base(1)])
  qed
  then show ?thesis by (rule writes_mono) simp
qed

lemma writes_withdraw_auth:
  assumes "\<And>e. is_receipt e \<Longrightarrow> P e"
    "\<And>n. P (WithdrawAuthorized \<lparr>pw_client = c, pw_recipient_ata = ata, pw_amount = a, pw_withdraw_nonce = n,
      pw_issued_at = now, pw_expires_at = now + 300\<rparr>)"
  shows "writes P 3 (withdraw_auth_section env c ata a now) app"
proof -
  have "writes P (0 + (0 + (0 + (1 + (2 + 0))))) (withdraw_auth_section env c ata a now) app"
    unfolding withdraw_auth_section_def Let_def by (intro writes_sbind writes_rules writes_receipts assms)
  then show ?thesis by (rule writes_mono) simp
qed

lemma writes_expire_reservation:
  assumes "\<And>e. is_receipt e \<Longrightarrow> P e"
    "\<And>r. aget (es_reservations (app_vault app)) vid = Some r \<Longrightarrow> rv_expires_at r < now \<Longrightarrow>
      P (WalEntry.ReservationExpired vid)"
  shows "writes P 3 (expire_reserved_reservation_with_lock env vid now) app"
proof -
  have "writes P (0 + (1 + (0 + (0 + (2 + 0))))) (expire_reserved_reservation_with_lock env vid now) app"
    unfolding expire_reserved_reservation_with_lock_def
  proof (rule writes_sbind [OF writes_base(5)])
    fix r app1
    assume "in_vault (get_reservation vid) app = (Inr r, app1)"
    then have r: "aget (es_reservations (app_vault app)) vid = Some r"
      by (auto elim!: in_vaultE simp: get_reservation_def result_simps)
    show "writes P (1 + (0 + (0 + (2 + 0)))) (if rv_status r \<noteq> Reserved \<or> now \<le> rv_expires_at r then sret False
        else sbind (wal_append_or_fail now (WalEntry.ReservationExpired vid)) (\<lambda>_.
          sbind (in_vault (put_reservation vid (r\<lparr>rv_status := Expired\<rparr>))) (\<lambda>_.
          sbind (in_vault (release_balance (rv_client r) (rv_amount r))) (\<lambda>_.
          sbind (refresh_and_issue env (rv_client r) now) (\<lambda>_. sret True))))) app1"
      by (intro writes_if writes_sbind writes_rules writes_receipts assms(1) assms(2) [OF r])
        (auto intro: writes_mono [OF writes_base(1)])
  qed
  then show ?thesis by (rule writes_mono) simp
qed

text \<open>A fault of a later step is also one of the computation that expired the reservation first.\<close>
lemma writes_then_fail:
  "writes P k m app \<Longrightarrow> writes P k (sbind m (\<lambda>_. sfail e)) app"
  using writes_sbind [of P k m app 0 "\<lambda>_. sfail e"] by (simp add: writes_base)

lemma writes_settle:
  assumes receipts: "\<And>e. is_receipt e \<Longrightarrow> P e"
    and settled: "\<And>r. aget (es_reservations (app_vault app)) vid = Some r \<Longrightarrow> rv_status r = Reserved \<Longrightarrow>
      now \<le> rv_expires_at r \<Longrightarrow> P (SettlementCommitted sid vid p (rv_amount r) (Some now))"
    and expired: "\<And>r. aget (es_reservations (app_vault app)) vid = Some r \<Longrightarrow> rv_expires_at r < now \<Longrightarrow>
      P (WalEntry.ReservationExpired vid)"
  shows "writes P 5 (settle_section env vid p sid now) app"
proof -
  have "writes P (0 + 5) (settle_section env vid p sid now) app"
    unfolding settle_section_def
  proof (rule writes_sbind [OF writes_base(5)], goal_cases)
    case (1 r app1)
    then have r: "aget (es_reservations (app_vault app)) vid = Some r" and app1: "app1 = app"
      by (auto elim!: in_vaultE simp: get_reservation_def result_simps)
    have expire: "writes P 5 (sbind (expire_reserved_reservation_with_lock env vid now)
        (\<lambda>_. sfail (Err EnclaveError.ReservationExpired))) app"
      by (rule writes_mono [OF writes_then_fail [OF writes_expire_reservation]])
        (use receipts expired in auto)
    show ?case
    proof (cases "rv_status r")
      case Reserved
      then have live: "P (SettlementCommitted sid vid p (rv_amount r) (Some now))" if "\<not> rv_expires_at r < now"
        using settled [OF r] that by simp
      show ?thesis
        unfolding app1 Reserved ReservationStatus.case Let_def
        by (rule writes_if, rule expire,
            rule writes_mono [where k = "0 + (0 + (0 + (1 + (0 + (2 + (2 + 0))))))"])
          (intro writes_sbind writes_rules writes_receipts receipts live, simp_all)
    qed (auto intro: writes_mono [OF writes_base(1)] writes_mono [OF writes_base(2)])
  qed
  then show ?thesis by (rule writes_mono) simp
qed

lemma writes_cancel:
  assumes receipts: "\<And>e. is_receipt e \<Longrightarrow> P e"
    and cancelled: "P (ReservationCancelled vid reason)"
  shows "writes P 3 (cancel_section env vid reason now) app"
proof -
  have "writes P (0 + (0 + (1 + (0 + 2)))) (cancel_section env vid reason now) app"
    unfolding cancel_section_def
    by (rule writes_sbind [OF writes_base(5)], rule writes_if,
        rule writes_mono [OF writes_base(1)], simp)
      (intro writes_srequire writes_sbind writes_rules writes_receipts assms)
  then show ?thesis by (rule writes_mono) simp
qed

lemma writes_channel_open:
  assumes "\<And>e. is_receipt e \<Longrightarrow> P e" "\<And>cid. P (ChannelOpened cid c p a)"
  shows "writes P 3 (channel_open_section env uuid c p a now) app"
proof -
  have "writes P (0 + (0 + (1 + (2 + 0)))) (channel_open_section env uuid c p a now) app"
    unfolding channel_open_section_def by (intro writes_sbind writes_rules writes_receipts assms)
  then show ?thesis by (rule writes_mono) simp
qed

lemma writes_channel_client: "writes P 0 (channel_client cid) app"
  unfolding channel_client_def by (rule writes_base)

lemma writes_channel_request:
  assumes "\<And>e. is_receipt e \<Longrightarrow> P e" "P (ChannelRequestSubmitted cid rid a (Some h))"
  shows "writes P 3 (channel_request_section env cid rid a h now) app"
proof -
  have "writes P (0 + (1 + (0 + 2))) (channel_request_section env cid rid a h now) app"
    unfolding channel_request_section_def
    by (intro writes_sbind writes_rules writes_receipts writes_channel_client assms)
  then show ?thesis by (rule writes_mono) simp
qed

lemma writes_channel_finalize:
  assumes "\<And>e. is_receipt e \<Longrightarrow> P e" "\<And>rid a. P (ChannelFinalized cid rid a)"
  shows "writes P 3 (channel_finalize_section env C sha256 cid secret now) app"
proof -
  have "writes P (0 + (1 + (0 + (2 + 0)))) (channel_finalize_section env C sha256 cid secret now) app"
    unfolding channel_finalize_section_def
    by (intro writes_sbind writes_rules writes_receipts writes_channel_client assms)
  then show ?thesis by (rule writes_mono) simp
qed

lemma writes_channel_close:
  assumes "\<And>e. is_receipt e \<Longrightarrow> P e" "\<And>rf e sid. P (ChannelClosed cid rf e sid)"
  shows "writes P 5 (channel_close_section env uuid cid now) app"
proof -
  have tail: "writes P 2 (if c then sbind (issue_provider_receipt_locked env p now) (\<lambda>_. sret ()) else sret ()) app1"
    for c p app1
    using writes_sbind [of P 2 "issue_provider_receipt_locked env p now" app1 0 "\<lambda>_. sret ()"]
    by (auto simp: writes_base intro: writes_mono [OF writes_base(1)] writes_issue_provider assms(1))
  have "writes P (0 + (1 + (2 + (2 + 0)))) (channel_close_section env uuid cid now) app"
    unfolding channel_close_section_def
    by (intro writes_sbind tail writes_rules writes_receipts assms)
  then show ?thesis by (rule writes_mono) simp
qed

lemma writes_expire_stale:
  assumes "\<And>e. is_receipt e \<Longrightarrow> P e"
    "\<And>ch r. aget (es_active_channels (app_vault app)) cid = Some ch \<Longrightarrow> ch_active_request ch = Some r \<Longrightarrow>
      cr_expires_at r < now \<Longrightarrow> P (WalEntry.ChannelRequestExpired cid (cr_request_id r) (cr_amount r))"
  shows "writes P 3 (expire_stale_channel_request_with_lock env cid now) app"
proof -
  have "writes P (0 + (1 + (2 + 0))) (expire_stale_channel_request_with_lock env cid now) app"
    unfolding expire_stale_channel_request_with_lock_def
  proof (rule writes_sbind [OF writes_base(5)], goal_cases)
    case (1 expired app1)
    have "P (WalEntry.ChannelRequestExpired cid (cr_request_id (eo_request out)) (cr_amount (eo_request out)))"
      if "expired = Some out" for out
      using 1 that assms(2) by (auto elim!: in_vaultE simp: expire_request_some)
    then show ?case
      by (intro writes_case_option writes_sbind writes_rules writes_receipts)
        (auto intro: writes_mono [OF writes_base(1)] assms(1))
  qed
  then show ?thesis by (rule writes_mono) simp
qed

text \<open>A delivery either stops at a check, or commits, or finds that the request has expired.\<close>
lemma channel_deliver_cases:
  assumes "channel_deliver_section env C sha256 cid tb pre enc rh pk now app = (res, app')"
  obtains "app' = app"
  | rid v1 where "wal_append_or_rollback now (ChannelAdaptorDelivered cid rid
        (Some tb) (Some (r_prime pre)) (Some (s_prime pre)) (Some enc) (Some rh) (Some pk))
        (rollback_deliver_adaptor cid rid now) (app\<lparr>app_vault := v1\<rparr>) = (res, app')"
  | "sbind (expire_stale_channel_request_with_lock env cid now) (\<lambda>_.
        sfail (Err EnclaveError.ChannelRequestExpired)) app = (res, app')"
  | "res = Inl Panic"
proof -
  obtain x v1 where m: "deliver_adaptor C sha256 cid tb pre enc rh pk now (app_vault app) = (x, v1)" by fastforce
  have same: "v1 = app_vault app" if "x = Inl (Err e)" for e
    using m deliver_adaptor_err that by blast
  show thesis
    using assms that m same unfolding channel_deliver_section_def sfind_bind sok_or_app srequire_def
    by (cases x; cases "projl x") (auto simp: in_vault_def split: option.splits if_splits)
qed

lemma writes_channel_deliver:
  assumes "\<And>e. is_receipt e \<Longrightarrow> P e"
    "\<And>rid. P (ChannelAdaptorDelivered cid rid (Some tb) (Some (r_prime pre)) (Some (s_prime pre))
      (Some enc) (Some rh) (Some pk))"
    "\<And>ch r. aget (es_active_channels (app_vault app)) cid = Some ch \<Longrightarrow> ch_active_request ch = Some r \<Longrightarrow>
      cr_expires_at r < now \<Longrightarrow> P (WalEntry.ChannelRequestExpired cid (cr_request_id r) (cr_amount r))"
  shows "writes P 3 (channel_deliver_section env C sha256 cid tb pre enc rh pk now) app"
  unfolding writes_def
proof (intro allI impI)
  fix res app'
  assume run: "channel_deliver_section env C sha256 cid tb pre enc rh pk now app = (res, app')"
    and res: "res \<noteq> Inl Panic"
  from run show "\<exists>es. appended 3 es app app' \<and> (\<forall>e\<in>set es. P e)"
  proof (cases rule: channel_deliver_cases)
    case 1
    then show ?thesis
      using appended_mono [OF appended_refl, of 3 app] by (intro exI [of _ "[]"]) simp
  next
    case (2 rid v1)
    from writesD [OF writes_append_or_rollback [where P = P, OF assms(2)] this res]
    obtain es where "appended 1 es app app'" "\<forall>e\<in>set es. P e" by auto
    then show ?thesis
      using appended_mono [of 1 es app app' 3] by auto
  next
    case 3
    have "writes P 3 (expire_stale_channel_request_with_lock env cid now) app"
      by (rule writes_expire_stale) (use assms in auto)
    from writesD [OF writes_then_fail [OF this] 3 res] show ?thesis by simp
  qed (simp add: res)
qed

end
