(* ===== verification/Requests_Safe.thy ===== *)
theory Requests_Safe
  imports Requests Section_Writes
begin

text \<open>
  Who may do what.  \<open>authorized\<close> says, for every kind of entry in the log, what a request must
  carry for that entry: the signature of the client whose balance or channel it concerns, or the
  credentials of the provider.  The theorem is that a request, whatever it contains and whatever
  fails, changes the ledger only by entries that it is authorized for.
\<close>

section \<open>The specification\<close>

text \<open>The message carries a valid signature of the key.\<close>
definition signed :: "access_env \<Rightarrow> pubkey \<Rightarrow> string \<Rightarrow> string \<Rightarrow> bool" where
  "signed ax key message signature_b64 \<longleftrightarrow>
    (\<exists>sig. ax_base64_decode ax signature_b64 = Some sig \<and> length sig = 64 \<and> ax_valid_key ax key \<and>
      ax_verify_strict ax key (str_bytes message) sig)"

text \<open>The token or certificate of the headers is the one the provider has registered.\<close>
definition presents_credentials :: "access_env \<Rightarrow> ProviderRegistration \<Rightarrow> HeaderMap \<Rightarrow> bool" where
  "presents_credentials ax reg headers \<longleftrightarrow>
    rg_auth_mode reg = ''none'' \<or>
    rg_auth_mode reg \<in> {''bearer'', ''api-key''} \<and>
      (\<exists>token. (header_value headers PROVIDER_AUTH_HEADER = Some token \<or>
          header_value headers AUTHORIZATION = Some (''Bearer '' @ token)) \<and>
        rg_api_key_hash reg = Some (ax_sha256 ax (str_bytes token))) \<or>
    rg_auth_mode reg = ''mtls'' \<and>
      (\<exists>hex. header_value headers INTERNAL_MTLS_FINGERPRINT_HEADER = Some hex \<and>
        ax_hex_decode ax hex \<noteq> None \<and> rg_mtls_cert_fingerprint reg = ax_hex_decode ax hex)"

definition vault_active :: "call \<Rightarrow> bool" where
  "vault_active cx \<longleftrightarrow> (\<exists>vc. cl_vault_account cx = Some vc \<and> vc_status vc = VAULT_STATUS_ACTIVE)"

text \<open>Active, or migrating with the exit still open.\<close>
definition vault_serving :: "call \<Rightarrow> bool" where
  "vault_serving cx \<longleftrightarrow> (\<exists>vc. cl_vault_account cx = Some vc \<and>
    (vc_status vc = VAULT_STATUS_ACTIVE \<or>
     vc_status vc = VAULT_STATUS_MIGRATING \<and> call_now cx \<le> sint (vc_exit_deadline vc)))"

text \<open>A recent signature of a client's request, valid for at most five minutes.\<close>
definition recent :: "call \<Rightarrow> ClientRequestAuth \<Rightarrow> bool" where
  "recent cx auth \<longleftrightarrow> call_now cx < sint (ca_expires_at auth) \<and>
    sint (ca_issued_at auth) \<le> call_now cx + 60 \<and> call_now cx - 300 \<le> sint (ca_issued_at auth) \<and>
    sint (ca_expires_at auth) \<le> sint (ca_issued_at auth) + 300"

text \<open>The client has signed the payment, it has not expired, it is for this vault, and its hash is
  that of the request.\<close>
definition payment_signed :: "access_env \<Rightarrow> call \<Rightarrow> VaultState \<Rightarrow> VerifyRequest \<Rightarrow> pubkey \<Rightarrow> bool" where
  "payment_signed ax cx v q c \<longleftrightarrow>
    (let p = vq_payload q in
     vault_active cx \<and> ax_pubkey ax (pp_client p) = Some c \<and>
     signed ax c (payment_auth_message p) (pp_client_sig p) \<and>
     pp_vault p = ax_base58 ax (es_vault_config v) \<and>
     (\<exists>t. ax_rfc3339 ax (pp_expires_at p) = Some t \<and> cl_now_ns cx \<le> t) \<and>
     ax_hex_decode ax (pp_request_hash p) =
       Some (compute_request_hash ax (vq_context q) (pp_payment_details_hash p)))"

text \<open>The registration an unknown open provider gets from a payment.\<close>
definition opens_provider :: "access_env \<Rightarrow> PaymentPayload \<Rightarrow> ProviderRegistration \<Rightarrow> bool" where
  "opens_provider ax p reg \<longleftrightarrow>
    pp_provider_id p = derive_open_provider_id ax (pp_network p) (pp_asset_mint p) (pp_pay_to p) \<and>
    (\<exists>acc mint. ax_pubkey ax (pp_pay_to p) = Some acc \<and> ax_pubkey ax (pp_asset_mint p) = Some mint \<and>
      reg = open_registration p acc mint)"

text \<open>The registered provider of a payment, its credentials, and the terms it has registered.\<close>
definition provider_agrees ::
  "access_env \<Rightarrow> VaultState \<Rightarrow> HeaderMap \<Rightarrow> VerifyRequest \<Rightarrow> bool" where
  "provider_agrees ax v h q \<longleftrightarrow>
    (let p = vq_payload q in
     \<exists>reg. (aget (es_providers v) (pp_provider_id p) = Some reg \<or>
         aget (es_providers v) (pp_provider_id p) = None \<and> opens_provider ax p reg) \<and>
       presents_credentials ax reg h \<and>
       pp_pay_to p = ax_base58 ax (rg_settlement_token_account reg) \<and>
       pp_asset_mint p = ax_base58 ax (rg_asset_mint reg) \<and> pp_network p = rg_network reg \<and>
       (rg_allowed_origins reg = [] \<or> rc_origin (vq_context q) \<in> set (rg_allowed_origins reg)))"

definition provider_of :: "VaultState \<Rightarrow> string \<Rightarrow> access_env \<Rightarrow> HeaderMap \<Rightarrow> bool" where
  "provider_of v p ax h \<longleftrightarrow> (\<exists>reg. aget (es_providers v) p = Some reg \<and> presents_credentials ax reg h)"

definition client_of_channel_signed ::
  "access_env \<Rightarrow> VaultState \<Rightarrow> string \<Rightarrow> string \<Rightarrow> string \<Rightarrow> bool" where
  "client_of_channel_signed ax v cid message sig \<longleftrightarrow>
    (\<exists>ch. aget (es_active_channels v) cid = Some ch \<and> signed ax (ch_client ch) message sig)"

text \<open>What a request in the state \<open>v\<close> may enter into the log, besides receipts.\<close>
fun verify_authorized ::
  "access_env \<Rightarrow> call \<Rightarrow> VaultState \<Rightarrow> HeaderMap \<Rightarrow> VerifyRequest \<Rightarrow> WalEntry \<Rightarrow> bool" where
  "verify_authorized ax cx v h q (ReservationCreated vid res pid c p a rh dh ct et) \<longleftrightarrow>
    payment_signed ax cx v q c \<and> provider_agrees ax v h q \<and> pid = pp_payment_id (vq_payload q) \<and>
    p = pp_provider_id (vq_payload q) \<and> parse_u64 (pp_amount (vq_payload q)) = Some a \<and>
    rh = ax_hex_decode ax (pp_request_hash (vq_payload q)) \<and>
    dh = ax_hex_decode ax (pp_payment_details_hash (vq_payload q))"
| "verify_authorized ax cx v h q (ProviderRegistered reg) \<longleftrightarrow>
    (\<exists>c. payment_signed ax cx v q c) \<and> opens_provider ax (vq_payload q) reg \<and>
    aget (es_providers v) (rg_provider_id reg) = None"
| "verify_authorized ax cx v h q _ \<longleftrightarrow> False"

fun settle_authorized :: "access_env \<Rightarrow> call \<Rightarrow> VaultState \<Rightarrow> HeaderMap \<Rightarrow> string \<Rightarrow> WalEntry \<Rightarrow> bool" where
  "settle_authorized ax cx v h vid (SettlementCommitted sid vid' p a t) \<longleftrightarrow>
    vault_serving cx \<and> vid' = vid \<and> provider_of v p ax h \<and>
    (\<exists>r. aget (es_reservations v) vid = Some r \<and> rv_status r = Reserved \<and> p = rv_provider_id r \<and>
      a = rv_amount r \<and> call_now cx \<le> rv_expires_at r)"
| "settle_authorized ax cx v h vid (WalEntry.ReservationExpired vid') \<longleftrightarrow>
    vid' = vid \<and> (\<exists>r. aget (es_reservations v) vid = Some r \<and> rv_expires_at r < call_now cx)"
| "settle_authorized ax cx v h vid _ \<longleftrightarrow> False"

fun cancel_authorized :: "access_env \<Rightarrow> call \<Rightarrow> VaultState \<Rightarrow> HeaderMap \<Rightarrow> string \<Rightarrow> WalEntry \<Rightarrow> bool" where
  "cancel_authorized ax cx v h vid (ReservationCancelled vid' reason) \<longleftrightarrow>
    vault_serving cx \<and> vid' = vid \<and>
    (\<exists>r. aget (es_reservations v) vid = Some r \<and> provider_of v (rv_provider_id r) ax h)"
| "cancel_authorized ax cx v h vid _ \<longleftrightarrow> False"

fun withdraw_authorized :: "access_env \<Rightarrow> call \<Rightarrow> WithdrawAuthRequest \<Rightarrow> WalEntry \<Rightarrow> bool" where
  "withdraw_authorized ax cx q (WithdrawAuthorized w) \<longleftrightarrow>
    vault_serving cx \<and> ax_pubkey ax (wq_client q) = Some (pw_client w) \<and>
    ax_pubkey ax (wq_recipient_ata q) = Some (pw_recipient_ata w) \<and> pw_amount w = wq_amount q \<and>
    recent cx (wq_auth q) \<and>
    signed ax (pw_client w) (build_withdraw_auth_message (wq_client q) (wq_recipient_ata q) (wq_amount q)
      (ca_issued_at (wq_auth q)) (ca_expires_at (wq_auth q))) (ca_client_sig (wq_auth q))"
| "withdraw_authorized ax cx q _ \<longleftrightarrow> False"

fun open_authorized :: "access_env \<Rightarrow> call \<Rightarrow> OpenChannelRequest \<Rightarrow> WalEntry \<Rightarrow> bool" where
  "open_authorized ax cx q (ChannelOpened cid c p a) \<longleftrightarrow>
    vault_active cx \<and> ax_pubkey ax (oq_client q) = Some c \<and> p = oq_provider_id q \<and>
    a = oq_initial_deposit q \<and>
    signed ax c (build_channel_open_message (oq_client q) p a) (oq_client_sig q)"
| "open_authorized ax cx q _ \<longleftrightarrow> False"

fun request_authorized :: "access_env \<Rightarrow> call \<Rightarrow> VaultState \<Rightarrow> ChannelRequestReq \<Rightarrow> WalEntry \<Rightarrow> bool" where
  "request_authorized ax cx v q (ChannelRequestSubmitted cid rid a h) \<longleftrightarrow>
    vault_active cx \<and> cid = cq_channel_id q \<and> rid = cq_request_id q \<and> a = cq_amount q \<and>
    h = ax_hex_decode ax (cq_request_hash q) \<and>
    client_of_channel_signed ax v cid (build_channel_request_message cid rid a (cq_request_hash q))
      (cq_client_sig q)"
| "request_authorized ax cx v q _ \<longleftrightarrow> False"

fun deliver_authorized ::
  "access_env \<Rightarrow> call \<Rightarrow> VaultState \<Rightarrow> HeaderMap \<Rightarrow> ChannelDeliverRequest \<Rightarrow> WalEntry \<Rightarrow> bool" where
  "deliver_authorized ax cx v h q (ChannelAdaptorDelivered cid rid tb rp sp enc rh pk) \<longleftrightarrow>
    vault_serving cx \<and> cid = dq_channel_id q \<and>
    (\<exists>ch. aget (es_active_channels v) cid = Some ch \<and> provider_of v (ch_provider_id ch) ax h)"
| "deliver_authorized ax cx v h q (WalEntry.ChannelRequestExpired cid rid a) \<longleftrightarrow>
    cid = dq_channel_id q \<and> (\<exists>ch r. aget (es_active_channels v) cid = Some ch \<and>
      ch_active_request ch = Some r \<and> cr_request_id r = rid \<and> cr_expires_at r < call_now cx)"
| "deliver_authorized ax cx v h q _ \<longleftrightarrow> False"

fun finalize_authorized ::
  "access_env \<Rightarrow> call \<Rightarrow> VaultState \<Rightarrow> string \<Rightarrow> string \<Rightarrow> string \<Rightarrow> WalEntry \<Rightarrow> bool" where
  "finalize_authorized ax cx v cid secret sig (ChannelFinalized cid' rid a) \<longleftrightarrow>
    vault_serving cx \<and> cid' = cid \<and>
    client_of_channel_signed ax v cid (build_channel_finalize_message cid secret) sig"
| "finalize_authorized ax cx v cid secret sig _ \<longleftrightarrow> False"

fun close_authorized :: "access_env \<Rightarrow> call \<Rightarrow> VaultState \<Rightarrow> string \<Rightarrow> string \<Rightarrow> WalEntry \<Rightarrow> bool" where
  "close_authorized ax cx v cid sig (ChannelClosed cid' rf e sid) \<longleftrightarrow>
    vault_serving cx \<and> cid' = cid \<and>
    client_of_channel_signed ax v cid (build_channel_close_message cid) sig"
| "close_authorized ax cx v cid sig _ \<longleftrightarrow> False"

text \<open>Requests for a balance, a status or a receipt enter nothing else.\<close>
fun authorized :: "access_env \<Rightarrow> call \<Rightarrow> VaultState \<Rightarrow> api_request \<Rightarrow> WalEntry \<Rightarrow> bool" where
  "authorized ax cx v (VerifyReq h q) e = verify_authorized ax cx v h q e"
| "authorized ax cx v (SettleReq h vid) e = settle_authorized ax cx v h vid e"
| "authorized ax cx v (CancelReq h vid reason) e = cancel_authorized ax cx v h vid e"
| "authorized ax cx v (WithdrawReq q) e = withdraw_authorized ax cx q e"
| "authorized ax cx v (OpenReq q) e = open_authorized ax cx q e"
| "authorized ax cx v (ChannelReq q) e = request_authorized ax cx v q e"
| "authorized ax cx v (DeliverReq h q) e = deliver_authorized ax cx v h q e"
| "authorized ax cx v (FinalizeReq cid secret sig) e = finalize_authorized ax cx v cid secret sig e"
| "authorized ax cx v (CloseReq cid sig) e = close_authorized ax cx v cid sig e"
| "authorized ax cx v _ e = False"

section \<open>Checks\<close>

text \<open>Before its critical section a handler changes nothing but the copy of the vault's status.\<close>
definition touched :: "App \<Rightarrow> App \<Rightarrow> bool" where
  "touched app app' \<longleftrightarrow> (\<exists>lc. app' = app\<lparr>app_vault := (app_vault app)\<lparr>es_lifecycle := lc\<rparr>\<rparr>)"

lemma touched_refl [simp]: "touched app app"
  unfolding touched_def by (intro exI [of _ "es_lifecycle (app_vault app)"]) simp

lemma touched_vault: "touched app (app\<lparr>app_vault := (app_vault app)\<lparr>es_lifecycle := lc\<rparr>\<rparr>)"
  unfolding touched_def by blast

lemma touched_sel:
  assumes "touched app app'"
  shows "app_wal app' = app_wal app" "app_io app' = app_io app"
    "es_vault_config (app_vault app') = es_vault_config (app_vault app)"
    "es_client_balances (app_vault app') = es_client_balances (app_vault app)"
    "es_reservations (app_vault app') = es_reservations (app_vault app)"
    "es_providers (app_vault app') = es_providers (app_vault app)"
    "es_provider_credits (app_vault app') = es_provider_credits (app_vault app)"
    "es_settlement_history (app_vault app') = es_settlement_history (app_vault app)"
    "es_pending_withdrawals (app_vault app') = es_pending_withdrawals (app_vault app)"
    "es_active_channels (app_vault app') = es_active_channels (app_vault app)"
    "es_withdraw_nonce (app_vault app') = es_withdraw_nonce (app_vault app)"
    "ledger_of (app_vault app') = ledger_of (app_vault app)"
  using assms by (auto simp: touched_def ledger_of_def erase_def)

lemma touched_logs: "touched app app' \<Longrightarrow> logs C sha256 0 app app'"
  by (rule logs_same) (simp_all add: appended_same_wal touched_sel same_books_def)

lemma touched_inv: "touched app app' \<Longrightarrow> app_inv C sha256 app' = app_inv C sha256 app"
  by (simp add: app_inv_def touched_sel)

lemma load_vault_lifecycle_result:
  assumes "load_vault_lifecycle cx app = (r, app')"
  shows "touched app app'"
    "r = Inr lc \<Longrightarrow> \<exists>vc. cl_vault_account cx = Some vc \<and> lc_status lc = vc_status vc \<and>
      lc_exit_deadline lc = sint (vc_exit_deadline vc)"
  using assms
  by (auto simp: load_vault_lifecycle_def sok_or_def sbind_def in_vault_def smodify_def sret_def sfail_def Let_def
      touched_vault split: option.splits)

lemma ensure_new_result:
  assumes "ensure_vault_allows_new_verification cx app = (r, app')"
  shows "touched app app'" "r = Inr u \<Longrightarrow> vault_active cx"
proof -
  obtain r1 app1 where load: "load_vault_lifecycle cx app = (r1, app1)" by fastforce
  note l = load_vault_lifecycle_result [OF load]
  show "touched app app'" "r = Inr u \<Longrightarrow> vault_active cx"
    using assms l load
    by (auto simp: ensure_vault_allows_new_verification_def sbind_def Let_def sret_def sfail_def vault_active_def
        split: sum.splits if_splits)
qed

lemma ensure_existing_result:
  assumes "ensure_vault_allows_existing_reservation_ops cx app = (r, app')"
  shows "touched app app'" "r = Inr u \<Longrightarrow> vault_serving cx"
proof -
  obtain r1 app1 where load: "load_vault_lifecycle cx app = (r1, app1)" by fastforce
  note l = load_vault_lifecycle_result [OF load]
  show "touched app app'" "r = Inr u \<Longrightarrow> vault_serving cx"
    using assms l load
    by (auto simp: ensure_vault_allows_existing_reservation_ops_def sbind_def Let_def sret_def sfail_def
        vault_serving_def split: sum.splits if_splits)
qed

lemma ensure_withdraw_result:
  assumes "ensure_vault_allows_withdraw cx app = (r, app')"
  shows "touched app app'" "r = Inr u \<Longrightarrow> vault_serving cx"
proof -
  obtain r1 app1 where load: "load_vault_lifecycle cx app = (r1, app1)" by fastforce
  note l = load_vault_lifecycle_result [OF load]
  show "touched app app'" "r = Inr u \<Longrightarrow> vault_serving cx"
    using assms l load
    by (auto simp: ensure_vault_allows_withdraw_def sbind_def Let_def sret_def sfail_def
        vault_serving_def split: sum.splits if_splits)
qed

lemma verify_ed25519_text_ok:
  "verify_ed25519_text ax key message sig = Inr u \<Longrightarrow> signed ax key message sig"
  by (auto simp: verify_ed25519_text_def result_simps signed_def)

lemma strip_prefix_Some: "strip_prefix p s = Some t \<Longrightarrow> s = p @ t"
  by (metis append_take_drop_id option.distinct(1) option.inject strip_prefix_def)

lemma bearer_header_Some: "bearer_header h = Some t \<Longrightarrow> header_value h AUTHORIZATION = Some (''Bearer '' @ t)"
  by (auto simp: bearer_header_def dest: strip_prefix_Some split: option.splits)

lemma authenticate_registered_provider_ok:
  assumes "authenticate_registered_provider ax reg h = Inr u"
  shows "presents_credentials ax reg h"
proof -
  consider "rg_auth_mode reg = ''bearer''" | "rg_auth_mode reg = ''api-key''" | "rg_auth_mode reg = ''mtls''"
    | "rg_auth_mode reg = ''none''"
    using assms unfolding authenticate_registered_provider_def by (auto simp del: char.simps split: if_splits)
  then show ?thesis
  proof cases
    case 1
    then obtain token where "header_value h AUTHORIZATION = Some (''Bearer '' @ token)"
        "rg_api_key_hash reg = Some (ax_sha256 ax (str_bytes token))"
      using assms unfolding authenticate_registered_provider_def
      by (auto simp: result_simps dest: strip_prefix_Some)
    with 1 show ?thesis unfolding presents_credentials_def by blast
  next
    case 2
    then obtain token where "(case header_value h PROVIDER_AUTH_HEADER of
        Some token \<Rightarrow> Some token | None \<Rightarrow> bearer_header h) = Some token"
        "rg_api_key_hash reg = Some (ax_sha256 ax (str_bytes token))"
      using assms unfolding authenticate_registered_provider_def by (auto simp: result_simps)
    moreover from this have "header_value h PROVIDER_AUTH_HEADER = Some token \<or>
        header_value h AUTHORIZATION = Some (''Bearer '' @ token)"
      using bearer_header_Some by (cases "header_value h PROVIDER_AUTH_HEADER") simp_all
    ultimately show ?thesis using 2 unfolding presents_credentials_def by blast
  next
    case 3
    then obtain hex bs where hex: "header_value h INTERNAL_MTLS_FINGERPRINT_HEADER = Some hex"
        "ax_hex_decode ax hex = Some bs" "rg_mtls_cert_fingerprint reg = Some bs"
      using assms unfolding authenticate_registered_provider_def by (auto simp: result_simps)
    show ?thesis
      unfolding presents_credentials_def
      by (intro disjI2 conjI 3 exI [of _ hex]) (simp_all add: hex)
  qed (simp add: presents_credentials_def)
qed

lemma verify_client_request_auth_ok:
  assumes "verify_client_request_auth ax (call_now cx) client message auth = Inr key"
  shows "ax_pubkey ax client = Some key" "signed ax key message (ca_client_sig auth)" "recent cx auth"
  using assms
  by (auto simp: verify_client_request_auth_def validate_client_auth_window_def result_simps recent_def
      CLIENT_AUTH_MAX_CLOCK_SKEW_SEC_def CLIENT_AUTH_MAX_WINDOW_SEC_def dest: verify_ed25519_text_ok)

lemma authenticate_provider_result:
  assumes "authenticate_provider ax h p app = (r, app')"
  shows "app' = app" "r = Inr x \<Longrightarrow> x = p \<and> provider_of (app_vault app) p ax h"
  using assms
  by (auto simp: authenticate_provider_def sbind_def sfind_def lift_result_def sret_def sfail_def provider_of_def
      split: option.splits sum.splits dest: authenticate_registered_provider_ok)

lemma verify_channel_client_signature_result:
  assumes "verify_channel_client_signature ax cid message sig app = (r, app')"
  shows "app' = app" "r = Inr x \<Longrightarrow> client_of_channel_signed ax (app_vault app) cid message sig"
  using assms
  by (auto simp: verify_channel_client_signature_def channel_client_def sbind_def sfind_def lift_result_def
      sret_def sfail_def client_of_channel_signed_def split: option.splits sum.splits dest: verify_ed25519_text_ok)

lemma verify_channel_provider_auth_result:
  assumes "verify_channel_provider_auth ax cid h app = (r, app')"
  shows "app' = app" "r = Inr x \<Longrightarrow> \<exists>ch. aget (es_active_channels (app_vault app)) cid = Some ch \<and>
    provider_of (app_vault app) (ch_provider_id ch) ax h"
  using assms
  by (auto simp: verify_channel_provider_auth_def sbind_def sfind_def lift_result_def sret_def sfail_def
      provider_of_def split: option.splits sum.splits dest: authenticate_registered_provider_ok)

section \<open>Steps of a handler\<close>

text \<open>A change of the ledger that is explained by appended entries, all of them with \<open>P\<close>.\<close>
definition reaches ::
  "('p::ab_group_add, 's::comm_ring_1) curve \<Rightarrow> (bytes \<Rightarrow> bytes) \<Rightarrow> (WalEntry \<Rightarrow> bool) \<Rightarrow> nat \<Rightarrow> App \<Rightarrow> App \<Rightarrow> bool" where
  "reaches C sha256 P k app app' \<longleftrightarrow>
    logs C sha256 k app app' \<and> (\<exists>es. appended k es app app' \<and> (\<forall>e\<in>set es. P e))"

lemma reaches_mono: "reaches C sha256 P k app app' \<Longrightarrow> k \<le> l \<Longrightarrow> reaches C sha256 P l app app'"
  unfolding reaches_def using logs_mono appended_mono by blast

lemma reaches_trans:
  assumes "reaches C sha256 P k a b" "reaches C sha256 P l b c"
  shows "reaches C sha256 P (k + l) a c"
proof -
  obtain es fs where "appended k es a b" "\<forall>e\<in>set es. P e" "appended l fs b c" "\<forall>e\<in>set fs. P e"
    using assms unfolding reaches_def by blast
  then have "appended (k + l) (es @ fs) a c" "\<forall>e\<in>set (es @ fs). P e"
    using appended_trans [of k es a b l fs c] by auto
  with assms show ?thesis
    unfolding reaches_def using logs_trans by blast
qed

lemma reaches_section:
  assumes "writes P k m app" "m app = (x, app')" "x \<noteq> Inl Panic" "logs C sha256 k app app'"
  shows "reaches C sha256 P k app app'"
  unfolding reaches_def using assms(4) writesD [OF assms(1-3)] by blast

lemma touched_reaches: "touched app app' \<Longrightarrow> reaches C sha256 P k app app'"
  by (rule reaches_mono [of _ _ _ 0])
    (auto simp: reaches_def touched_logs touched_sel intro!: exI [of _ "[]"] appended_same_wal)

lemma touched_then:
  assumes "touched app app1" "reaches C sha256 P k app1 app'" "k \<le> l"
  shows "reaches C sha256 P l app app'"
  using reaches_trans [OF touched_reaches [OF assms(1), of C sha256 P 0] assms(2)] assms(3)
  by (simp add: reaches_mono)

text \<open>With room in the log, the appended entries are the ones that explain the ledger.\<close>
lemma reachesD:
  assumes "reaches C sha256 P k app app'" "room k app"
  shows "\<exists>es. wal_entries app' = wal_entries app @ es \<and>
    lsteps C sha256 es (ledger_of (app_vault app)) = Some (ledger_of (app_vault app')) \<and> (\<forall>e\<in>set es. P e)"
proof -
  obtain es fs where es: "appended k es app app'"
      "lsteps C sha256 es (ledger_of (app_vault app)) = Some (ledger_of (app_vault app'))"
    and fs: "appended k fs app app'" "\<forall>e\<in>set fs. P e"
    using assms(1) unfolding reaches_def logs_def by blast
  have "wal_entries app' = wal_entries app @ es" "wal_entries app' = wal_entries app @ fs"
    using es(1) fs(1) assms(2) unfolding appended_def by (metis add_0_right)+
  with es fs show ?thesis by auto
qed

section \<open>The handlers\<close>

lemmas step_defs = sbind_def sok_or_def srequire_def lift_result_def sret_def sfail_def sget_def sfind_def

lemma post_withdraw_auth_cases:
  assumes "post_withdraw_auth env ax cx q app = (r, app')"
  obtains "touched app app'"
  | c ata app1 where "touched app app1" "vault_serving cx" "ax_pubkey ax (wq_recipient_ata q) = Some ata"
    "verify_client_request_auth ax (call_now cx) (wq_client q) (build_withdraw_auth_message (wq_client q)
      (wq_recipient_ata q) (wq_amount q) (ca_issued_at (wq_auth q)) (ca_expires_at (wq_auth q))) (wq_auth q) = Inr c"
    "withdraw_auth_section env c ata (wq_amount q) (call_now cx) app1 = (r, app')"
proof -
  obtain r1 app1 where e: "ensure_vault_allows_withdraw cx app = (r1, app1)" by fastforce
  note er = ensure_withdraw_result [OF e]
  show thesis
    using assms er that unfolding post_withdraw_auth_def Let_def
    by (auto simp: step_defs e split: sum.splits option.splits)
qed

lemma post_channel_open_cases:
  assumes "post_channel_open env ax cx q app = (r, app')"
  obtains "touched app app'"
  | c app1 where "touched app app1" "vault_active cx" "ax_pubkey ax (oq_client q) = Some c"
    "signed ax c (build_channel_open_message (oq_client q) (oq_provider_id q) (oq_initial_deposit q)) (oq_client_sig q)"
    "channel_open_section env (cl_uuid cx) c (oq_provider_id q) (oq_initial_deposit q) (call_now cx) app1 = (r, app')"
proof -
  obtain r1 app1 where e: "ensure_vault_allows_new_verification cx app = (r1, app1)" by fastforce
  note er = ensure_new_result [OF e]
  show thesis
    using assms er that unfolding post_channel_open_def
    by (auto simp: step_defs e verify_channel_open_signature_def result_simps
        split: sum.splits option.splits dest: verify_ed25519_text_ok)
qed

lemma post_channel_request_cases:
  assumes "post_channel_request env ax cx q app = (r, app')"
  obtains "touched app app'"
  | h app1 where "touched app app1" "vault_active cx" "ax_hex_decode ax (cq_request_hash q) = Some h"
    "client_of_channel_signed ax (app_vault app) (cq_channel_id q) (build_channel_request_message
      (cq_channel_id q) (cq_request_id q) (cq_amount q) (cq_request_hash q)) (cq_client_sig q)"
    "channel_request_section env (cq_channel_id q) (cq_request_id q) (cq_amount q) h (call_now cx) app1 = (r, app')"
proof -
  obtain r1 app1 where e: "ensure_vault_allows_new_verification cx app = (r1, app1)" by fastforce
  obtain r2 app2 where s: "verify_channel_client_signature ax (cq_channel_id q) (build_channel_request_message
      (cq_channel_id q) (cq_request_id q) (cq_amount q) (cq_request_hash q)) (cq_client_sig q) app1 = (r2, app2)"
    by fastforce
  note er = ensure_new_result [OF e] and sr = verify_channel_client_signature_result [OF s]
  show thesis
    using assms er sr that touched_sel [OF er(1)] unfolding post_channel_request_def
    by (auto simp: step_defs e s hex_array32_def client_of_channel_signed_def
        split: sum.splits option.splits if_splits)
qed

lemma post_channel_finalize_cases:
  assumes "post_channel_finalize env ax C cx cid secret sig app = (r, app')"
  obtains "touched app app'"
  | t app1 where "touched app app1" "vault_serving cx"
    "client_of_channel_signed ax (app_vault app) cid (build_channel_finalize_message cid secret) sig"
    "channel_finalize_section env C (ax_sha256 ax) cid t (call_now cx) app1 = (r, app')"
proof -
  obtain r1 app1 where e: "ensure_vault_allows_existing_reservation_ops cx app = (r1, app1)" by fastforce
  obtain r2 app2 where s: "verify_channel_client_signature ax cid (build_channel_finalize_message cid secret)
      sig app1 = (r2, app2)" by fastforce
  note er = ensure_existing_result [OF e] and sr = verify_channel_client_signature_result [OF s]
  show thesis
    using assms er sr that touched_sel [OF er(1)] unfolding post_channel_finalize_def
    by (auto simp: step_defs e s client_of_channel_signed_def split: sum.splits option.splits)
qed

lemma post_channel_close_cases:
  assumes "post_channel_close env ax cx cid sig app = (r, app')"
  obtains "touched app app'"
  | app1 where "touched app app1" "vault_serving cx"
    "client_of_channel_signed ax (app_vault app) cid (build_channel_close_message cid) sig"
    "channel_close_section env (cl_uuid cx) cid (call_now cx) app1 = (r, app')"
proof -
  obtain r1 app1 where e: "ensure_vault_allows_existing_reservation_ops cx app = (r1, app1)" by fastforce
  obtain r2 app2 where s: "verify_channel_client_signature ax cid (build_channel_close_message cid)
      sig app1 = (r2, app2)" by fastforce
  note er = ensure_existing_result [OF e] and sr = verify_channel_client_signature_result [OF s]
  show thesis
    using assms er sr that touched_sel [OF er(1)] unfolding post_channel_close_def
    by (auto simp: step_defs e s client_of_channel_signed_def split: sum.splits option.splits)
qed

lemma get_reservation_result:
  assumes "in_vault (get_reservation vid) app = (r, app')"
  shows "app' = app" "r = Inr x \<Longrightarrow> aget (es_reservations (app_vault app)) vid = Some x"
  using assms by (auto simp: in_vault_def get_reservation_def sfind_def split: option.splits)

text \<open>A computation whose result is only packed into a response.\<close>
lemma sbind_sret_result:
  assumes "sbind m (\<lambda>x. sret (f x)) app = (r, app')" "r \<noteq> Inl Panic"
  shows "\<exists>x. m app = (x, app') \<and> x \<noteq> Inl Panic"
  using assms by (auto simp: sbind_def sret_def split: prod.splits sum.splits)

lemma post_cancel_cases:
  assumes "post_cancel env ax cx h vid reason app = (r, app')"
  obtains "touched app app'"
  | r0 app1 where "touched app app1" "vault_serving cx" "aget (es_reservations (app_vault app)) vid = Some r0"
    "provider_of (app_vault app) (rv_provider_id r0) ax h"
    "cancel_section env vid reason (call_now cx) app1 = (r, app')"
proof (cases "in_vault (get_reservation vid) app")
  case (Pair g app0)
  note gr = get_reservation_result [OF Pair]
  obtain r1 app1 where e: "ensure_vault_allows_existing_reservation_ops cx app = (r1, app1)" by fastforce
  note er = ensure_existing_result [OF e]
  show thesis
  proof (cases g)
    case (Inl f)
    then show thesis
      using assms Pair gr(1) that(1) by (auto simp: post_cancel_def step_defs)
  next
    case (Inr r0)
    obtain r2 app2 where a: "authenticate_provider ax h (rv_provider_id r0) app1 = (r2, app2)" by fastforce
    note ar = authenticate_provider_result [OF a]
    show thesis
      using assms Pair gr er ar that touched_sel(5,6) [OF er(1)] Inr
      by (auto simp: post_cancel_def step_defs e a provider_of_def split: sum.splits if_splits)
  qed
qed

text \<open>A settlement that has happened before only issues a receipt.\<close>
lemma post_settle_cases:
  assumes "post_settle env ax cx h vid app = (r, app')" "r \<noteq> Inl Panic"
  obtains "touched app app'"
  | p x app1 where "touched app app1" "issue_provider_receipt_locked env p (call_now cx) app1 = (x, app')" "x \<noteq> Inl Panic"
  | r0 app1 app2 x where "touched app app1" "vault_serving cx" "aget (es_reservations (app_vault app)) vid = Some r0"
    "provider_of (app_vault app) (rv_provider_id r0) ax h"
    "settle_section env vid (rv_provider_id r0) (''set_'' @ cl_uuid cx) (call_now cx) app1 = (x, app2)" "x \<noteq> Inl Panic"
    "app' = app2 \<or> (\<exists>y. issue_provider_receipt_locked env (rv_provider_id r0) (call_now cx) app2 = (y, app') \<and> y \<noteq> Inl Panic)"
proof (cases "in_vault (get_reservation vid) app")
  case (Pair g app0)
  note gr = get_reservation_result [OF Pair]
  obtain r1 app1 where e: "ensure_vault_allows_existing_reservation_ops cx app = (r1, app1)" by fastforce
  note er = ensure_existing_result [OF e]
  show thesis
  proof (cases g)
    case (Inl f)
    then show thesis
      using assms(1) Pair gr(1) that(1) by (auto simp: post_settle_def Let_def sbind_def [of "in_vault _"])
  next
    case (Inr r0)
    let ?p = "rv_provider_id r0" and ?now = "call_now cx"
    obtain r2 app2 where a: "authenticate_provider ax h ?p app1 = (r2, app2)" by fastforce
    note ar = authenticate_provider_result [OF a]
    have r0: "aget (es_reservations (app_vault app)) vid = Some r0" "app0 = app" using gr Inr by auto
    have auth: "provider_of (app_vault app) ?p ax h" if "r2 = Inr y" for y
      using ar(2) that touched_sel(6) [OF er(1)] by (simp add: provider_of_def)
    consider "app' = app1" | z where "r1 = Inr z" "r2 = Inr ?p" "rv_status r0 = SettledOffchain"
        "sbind (issue_provider_receipt_locked env ?p ?now) (\<lambda>receipt. sret
          \<lparr>sp_settlement_id = (case rv_settlement_id r0 of None \<Rightarrow> [] | Some sid \<Rightarrow> sid),
           sp_offchain_settled_at = (case rv_settled_at r0 of None \<Rightarrow> 0 | Some t \<Rightarrow> t),
           sp_provider_credit_amount = rv_amount r0, sp_participant_receipt = receipt\<rparr>) app1 = (r, app')"
      | z where "r1 = Inr z" "r2 = Inr ?p" "rv_status r0 = Reserved"
        "sbind (settle_section env vid ?p (''set_'' @ cl_uuid cx) ?now) (\<lambda>d. case d of
          Idempotent sid t amount \<Rightarrow> sbind (issue_provider_receipt_locked env ?p ?now) (\<lambda>receipt. sret
            \<lparr>sp_settlement_id = sid, sp_offchain_settled_at = t, sp_provider_credit_amount = amount,
             sp_participant_receipt = receipt\<rparr>)
        | Fresh sid t amount receipt \<Rightarrow> sret \<lparr>sp_settlement_id = sid, sp_offchain_settled_at = t,
            sp_provider_credit_amount = amount, sp_participant_receipt = receipt\<rparr>) app1 = (r, app')"
      using assms(1) Pair Inr r0(2) ar e a unfolding post_settle_def Let_def
      by (cases r1; cases r2) (auto simp: sbind_def [of "in_vault _"] sbind_def [of "ensure_vault_allows_existing_reservation_ops _"]
          sbind_def [of "authenticate_provider _ _ _"] srequire_def sfail_def split: if_splits)
    then show thesis
    proof cases
      case 1
      then show thesis using that(1) er(1) by simp
    next
      case (2 z)
      from sbind_sret_result [OF 2(4) assms(2)] show thesis
        using that(2) [OF er(1)] by blast
    next
      case (3 z)
      obtain x app3 where x: "settle_section env vid ?p (''set_'' @ cl_uuid cx) ?now app1 = (x, app3)" by fastforce
      have np: "x \<noteq> Inl Panic" using 3(4) x assms(2) by (auto simp: sbind_def)
      have rest: "app' = app3 \<or> (\<exists>y. issue_provider_receipt_locked env ?p ?now app3 = (y, app') \<and> y \<noteq> Inl Panic)"
      proof (cases x)
        case (Inr d)
        then show ?thesis
          using 3(4) x assms(2) by (cases d) (auto simp: sbind_def [of "settle_section _ _ _ _ _"] sret_def
            dest!: sbind_sret_result)
      qed (use 3(4) x in \<open>auto simp: sbind_def\<close>)
      show thesis
        by (rule that(3) [OF er(1) er(2) [OF 3(1)] r0(1) auth [OF 3(2)] x np rest])
    qed
  qed
qed

lemma post_channel_deliver_cases:
  assumes "post_channel_deliver env ax C cx h q app = (r, app')" "r \<noteq> Inl Panic"
  obtains "touched app app'"
  | ch tb pre enc rh pk x app1 where "touched app app1" "vault_serving cx"
    "aget (es_active_channels (app_vault app)) (dq_channel_id q) = Some ch"
    "provider_of (app_vault app) (ch_provider_id ch) ax h"
    "channel_deliver_section env C (ax_sha256 ax) (dq_channel_id q) tb pre enc rh pk (call_now cx) app1 = (x, app')"
    "x \<noteq> Inl Panic"
proof -
  let ?cid = "dq_channel_id q"
  obtain r1 app1 where e: "ensure_vault_allows_existing_reservation_ops cx app = (r1, app1)" by fastforce
  obtain r2 app2 where a: "verify_channel_provider_auth ax ?cid h app1 = (r2, app2)" by fastforce
  note er = ensure_existing_result [OF e] and ar = verify_channel_provider_auth_result [OF a]
  have auth: "\<exists>ch. aget (es_active_channels (app_vault app)) ?cid = Some ch \<and>
      provider_of (app_vault app) (ch_provider_id ch) ax h" if "r2 = Inr y" for y
    using ar(2) that touched_sel(6,10) [OF er(1)] by (auto simp: provider_of_def)
  consider "app' = app1" | y z tb pre enc rh pk x where "r1 = Inr y" "r2 = Inr z"
      "channel_deliver_section env C (ax_sha256 ax) ?cid tb pre enc rh pk (call_now cx) app1 = (x, app')"
      "x = Inl Panic \<longrightarrow> r = Inl Panic"
    using assms(1) er(1) ar(1) unfolding post_channel_deliver_def Let_def
    by (auto simp: step_defs e a issue_asc_claim_voucher_def Let_def
        split: sum.splits option.splits if_splits prod.splits)
  then show thesis
  proof cases
    case 1
    then show thesis using that(1) er(1) by simp
  next
    case 2
    then show thesis
      using that(2) [OF er(1) er(2)] auth assms(2) by blast
  qed
qed

section \<open>Payments\<close>

lemma check_payment_ok:
  assumes "check_payment ax scalar (cl_now_ns cx) (es_vault_config v) q details = Inr (c, rh, a, w)" "vault_active cx"
  shows "payment_signed ax cx v q c" "parse_u64 (pp_amount (vq_payload q)) = Some a"
    "ax_hex_decode ax (pp_request_hash (vq_payload q)) = Some rh"
  using assms
  by (auto simp: check_payment_def Let_def result_simps payment_signed_def verify_client_signature_def
      dest!: verify_ed25519_text_ok)

lemma check_provider_ok:
  "check_provider ax reg q = Inr u \<longleftrightarrow>
    pp_pay_to (vq_payload q) = ax_base58 ax (rg_settlement_token_account reg) \<and>
    pp_asset_mint (vq_payload q) = ax_base58 ax (rg_asset_mint reg) \<and>
    pp_network (vq_payload q) = rg_network reg \<and>
    (rg_allowed_origins reg = [] \<or> rc_origin (vq_context q) \<in> set (rg_allowed_origins reg))"
  by (auto simp: check_provider_def Let_def result_simps)

lemma open_provider_effect:
  assumes "open_provider_section reg now app = (r, app')" "aget (es_providers (app_vault app)) (rg_provider_id reg) = None"
  shows "app_vault app' = app_vault app \<and> (\<exists>f. r = Inl f) \<or>
    app_vault app' = (app_vault app)\<lparr>es_providers := aput (rg_provider_id reg) reg (es_providers (app_vault app))\<rparr>"
proof -
  have "sbind (wal_append_or_fail now (ProviderRegistered reg)) (\<lambda>_. in_vault (smodify (\<lambda>st. st\<lparr>es_providers :=
      aput (rg_provider_id reg) reg (es_providers st)\<rparr>))) app = (r, app')"
    using assms by (simp add: open_provider_section_def sbind_def [of "sget _"] sget_def)
  then show ?thesis
    by (rule sbindE) (auto elim!: wal_append_or_fail_result simp: in_vault_def smodify_def)
qed

text \<open>Looking up the provider of a payment registers at most an open provider.\<close>
lemma ensure_open_result:
  assumes "ensure_open_provider_registered ax p now app = (r, app')" "r \<noteq> Inl Panic"
    and "\<forall>reg. opens_provider ax p reg \<and> aget (es_providers (app_vault app)) (pp_provider_id p) = None \<longrightarrow>
      P (ProviderRegistered reg)"
  shows "reaches C sha256 P 1 app app'"
    "\<exists>ps. app_vault app' = (app_vault app)\<lparr>es_providers := ps\<rparr>"
    "aget (es_providers (app_vault app')) (pp_provider_id p) = Some reg \<Longrightarrow>
      aget (es_providers (app_vault app)) (pp_provider_id p) = Some reg \<or>
      aget (es_providers (app_vault app)) (pp_provider_id p) = None \<and> opens_provider ax p reg"
proof -
  consider "app' = app" | reg where "opens_provider ax p reg" "rg_provider_id reg = pp_provider_id p"
      "aget (es_providers (app_vault app)) (pp_provider_id p) = None" "open_provider_section reg now app = (r, app')"
    using assms(1)
    by (auto simp: ensure_open_provider_registered_def sbind_def [of "sget _"] sget_def sret_def sok_or_def sfail_def
        opens_provider_def open_registration_def split: if_splits option.splits)
  then have "reaches C sha256 P 1 app app' \<and> (\<exists>ps. app_vault app' = (app_vault app)\<lparr>es_providers := ps\<rparr>) \<and>
    (aget (es_providers (app_vault app')) (pp_provider_id p) = Some reg \<longrightarrow>
      aget (es_providers (app_vault app)) (pp_provider_id p) = Some reg \<or>
      aget (es_providers (app_vault app)) (pp_provider_id p) = None \<and> opens_provider ax p reg)"
  proof cases
    case 1
    then show ?thesis
      by (auto simp: touched_reaches intro: exI [of _ "es_providers (app_vault app)"])
  next
    case (2 reg')
    have w: "writes P 1 (open_provider_section reg' now) app"
      using assms(3) 2(1-3) by (intro writes_open_provider) simp
    have "reaches C sha256 P 1 app app'"
      by (rule reaches_section [OF w 2(4) assms(2) open_provider_logs [OF 2(4)]])
    moreover have "app_vault app' = (app_vault app)\<lparr>es_providers := es_providers (app_vault app)\<rparr> \<or>
        app_vault app' = (app_vault app)\<lparr>es_providers := aput (pp_provider_id p) reg' (es_providers (app_vault app))\<rparr>"
      using open_provider_effect [OF 2(4)] 2(2,3) by auto
    ultimately show ?thesis
      using 2(1,3) by (auto intro: exI [of _ "es_providers (app_vault app)"])
  qed
  then show "reaches C sha256 P 1 app app'" "\<exists>ps. app_vault app' = (app_vault app)\<lparr>es_providers := ps\<rparr>"
    "aget (es_providers (app_vault app')) (pp_provider_id p) = Some reg \<Longrightarrow>
      aget (es_providers (app_vault app)) (pp_provider_id p) = Some reg \<or>
      aget (es_providers (app_vault app)) (pp_provider_id p) = None \<and> opens_provider ax p reg"
    by blast+
qed

lemma issue_verification_receipt_app: "issue_verification_receipt env ax r app = (x, app') \<Longrightarrow> app' = app"
  by (auto simp: issue_verification_receipt_def sbind_def sget_def sret_def Let_def)

lemma reserve_payment_cases:
  assumes "reserve_payment env ax cx p c rh a w app = (r, app')" "r \<noteq> Inl Panic"
  obtains "app' = app"
  | dh x where "ax_hex_decode ax (pp_payment_details_hash p) = Some dh" "x \<noteq> Inl Panic"
    "verify_section env (new_reservation (''ver_'' @ cl_uuid cx) (''res_'' @ cl_uuid2 cx) (pp_payment_id p) c
      (pp_provider_id p) a rh dh (call_now cx) (call_now cx + w)) (call_now cx) app = (x, app')"
proof -
  consider "app' = app" | dh where "ax_hex_decode ax (pp_payment_details_hash p) = Some dh"
    "sbind (verify_section env (new_reservation (''ver_'' @ cl_uuid cx) (''res_'' @ cl_uuid2 cx) (pp_payment_id p) c
      (pp_provider_id p) a rh dh (call_now cx) (call_now cx + w)) (call_now cx)) (\<lambda>_.
      sbind (in_vault (get_reservation (''ver_'' @ cl_uuid cx))) (issue_verification_receipt env ax)) app = (r, app')"
    using assms(1)
    by (auto simp: reserve_payment_def Let_def srequire_def sok_or_def sfail_def hex_array32_def
        split: if_splits option.splits)
  then show thesis
  proof cases
    case (2 dh)
    from 2(2) show thesis
    proof (rule sbindE)
      fix y app1
      assume v: "verify_section env (new_reservation (''ver_'' @ cl_uuid cx) (''res_'' @ cl_uuid2 cx) (pp_payment_id p)
          c (pp_provider_id p) a rh dh (call_now cx) (call_now cx + w)) (call_now cx) app = (Inr y, app1)"
        and rest: "sbind (in_vault (get_reservation (''ver_'' @ cl_uuid cx))) (issue_verification_receipt env ax) app1 = (r, app')"
      from rest have "app' = app1"
        by (rule sbindE) (auto dest!: get_reservation_result(1) issue_verification_receipt_app)
      with v 2(1) show thesis by (intro that(2)) auto
    next
      fix f
      assume "verify_section env (new_reservation (''ver_'' @ cl_uuid cx) (''res_'' @ cl_uuid2 cx) (pp_payment_id p)
          c (pp_provider_id p) a rh dh (call_now cx) (call_now cx + w)) (call_now cx) app = (Inl f, app')" "r = Inl f"
      with 2(1) assms(2) show thesis by (intro that(2)) auto
    qed
  qed (rule that(1))
qed

text \<open>The identifiers of a call are new, and withdrawal nonces are left.\<close>
definition fresh_call :: "call \<Rightarrow> VaultState \<Rightarrow> bool" where
  "fresh_call cx v \<longleftrightarrow> aget (es_reservations v) (''ver_'' @ cl_uuid cx) = None \<and>
    aget (es_active_channels v) (''ch_'' @ cl_uuid cx) = None \<and>
    fresh_settlement (''set_'' @ cl_uuid cx) v \<and> fresh_settlement (''asc_'' @ cl_uuid cx) v \<and>
    es_withdraw_nonce v \<noteq> - 1"

lemma fresh_call_touched: "touched app app' \<Longrightarrow> fresh_call cx (app_vault app') = fresh_call cx (app_vault app)"
  by (simp add: fresh_call_def fresh_settlement_def touched_sel)

text \<open>The payment of a request is not zero.\<close>
fun pays :: "api_request \<Rightarrow> bool" where
  "pays (VerifyReq h q) \<longleftrightarrow> parse_u64 (pp_amount (vq_payload q)) \<noteq> Some 0"
| "pays _ \<longleftrightarrow> True"

abbreviation allowed :: "access_env \<Rightarrow> call \<Rightarrow> App \<Rightarrow> api_request \<Rightarrow> WalEntry \<Rightarrow> bool" where
  "allowed ax cx app rq e \<equiv> is_receipt e \<or> authorized ax cx (app_vault app) rq e"

lemma app_inv_ledger: "app_inv C sha256 app \<Longrightarrow> ledger_inv C sha256 (ledger_of (app_vault app))"
  by (simp add: app_inv_def)

lemma touched_ledger: "touched app app1 \<Longrightarrow> app_inv C sha256 app \<Longrightarrow> ledger_inv C sha256 (ledger_of (app_vault app1))"
  by (simp add: app_inv_def touched_sel)

text \<open>From a checked payment on.\<close>
lemma checked_payment_reaches:
  assumes inv: "app_inv C sha256 app1"
    and payment: "payment_signed ax cx (app_vault app) q c" "parse_u64 (pp_amount (vq_payload q)) = Some a" "a \<noteq> 0"
      "ax_hex_decode ax (pp_request_hash (vq_payload q)) = Some rh"
    and touched: "touched app app1" and fresh: "fresh_call cx (app_vault app)"
    and run: "sbind (ensure_open_provider_registered ax (vq_payload q) (call_now cx)) (\<lambda>_.
      sbind (authenticate_provider ax h (pp_provider_id (vq_payload q))) (\<lambda>id.
      sbind (sfind (\<lambda>app. aget (es_providers (app_vault app)) (pp_provider_id (vq_payload q))) ProviderNotFound) (\<lambda>provider.
      srequire (id = pp_provider_id (vq_payload q)) ProviderIdMismatch (
      sbind (lift_result (check_provider ax provider q)) (\<lambda>_.
      sbind (sget (\<lambda>app. case aget (es_payment_id_index (app_vault app)) (pp_payment_id (vq_payload q)) of
        None \<Rightarrow> None
      | Some verification_id \<Rightarrow> aget (es_reservations (app_vault app)) verification_id)) (\<lambda>existing.
      case existing of
        Some r \<Rightarrow>
          if length rh \<noteq> 32 then sfail Panic
          else if rv_request_hash r = rh then issue_verification_receipt env ax r
          else sfail (Err PaymentIdReused)
      | None \<Rightarrow> reserve_payment env ax cx (vq_payload q) c rh a w)))))) app1 = (r, app')" and r: "r \<noteq> Inl Panic"
  shows "reaches C sha256 (allowed ax cx app (VerifyReq h q)) 4 app1 app'"
proof -
  let ?p = "vq_payload q" and ?P = "allowed ax cx app (VerifyReq h q)"
  let ?id = "pp_provider_id ?p"
  have prov: "es_providers (app_vault app1) = es_providers (app_vault app)"
    by (rule touched_sel [OF touched])
  have reg_ok: "\<forall>reg. opens_provider ax ?p reg \<and> aget (es_providers (app_vault app1)) ?id = None \<longrightarrow>
      ?P (ProviderRegistered reg)"
    using payment(1) prov by (auto simp: opens_provider_def open_registration_def)
  obtain r1 app2 where e: "ensure_open_provider_registered ax ?p (call_now cx) app1 = (r1, app2)" by fastforce
  have r1: "r1 \<noteq> Inl Panic" using run r e by (auto simp: sbind_def)
  note er = ensure_open_result [where P = ?P, OF e r1 reg_ok]
  obtain r2 app3 where a: "authenticate_provider ax h ?id app2 = (r2, app3)" by fastforce
  note ar = authenticate_provider_result [OF a]
  consider "app' = app2" | provider where "aget (es_providers (app_vault app2)) ?id = Some provider"
      "provider_of (app_vault app2) ?id ax h" "check_provider ax provider q = Inr ()"
      "reserve_payment env ax cx ?p c rh a w app2 = (r, app')"
    using run e a ar
    by (auto simp: step_defs split: sum.splits option.splits if_splits dest!: issue_verification_receipt_app)
  then show ?thesis
  proof cases
    case 1
    then show ?thesis using reaches_mono [OF er(1), of 4] by simp
  next
    case (2 provider)
    from 2(4) r show ?thesis
    proof (cases rule: reserve_payment_cases)
      case 1
      then show ?thesis using reaches_mono [OF er(1), of 4] by simp
    next
      case res: (2 dh x)
      let ?r = "new_reservation (''ver_'' @ cl_uuid cx) (''res_'' @ cl_uuid2 cx) (pp_payment_id ?p) c ?id a rh dh
        (call_now cx) (call_now cx + w)"
      have "provider_agrees ax (app_vault app) h q"
        using 2(1,2) er(3) [OF 2(1)] 2(3) [unfolded check_provider_ok] prov
        unfolding provider_agrees_def Let_def provider_of_def by (intro exI [of _ provider]) auto
      then have ok: "?P (ReservationCreated (rv_verification_id ?r) (Some (rv_reservation_id ?r)) (rv_payment_id ?r)
          (rv_client ?r) (rv_provider_id ?r) (rv_amount ?r) (Some (rv_request_hash ?r))
          (Some (rv_payment_details_hash ?r)) (Some (rv_created_at ?r)) (Some (rv_expires_at ?r)))"
        using payment res(1) by (simp add: new_reservation_def)
      have inv2: "app_inv C sha256 app2"
        using app_inv_logs er(1) inv unfolding reaches_def by blast
      have "aget (es_reservations (app_vault app2)) (rv_verification_id ?r) = None"
        using er(2) fresh touched_sel(5) [OF touched] by (auto simp: new_reservation_def fresh_call_def)
      then have "logs C sha256 3 app2 app'"
        using payment(3) 2(1) by (intro verify_logs [OF res(3,2) app_inv_ledger [OF inv2]])
          (simp_all add: new_reservation_def word_gt_0)
      then have "reaches C sha256 ?P 3 app2 app'"
        by (intro reaches_section [OF writes_verify res(3,2)] ok) simp_all
      from reaches_trans [OF er(1) this] show ?thesis by simp
    qed
  qed
qed

lemma lift_bind: "sbind (lift_result x) f app = (case x of Inl e \<Rightarrow> (Inl (Err e), app) | Inr y \<Rightarrow> f y app)"
  by (simp add: sbind_def lift_result_def sfail_def sret_def split: sum.splits)

lemma verify_reaches:
  assumes run: "post_verify env ax scalar cx h q app = (r, app')" and r: "r \<noteq> Inl Panic"
    and inv: "app_inv C sha256 app" and fresh: "fresh_call cx (app_vault app)" and pays: "pays (VerifyReq h q)"
  shows "reaches C sha256 (allowed ax cx app (VerifyReq h q)) 4 app app'"
proof -
  obtain r1 app1 where e: "ensure_vault_allows_new_verification cx app = (r1, app1)" by fastforce
  note er = ensure_new_result [OF e]
  have config: "es_vault_config (app_vault app1) = es_vault_config (app_vault app)"
    by (rule touched_sel [OF er(1)])
  show ?thesis
  proof (cases "vq_details q")
    case None
    then show ?thesis
      using run by (auto simp: post_verify_def Let_def sok_or_def sfail_def intro: touched_reaches)
  next
    case (Some details)
    let ?check = "check_payment ax scalar (cl_now_ns cx) (es_vault_config (app_vault app)) q details"
    show ?thesis
    proof (cases "\<exists>u c rh a w. r1 = Inr u \<and> ?check = Inr (c, rh, a, w) \<and> \<not> (cl_detector_enabled cx \<and> \<not> cl_detector_ready cx)")
      case False
      then have "touched app app'"
        using run er(1) config unfolding post_verify_def Let_def
        by (cases r1; cases ?check)
          (auto simp: Some sok_or_def srequire_def e sbind_def [of "ensure_vault_allows_new_verification _"]
            sbind_def [of "sget (es_vault_config \<circ> app_vault)"] sget_def [of "es_vault_config \<circ> app_vault"]
            lift_bind [of "check_payment _ _ _ _ _ _"] split: if_splits)
      then show ?thesis by (rule touched_reaches)
    next
      case True
      then obtain u c rh a w where ok: "r1 = Inr u" "?check = Inr (c, rh, a, w)" by blast
      note check = check_payment_ok [OF ok(2) er(2) [OF ok(1)]]
      have a: "a \<noteq> 0" using pays check(2) by auto
      have inv1: "app_inv C sha256 app1" using inv touched_inv [OF er(1)] by blast
      have "reaches C sha256 (allowed ax cx app (VerifyReq h q)) 4 app1 app'"
        using run True ok config
        by (intro checked_payment_reaches [OF inv1 check(1,2) a check(3) er(1) fresh _ r, where w = w])
          (auto simp: post_verify_def Let_def Some sok_or_def srequire_def e
            sbind_def [of "ensure_vault_allows_new_verification _"] sbind_def [of "sget (es_vault_config \<circ> app_vault)"]
            sget_def [of "es_vault_config \<circ> app_vault"] lift_bind [of "check_payment _ _ _ _ _ _"])
      then show ?thesis by (rule touched_then [OF er(1)]) simp
    qed
  qed
qed

lemma settle_reaches:
  assumes run: "post_settle env ax cx h vid app = (r, app')" and r: "r \<noteq> Inl Panic"
    and inv: "app_inv C sha256 app" and fresh: "fresh_call cx (app_vault app)"
  shows "reaches C sha256 (allowed ax cx app (SettleReq h vid)) 7 app app'"
proof -
  let ?P = "allowed ax cx app (SettleReq h vid)"
  have receipt: "reaches C sha256 ?P 2 a b"
    if "issue_provider_receipt_locked env p (call_now cx) a = (x, b)" "x \<noteq> Inl Panic" for p x a b
    by (rule reaches_section [OF writes_issue_provider that loggingD [OF logging_issue_provider that]]) simp
  from run r show ?thesis
  proof (cases rule: post_settle_cases)
    case 1
    then show ?thesis by (rule touched_reaches)
  next
    case (2 p x app1)
    from touched_then [OF 2(1) receipt [OF 2(2,3)]] show ?thesis by simp
  next
    case (3 r0 app1 app2 x)
    have inv1: "ledger_inv C sha256 (ledger_of (app_vault app1))"
      by (rule touched_ledger [OF 3(1) inv])
    have res: "es_reservations (app_vault app1) = es_reservations (app_vault app)" by (rule touched_sel [OF 3(1)])
    have l: "logs C sha256 5 app1 app2"
      by (rule settle_logs [OF 3(5,6) inv1])
        (use 3(3) res fresh fresh_call_touched [OF 3(1), of cx] in \<open>auto simp: fresh_call_def\<close>)
    have w: "writes ?P 5 (settle_section env vid (rv_provider_id r0) (''set_'' @ cl_uuid cx) (call_now cx)) app1"
      by (rule writes_settle) (use 3 res in auto)
    have "reaches C sha256 ?P 5 app1 app2"
      by (rule reaches_section [OF w 3(5,6) l])
    then have "reaches C sha256 ?P 7 app1 app'"
      using 3(7) reaches_trans [of C sha256 ?P 5 app1 app2 2 app'] receipt reaches_mono [of C sha256 ?P 5 app1 app2 7]
      by auto
    then show ?thesis by (rule touched_then [OF 3(1)]) simp
  qed
qed

text \<open>Checks followed by one section.\<close>
lemma section_reaches:
  assumes "touched app app1" "writes P k m app1" "m app1 = (x, app')" "x \<noteq> Inl Panic" "logs C sha256 k app1 app'" "k \<le> l"
  shows "reaches C sha256 P l app app'"
  by (rule touched_then [OF assms(1) reaches_section [OF assms(2-5)] assms(6)])

lemma cancel_reaches:
  assumes run: "post_cancel env ax cx h vid reason app = (r, app')" and r: "r \<noteq> Inl Panic" and inv: "app_inv C sha256 app"
  shows "reaches C sha256 (allowed ax cx app (CancelReq h vid reason)) 7 app app'"
  using run
proof (cases rule: post_cancel_cases)
  case 1
  then show ?thesis by (rule touched_reaches)
next
  case (2 r0 app1)
  show ?thesis
    by (rule section_reaches [OF 2(1) writes_cancel 2(5) r cancel_logs [OF 2(5) r touched_ledger [OF 2(1) inv]]])
      (use 2 in auto)
qed

lemma withdraw_reaches:
  assumes run: "post_withdraw_auth env ax cx q app = (r, app')" and r: "r \<noteq> Inl Panic" and inv: "app_inv C sha256 app"
    and fresh: "fresh_call cx (app_vault app)"
  shows "reaches C sha256 (allowed ax cx app (WithdrawReq q)) 7 app app'"
  using run
proof (cases rule: post_withdraw_auth_cases)
  case 1
  then show ?thesis by (rule touched_reaches)
next
  case (2 c ata app1)
  have "aget (es_pending_withdrawals (app_vault app)) (es_withdraw_nonce (app_vault app)) = None"
    using inv by (cases "aget (es_pending_withdrawals (app_vault app)) (es_withdraw_nonce (app_vault app))")
      (auto simp: app_inv_def)
  then have "logs C sha256 3 app1 app'"
    using fresh by (intro withdraw_auth_logs [OF 2(5) r touched_ledger [OF 2(1) inv]])
      (simp_all add: touched_sel [OF 2(1)] fresh_call_def)
  from section_reaches [OF 2(1) writes_withdraw_auth 2(5) r this] show ?thesis
    using 2(2,3) verify_client_request_auth_ok [OF 2(4)] by auto
qed

lemma channel_open_reaches:
  assumes run: "post_channel_open env ax cx q app = (r, app')" and r: "r \<noteq> Inl Panic" and inv: "app_inv C sha256 app"
    and fresh: "fresh_call cx (app_vault app)"
  shows "reaches C sha256 (allowed ax cx app (OpenReq q)) 7 app app'"
  using run
proof (cases rule: post_channel_open_cases)
  case 1
  then show ?thesis by (rule touched_reaches)
next
  case (2 c app1)
  have "logs C sha256 3 app1 app'"
    using fresh by (intro channel_open_logs [OF 2(5) r touched_ledger [OF 2(1) inv]])
      (simp add: touched_sel [OF 2(1)] fresh_call_def)
  from section_reaches [OF 2(1) writes_channel_open 2(5) r this] show ?thesis
    using 2 by auto
qed

lemma channel_request_reaches:
  assumes run: "post_channel_request env ax cx q app = (r, app')" and r: "r \<noteq> Inl Panic" and inv: "app_inv C sha256 app"
  shows "reaches C sha256 (allowed ax cx app (ChannelReq q)) 7 app app'"
  using run
proof (cases rule: post_channel_request_cases)
  case 1
  then show ?thesis by (rule touched_reaches)
next
  case (2 hash app1)
  from section_reaches [OF 2(1) writes_channel_request 2(5) r channel_request_logs [OF 2(5) r touched_ledger [OF 2(1) inv]]]
  show ?thesis using 2 by auto
qed

lemma channel_deliver_reaches:
  assumes run: "post_channel_deliver env ax C cx h q app = (r, app')" and r: "r \<noteq> Inl Panic"
    and inv: "app_inv C (ax_sha256 ax) app"
  shows "reaches C (ax_sha256 ax) (allowed ax cx app (DeliverReq h q)) 7 app app'"
  using run r
proof (cases rule: post_channel_deliver_cases)
  case 1
  then show ?thesis by (rule touched_reaches)
next
  case (2 ch tb pre enc rh pk x app1)
  have "writes (allowed ax cx app (DeliverReq h q)) 3 (channel_deliver_section env C (ax_sha256 ax) (dq_channel_id q)
      tb pre enc rh pk (call_now cx)) app1"
    by (rule writes_channel_deliver) (use 2 touched_sel(10) [OF 2(1)] in auto)
  from section_reaches [OF 2(1) this 2(5,6) channel_deliver_logs [OF 2(5,6) touched_ledger [OF 2(1) inv]]]
  show ?thesis by simp
qed

lemma channel_finalize_reaches:
  assumes run: "post_channel_finalize env ax C cx cid secret sig app = (r, app')" and r: "r \<noteq> Inl Panic"
    and inv: "app_inv C (ax_sha256 ax) app"
  shows "reaches C (ax_sha256 ax) (allowed ax cx app (FinalizeReq cid secret sig)) 7 app app'"
  using run
proof (cases rule: post_channel_finalize_cases)
  case 1
  then show ?thesis by (rule touched_reaches)
next
  case (2 t app1)
  from section_reaches [OF 2(1) writes_channel_finalize 2(4) r channel_finalize_logs [OF 2(4) r touched_ledger [OF 2(1) inv]]]
  show ?thesis using 2 by auto
qed

lemma channel_close_reaches:
  assumes run: "post_channel_close env ax cx cid sig app = (r, app')" and r: "r \<noteq> Inl Panic"
    and inv: "app_inv C sha256 app" and fresh: "fresh_call cx (app_vault app)"
  shows "reaches C sha256 (allowed ax cx app (CloseReq cid sig)) 7 app app'"
  using run
proof (cases rule: post_channel_close_cases)
  case 1
  then show ?thesis by (rule touched_reaches)
next
  case (2 app1)
  have "logs C sha256 5 app1 app'"
    using fresh fresh_call_touched [OF 2(1), of cx]
    by (intro channel_close_logs [OF 2(4) r touched_ledger [OF 2(1) inv]]) (simp add: fresh_call_def)
  from section_reaches [OF 2(1) writes_channel_close 2(4) r this] show ?thesis
    using 2 by auto
qed

text \<open>Requests that only read, and the request for a receipt.\<close>
lemma read_reaches:
  "post_balance ax cx c auth app = (r, app') \<Longrightarrow> app' = app"
  "post_settlement_status ax h sid app = (x, app') \<Longrightarrow> app' = app"
  by (auto simp: post_balance_def post_settlement_status_def in_vault_def get_balance_def step_defs
      authenticate_provider_def split: sum.splits option.splits)

lemma receipt_reaches:
  assumes run: "post_receipt env ax cx c ata auth app = (r, app')" and r: "r \<noteq> Inl Panic"
  shows "reaches C sha256 (allowed ax cx app (ReceiptReq c ata auth)) 7 app app'"
proof -
  consider "app' = app" | key ata' free locked t where
      "issue_participant_receipt_locked env key PARTICIPANT_KIND_CLIENT ata' free locked t (call_now cx) app = (r, app')"
    using run
    by (auto simp: post_receipt_def lift_bind sok_or_def sfail_def sbind_def [of "in_vault _"] in_vault_def
        get_balance_def sfind_def split: sum.splits option.splits)
  then show ?thesis
  proof cases
    case 1
    then show ?thesis by (simp add: touched_reaches)
  next
    case (2 key ata' free locked t)
    show ?thesis
      by (rule section_reaches [OF touched_refl writes_issue_participant 2 r loggingD [OF logging_issue_participant 2 r]]) auto
  qed
qed

lemma handle_reaches:
  assumes run: "handle env ax scalar C cx rq app = (r, app')" "r \<noteq> Inl Panic"
    and inv: "app_inv C (ax_sha256 ax) app" and fresh: "fresh_call cx (app_vault app)" and pays: "pays rq"
  shows "reaches C (ax_sha256 ax) (allowed ax cx app rq) 7 app app'"
proof (cases rq)
  case (VerifyReq h q)
  then obtain x where x: "post_verify env ax scalar cx h q app = (x, app')" "x \<noteq> Inl Panic"
    using run outcome_result by (metis handle.simps(1))
  from reaches_mono [OF verify_reaches [OF x inv fresh]] pays show ?thesis
    unfolding VerifyReq by simp
next
  case (SettleReq h vid)
  then show ?thesis
    using run outcome_result [of "post_settle env ax cx h vid" app r app'] settle_reaches [OF _ _ inv fresh] by auto
next
  case (StatusReq h sid)
  then have "app' = app"
    using run outcome_result [of "post_settlement_status ax h sid" app r app'] by (auto dest: read_reaches(2))
  then show ?thesis by (simp add: touched_reaches)
next
  case (CancelReq h vid reason)
  then show ?thesis using run cancel_reaches [OF _ _ inv] by auto
next
  case (WithdrawReq q)
  then show ?thesis
    using run outcome_result [of "post_withdraw_auth env ax cx q" app r app'] withdraw_reaches [OF _ _ inv fresh] by auto
next
  case (BalanceReq c auth)
  then have "app' = app"
    using run outcome_result [of "post_balance ax cx c auth" app r app'] by (auto dest: read_reaches(1))
  then show ?thesis by (simp add: touched_reaches)
next
  case (ReceiptReq c ata auth)
  then obtain x where x: "post_receipt env ax cx c ata auth app = (x, app')" "x \<noteq> Inl Panic"
    using run outcome_result by (metis handle.simps(7))
  from receipt_reaches [OF x] show ?thesis unfolding ReceiptReq .
next
  case (OpenReq q)
  then show ?thesis
    using run outcome_result [of "post_channel_open env ax cx q" app r app'] channel_open_reaches [OF _ _ inv fresh] by auto
next
  case (ChannelReq q)
  then show ?thesis using run channel_request_reaches [OF _ _ inv] by auto
next
  case (DeliverReq h q)
  then show ?thesis
    using run outcome_result [of "post_channel_deliver env ax C cx h q" app r app'] channel_deliver_reaches [OF _ _ inv] by auto
next
  case (FinalizeReq cid secret sig)
  then show ?thesis
    using run outcome_result [of "post_channel_finalize env ax C cx cid secret sig" app r app']
      channel_finalize_reaches [OF _ _ inv] by auto
next
  case (CloseReq cid sig)
  then show ?thesis
    using run outcome_result [of "post_channel_close env ax cx cid sig" app r app'] channel_close_reaches [OF _ _ inv fresh]
    by auto
qed

section \<open>Every request is authorized\<close>

lemma room_in_history:
  assumes "run (enclave_step env C sha256) evs (new_app vault_config signer mint policy backend io) app"
    and "backend = LocalFile [] \<or> backend = SnapshotStore []" "5 * length evs + n < 2 ^ 64"
  shows "room n app"
proof -
  have "room (5 * length evs + n) (new_app vault_config signer mint policy backend io)"
    using assms(2,3)
    by (auto simp: room_def new_app_def wal_wf_def wal_stored_def new_with_backend_def avals_def)
  with run_from_start(2) [OF assms(1)] show ?thesis
    unfolding logs_def appended_def by blast
qed


end
