(* ===== verification/Requests_Example.thy ===== *)
theory Requests_Example
  imports Requests_Safe System_Example
begin

text \<open>
  A payment that is verified: a client with a deposit pays a registered provider, and the theorem on
  requests is applied to the call.
\<close>

text \<open>The text of a scalar plays no role here.\<close>
definition ex_scalar :: "json \<Rightarrow> string" where
  "ex_scalar v = []"

definition ex_details :: json where
  "ex_details = JObject [(''scheme'', JString ''subly402-svm-v1''), (''providerId'', JString ''prov''),
    (''payTo'', JString ''account''), (''network'', JString ''n''),
    (''asset'', JObject [(''mint'', JString ''mint'')]), (''amount'', JString ''30''),
    (''vault'', JObject [(''config'', JString ''vault'')]), (''verifyWindowSec'', JNumber (PosInt 60))]"

definition ex_context :: RequestContext where
  "ex_context = \<lparr>rc_method = ''GET'', rc_origin = ''o'', rc_path_and_query = ''/'', rc_body_sha256 = ''b''\<rparr>"

definition ex_access :: access_env where
  "ex_access = \<lparr>ax_sha256 = ex_sha256,
    ax_hex_decode = (\<lambda>s. if s = ''details'' then Some (ex_sha256 (str_bytes (canonical_json ex_scalar ex_details)))
      else Some (ex_sha256 (str_bytes (lines [''SUBLY402-SVM-V1-REQ'', ''GET'', ''o'', ''/'', ''b'', ''details''])))),
    ax_hex_encode = (\<lambda>bs. ''hex''), ax_base64_decode = (\<lambda>s. Some (replicate 64 0)),
    ax_pubkey = (\<lambda>s. if s = ''client'' then Some ex_client else None),
    ax_base58 = (\<lambda>k. if k = replicate 32 4 then ''account'' else if k = replicate 32 12 then ''mint'' else ''vault''),
    ax_valid_key = (\<lambda>k. length k = 32), ax_verify_strict = (\<lambda>k m s. k = ex_client),
    ax_rfc3339 = (\<lambda>s. Some 90000000000)\<rparr>"

definition ex_call :: call where
  "ex_call = \<lparr>cl_now_ns = 20000000000, cl_vault_account = Some
    \<lparr>vc_bump = 255, vc_vault_id = 1, vc_governance = replicate 32 1, vc_status = VAULT_STATUS_ACTIVE,
     vc_vault_signer_pubkey = replicate 32 11, vc_usdc_mint = replicate 32 12,
     vc_vault_token_account = replicate 32 3, vc_auditor_master_pubkey = replicate 32 5, vc_auditor_epoch = 0,
     vc_attestation_policy_hash = replicate 32 13, vc_successor_vault = replicate 32 0, vc_exit_deadline = 0,
     vc_lifetime_deposited = 100, vc_lifetime_withdrawn = 0, vc_lifetime_settled = 0\<rparr>,
    cl_detector_enabled = True, cl_detector_ready = True, cl_uuid = ''1'', cl_uuid2 = ''2''\<rparr>"

definition ex_payload :: PaymentPayload where
  "ex_payload = \<lparr>pp_version = 1, pp_scheme = ''subly402-svm-v1'', pp_payment_id = ''p1'',
    pp_client = ''client'', pp_vault = ''vault'', pp_provider_id = ''prov'', pp_pay_to = ''account'',
    pp_network = ''n'', pp_asset_mint = ''mint'', pp_amount = ''30'', pp_request_hash = ''request'',
    pp_payment_details_hash = ''details'', pp_expires_at = ''t'', pp_nonce = ''0'', pp_client_sig = ''s''\<rparr>"

definition ex_verify :: VerifyRequest where
  "ex_verify = \<lparr>vq_payload = ex_payload, vq_details = Some ex_details, vq_context = ex_context\<rparr>"

declare length_ex_sha256 [simp]

lemma length_ex_client: "length ex_client = 32"
  by (simp add: ex_client_def)

lemma ex_details_match: "validate_payment_details_match_payload ex_details ex_payload = Inr ()"
  by (simp add: validate_payment_details_match_payload_def ex_details_def ex_payload_def rbind_def ok_or_def require_def)

lemma ex_window: "parse_verify_window_sec ex_details = Inr 60"
  by (simp add: parse_verify_window_sec_def ex_details_def ok_or_def require_def)

definition ex_request_hash :: bytes where
  "ex_request_hash = ex_sha256 (str_bytes (lines [''SUBLY402-SVM-V1-REQ'', ''GET'', ''o'', ''/'', ''b'', ''details'']))"

definition ex_details_hash :: bytes where
  "ex_details_hash = ex_sha256 (str_bytes (canonical_json ex_scalar ex_details))"

lemma ex_access_sel [simp]:
  "ax_sha256 ex_access = ex_sha256" "ax_hex_decode ex_access ''details'' = Some ex_details_hash"
  "ax_hex_decode ex_access ''request'' = Some ex_request_hash" "ax_base64_decode ex_access s = Some (replicate 64 0)"
  "ax_pubkey ex_access ''client'' = Some ex_client" "ax_base58 ex_access (replicate 32 4) = ''account''"
  "ax_base58 ex_access (replicate 32 12) = ''mint''" "ax_base58 ex_access (replicate 32 10) = ''vault''"
  "ax_valid_key ex_access ex_client" "ax_verify_strict ex_access ex_client m bs" "ax_rfc3339 ex_access s = Some 90000000000"
  by (simp_all add: ex_access_def ex_details_hash_def ex_request_hash_def length_ex_client)

lemma length_ex_hashes [simp]: "length ex_details_hash = 32" "length ex_request_hash = 32"
  by (simp_all add: ex_details_hash_def ex_request_hash_def)

lemma ex_payment_checked:
  "check_payment ex_access ex_scalar 20000000000 (replicate 32 10) ex_verify ex_details =
    Inr (ex_client, ex_request_hash, 30, 60)"
proof -
  have scheme: "json_get ''scheme'' ex_details = Some (JString SCHEME)" "pp_scheme ex_payload = SCHEME"
    by (simp_all add: ex_details_def SCHEME_def ex_payload_def)
  have hash: "compute_payment_details_hash ex_access ex_scalar ex_details = ex_details_hash"
    "compute_request_hash ex_access ex_context ''details'' = ex_request_hash"
    by (simp_all add: compute_payment_details_hash_def compute_request_hash_def ex_details_hash_def
        ex_request_hash_def ex_context_def)
  have sig: "verify_client_signature ex_access ex_payload = Inr ()"
    by (simp add: verify_client_signature_def verify_ed25519_text_def ex_payload_def ok_or_def require_def)
  have p: "pp_payment_details_hash ex_payload = ''details''" "pp_request_hash ex_payload = ''request''"
    "pp_vault ex_payload = ''vault''" "pp_client ex_payload = ''client''" "pp_amount ex_payload = ''30''"
    "vq_payload ex_verify = ex_payload" "vq_context ex_verify = ex_context"
    by (simp_all add: ex_payload_def ex_verify_def)
  have amount: "parse_u64 ''30'' = Some 30"
    by (simp add: parse_u64_def)
  show ?thesis
    by (simp add: check_payment_def p scheme hash sig ex_details_match ex_window amount rbind_def ok_or_def require_def)
qed

lemmas request_eval = post_verify_def ensure_vault_allows_new_verification_def load_vault_lifecycle_def
  lift_result_def ex_payment_checked ensure_open_provider_registered_def
  authenticate_provider_def authenticate_registered_provider_def named_provider_matches_def header_value_def
  check_provider_def reserve_payment_def hex_array32_def issue_verification_receipt_def
  call_now_def rbind_def require_def ok_or_def

lemma ex_request_handled:
  "\<exists>app app'. exec_run ex_env ex_C ex_sha256 (take 2 ex_history) ex_start = Some app \<and>
    handle ex_env ex_access ex_scalar ex_C ex_call (VerifyReq [] ex_verify) app = (Inr (), app') \<and>
    fresh_call ex_call (app_vault app) \<and>
    map wr_entry (wal_stored (app_wal app')) = map wr_entry (wal_stored (app_wal app)) @
      [ReservationCreated ''ver_1'' (Some ''res_2'') ''p1'' ex_client ''prov'' 30
        (Some ex_request_hash) (Some ex_details_hash) (Some 20) (Some 80),
       ParticipantReceiptIssued ex_client 0 2, ParticipantReceiptMirrored ex_client 0 2]"
proof -
  have q: "vq_payload ex_verify = ex_payload" "vq_context ex_verify = ex_context" "vq_details ex_verify = Some ex_details"
    by (simp_all add: ex_verify_def)
  have p: "pp_payment_details_hash ex_payload = ''details''" "pp_payment_id ex_payload = ''p1''"
    "pp_provider_id ex_payload = ''prov''" "pp_pay_to ex_payload = ''account''" "pp_network ex_payload = ''n''"
    "pp_asset_mint ex_payload = ''mint''"
    by (simp_all add: ex_payload_def)
  show ?thesis
    unfolding ex_history_def ex_start_def ex_call_def
    by (simp add: history_eval ex_provider_def request_eval q p fresh_call_def wal_stored_def PARTICIPANT_KIND_CLIENT_def)
qed


end
