(* ===== verification/Buyer.thy ===== *)
theory Buyer
  imports Requests
begin

text \<open>
  The buyer's side of a payment: the message formats of \<^verbatim>\<open>src/sdk/src/crypto.ts\<close> and the client of
  \<^verbatim>\<open>src/sdk/src/subly402.ts\<close> from the \<^verbatim>\<open>402\<close> answer to the signed payment (budget, attestation,
  payload).

  A string is the sequence of its UTF-8 bytes, one per character; case and white space are those of
  ASCII.  \<^verbatim>\<open>throw\<close> is \<open>Inl\<close>.  A call takes place at one instant of the clock.
\<close>

section \<open>What the TypeScript packages use from libraries\<close>

text \<open>Hashes and encodings of Node, detached Ed25519 signatures, \<^verbatim>\<open>JSON.stringify\<close> and dates in
  milliseconds; for attestation also the decoded local document, the check of a Nitro document and the
  certificate seen at an endpoint.\<close>
record AttestationResponse =
  at_vaultConfig :: string
  at_vaultSigner :: string
  at_attestationPolicyHash :: string
  at_attestationDocument :: string
  at_snapshotSeqno :: "nat option"
  at_tlsPublicKeySha256 :: "string option"
  at_issuedAt :: string
  at_expiresAt :: string

record LocalDevAttestationDocument =
  ld_version :: nat
  ld_mode :: string
  ld_vaultConfig :: string
  ld_vaultSigner :: string
  ld_attestationPolicyHash :: string
  ld_snapshotSeqno :: "nat option"

record js_env =
  js_sha256 :: "bytes \<Rightarrow> bytes"
  js_hex :: "bytes \<Rightarrow> string"
  js_base64 :: "bytes \<Rightarrow> string"
  js_sign :: "bytes \<Rightarrow> bytes \<Rightarrow> bytes"
  js_stringify :: "json \<Rightarrow> string"
  js_toISOString :: "int \<Rightarrow> string"
  js_Date_parse :: "string \<Rightarrow> int option"
  js_local_document :: "string \<Rightarrow> LocalDevAttestationDocument option"
  js_probe_tls :: "string \<Rightarrow> string option"

datatype js_error =
    UnsupportedBodyType string
  | UnsupportedAmount
  | TooManyDecimalPlaces
  | NotAnInteger
  | PaymentExceedsPolicy
  | NoPaymentOption
  | UntrustedFacilitator
  | AttestationFetchFailed
  | AttestationMismatch
  | AttestationTimestampsInvalid
  | AttestationExpired
  | UnsupportedLocalDocument
  | NitroAttestationRejected
  | AttestationVerifierRejected
  | AttestationVerifierRequired
  | MissingTlsBinding
  | TlsProbeFailed
  | TlsPublicKeyMismatch
  | ApiKeyRequired
  | NoSupportedScheme
  | NetworkNotRegistered
  | AssetMintRequired
  | PayToRequired
  | InvalidRouteKey

definition js_upper :: "string \<Rightarrow> string" where
  "js_upper s = map (\<lambda>c. let d = of_char c :: nat in if 97 \<le> d \<and> d \<le> 122 then char_of (d - 32) else c) s"

definition js_lower :: "string \<Rightarrow> string" where
  "js_lower s = map (\<lambda>c. let d = of_char c :: nat in if 65 \<le> d \<and> d \<le> 90 then char_of (d + 32) else c) s"

definition js_space :: "char \<Rightarrow> bool" where
  "js_space c = (let d = of_char c :: nat in 9 \<le> d \<and> d \<le> 13 \<or> d = 32)"

definition js_trim :: "string \<Rightarrow> string" where
  "js_trim s = rev (dropWhile js_space (rev (dropWhile js_space s)))"

definition startsWith :: "string \<Rightarrow> string \<Rightarrow> bool" where
  "startsWith s p = (take (length p) s = p)"

definition endsWith :: "string \<Rightarrow> string \<Rightarrow> bool" where
  "endsWith s p = (length p \<le> length s \<and> drop (length s - length p) s = p)"

text \<open>\<^verbatim>\<open>BigInt(text)\<close>: white space around it, a sign in base ten, prefixes for bases 16, 8 and 2.\<close>
definition digit_value :: "char \<Rightarrow> nat option" where
  "digit_value c = (let d = of_char c in
    if 48 \<le> d \<and> d \<le> 57 then Some (d - 48)
    else if 97 \<le> d \<and> d \<le> 102 then Some (d - 87)
    else if 65 \<le> d \<and> d \<le> 70 then Some (d - 55)
    else None)"

fun parse_base :: "nat \<Rightarrow> nat \<Rightarrow> string \<Rightarrow> nat option" where
  "parse_base b n [] = Some n"
| "parse_base b n (c # cs) = (case digit_value c of
      None \<Rightarrow> None
    | Some d \<Rightarrow> if d < b then parse_base b (n * b + d) cs else None)"

definition parse_literal :: "nat \<Rightarrow> string \<Rightarrow> nat option" where
  "parse_literal b s = (if s = [] then None else parse_base b 0 s)"

definition BigInt :: "string \<Rightarrow> int option" where
  "BigInt text = (let s = js_trim text; prefix = js_lower (take 2 s) in
    if s = [] then Some 0
    else if prefix = ''0x'' then map_option int (parse_literal 16 (drop 2 s))
    else if prefix = ''0o'' then map_option int (parse_literal 8 (drop 2 s))
    else if prefix = ''0b'' then map_option int (parse_literal 2 (drop 2 s))
    else if hd s = CHR ''-'' then map_option (\<lambda>n. - int n) (parse_literal 10 (tl s))
    else if hd s = CHR ''+'' then map_option int (parse_literal 10 (tl s))
    else map_option int (parse_literal 10 s))"

section \<open>\<^verbatim>\<open>crypto.ts\<close>\<close>

definition sha256hex :: "js_env \<Rightarrow> bytes \<Rightarrow> string" where
  "sha256hex js data = js_hex js (js_sha256 js data)"

text \<open>The body given to \<^verbatim>\<open>fetch\<close>: absent, text, any kind of byte buffer, or an object of another class.\<close>
datatype BodyInit = NoBody | TextBody string | ByteBody bytes | OtherBody string

fun bodyToBytes :: "BodyInit \<Rightarrow> (js_error, bytes) result" where
  "bodyToBytes NoBody = Inr []"
| "bodyToBytes (TextBody s) = Inr (str_bytes s)"
| "bodyToBytes (ByteBody bs) = Inr bs"
| "bodyToBytes (OtherBody kind) = Inl (UnsupportedBodyType kind)"

function canonicalJson :: "js_env \<Rightarrow> json \<Rightarrow> string" where
  "canonicalJson js (JArray items) = ''['' @ join '','' (map (canonicalJson js) items) @ '']''"
| "canonicalJson js (JObject entries) =
    ''{'' @ join '','' (map (\<lambda>(key, item). js_stringify js (JString key) @ '':'' @ canonicalJson js item)
      (sort_key fst entries)) @ ''}''"
| "canonicalJson js JNull = js_stringify js JNull"
| "canonicalJson js (JBool b) = js_stringify js (JBool b)"
| "canonicalJson js (JNumber n) = js_stringify js (JNumber n)"
| "canonicalJson js (JString s) = js_stringify js (JString s)"
  by pat_completeness auto

termination
  by (relation "measure (size \<circ> snd)") (auto simp: size_json_field size_list_estimation' less_Suc_eq_le)

text \<open>The interface \<^verbatim>\<open>PaymentDetails\<close> and its JSON object.\<close>
record PaymentDetails =
  pd_scheme :: string
  pd_network :: string
  pd_amount :: string
  pd_asset_kind :: string
  pd_asset_mint :: string
  pd_asset_decimals :: u64
  pd_asset_symbol :: string
  pd_payTo :: string
  pd_providerId :: string
  pd_facilitatorUrl :: string
  pd_vault_config :: string
  pd_vault_signer :: string
  pd_vault_attestationPolicyHash :: string
  pd_paymentDetailsId :: string
  pd_verifyWindowSec :: u64
  pd_maxSettlementDelaySec :: u64
  pd_privacyMode :: string

definition details_json :: "PaymentDetails \<Rightarrow> json" where
  "details_json d = JObject
    [(''scheme'', JString (pd_scheme d)), (''network'', JString (pd_network d)),
     (''amount'', JString (pd_amount d)),
     (''asset'', JObject [(''kind'', JString (pd_asset_kind d)), (''mint'', JString (pd_asset_mint d)),
       (''decimals'', JNumber (PosInt (pd_asset_decimals d))), (''symbol'', JString (pd_asset_symbol d))]),
     (''payTo'', JString (pd_payTo d)), (''providerId'', JString (pd_providerId d)),
     (''facilitatorUrl'', JString (pd_facilitatorUrl d)),
     (''vault'', JObject [(''config'', JString (pd_vault_config d)), (''signer'', JString (pd_vault_signer d)),
       (''attestationPolicyHash'', JString (pd_vault_attestationPolicyHash d))]),
     (''paymentDetailsId'', JString (pd_paymentDetailsId d)),
     (''verifyWindowSec'', JNumber (PosInt (pd_verifyWindowSec d))),
     (''maxSettlementDelaySec'', JNumber (PosInt (pd_maxSettlementDelaySec d))),
     (''privacyMode'', JString (pd_privacyMode d))]"

definition computePaymentDetailsHash :: "js_env \<Rightarrow> PaymentDetails \<Rightarrow> string" where
  "computePaymentDetailsHash js details = sha256hex js (str_bytes (canonicalJson js (details_json details)))"

definition computeRequestHash :: "js_env \<Rightarrow> string \<Rightarrow> string \<Rightarrow> string \<Rightarrow> string \<Rightarrow> string \<Rightarrow> string" where
  "computeRequestHash js method origin pathAndQuery bodySha256 paymentDetailsHash =
    sha256hex js (str_bytes (''SUBLY402-SVM-V1-REQ'' @ newline @ method @ newline @ origin @ newline @
      pathAndQuery @ newline @ bodySha256 @ newline @ paymentDetailsHash @ newline))"

text \<open>The fields are those of the payload before it is signed.\<close>
definition buildSignatureMessage :: "PaymentPayload \<Rightarrow> bytes" where
  "buildSignatureMessage f =
    str_bytes (''SUBLY402-SVM-V1-AUTH'' @ newline @ show_nat (unat (pp_version f)) @ newline @
      pp_scheme f @ newline @ pp_payment_id f @ newline @ pp_client f @ newline @ pp_vault f @ newline @
      pp_provider_id f @ newline @ pp_pay_to f @ newline @ pp_network f @ newline @
      pp_asset_mint f @ newline @ pp_amount f @ newline @ pp_request_hash f @ newline @
      pp_payment_details_hash f @ newline @ pp_expires_at f @ newline @ pp_nonce f @ newline)"

section \<open>\<^verbatim>\<open>subly402.ts\<close>: choosing and checking an offer\<close>

text \<open>\<^verbatim>\<open>url.replace(/\/$/, "")\<close>\<close>
definition normalizeBaseUrl :: "string \<Rightarrow> string" where
  "normalizeBaseUrl url = (if url \<noteq> [] \<and> last url = CHR ''/'' then butlast url else url)"

definition networkMatches :: "string \<Rightarrow> string \<Rightarrow> bool" where
  "networkMatches pattern network =
    (if pattern = ''*'' \<or> pattern = network then True
     else if endsWith pattern '':*'' then startsWith network (butlast pattern)
     else False)"

definition is_digit :: "char \<Rightarrow> bool" where
  "is_digit c = (let d = of_char c :: nat in 48 \<le> d \<and> d \<le> 57)"

text \<open>\<^verbatim>\<open>/^\d+$/\<close> and the value of such a text\<close>
definition all_digits :: "string \<Rightarrow> bool" where
  "all_digits s = (s \<noteq> [] \<and> list_all is_digit s)"

definition digits_value :: "string \<Rightarrow> nat" where
  "digits_value s = foldl (\<lambda>n c. n * 10 + (of_char c - 48)) 0 s"

text \<open>\<^verbatim>\<open>/^\d+(\.\d+)?$/\<close> and \<^verbatim>\<open>split(".")\<close>\<close>
definition split_decimal :: "string \<Rightarrow> (string \<times> string) option" where
  "split_decimal s =
    (let whole = takeWhile (\<lambda>c. c \<noteq> CHR ''.'') s; rest = dropWhile (\<lambda>c. c \<noteq> CHR ''.'') s in
     if \<not> all_digits whole then None
     else if rest = [] then Some (whole, [])
     else if all_digits (tl rest) then Some (whole, tl rest)
     else None)"

text \<open>An amount given as text.\<close>
definition parseAmountToAtomic :: "string \<Rightarrow> nat \<Rightarrow> (js_error, nat) result" where
  "parseAmountToAtomic amount decimals =
    (let trimmed = js_trim amount in
     if all_digits trimmed then Inr (digits_value trimmed)
     else
       let decimal = (if startsWith trimmed ''$'' then drop 1 trimmed else trimmed) in
       ok_or (split_decimal decimal) UnsupportedAmount (\<lambda>(whole, fraction).
       require (\<not> decimals < length fraction) TooManyDecimalPlaces (
       Inr (digits_value whole * 10 ^ decimals +
         digits_value (take decimals (fraction @ replicate decimals (CHR ''0'')))))))"

text \<open>A client: its registered networks, each with the signer's address and secret key, and its
  policy.  A Nitro policy is represented by the check of a document under it, the verifier of the
  application by what it accepts.\<close>
record Subly402Signer =
  sg_address :: string
  sg_secretKey :: bytes

record Subly402Client =
  sc_trustedFacilitators :: "string list"
  sc_maxPaymentPerRequest :: "string option"
  sc_nitroAttestation :: "(AttestationResponse \<Rightarrow> PaymentDetails \<Rightarrow> bool) option"
  sc_attestationVerifier :: "(AttestationResponse \<Rightarrow> bool) option"
  sc_schemes :: "(string \<times> Subly402Signer) list"
  sc_defaultScheme :: "Subly402Signer option"

definition findSchemeForNetwork :: "Subly402Client \<Rightarrow> string \<Rightarrow> Subly402Signer option" where
  "findSchemeForNetwork client network =
    (case List.find (\<lambda>(registered, _). networkMatches registered network) (sc_schemes client) of
       Some (_, scheme) \<Rightarrow> Some scheme
     | None \<Rightarrow> sc_defaultScheme client)"

definition select_offer :: "Subly402Client \<Rightarrow> PaymentDetails list \<Rightarrow> (PaymentDetails \<times> Subly402Signer) option" where
  "select_offer client accepts =
    (case List.find (\<lambda>d. pd_scheme d = ''subly402-svm-v1'' \<and>
          findSchemeForNetwork client (pd_network d) \<noteq> None) accepts of
       None \<Rightarrow> None
     | Some d \<Rightarrow> map_option (Pair d) (findSchemeForNetwork client (pd_network d)))"

definition assertBudget :: "Subly402Client \<Rightarrow> PaymentDetails \<Rightarrow> (js_error, unit) result" where
  "assertBudget client details = (case sc_maxPaymentPerRequest client of
      None \<Rightarrow> Inr ()
    | Some limit \<Rightarrow>
        ok_or (BigInt (pd_amount details)) NotAnInteger (\<lambda>amount.
        rbind (parseAmountToAtomic limit (unat (pd_asset_decimals details))) (\<lambda>maxAmount.
        require (\<not> int maxAmount < amount) PaymentExceedsPolicy (Inr ()))))"

section \<open>\<^verbatim>\<open>subly402.ts\<close>: attestation\<close>

definition assertAttestationMatchesDetails ::
  "js_env \<Rightarrow> int \<Rightarrow> AttestationResponse \<Rightarrow> PaymentDetails \<Rightarrow> (js_error, unit) result" where
  "assertAttestationMatchesDetails js now attestation details =
    require (at_vaultConfig attestation = pd_vault_config details) AttestationMismatch (
    require (at_vaultSigner attestation = pd_vault_signer details) AttestationMismatch (
    require (js_lower (at_attestationPolicyHash attestation) = js_lower (pd_vault_attestationPolicyHash details))
      AttestationMismatch (
    ok_or (js_Date_parse js (at_issuedAt attestation)) AttestationTimestampsInvalid (\<lambda>issuedAtMs.
    ok_or (js_Date_parse js (at_expiresAt attestation)) AttestationTimestampsInvalid (\<lambda>expiresAtMs.
    require (\<not> (expiresAtMs \<le> now \<or> expiresAtMs \<le> issuedAtMs)) AttestationExpired (Inr ()))))))"

definition EXPIRY_SAFETY_MARGIN_MS :: int where "EXPIRY_SAFETY_MARGIN_MS = 60 * 1000"

text \<open>Whether \<^verbatim>\<open>cacheEntryStaleReason\<close> gives a reason.\<close>
definition cacheEntryStale :: "js_env \<Rightarrow> int \<Rightarrow> AttestationResponse \<Rightarrow> PaymentDetails \<Rightarrow> bool" where
  "cacheEntryStale js now cached details =
    (if at_vaultConfig cached \<noteq> pd_vault_config details then True
     else if at_vaultSigner cached \<noteq> pd_vault_signer details then True
     else if js_lower (at_attestationPolicyHash cached) \<noteq> js_lower (pd_vault_attestationPolicyHash details) then True
     else case js_Date_parse js (at_expiresAt cached) of
       None \<Rightarrow> True
     | Some expiresAtMs \<Rightarrow> expiresAtMs \<le> now + EXPIRY_SAFETY_MARGIN_MS)"

definition verifyLocalAttestationDocument ::
  "AttestationResponse \<Rightarrow> LocalDevAttestationDocument \<Rightarrow> (js_error, unit) result" where
  "verifyLocalAttestationDocument attestation localDocument =
    require (ld_version localDocument = 1 \<and> ld_mode localDocument = ''local-dev'') UnsupportedLocalDocument (
    require (ld_vaultConfig localDocument = at_vaultConfig attestation) AttestationMismatch (
    require (ld_vaultSigner localDocument = at_vaultSigner attestation) AttestationMismatch (
    require (js_lower (ld_attestationPolicyHash localDocument) = js_lower (at_attestationPolicyHash attestation))
      AttestationMismatch (
    require (ld_snapshotSeqno localDocument = None \<or>
        ld_snapshotSeqno localDocument = at_snapshotSeqno attestation) AttestationMismatch (Inr ())))))"

text \<open>An empty hash counts as missing.\<close>
definition verifyAttestedTlsBinding ::
  "js_env \<Rightarrow> string \<Rightarrow> AttestationResponse \<Rightarrow> bool \<Rightarrow> (js_error, unit) result" where
  "verifyAttestedTlsBinding js facilitatorUrl attestation allowMissingForLocalDev =
    (case at_tlsPublicKeySha256 attestation of
       Some expected \<Rightarrow>
         if expected = [] then (if allowMissingForLocalDev then Inr () else Inl MissingTlsBinding)
         else
           ok_or (js_probe_tls js facilitatorUrl) TlsProbeFailed (\<lambda>observed.
           require (js_lower observed = js_lower expected) TlsPublicKeyMismatch (Inr ()))
     | None \<Rightarrow> if allowMissingForLocalDev then Inr () else Inl MissingTlsBinding)"

text \<open>A document that is not a local one: the Nitro policy and the verifier of the application.\<close>
definition verify_remote_document ::
  "Subly402Client \<Rightarrow> AttestationResponse \<Rightarrow> PaymentDetails \<Rightarrow> (js_error, unit) result" where
  "verify_remote_document client attestation details =
    (case sc_nitroAttestation client of
       Some verifyNitroAttestationDocument \<Rightarrow>
         require (verifyNitroAttestationDocument attestation details) NitroAttestationRejected (
         case sc_attestationVerifier client of
           Some attestationVerifier \<Rightarrow>
             require (attestationVerifier attestation) AttestationVerifierRejected (Inr ())
         | None \<Rightarrow> Inr ())
     | None \<Rightarrow> (case sc_attestationVerifier client of
           Some attestationVerifier \<Rightarrow>
             require (attestationVerifier attestation) AttestationVerifierRejected (Inr ())
         | None \<Rightarrow> Inl AttestationVerifierRequired))"

text \<open>The part of \<^verbatim>\<open>verifyAttestation\<close> after the answer of the facilitator.\<close>
definition check_attestation ::
  "js_env \<Rightarrow> int \<Rightarrow> Subly402Client \<Rightarrow> string \<Rightarrow> AttestationResponse \<Rightarrow> PaymentDetails \<Rightarrow>
    (js_error, unit) result" where
  "check_attestation js now client facilitatorUrl attestation details =
    rbind (assertAttestationMatchesDetails js now attestation details) (\<lambda>_.
    let localDocument = js_local_document js (at_attestationDocument attestation);
        isLocalDevAttestation = (case localDocument of
          None \<Rightarrow> False | Some document \<Rightarrow> ld_mode document = ''local-dev'') in
    rbind (if isLocalDevAttestation then verifyLocalAttestationDocument attestation (the localDocument)
      else verify_remote_document client attestation details) (\<lambda>_.
    verifyAttestedTlsBinding js facilitatorUrl attestation isLocalDevAttestation))"

type_synonym attestation_cache = "(string, AttestationResponse) amap"

text \<open>From the request for the attestation to the new entry of the cache.\<close>
definition fetch_attestation ::
  "js_env \<Rightarrow> int \<Rightarrow> Subly402Client \<Rightarrow> (string \<Rightarrow> AttestationResponse option) \<Rightarrow> string \<Rightarrow> PaymentDetails \<Rightarrow>
    attestation_cache \<Rightarrow> (js_error, AttestationResponse) result \<times> attestation_cache" where
  "fetch_attestation js now client fetched facilitatorUrl details cache =
    (case fetched facilitatorUrl of
       None \<Rightarrow> (Inl AttestationFetchFailed, cache)
     | Some attestation \<Rightarrow>
         (case check_attestation js now client facilitatorUrl attestation details of
            Inl e \<Rightarrow> (Inl e, cache)
          | Inr _ \<Rightarrow> (Inr attestation, aput facilitatorUrl attestation cache)))"

text \<open>\<open>fetched\<close> is the facilitator's answer, \<open>None\<close> without a successful one.  The cache is returned as
  the call leaves it.\<close>
definition verifyAttestation ::
  "js_env \<Rightarrow> int \<Rightarrow> Subly402Client \<Rightarrow> (string \<Rightarrow> AttestationResponse option) \<Rightarrow> PaymentDetails \<Rightarrow>
    attestation_cache \<Rightarrow> (js_error, AttestationResponse) result \<times> attestation_cache" where
  "verifyAttestation js now client fetched details cache =
    (let facilitatorUrl = normalizeBaseUrl (pd_facilitatorUrl details) in
     if sc_trustedFacilitators client \<noteq> [] \<and> facilitatorUrl \<notin> set (sc_trustedFacilitators client)
     then (Inl UntrustedFacilitator, cache)
     else case aget cache facilitatorUrl of
       Some cached \<Rightarrow>
         if \<not> cacheEntryStale js now cached details then (Inr cached, cache)
         else fetch_attestation js now client fetched facilitatorUrl details (adel facilitatorUrl cache)
     | None \<Rightarrow> fetch_attestation js now client fetched facilitatorUrl details cache)"

section \<open>\<^verbatim>\<open>subly402.ts\<close>: the payment\<close>

text \<open>The parts of \<^verbatim>\<open>new URL(url)\<close> that are used, and the options of \<^verbatim>\<open>fetch\<close>.\<close>
record fetch_request =
  fr_origin :: string
  fr_pathname :: string
  fr_search :: string
  fr_method :: "string option"
  fr_body :: BodyInit

definition fetch_method :: "fetch_request \<Rightarrow> string" where
  "fetch_method rq = (case fr_method rq of
      None \<Rightarrow> ''GET'' | Some m \<Rightarrow> if m = [] then ''GET'' else m)"

definition PAYMENT_LIFETIME_MS :: int where "PAYMENT_LIFETIME_MS = 30 * 60 * 1000"

text \<open>The payload before \<^verbatim>\<open>clientSig\<close> is filled in, then the signed one.\<close>
definition unsigned_payload ::
  "js_env \<Rightarrow> int \<Rightarrow> string \<Rightarrow> fetch_request \<Rightarrow> bytes \<Rightarrow> PaymentDetails \<Rightarrow> string \<Rightarrow> PaymentPayload" where
  "unsigned_payload js now uuid rq body_bytes details client =
    (let method = js_upper (fetch_method rq);
         origin = fr_origin rq;
         pathAndQuery = fr_pathname rq @ fr_search rq;
         bodySha256 = sha256hex js body_bytes;
         paymentDetailsHash = computePaymentDetailsHash js details;
         requestHash = computeRequestHash js method origin pathAndQuery bodySha256 paymentDetailsHash in
     \<lparr>pp_version = 1, pp_scheme = ''subly402-svm-v1'', pp_payment_id = ''pay_'' @ uuid, pp_client = client,
      pp_vault = pd_vault_config details, pp_provider_id = pd_providerId details, pp_pay_to = pd_payTo details,
      pp_network = pd_network details, pp_asset_mint = pd_asset_mint details, pp_amount = pd_amount details,
      pp_request_hash = requestHash, pp_payment_details_hash = paymentDetailsHash,
      pp_expires_at = js_toISOString js (now + PAYMENT_LIFETIME_MS), pp_nonce = show_nat (nat now),
      pp_client_sig = []\<rparr>)"

definition buildPaymentPayload ::
  "js_env \<Rightarrow> int \<Rightarrow> string \<Rightarrow> fetch_request \<Rightarrow> PaymentDetails \<Rightarrow> Subly402Signer \<Rightarrow>
    (js_error, PaymentPayload) result" where
  "buildPaymentPayload js now uuid rq details signer =
    rbind (bodyToBytes (fr_body rq)) (\<lambda>body_bytes.
    let payload = unsigned_payload js now uuid rq body_bytes details (sg_address signer) in
    Inr (payload\<lparr>pp_client_sig := js_base64 js (js_sign js (sg_secretKey signer) (buildSignatureMessage payload))\<rparr>))"

text \<open>\<^verbatim>\<open>Subly402Client.fetch\<close> from a \<^verbatim>\<open>402\<close> answer to the payment of the retried request.\<close>
definition pay_offer ::
  "js_env \<Rightarrow> int \<Rightarrow> string \<Rightarrow> Subly402Client \<Rightarrow> (string \<Rightarrow> AttestationResponse option) \<Rightarrow> fetch_request \<Rightarrow>
    PaymentDetails list \<Rightarrow> attestation_cache \<Rightarrow> (js_error, PaymentPayload) result \<times> attestation_cache" where
  "pay_offer js now uuid client fetched rq accepts cache =
    (case select_offer client accepts of
       None \<Rightarrow> (Inl NoPaymentOption, cache)
     | Some (details, signer) \<Rightarrow>
         (case assertBudget client details of
            Inl e \<Rightarrow> (Inl e, cache)
          | Inr _ \<Rightarrow>
              (case verifyAttestation js now client fetched details cache of
                 (Inl e, cache') \<Rightarrow> (Inl e, cache')
               | (Inr _, cache') \<Rightarrow> (buildPaymentPayload js now uuid rq details signer, cache'))))"

end
