(* ===== verification/Seller.thy ===== *)
theory Seller
  imports Buyer
begin

text \<open>
  The seller's side of a payment: routes, prices and offers of \<^verbatim>\<open>src/middleware/src/subly402.ts\<close>, the
  payment details and the request context of \<^verbatim>\<open>src/middleware/src/middleware.ts\<close> and the credentials of
  \<^verbatim>\<open>src/middleware/src/facilitator.ts\<close>.
\<close>

section \<open>\<^verbatim>\<open>types.ts\<close>: the configuration of a provider\<close>

record Subly402ProviderConfig =
  pc_facilitatorUrl :: string
  pc_providerId :: string
  pc_authMode :: "string option"
  pc_apiKey :: "string option"
  pc_mtls :: bool
  pc_payTo :: string
  pc_network :: string
  pc_assetMint :: string
  pc_assetDecimals :: u64
  pc_assetSymbol :: string
  pc_vaultConfig :: string
  pc_vaultSigner :: string
  pc_attestationPolicyHash :: string

section \<open>\<^verbatim>\<open>middleware.ts\<close>: what is paid for\<close>

text \<open>The request as Express gives it: \<^verbatim>\<open>req.body\<close> is absent, text, bytes or a parsed value.\<close>
datatype express_body = BodyAbsent | BodyText string | BodyBuffer bytes | BodyParsed json

record express_request =
  er_method :: string
  er_protocol :: string
  er_host :: string
  er_path :: string
  er_originalUrl :: string
  er_rawBody :: "bytes option"
  er_body :: express_body

fun body_bytes :: "js_env \<Rightarrow> express_body \<Rightarrow> bytes" where
  "body_bytes js BodyAbsent = []"
| "body_bytes js (BodyText s) = str_bytes s"
| "body_bytes js (BodyBuffer bs) = bs"
| "body_bytes js (BodyParsed v) = str_bytes (js_stringify js v)"

definition getRawRequestBody :: "js_env \<Rightarrow> express_request \<Rightarrow> bytes" where
  "getRawRequestBody js req = (case er_rawBody req of
      Some rawBody \<Rightarrow> rawBody | None \<Rightarrow> body_bytes js (er_body req))"

definition buildRequestContext :: "js_env \<Rightarrow> express_request \<Rightarrow> RequestContext" where
  "buildRequestContext js req =
    \<lparr>rc_method = js_upper (er_method req), rc_origin = er_protocol req @ ''://'' @ er_host req,
     rc_path_and_query = er_originalUrl req, rc_body_sha256 = sha256hex js (getRawRequestBody js req)\<rparr>"

definition buildPaymentDetailsId ::
  "js_env \<Rightarrow> Subly402ProviderConfig \<Rightarrow> string \<Rightarrow> RequestContext \<Rightarrow> string" where
  "buildPaymentDetailsId js config amount requestContext =
    (let hash = sha256hex js (str_bytes (''SUBLY402-SVM-V1-PAYDET'' @ newline @ pc_providerId config @ newline @
       pc_payTo config @ newline @ pc_network config @ newline @ pc_assetMint config @ newline @
       pc_vaultConfig config @ newline @ amount @ newline @ rc_method requestContext @ newline @
       rc_origin requestContext @ newline @ rc_path_and_query requestContext @ newline @
       rc_body_sha256 requestContext @ newline)) in
     ''paydet_'' @ take 32 hash)"

definition buildPaymentDetails ::
  "js_env \<Rightarrow> Subly402ProviderConfig \<Rightarrow> string \<Rightarrow> RequestContext \<Rightarrow> PaymentDetails" where
  "buildPaymentDetails js config amount requestContext =
    \<lparr>pd_scheme = ''subly402-svm-v1'', pd_network = pc_network config, pd_amount = amount,
     pd_asset_kind = ''spl-token'', pd_asset_mint = pc_assetMint config,
     pd_asset_decimals = pc_assetDecimals config, pd_asset_symbol = pc_assetSymbol config,
     pd_payTo = pc_payTo config, pd_providerId = pc_providerId config,
     pd_facilitatorUrl = pc_facilitatorUrl config, pd_vault_config = pc_vaultConfig config,
     pd_vault_signer = pc_vaultSigner config,
     pd_vault_attestationPolicyHash = pc_attestationPolicyHash config,
     pd_paymentDetailsId = buildPaymentDetailsId js config amount requestContext,
     pd_verifyWindowSec = 60, pd_maxSettlementDelaySec = 900, pd_privacyMode = ''vault-batched-v1''\<rparr>"

text \<open>The offers of \<^verbatim>\<open>send402\<close>.\<close>
definition send402_accepts :: "js_env \<Rightarrow> Subly402ProviderConfig \<Rightarrow> string \<Rightarrow> express_request \<Rightarrow> PaymentDetails list" where
  "send402_accepts js config amount req = [buildPaymentDetails js config amount (buildRequestContext js req)]"

text \<open>The body of the call of \<^verbatim>\<open>/v1/verify\<close>.\<close>
definition verify_call_body ::
  "js_env \<Rightarrow> Subly402ProviderConfig \<Rightarrow> string \<Rightarrow> express_request \<Rightarrow> PaymentPayload \<Rightarrow> VerifyRequest" where
  "verify_call_body js config price req payload =
    (let requestContext = buildRequestContext js req;
         paymentDetails = buildPaymentDetails js config price requestContext in
     \<lparr>vq_payload = payload, vq_details = Some (details_json paymentDetails), vq_context = requestContext\<rparr>)"

section \<open>\<^verbatim>\<open>facilitator.ts\<close>: credentials\<close>

definition truthy :: "string option \<Rightarrow> bool" where
  "truthy s = (case s of None \<Rightarrow> False | Some t \<Rightarrow> t \<noteq> [])"

definition getAuthMode :: "Subly402ProviderConfig \<Rightarrow> string" where
  "getAuthMode config =
    (if truthy (pc_authMode config) then the (pc_authMode config)
     else if pc_mtls config then ''mtls''
     else if truthy (pc_apiKey config) then ''bearer''
     else ''none'')"

definition requireApiKey :: "Subly402ProviderConfig \<Rightarrow> (js_error, string) result" where
  "requireApiKey config = (if truthy (pc_apiKey config) then Inr (the (pc_apiKey config)) else Inl ApiKeyRequired)"

text \<open>Header names in lower case, as the receiver reads them.\<close>
definition buildAuthHeaders :: "Subly402ProviderConfig \<Rightarrow> string \<Rightarrow> (js_error, HeaderMap) result" where
  "buildAuthHeaders config authMode =
    (let headers = [(''content-type'', ''application/json''), (''x-subly402-provider-id'', pc_providerId config)] in
     if authMode = ''bearer'' then
       rbind (requireApiKey config) (\<lambda>apiKey.
       Inr (aput ''x-subly402-provider-auth'' apiKey (aput ''authorization'' (''Bearer '' @ apiKey) headers)))
     else if authMode = ''api-key'' then
       rbind (requireApiKey config) (\<lambda>apiKey.
       Inr (aput ''x-subly402-provider-auth'' apiKey headers))
     else Inr headers)"

section \<open>\<^verbatim>\<open>subly402.ts\<close>: routes and prices\<close>

record Subly402RouteAccept =
  ra_scheme :: "string option"
  ra_price :: string
  ra_network :: string
  ra_providerId :: "string option"
  ra_sellerWallet :: "string option"
  ra_payTo :: "string option"
  ra_asset :: "(string \<times> u64 option \<times> string option) option"
  ra_assetMint :: "string option"
  ra_assetDecimals :: "u64 option"
  ra_assetSymbol :: "string option"

record Subly402FacilitatorClient =
  fc_url :: string
  fc_providerApiKey :: "string option"
  fc_authMode :: "string option"
  fc_mtls :: bool
  fc_defaultAssetMint :: "string option"
  fc_defaultAssetDecimals :: u64
  fc_defaultAssetSymbol :: string

text \<open>\<^verbatim>\<open>a ?? b\<close>\<close>
definition orelse :: "'a option \<Rightarrow> 'a option \<Rightarrow> 'a option" where
  "orelse a b = (case a of None \<Rightarrow> b | Some x \<Rightarrow> Some x)"

definition deriveProviderId :: "js_env \<Rightarrow> string \<Rightarrow> string \<Rightarrow> string \<Rightarrow> string" where
  "deriveProviderId js network assetMint payTo =
    (let hash = sha256hex js (str_bytes (''SUBLY402-OPEN-PROVIDER-V1'' @ newline @ network @ newline @
       assetMint @ newline @ payTo @ newline)) in
     ''payto_'' @ take 32 hash)"

text \<open>\<open>ata\<close> is \<^verbatim>\<open>findAssociatedTokenPda\<close> of the token program.\<close>
definition resolvePayTo ::
  "(string \<Rightarrow> string \<Rightarrow> string) \<Rightarrow> Subly402RouteAccept \<Rightarrow> string \<Rightarrow> (js_error, string) result" where
  "resolvePayTo ata accept assetMint =
    (if truthy (ra_payTo accept) then Inr (the (ra_payTo accept))
     else if truthy (ra_sellerWallet accept) then Inr (ata (the (ra_sellerWallet accept)) assetMint)
     else Inl PayToRequired)"

text \<open>A price given as text.\<close>
definition normalizePriceToAtomic :: "string \<Rightarrow> nat \<Rightarrow> (js_error, string) result" where
  "normalizePriceToAtomic price decimals =
    (let trimmed = js_trim price in
     if all_digits trimmed then Inr trimmed
     else
       let decimal = (if startsWith trimmed ''$'' then drop 1 trimmed else trimmed) in
       ok_or (split_decimal decimal) UnsupportedAmount (\<lambda>(whole, fraction).
       require (\<not> decimals < length fraction) TooManyDecimalPlaces (
       Inr (show_nat (digits_value whole * 10 ^ decimals +
         digits_value (take decimals (fraction @ replicate decimals (CHR ''0''))))))))"

definition selectAccept :: "Subly402RouteAccept list \<Rightarrow> (js_error, Subly402RouteAccept) result" where
  "selectAccept accepts =
    ok_or (List.find (\<lambda>candidate. ra_scheme candidate \<in>
      {None, Some ''exact'', Some ''subly402-exact'', Some ''subly402-svm-v1''}) accepts) NoSupportedScheme Inr"

text \<open>The vault's fields come from the attestation of the facilitator.\<close>
definition buildProviderConfig ::
  "js_env \<Rightarrow> (string \<Rightarrow> string \<Rightarrow> string) \<Rightarrow> Subly402FacilitatorClient \<Rightarrow> string list \<Rightarrow>
    (js_error, AttestationResponse) result \<Rightarrow> Subly402RouteAccept \<Rightarrow> (js_error, Subly402ProviderConfig) result" where
  "buildProviderConfig js ata client networks getAttestation accept =
    require (\<exists>network\<in>set networks. networkMatches network (ra_network accept)) NetworkNotRegistered (
    rbind getAttestation (\<lambda>attestation.
    let assetMint = orelse (map_option fst (ra_asset accept))
          (orelse (ra_assetMint accept) (fc_defaultAssetMint client)) in
    require (truthy assetMint) AssetMintRequired (
    rbind (resolvePayTo ata accept (the assetMint)) (\<lambda>payTo.
    let providerId = (case ra_providerId accept of
          Some p \<Rightarrow> p | None \<Rightarrow> deriveProviderId js (ra_network accept) (the assetMint) payTo) in
    Inr \<lparr>pc_facilitatorUrl = fc_url client, pc_providerId = providerId, pc_authMode = fc_authMode client,
      pc_apiKey = fc_providerApiKey client, pc_mtls = fc_mtls client, pc_payTo = payTo,
      pc_network = ra_network accept, pc_assetMint = the assetMint,
      pc_assetDecimals = the (orelse (Option.bind (ra_asset accept) (fst \<circ> snd))
        (orelse (ra_assetDecimals accept) (Some (fc_defaultAssetDecimals client)))),
      pc_assetSymbol = the (orelse (Option.bind (ra_asset accept) (snd \<circ> snd))
        (orelse (ra_assetSymbol accept) (Some (fc_defaultAssetSymbol client)))),
      pc_vaultConfig = at_vaultConfig attestation, pc_vaultSigner = at_vaultSigner attestation,
      pc_attestationPolicyHash = at_attestationPolicyHash attestation\<rparr>))))"

text \<open>Words of a route key: \<^verbatim>\<open>trim().split(/\s+/)\<close>.\<close>
fun words_acc :: "string \<Rightarrow> string \<Rightarrow> string list" where
  "words_acc [] acc = (if acc = [] then [] else [rev acc])"
| "words_acc (c # cs) acc =
    (if js_space c then (if acc = [] then words_acc cs [] else rev acc # words_acc cs [])
     else words_acc cs (c # acc))"

definition split_words :: "string \<Rightarrow> string list" where
  "split_words s = words_acc s []"

definition routePath :: "string \<Rightarrow> (js_error, string \<times> string) result" where
  "routePath routeKey = (case split_words routeKey of
      method # r # rest \<Rightarrow> Inr (js_upper method, normalizeBaseUrl (join '' '' (r # rest)))
    | _ \<Rightarrow> Inl InvalidRouteKey)"

definition requestPath :: "express_request \<Rightarrow> string" where
  "requestPath req = normalizeBaseUrl
    (if er_path req \<noteq> [] then er_path req
     else let p = takeWhile (\<lambda>c. c \<noteq> CHR ''?'') (er_originalUrl req) in if p \<noteq> [] then p else ''/'')"

text \<open>The routes in the order of the object's keys.\<close>
fun findRoute :: "(string \<times> Subly402RouteAccept list) list \<Rightarrow> express_request \<Rightarrow>
    (js_error, Subly402RouteAccept list option) result" where
  "findRoute [] req = Inr None"
| "findRoute ((routeKey, route) # routes) req =
    rbind (routePath routeKey) (\<lambda>(method, path).
    if method = js_upper (er_method req) \<and> path = requestPath req then Inr (Some route)
    else findRoute routes req)"

text \<open>\<^verbatim>\<open>subly402PaymentMiddleware\<close> up to the call of \<^verbatim>\<open>subly402Middleware\<close>: no route, or the provider's
  configuration and the price.\<close>
definition price_request ::
  "js_env \<Rightarrow> (string \<Rightarrow> string \<Rightarrow> string) \<Rightarrow> Subly402FacilitatorClient \<Rightarrow> string list \<Rightarrow>
    (js_error, AttestationResponse) result \<Rightarrow> (string \<times> Subly402RouteAccept list) list \<Rightarrow> express_request \<Rightarrow>
    (js_error, (Subly402ProviderConfig \<times> string) option) result" where
  "price_request js ata client networks getAttestation routes req =
    rbind (findRoute routes req) (\<lambda>route. case route of
      None \<Rightarrow> Inr None
    | Some accepts \<Rightarrow>
        rbind (selectAccept accepts) (\<lambda>accept.
        rbind (buildProviderConfig js ata client networks getAttestation accept) (\<lambda>config.
        rbind (normalizePriceToAtomic (ra_price accept) (unat (pc_assetDecimals config))) (\<lambda>amount.
        Inr (Some (config, amount))))))"

end
