(* ===== verification/Payment_Flow.thy ===== *)
theory Payment_Flow
  imports Seller
begin

text \<open>
  A payment from the seller's offer over the buyer's client to the enclave: the formats that the
  TypeScript packages and the enclave each implement agree, and a payment that is built for an offer
  passes every check of \<open>post_verify\<close>.
\<close>

section \<open>What is assumed of the libraries\<close>

text \<open>The libraries of Node and of Rust on the same formats: SHA-256 is one function with 32 bytes of
  output, hexadecimal, base64 and ISO dates (of the years 1970 to 9999) are read back, and strings and
  integers below \<open>2 ^ 53\<close> have one text in JSON.\<close>
definition libraries_agree :: "js_env \<Rightarrow> access_env \<Rightarrow> (json \<Rightarrow> string) \<Rightarrow> bool" where
  "libraries_agree js ax scalar \<longleftrightarrow>
    js_sha256 js = ax_sha256 ax \<and> (\<forall>bs. length (ax_sha256 ax bs) = 32) \<and>
    js_hex js = ax_hex_encode ax \<and> (\<forall>bs. ax_hex_decode ax (js_hex js bs) = Some bs) \<and>
    (\<forall>bs. ax_base64_decode ax (js_base64 js bs) = Some bs) \<and>
    (\<forall>t. 0 \<le> t \<and> t < 253402300800000 \<longrightarrow> ax_rfc3339 ax (js_toISOString js t) = Some (t * 1000000)) \<and>
    (\<forall>s. js_stringify js (JString s) = scalar (JString s)) \<and>
    (\<forall>n. unat n < 2 ^ 53 \<longrightarrow> js_stringify js (JNumber (PosInt n)) = scalar (JNumber (PosInt n)))"

text \<open>The signer's address is the key under which the enclave verifies its signatures.\<close>
definition signer_key :: "js_env \<Rightarrow> access_env \<Rightarrow> Subly402Signer \<Rightarrow> pubkey \<Rightarrow> bool" where
  "signer_key js ax signer client \<longleftrightarrow>
    ax_pubkey ax (sg_address signer) = Some client \<and> ax_valid_key ax client \<and>
    (\<forall>m. length (js_sign js (sg_secretKey signer) m) = 64 \<and>
      ax_verify_strict ax client m (js_sign js (sg_secretKey signer) m))"

text \<open>The request that Express gives to the seller is the one the buyer sent.\<close>
definition same_request :: "js_env \<Rightarrow> fetch_request \<Rightarrow> express_request \<Rightarrow> bool" where
  "same_request js rq req \<longleftrightarrow>
    js_upper (er_method req) = js_upper (fetch_method rq) \<and>
    er_protocol req @ ''://'' @ er_host req = fr_origin rq \<and>
    er_originalUrl req = fr_pathname rq @ fr_search rq \<and>
    bodyToBytes (fr_body rq) = Inr (getRawRequestBody js req)"

text \<open>The seller's configuration is the enclave's registration: account, mint, network and
  credentials, with text that a header can carry.\<close>
definition registered_as :: "access_env \<Rightarrow> Subly402ProviderConfig \<Rightarrow> ProviderRegistration \<Rightarrow> bool" where
  "registered_as ax config provider \<longleftrightarrow>
    rg_provider_id provider = pc_providerId config \<and>
    ax_base58 ax (rg_settlement_token_account provider) = pc_payTo config \<and>
    ax_base58 ax (rg_asset_mint provider) = pc_assetMint config \<and>
    rg_network provider = pc_network config \<and>
    rg_auth_mode provider = getAuthMode config \<and>
    header_to_str (pc_providerId config) = Some (pc_providerId config) \<and>
    (getAuthMode config = ''none'' \<or>
     getAuthMode config \<in> {''bearer'', ''api-key''} \<and>
     (\<exists>apiKey. pc_apiKey config = Some apiKey \<and> apiKey \<noteq> [] \<and> header_to_str apiKey = Some apiKey \<and>
       header_to_str (''Bearer '' @ apiKey) = Some (''Bearer '' @ apiKey) \<and>
       rg_api_key_hash provider = Some (ax_sha256 ax (str_bytes apiKey))))"

lemma libraries_agreeD:
  assumes "libraries_agree js ax scalar"
  shows "js_sha256 js = ax_sha256 ax" "length (ax_sha256 ax bs) = 32" "js_hex js = ax_hex_encode ax"
    "ax_hex_decode ax (ax_hex_encode ax bs) = Some bs" "ax_base64_decode ax (js_base64 js bs) = Some bs"
    "0 \<le> t \<Longrightarrow> t < 253402300800000 \<Longrightarrow> ax_rfc3339 ax (js_toISOString js t) = Some (t * 1000000)"
    "js_stringify js (JString s) = scalar (JString s)"
    "unat n < 2 ^ 53 \<Longrightarrow> js_stringify js (JNumber (PosInt n)) = scalar (JNumber (PosInt n))"
  using assms unfolding libraries_agree_def by auto

section \<open>One format on both sides\<close>

lemma canonical_object:
  assumes "\<And>key. js_stringify js (JString key) = scalar (JString key)"
    and "\<And>key item. (key, item) \<in> set entries \<Longrightarrow> canonicalJson js item = canonical_json scalar item"
  shows "canonicalJson js (JObject entries) = canonical_json scalar (JObject entries)"
  using assms by (auto intro!: arg_cong [where f = "join _"] map_cong)

lemma canonical_details:
  assumes lib: "libraries_agree js ax scalar" and decimals: "unat (pd_asset_decimals d) < 2 ^ 53"
    and window: "unat (pd_verifyWindowSec d) < 2 ^ 53" and delay: "unat (pd_maxSettlementDelaySec d) < 2 ^ 53"
  shows "canonicalJson js (details_json d) = canonical_json scalar (details_json d)"
proof -
  note scalars = libraries_agreeD(7,8) [OF lib]
  have asset: "canonicalJson js (JObject [(''kind'', JString (pd_asset_kind d)), (''mint'', JString (pd_asset_mint d)),
      (''decimals'', JNumber (PosInt (pd_asset_decimals d))), (''symbol'', JString (pd_asset_symbol d))]) =
    canonical_json scalar (JObject [(''kind'', JString (pd_asset_kind d)), (''mint'', JString (pd_asset_mint d)),
      (''decimals'', JNumber (PosInt (pd_asset_decimals d))), (''symbol'', JString (pd_asset_symbol d))])"
    by (rule canonical_object) (use scalars decimals in auto)
  have vault: "canonicalJson js (JObject [(''config'', JString (pd_vault_config d)),
      (''signer'', JString (pd_vault_signer d)),
      (''attestationPolicyHash'', JString (pd_vault_attestationPolicyHash d))]) =
    canonical_json scalar (JObject [(''config'', JString (pd_vault_config d)),
      (''signer'', JString (pd_vault_signer d)),
      (''attestationPolicyHash'', JString (pd_vault_attestationPolicyHash d))])"
    by (rule canonical_object) (use scalars in auto)
  show ?thesis
    unfolding details_json_def
    by (rule canonical_object)
      (use scalars window delay asset vault in \<open>auto simp del: canonicalJson.simps(2) canonical_json.simps(1)\<close>)
qed

lemma details_hash_agrees:
  assumes "libraries_agree js ax scalar" "unat (pd_asset_decimals d) < 2 ^ 53"
    "unat (pd_verifyWindowSec d) < 2 ^ 53" "unat (pd_maxSettlementDelaySec d) < 2 ^ 53"
  shows "ax_hex_decode ax (computePaymentDetailsHash js d) =
    Some (compute_payment_details_hash ax scalar (details_json d))"
  using assms canonical_details [OF assms] libraries_agreeD [OF assms(1)]
  by (simp add: computePaymentDetailsHash_def compute_payment_details_hash_def sha256hex_def)

lemma request_hash_agrees:
  assumes "libraries_agree js ax scalar"
  shows "ax_hex_decode ax (computeRequestHash js (rc_method ctx) (rc_origin ctx) (rc_path_and_query ctx)
      (rc_body_sha256 ctx) h) = Some (compute_request_hash ax ctx h)"
  using libraries_agreeD [OF assms]
  by (simp add: computeRequestHash_def compute_request_hash_def sha256hex_def lines_def)

lemma signature_message_agrees:
  "buildSignatureMessage p = str_bytes (payment_auth_message p)"
  by (simp add: buildSignatureMessage_def payment_auth_message_def lines_def)

lemma signature_message_unsigned [simp]:
  "buildSignatureMessage (p\<lparr>pp_client_sig := s\<rparr>) = buildSignatureMessage p"
  by (simp add: buildSignatureMessage_def)

lemma provider_id_agrees:
  assumes "libraries_agree js ax scalar"
  shows "deriveProviderId js network assetMint payTo = derive_open_provider_id ax network assetMint payTo"
  using libraries_agreeD [OF assms]
  by (simp add: deriveProviderId_def derive_open_provider_id_def sha256hex_def lines_def OPEN_PROVIDER_ID_PREFIX_def)

lemma signed_payload_verifies:
  assumes "libraries_agree js ax scalar" "signer_key js ax signer client" "pp_client p = sg_address signer"
  shows "verify_client_signature ax
    (p\<lparr>pp_client_sig := js_base64 js (js_sign js (sg_secretKey signer) (buildSignatureMessage p))\<rparr>) = Inr ()"
  using assms libraries_agreeD(5) [OF assms(1)]
  by (simp add: verify_client_signature_def verify_ed25519_text_def signer_key_def ok_or_def require_def
      signature_message_agrees payment_auth_message_def)

section \<open>Offers and credentials\<close>

lemma details_of_offer:
  "validate_payment_details_match_payload (details_json d) p = Inr () \<longleftrightarrow>
    pp_provider_id p = pd_providerId d \<and> pp_pay_to p = pd_payTo d \<and> pp_network p = pd_network d \<and>
    pp_asset_mint p = pd_asset_mint d \<and> pp_amount p = pd_amount d \<and> pp_vault p = pd_vault_config d"
  by (auto simp: validate_payment_details_match_payload_def details_json_def rbind_def ok_or_def require_def)

lemma window_of_offer:
  "unat (pd_verifyWindowSec d) < 2 ^ 63 \<Longrightarrow> pd_verifyWindowSec d \<noteq> 0 \<Longrightarrow>
    parse_verify_window_sec (details_json d) = Inr (int (unat (pd_verifyWindowSec d)))"
  by (simp add: parse_verify_window_sec_def details_json_def ok_or_def require_def less_le unsigned_eq_0_iff)

lemma scheme_of_offer: "json_get ''scheme'' (details_json d) = Some (JString (pd_scheme d))"
  by (simp add: details_json_def)

lemma credentials_accepted:
  assumes "registered_as ax config provider" and "libraries_agree js ax scalar"
    and "buildAuthHeaders config (getAuthMode config) = Inr headers"
  shows "authenticate_registered_provider ax provider headers = Inr ()"
proof -
  note reg = assms(1) [unfolded registered_as_def]
  have names: "''authorization'' \<noteq> (''x-subly402-provider-auth'' :: string)"
    "''x-subly402-provider-id'' \<noteq> (''x-subly402-provider-auth'' :: string)"
    "''x-subly402-provider-id'' \<noteq> (''authorization'' :: string)" by simp_all
  consider "getAuthMode config = ''none''" | "getAuthMode config = ''bearer''" | "getAuthMode config = ''api-key''"
    using reg by blast
  then show ?thesis
    using reg assms(3) libraries_agreeD(2) [OF assms(2)]
    by cases (auto simp: buildAuthHeaders_def requireApiKey_def truthy_def rbind_def ok_or_def require_def
        authenticate_registered_provider_def header_value_def named_provider_matches_def strip_prefix_def
        PROVIDER_ID_HEADER_def PROVIDER_AUTH_HEADER_def AUTHORIZATION_def)
qed

section \<open>Amounts as text\<close>

lemma digit_bounds: "is_digit c \<longleftrightarrow> 48 \<le> (of_char c :: nat) \<and> (of_char c :: nat) \<le> 57"
  by (simp add: is_digit_def Let_def)

lemma digits_value_snoc: "digits_value (s @ [c]) = digits_value s * 10 + (of_char c - 48)"
  by (simp add: digits_value_def)

lemma digits_value_zeros: "foldl (\<lambda>n c. n * 10 + (of_char c - 48)) 0 (replicate n (CHR ''0'')) = (0 :: nat)"
  by (induction n) simp_all

lemma is_digit_char_of: "(k :: nat) < 10 \<Longrightarrow> is_digit (char_of (48 + k))"
  by (simp add: digit_bounds)

lemma show_nat_digits: "all_digits (show_nat n) \<and> digits_value (show_nat n) = n"
proof (induction n rule: show_nat.induct)
  case (1 n)
  then show ?case
    by (subst (1 2) show_nat.simps)
       (auto simp: all_digits_def digits_value_snoc is_digit_char_of simp del: show_nat.simps, simp add: digits_value_def)
qed

lemma parse_digits_value:
  assumes "list_all is_digit s" and "foldl (\<lambda>n c. n * 10 + (of_char c - 48)) n s < 2 ^ 64"
  shows "parse_digits n s = Some (foldl (\<lambda>n c. n * 10 + (of_char c - 48)) n s)"
  using assms
proof (induction s arbitrary: n)
  case (Cons c s)
  have mono: "m \<le> foldl (\<lambda>n c. n * 10 + (of_char c - 48)) m s" for m :: nat
    by (induction s arbitrary: m) (simp, fastforce intro: order_trans [rotated])
  from mono [of "n * 10 + (of_char c - 48)"] Cons show ?case
    by (auto simp: digit_bounds Let_def)
qed simp

lemma parse_u64_digits:
  assumes "all_digits s" and "digits_value s < 2 ^ 64"
  shows "parse_u64 s = Some (word_of_nat (digits_value s))"
proof -
  have "hd s \<noteq> CHR ''+''" using assms(1) by (cases s) (auto simp: all_digits_def digit_bounds)
  with assms show ?thesis
    using parse_digits_value [of s 0] by (auto simp: parse_u64_def all_digits_def digits_value_def digit_bounds)
qed

lemma price_is_digits:
  "normalizePriceToAtomic price decimals = Inr s \<Longrightarrow>
    all_digits s \<and> parseAmountToAtomic price decimals = Inr (digits_value s)"
  by (auto simp: normalizePriceToAtomic_def parseAmountToAtomic_def Let_def ok_or_def require_def show_nat_digits
      simp del: show_nat.simps split: if_splits option.splits)

lemma price_request_digits:
  "price_request js ata fc networks att routes req = Inr (Some (config, price)) \<Longrightarrow> all_digits price"
  by (auto simp: price_request_def rbind_def dest!: price_is_digits split: sum.splits option.splits)

section \<open>The payment is accepted\<close>

text \<open>What a buyer's client returns for the one offer of a seller.\<close>
lemma pay_offer_payload:
  assumes "pay_offer js now uuid c fetched rq [details] cache = (Inr payload, cache')"
    and "findSchemeForNetwork c (pd_network details) = Some signer"
  shows "buildPaymentPayload js now uuid rq details signer = Inr payload" "assertBudget c details = Inr ()"
  using assms
  by (auto simp: pay_offer_def select_offer_def split: sum.splits prod.splits option.splits if_splits)

lemma payload_fields:
  assumes "buildPaymentPayload js now uuid rq details signer = Inr payload"
  obtains body where "bodyToBytes (fr_body rq) = Inr body"
    "payload = (let p = unsigned_payload js now uuid rq body details (sg_address signer) in
      p\<lparr>pp_client_sig := js_base64 js (js_sign js (sg_secretKey signer) (buildSignatureMessage p))\<rparr>)"
  using assms by (auto simp: buildPaymentPayload_def Let_def rbind_def split: sum.splits)

lemma request_hash_of_payload:
  assumes "same_request js rq req" and "bodyToBytes (fr_body rq) = Inr body"
  shows "pp_request_hash (unsigned_payload js now uuid rq body details client) =
    (let ctx = buildRequestContext js req in computeRequestHash js (rc_method ctx) (rc_origin ctx)
      (rc_path_and_query ctx) (rc_body_sha256 ctx) (computePaymentDetailsHash js details))"
  using assms by (simp add: unsigned_payload_def buildRequestContext_def same_request_def Let_def)

lemma payment_checked:
  assumes offer: "details = buildPaymentDetails js config price (buildRequestContext js req)"
    and lib: "libraries_agree js ax scalar" and key: "signer_key js ax signer client"
    and same: "same_request js rq req"
    and pay: "buildPaymentPayload js now uuid rq details signer = Inr payload"
    and price: "parse_u64 price = Some amount" and decimals: "unat (pc_assetDecimals config) < 2 ^ 53"
    and now: "0 \<le> now" "now + PAYMENT_LIFETIME_MS < 253402300800000"
    and fresh: "now_ns \<le> (now + PAYMENT_LIFETIME_MS) * 1000000"
    and vault: "pc_vaultConfig config = ax_base58 ax vault_config"
  shows "check_payment ax scalar now_ns vault_config (verify_call_body js config price req payload)
      (details_json details) =
    Inr (client, compute_request_hash ax (buildRequestContext js req) (pp_payment_details_hash payload), amount, 60)"
proof -
  obtain body where body: "bodyToBytes (fr_body rq) = Inr body" and payload:
    "payload = (let p = unsigned_payload js now uuid rq body details (sg_address signer) in
      p\<lparr>pp_client_sig := js_base64 js (js_sign js (sg_secretKey signer) (buildSignatureMessage p))\<rparr>)"
    by (rule payload_fields [OF pay])
  let ?p = "unsigned_payload js now uuid rq body details (sg_address signer)"
  have p: "pp_scheme ?p = SCHEME" "pp_vault ?p = pc_vaultConfig config" "pp_client ?p = sg_address signer"
    "pp_amount ?p = price" "pp_expires_at ?p = js_toISOString js (now + PAYMENT_LIFETIME_MS)"
    "pp_payment_details_hash ?p = computePaymentDetailsHash js details"
    by (simp_all add: unsigned_payload_def Let_def SCHEME_def offer buildPaymentDetails_def)
  have match: "validate_payment_details_match_payload (details_json details) payload = Inr ()"
    by (simp add: details_of_offer payload Let_def unsigned_payload_def)
  have "unat (pd_asset_decimals details) < 2 ^ 53" "unat (pd_verifyWindowSec details) < 2 ^ 53"
    "unat (pd_maxSettlementDelaySec details) < 2 ^ 53"
    using decimals by (simp_all add: offer buildPaymentDetails_def)
  note hash = details_hash_agrees [OF lib this]
  have window: "parse_verify_window_sec (details_json details) = Inr 60"
    by (subst window_of_offer) (simp_all add: offer buildPaymentDetails_def)
  have scheme: "json_get ''scheme'' (details_json details) = Some (JString SCHEME)"
    by (simp add: scheme_of_offer offer buildPaymentDetails_def SCHEME_def)
  have signed: "verify_client_signature ax payload = Inr ()"
    unfolding payload Let_def by (rule signed_payload_verifies [OF lib key p(3)])
  have request: "ax_hex_decode ax (pp_request_hash payload) =
      Some (compute_request_hash ax (buildRequestContext js req) (pp_payment_details_hash payload))"
    using request_hash_agrees [OF lib] by (simp add: payload Let_def p(6) request_hash_of_payload [OF same body])
  have expires: "ax_rfc3339 ax (pp_expires_at payload) = Some ((now + PAYMENT_LIFETIME_MS) * 1000000)"
    using libraries_agreeD(6) [OF lib, of "now + PAYMENT_LIFETIME_MS"] now
    by (simp add: payload Let_def p(5) PAYMENT_LIFETIME_MS_def)
  show ?thesis
    using key fresh
    by (simp add: check_payment_def verify_call_body_def Let_def match window scheme signed request expires
        offer [symmetric] hash vault price signer_key_def)
       (simp add: payload Let_def p hash vault price rbind_def ok_or_def require_def)
qed

text \<open>A reservation for a payment, with the hashes of the enclave.\<close>
lemma reserve_payment_enters:
  assumes lib: "libraries_agree js ax scalar" and details: "unat (pd_asset_decimals d) < 2 ^ 53"
    "unat (pd_verifyWindowSec d) < 2 ^ 53" "unat (pd_maxSettlementDelaySec d) < 2 ^ 53"
    and p: "pp_payment_details_hash p = computePaymentDetailsHash js d"
    and time: "call_now cx + window < 2 ^ 63" and h: "h = compute_request_hash ax ctx x"
  shows "reserve_payment env ax cx p client h amount window =
    sbind (verify_section env (new_reservation (''ver_'' @ cl_uuid cx) (''res_'' @ cl_uuid2 cx) (pp_payment_id p)
      client (pp_provider_id p) amount h (compute_payment_details_hash ax scalar (details_json d))
      (call_now cx) (call_now cx + window)) (call_now cx)) (\<lambda>_.
    sbind (in_vault (get_reservation (''ver_'' @ cl_uuid cx))) (issue_verification_receipt env ax))"
  using libraries_agreeD(2) [OF lib] details_hash_agrees [OF lib details] time
  by (intro ext) (simp add: reserve_payment_def Let_def h compute_request_hash_def p hex_array32_def
      compute_payment_details_hash_def srequire_def sok_or_def)

text \<open>C7. A buyer's payment for a seller's offer passes every check of the enclave.  When a seller's
  route prices a request, the buyer's client pays the offer (budget and attestation included), and the
  seller forwards the payment for the same request with its credentials, then \<^verbatim>\<open>/v1/verify\<close> reaches the
  critical section with a reservation for exactly this client, this provider, the amount of the offer
  and a window of 60 seconds.  The vault is active, the payment at most 30 minutes old and its
  identifier new; the provider is registered with the seller's configuration.
\<close>
theorem offered_payment_verified:
  assumes lib: "libraries_agree js ax scalar" and key: "signer_key js ax signer client"
    and same: "same_request js rq req"
    and route: "price_request js ata fc networks att routes req = Inr (Some (config, price))"
    and small: "digits_value price < 2 ^ 64" "unat (pc_assetDecimals config) < 2 ^ 53"
    and pay: "pay_offer js now uuid c fetched rq (send402_accepts js config price req) cache = (Inr payload, cache')"
    and signer: "findSchemeForNetwork c (pc_network config) = Some signer"
    and headers: "buildAuthHeaders config (getAuthMode config) = Inr headers"
    and now: "0 \<le> now" "now + PAYMENT_LIFETIME_MS < 253402300800000"
    and in_time: "cl_now_ns cx \<le> (now + PAYMENT_LIFETIME_MS) * 1000000"
    and detector: "cl_detector_enabled cx \<longrightarrow> cl_detector_ready cx"
    and active: "cl_vault_account cx = Some vault" "vc_status vault = VAULT_STATUS_ACTIVE"
    and vault: "pc_vaultConfig config = ax_base58 ax (es_vault_config (app_vault app))"
    and provider: "aget (es_providers (app_vault app)) (pc_providerId config) = Some provider"
      "registered_as ax config provider"
    and origin: "rg_allowed_origins provider = [] \<or> fr_origin rq \<in> set (rg_allowed_origins provider)"
    and new: "aget (es_payment_id_index (app_vault app)) (''pay_'' @ uuid) = None"
  shows "post_verify env ax scalar cx headers (verify_call_body js config price req payload) app =
    sbind (verify_section env (new_reservation (''ver_'' @ cl_uuid cx) (''res_'' @ cl_uuid2 cx) (''pay_'' @ uuid)
      client (pc_providerId config) (word_of_nat (digits_value price))
      (compute_request_hash ax (buildRequestContext js req) (pp_payment_details_hash payload))
      (compute_payment_details_hash ax scalar
        (details_json (buildPaymentDetails js config price (buildRequestContext js req))))
      (call_now cx) (call_now cx + 60)) (call_now cx)) (\<lambda>_.
    sbind (in_vault (get_reservation (''ver_'' @ cl_uuid cx))) (issue_verification_receipt env ax))
    (snd (load_vault_lifecycle cx app))"
proof -
  let ?details = "buildPaymentDetails js config price (buildRequestContext js req)"
  have payload: "buildPaymentPayload js now uuid rq ?details signer = Inr payload"
    by (rule pay_offer_payload(1) [OF pay [unfolded send402_accepts_def]])
      (simp add: buildPaymentDetails_def signer)
  note amount = parse_u64_digits [OF price_request_digits [OF route] small(1)]
  note checked = payment_checked [OF refl lib key same payload amount small(2) now in_time vault]
  note auth = credentials_accepted [OF provider(2) lib headers]
  have fields: "pp_provider_id payload = pc_providerId config" "pp_pay_to payload = pc_payTo config"
    "pp_asset_mint payload = pc_assetMint config" "pp_network payload = pc_network config"
    "pp_payment_id payload = ''pay_'' @ uuid" "pp_payment_details_hash payload = computePaymentDetailsHash js ?details"
    using payload by (auto simp: buildPaymentPayload_def unsigned_payload_def buildPaymentDetails_def Let_def
        rbind_def split: sum.splits)
  have registered: "check_provider ax provider (verify_call_body js config price req payload) = Inr ()"
    using provider(2) origin same
    by (auto simp: check_provider_def verify_call_body_def fields registered_as_def same_request_def
        buildRequestContext_def Let_def require_def)
  have call: "vq_payload (verify_call_body js config price req payload) = payload"
    "vq_details (verify_call_body js config price req payload) = Some (details_json ?details)"
    by (simp_all add: verify_call_body_def Let_def)
  have "post_verify env ax scalar cx headers (verify_call_body js config price req payload) app =
    reserve_payment env ax cx payload client
      (compute_request_hash ax (buildRequestContext js req) (pp_payment_details_hash payload))
      (word_of_nat (digits_value price)) 60 (snd (load_vault_lifecycle cx app))"
    using detector new
    by (simp add: post_verify_def ensure_vault_allows_new_verification_def load_vault_lifecycle_def active
        lift_result_def checked ensure_open_provider_registered_def authenticate_provider_def provider auth
        registered fields call Let_def state_op_defs in_vault_def)
  also have "call_now cx + 60 < 2 ^ 63"
    using in_time now(2) by (simp add: call_now_def PAYMENT_LIFETIME_MS_def)
  then have "reserve_payment env ax cx payload client
      (compute_request_hash ax (buildRequestContext js req) (pp_payment_details_hash payload))
      (word_of_nat (digits_value price)) 60 =
    sbind (verify_section env (new_reservation (''ver_'' @ cl_uuid cx) (''res_'' @ cl_uuid2 cx) (pp_payment_id payload)
      client (pp_provider_id payload) (word_of_nat (digits_value price))
      (compute_request_hash ax (buildRequestContext js req) (pp_payment_details_hash payload))
      (compute_payment_details_hash ax scalar (details_json ?details))
      (call_now cx) (call_now cx + 60)) (call_now cx)) (\<lambda>_.
    sbind (in_vault (get_reservation (''ver_'' @ cl_uuid cx))) (issue_verification_receipt env ax))"
    by (intro reserve_payment_enters [OF lib]) (use small(2) in \<open>simp_all add: buildPaymentDetails_def fields\<close>)
  finally show ?thesis unfolding fields .
qed

section \<open>The buyer's budget and attestation\<close>

lemma parse_base_digits:
  "list_all is_digit s \<Longrightarrow> parse_base 10 n s = Some (foldl (\<lambda>n c. n * 10 + (of_char c - 48)) n s)"
  by (induction s arbitrary: n) (auto simp: digit_bounds digit_value_def Let_def)

lemma parse_digits_base: "parse_digits n s = Some m \<Longrightarrow> parse_base 10 n s = Some m"
  by (induction n s rule: parse_digits.induct) (auto simp: Let_def digit_value_def split: if_splits)

lemma digit_not_space: "48 \<le> (of_char c :: nat) \<Longrightarrow> \<not> js_space c"
  by (auto simp: js_space_def Let_def)

lemma parse_digits_bound: "parse_digits n s = Some m \<Longrightarrow> n < 2 ^ 64 \<Longrightarrow> m < 2 ^ 64"
  by (induction n s rule: parse_digits.induct) (auto simp: Let_def split: if_splits)

lemma parse_digits_chars: "parse_digits n s = Some m \<Longrightarrow> list_all is_digit s"
  by (induction n s rule: parse_digits.induct) (auto simp: Let_def digit_bounds split: if_splits)

lemma dropWhile_none: "\<forall>c\<in>set s. \<not> P c \<Longrightarrow> dropWhile P s = s"
  by (cases s) simp_all

lemma trim_id: "\<forall>c\<in>set s. \<not> js_space c \<Longrightarrow> js_trim s = s"
  by (simp add: js_trim_def dropWhile_none)

lemma unat_u64: "n < 2 ^ 64 \<Longrightarrow> unat (word_of_nat n :: u64) = n"
  by (simp add: unsigned_of_nat take_bit_nat_eq_self)

lemma digits_no_base_prefix:
  assumes "list_all is_digit (tl s)" "c \<in> {CHR ''x'', CHR ''o'', CHR ''b''}"
  shows "js_lower (take 2 s) \<noteq> [CHR ''0'', c]"
  using assms by (cases s; cases "tl s") (auto simp: js_lower_def Let_def digit_bounds split: if_splits)

text \<open>What the enclave reads as an amount, the buyer's client has read as the same number.\<close>
lemma parse_u64_BigInt:
  assumes "parse_u64 s = Some a"
  shows "BigInt s = Some (int (unat a))"
proof -
  obtain m where m: "parse_digits 0 (if hd s = CHR ''+'' then tl s else s) = Some m" "a = word_of_nat m"
    and s: "s \<noteq> []" "s \<noteq> ''+''"
    using assms by (auto simp: parse_u64_def split: if_splits)
  let ?t = "if hd s = CHR ''+'' then tl s else s"
  have t: "list_all is_digit ?t" "?t \<noteq> []" and small: "m < 2 ^ 64"
    using parse_digits_chars [OF m(1)] parse_digits_bound [OF m(1)] s by (auto, metis list.collapse)
  have tl: "list_all is_digit (tl s)" and hd: "hd s \<noteq> CHR ''-''"
    using t s by (auto simp: neq_Nil_conv digit_bounds split: if_splits)
  have "\<forall>c\<in>set s. \<not> js_space c"
    using t s digit_not_space by (auto simp: neq_Nil_conv list_all_iff digit_bounds js_space_def split: if_splits)
  from trim_id [OF this] show ?thesis
    using digits_no_base_prefix [OF tl] s hd t(2) parse_digits_base [OF m(1)] small m(2)
    by (auto simp: BigInt_def Let_def parse_literal_def unat_u64 split: if_splits)
qed

text \<open>C35. The budget of a buyer holds at the enclave.  A payment that the client has signed under a limit
  reserves, if the enclave accepts it, at most the limit converted with the decimals of the offer.
\<close>
theorem buyer_budget_kept:
  assumes pay: "pay_offer js now uuid c fetched rq accepts cache = (Inr payload, cache')"
    and limit: "sc_maxPaymentPerRequest c = Some limit"
    and accepted: "check_payment ax scalar now_ns vault_config q details_value = Inr (client, h, amount, window)"
    and q: "vq_payload q = payload"
  shows "\<exists>d\<in>set accepts. \<exists>m. parseAmountToAtomic limit (unat (pd_asset_decimals d)) = Inr m \<and>
    pp_amount payload = pd_amount d \<and> unat amount \<le> m"
proof -
  obtain d signer where d: "select_offer c accepts = Some (d, signer)" "assertBudget c d = Inr ()"
    and payload: "buildPaymentPayload js now uuid rq d signer = Inr payload"
    using pay by (auto simp: pay_offer_def split: option.splits sum.splits prod.splits)
  have mem: "d \<in> set accepts"
    using d(1) by (auto simp: select_offer_def find_Some_iff split: option.splits)
  have amount: "pp_amount payload = pd_amount d"
    by (rule payload_fields [OF payload]) (simp add: Let_def unsigned_payload_def)
  have "parse_u64 (pp_amount payload) = Some amount"
    using accepted by (auto simp: check_payment_def q Let_def rbind_def ok_or_def require_def
        split: if_splits option.splits sum.splits)
  then have "BigInt (pd_amount d) = Some (int (unat amount))"
    using parse_u64_BigInt amount by simp
  then obtain m where "parseAmountToAtomic limit (unat (pd_asset_decimals d)) = Inr m" "\<not> int m < int (unat amount)"
    using d(2) limit by (auto simp: assertBudget_def ok_or_def rbind_def require_def split: sum.splits if_splits)
  moreover from this(2) have "unat amount \<le> m" by linarith
  ultimately show ?thesis using mem amount by blast
qed

text \<open>C37. The limit of a buyer depends on the decimals that the seller writes into the offer.  A limit of
  one dollar refuses an amount of more than one million units when the offer gives the six decimals of
  the token, and accepts every amount that fits 64 bits when the offer gives twenty.
\<close>
theorem budget_set_by_seller:
  assumes "sc_maxPaymentPerRequest c = Some ''$1''" and "all_digits (pd_amount d)"
    and "10 ^ 6 < digits_value (pd_amount d)" "digits_value (pd_amount d) < 2 ^ 64"
  shows "assertBudget c (d\<lparr>pd_asset_decimals := 6\<rparr>) = Inl PaymentExceedsPolicy \<and>
    assertBudget c (d\<lparr>pd_asset_decimals := 20\<rparr>) = Inr ()"
proof -
  have "BigInt (pd_amount d) = Some (int (digits_value (pd_amount d)))"
    using parse_u64_BigInt [OF parse_u64_digits [OF assms(2,4)]] unfolding unat_u64 [OF assms(4)] .
  moreover have "parseAmountToAtomic ''$1'' n = Inr (10 ^ n)" for n
    by (simp add: parseAmountToAtomic_def js_trim_def js_space_def all_digits_def is_digit_def Let_def startsWith_def
        split_decimal_def ok_or_def require_def digits_value_def digits_value_zeros)
  ultimately show ?thesis
    using assms by (simp add: assertBudget_def ok_or_def rbind_def require_def)
qed


end
