(* ===== verification/Payment_Example.thy ===== *)
theory Payment_Example
  imports Payment_Flow System_Example
begin

text \<open>
  A purchase: a seller offers a route for \<^verbatim>\<open>$0.00003\<close>, a buyer with a limit of one dollar pays it, and
  the theorems on payments are applied to the call.  Every encoding is the one of bytes as characters,
  dates are decimal numbers.
\<close>

definition text_of_bytes :: "bytes \<Rightarrow> string" where
  "text_of_bytes bs = map (\<lambda>b. char_of (unat b)) bs"

lemma str_bytes_encode [simp]: "str_bytes (text_of_bytes bs) = bs"
proof -
  have "unat b mod 256 = unat b" for b :: u8 using unat_less_pow [of b] by simp
  then show ?thesis by (simp add: str_bytes_def text_of_bytes_def comp_def map_idI)
qed

definition ex_js :: js_env where
  "ex_js = \<lparr>js_sha256 = ex_sha256, js_hex = text_of_bytes, js_base64 = text_of_bytes, js_sign = (\<lambda>sk m. replicate 64 0),
    js_stringify = (\<lambda>v. []), js_toISOString = (\<lambda>t. show_nat (nat t)), js_Date_parse = (\<lambda>s. BigInt s),
    js_local_document = (\<lambda>s. None), js_probe_tls = (\<lambda>url. Some ''ab'')\<rparr>"

definition ex_ax :: access_env where
  "ex_ax = \<lparr>ax_sha256 = ex_sha256, ax_hex_decode = (\<lambda>s. Some (str_bytes s)), ax_hex_encode = text_of_bytes,
    ax_base64_decode = (\<lambda>s. Some (str_bytes s)), ax_pubkey = (\<lambda>s. Some (str_bytes s)), ax_base58 = text_of_bytes,
    ax_valid_key = (\<lambda>k. length k = 32), ax_verify_strict = (\<lambda>k m s. k = ex_client),
    ax_rfc3339 = (\<lambda>s. Some (int (digits_value s) * 1000000))\<rparr>"

lemma ex_libraries: "libraries_agree ex_js ex_ax (\<lambda>v. [])"
  using show_nat_digits
  by (simp add: libraries_agree_def ex_js_def ex_ax_def length_ex_sha256 del: show_nat.simps)

definition ex_signer :: Subly402Signer where
  "ex_signer = \<lparr>sg_address = text_of_bytes ex_client, sg_secretKey = []\<rparr>"

lemma ex_signer_key: "signer_key ex_js ex_ax ex_signer ex_client"
  by (simp add: signer_key_def ex_js_def ex_ax_def ex_signer_def ex_client_def)

definition ex_attestation :: AttestationResponse where
  "ex_attestation = \<lparr>at_vaultConfig = text_of_bytes (replicate 32 10), at_vaultSigner = ''signer'',
    at_attestationPolicyHash = ''aa'', at_attestationDocument = ''document'', at_snapshotSeqno = None,
    at_tlsPublicKeySha256 = Some ''ab'', at_issuedAt = ''10'', at_expiresAt = ''90000''\<rparr>"

definition ex_accept :: Subly402RouteAccept where
  "ex_accept = \<lparr>ra_scheme = Some ''exact'', ra_price = ''$0.00003'', ra_network = ''n'', ra_providerId = Some ''prov'',
    ra_sellerWallet = None, ra_payTo = Some (text_of_bytes (replicate 32 4)), ra_asset = None, ra_assetMint = None,
    ra_assetDecimals = None, ra_assetSymbol = None\<rparr>"

definition ex_facilitator :: Subly402FacilitatorClient where
  "ex_facilitator = \<lparr>fc_url = ''f'', fc_providerApiKey = None, fc_authMode = None, fc_mtls = False,
    fc_defaultAssetMint = Some (text_of_bytes (replicate 32 12)), fc_defaultAssetDecimals = 6,
    fc_defaultAssetSymbol = ''USDC''\<rparr>"

definition ex_fetch :: fetch_request where
  "ex_fetch = \<lparr>fr_origin = ''http://h'', fr_pathname = ''/data'', fr_search = ''?q'', fr_method = None, fr_body = NoBody\<rparr>"

definition ex_express :: express_request where
  "ex_express = \<lparr>er_method = ''GET'', er_protocol = ''http'', er_host = ''h'', er_path = ''/data'',
    er_originalUrl = ''/data?q'', er_rawBody = None, er_body = BodyAbsent\<rparr>"

definition ex_seller :: Subly402ProviderConfig where
  "ex_seller = \<lparr>pc_facilitatorUrl = ''f'', pc_providerId = ''prov'', pc_authMode = None, pc_apiKey = None,
    pc_mtls = False, pc_payTo = text_of_bytes (replicate 32 4), pc_network = ''n'',
    pc_assetMint = text_of_bytes (replicate 32 12), pc_assetDecimals = 6, pc_assetSymbol = ''USDC'',
    pc_vaultConfig = text_of_bytes (replicate 32 10), pc_vaultSigner = ''signer'', pc_attestationPolicyHash = ''aa''\<rparr>"

definition ex_buyer :: Subly402Client where
  "ex_buyer = \<lparr>sc_trustedFacilitators = [''f''], sc_maxPaymentPerRequest = Some ''$1'',
    sc_nitroAttestation = Some (\<lambda>a d. True), sc_attestationVerifier = None, sc_schemes = [(''*'', ex_signer)],
    sc_defaultScheme = None\<rparr>"

lemma ex_same_request: "same_request ex_js ex_fetch ex_express"
  by (simp add: same_request_def ex_fetch_def ex_express_def fetch_method_def getRawRequestBody_def)

lemma ex_nonempty: "text_of_bytes (replicate 32 b) \<noteq> []"
  by (simp add: text_of_bytes_def)

lemma ex_price: "normalizePriceToAtomic ''$0.00003'' 6 = Inr ''30''"
proof -
  have "js_trim ''$0.00003'' = ''$0.00003''"
    by (simp add: js_trim_def js_space_def Let_def)
  moreover have "split_decimal ''0.00003'' = Some (''0'', ''00003'')" "\<not> all_digits ''$0.00003''"
    by (simp_all add: split_decimal_def all_digits_def is_digit_def Let_def)
  moreover have "take 6 (''00003'' @ replicate 6 (CHR ''0'')) = ''000030''"
    by (simp add: numeral_eq_Suc)
  moreover have "digits_value ''000030'' = 30" "digits_value ''0'' = 0" "show_nat 30 = ''30''"
    by (simp_all add: digits_value_def char_of_def bit_0)
  ultimately show ?thesis
    by (simp add: normalizePriceToAtomic_def startsWith_def ok_or_def require_def del: show_nat.simps)
qed

lemma ex_route:
  "price_request ex_js (\<lambda>owner mint. owner) ex_facilitator [''*''] (Inr ex_attestation)
    [(''GET /data'', [ex_accept])] ex_express = Inr (Some (ex_seller, ''30''))"
  using ex_price ex_nonempty
  by (simp add: price_request_def routePath_def split_words_def js_space_def Let_def js_upper_def normalizeBaseUrl_def
      requestPath_def ex_express_def selectAccept_def ex_accept_def ok_or_def rbind_def require_def
      buildProviderConfig_def networkMatches_def ex_facilitator_def orelse_def truthy_def resolvePayTo_def
      ex_seller_def ex_attestation_def)

lemma ex_paid:
  obtains payload cache where
    "pay_offer ex_js 20000 ''u'' ex_buyer (\<lambda>url. Some ex_attestation) ex_fetch
      (send402_accepts ex_js ex_seller ''30'' ex_express) [] = (Inr payload, cache)"
proof -
  define d where "d = buildPaymentDetails ex_js ex_seller ''30'' (buildRequestContext ex_js ex_express)"
  have js: "js_Date_parse ex_js = BigInt" "js_local_document ex_js = (\<lambda>s. None)" "js_probe_tls ex_js = (\<lambda>url. Some ''ab'')"
    by (simp_all add: ex_js_def)
  have fields: "pd_scheme d = ''subly402-svm-v1''" "pd_network d = ''n''" "pd_amount d = ''30''"
    "pd_asset_decimals d = 6" "pd_facilitatorUrl d = ''f''" "pd_vault_config d = text_of_bytes (replicate 32 10)"
    "pd_vault_signer d = ''signer''" "pd_vault_attestationPolicyHash d = ''aa''"
    by (simp_all add: d_def buildPaymentDetails_def ex_seller_def)
  have dates: "BigInt ''10'' = Some 10" "BigInt ''90000'' = Some 90000" "BigInt ''30'' = Some 30"
    by (simp_all add: BigInt_def js_trim_def js_space_def js_lower_def Let_def parse_literal_def digit_value_def)
  have "select_offer ex_buyer [d] = Some (d, ex_signer)"
    by (simp add: select_offer_def findSchemeForNetwork_def ex_buyer_def networkMatches_def fields)
  moreover have "parseAmountToAtomic ''$1'' 6 = Inr 1000000"
    by (simp add: parseAmountToAtomic_def js_trim_def js_space_def all_digits_def is_digit_def Let_def startsWith_def
        split_decimal_def ok_or_def require_def digits_value_def digits_value_zeros)
  then have "assertBudget ex_buyer d = Inr ()"
    by (simp add: assertBudget_def ex_buyer_def fields dates ok_or_def rbind_def require_def)
  moreover have "fst (verifyAttestation ex_js 20000 ex_buyer (\<lambda>url. Some ex_attestation) d []) = Inr ex_attestation"
    by (simp add: verifyAttestation_def fetch_attestation_def check_attestation_def assertAttestationMatchesDetails_def
        verify_remote_document_def verifyAttestedTlsBinding_def ex_buyer_def ex_attestation_def js dates fields
        normalizeBaseUrl_def js_lower_def rbind_def require_def ok_or_def Let_def)
  then obtain cache where
    "verifyAttestation ex_js 20000 ex_buyer (\<lambda>url. Some ex_attestation) d [] = (Inr ex_attestation, cache)"
    by (metis prod.collapse)
  moreover obtain p where "buildPaymentPayload ex_js 20000 ''u'' ex_fetch d ex_signer = Inr p"
    by (simp add: buildPaymentPayload_def ex_fetch_def rbind_def Let_def)
  ultimately have "pay_offer ex_js 20000 ''u'' ex_buyer (\<lambda>url. Some ex_attestation) ex_fetch
      (send402_accepts ex_js ex_seller ''30'' ex_express) [] = (Inr p, cache)"
    by (simp add: pay_offer_def send402_accepts_def d_def [symmetric])
  then show ?thesis by (rule that)
qed

lemma ex_registered: "registered_as ex_ax ex_seller ex_provider"
  by (simp add: registered_as_def ex_seller_def ex_provider_def ex_ax_def getAuthMode_def truthy_def header_to_str_def)

lemma ex_shop:
  "\<exists>app. exec_run ex_env ex_C ex_sha256 (take 2 ex_history) ex_start = Some app \<and>
    es_vault_config (app_vault app) = replicate 32 10 \<and>
    aget (es_providers (app_vault app)) ''prov'' = Some ex_provider \<and>
    aget (es_payment_id_index (app_vault app)) (''pay_'' @ ''u'') = None"
  unfolding ex_history_def ex_start_def by (simp add: history_eval ex_provider_def)

definition ex_purchase :: call where
  "ex_purchase = \<lparr>cl_now_ns = 20000000000, cl_vault_account = Some
    \<lparr>vc_bump = 255, vc_vault_id = 1, vc_governance = replicate 32 1, vc_status = VAULT_STATUS_ACTIVE,
     vc_vault_signer_pubkey = replicate 32 11, vc_usdc_mint = replicate 32 12,
     vc_vault_token_account = replicate 32 3, vc_auditor_master_pubkey = replicate 32 5, vc_auditor_epoch = 0,
     vc_attestation_policy_hash = replicate 32 13, vc_successor_vault = replicate 32 0, vc_exit_deadline = 0,
     vc_lifetime_deposited = 100, vc_lifetime_withdrawn = 0, vc_lifetime_settled = 0\<rparr>,
    cl_detector_enabled = True, cl_detector_ready = True, cl_uuid = ''1'', cl_uuid2 = ''2''\<rparr>"

lemma ex_signer_found: "findSchemeForNetwork ex_buyer (pc_network ex_seller) = Some ex_signer"
  by (simp add: findSchemeForNetwork_def ex_buyer_def networkMatches_def)

lemma ex_thirty: "digits_value ''30'' = 30" "parse_u64 ''30'' = Some 30"
  by (simp_all add: digits_value_def parse_u64_def)

theorem offered_payment_verified_witness:
  "\<exists>app payload headers r rest. post_verify ex_env ex_ax (\<lambda>v. []) ex_purchase headers
      (verify_call_body ex_js ex_seller ''30'' ex_express payload) app =
      sbind (verify_section ex_env r 20) rest (snd (load_vault_lifecycle ex_purchase app)) \<and>
    rv_client r = ex_client \<and> rv_amount r = 30 \<and> rv_expires_at r = 80"
proof -
  obtain app :: App where app: "es_vault_config (app_vault app) = replicate 32 10"
    "aget (es_providers (app_vault app)) ''prov'' = Some ex_provider"
    "aget (es_payment_id_index (app_vault app)) (''pay_'' @ ''u'') = None"
    using ex_shop by blast
  obtain payload cache where pay: "pay_offer ex_js 20000 ''u'' ex_buyer (\<lambda>url. Some ex_attestation) ex_fetch
      (send402_accepts ex_js ex_seller ''30'' ex_express) [] = (Inr payload, cache)"
    by (rule ex_paid)
  have headers: "buildAuthHeaders ex_seller (getAuthMode ex_seller) =
      Inr [(''content-type'', ''application/json''), (''x-subly402-provider-id'', ''prov'')]"
    by (simp add: buildAuthHeaders_def getAuthMode_def ex_seller_def truthy_def)
  have call: "cl_now_ns ex_purchase = 20000000000" "cl_detector_ready ex_purchase" "call_now ex_purchase = 20"
    "\<exists>v. cl_vault_account ex_purchase = Some v \<and> vc_status v = VAULT_STATUS_ACTIVE"
    by (simp_all add: ex_purchase_def call_now_def)
  then obtain vault where vault: "cl_vault_account ex_purchase = Some vault" "vc_status vault = VAULT_STATUS_ACTIVE"
    by blast
  note offered_payment_verified [OF ex_libraries ex_signer_key ex_same_request ex_route _ _ pay ex_signer_found
    headers _ _ _ _ vault _ _ ex_registered _ app(3), where env = ex_env]
  moreover have "pc_vaultConfig ex_seller = ax_base58 ex_ax (es_vault_config (app_vault app))"
    "unat (pc_assetDecimals ex_seller) < 2 ^ 53" "pc_providerId ex_seller = ''prov''" "rg_allowed_origins ex_provider = []"
    by (simp_all add: app ex_seller_def ex_ax_def ex_provider_def)
  ultimately have "post_verify ex_env ex_ax (\<lambda>v. []) ex_purchase
      [(''content-type'', ''application/json''), (''x-subly402-provider-id'', ''prov'')]
      (verify_call_body ex_js ex_seller ''30'' ex_express payload) app =
    sbind (verify_section ex_env (new_reservation (''ver_'' @ cl_uuid ex_purchase) (''res_'' @ cl_uuid2 ex_purchase)
      (''pay_'' @ ''u'') ex_client (pc_providerId ex_seller) (word_of_nat (digits_value ''30''))
      (compute_request_hash ex_ax (buildRequestContext ex_js ex_express) (pp_payment_details_hash payload))
      (compute_payment_details_hash ex_ax (\<lambda>v. [])
        (details_json (buildPaymentDetails ex_js ex_seller ''30'' (buildRequestContext ex_js ex_express))))
      (call_now ex_purchase) (call_now ex_purchase + 60)) (call_now ex_purchase)) (\<lambda>_.
    sbind (in_vault (get_reservation (''ver_'' @ cl_uuid ex_purchase))) (issue_verification_receipt ex_env ex_ax))
    (snd (load_vault_lifecycle ex_purchase app))"
    by (simp add: app(2) call(1,2) ex_thirty PAYMENT_LIFETIME_MS_def)
  then show ?thesis
    unfolding call(3) by (intro exI conjI, assumption) (simp_all add: new_reservation_def ex_thirty)
qed

theorem buyer_budget_kept_witness:
  "\<exists>payload h. check_payment ex_ax (\<lambda>v. []) 20000000000 (replicate 32 10)
      (verify_call_body ex_js ex_seller ''30'' ex_express payload)
      (details_json (buildPaymentDetails ex_js ex_seller ''30'' (buildRequestContext ex_js ex_express))) =
      Inr (ex_client, h, 30, 60) \<and>
    (\<exists>d\<in>set (send402_accepts ex_js ex_seller ''30'' ex_express). \<exists>m. parseAmountToAtomic ''$1'' (unat (pd_asset_decimals d)) = Inr m \<and>
      pp_amount payload = pd_amount d \<and> unat (30 :: u64) \<le> m)"
proof -
  let ?d = "buildPaymentDetails ex_js ex_seller ''30'' (buildRequestContext ex_js ex_express)"
  obtain payload cache where pay: "pay_offer ex_js 20000 ''u'' ex_buyer (\<lambda>url. Some ex_attestation) ex_fetch
      (send402_accepts ex_js ex_seller ''30'' ex_express) [] = (Inr payload, cache)"
    by (rule ex_paid)
  have "buildPaymentPayload ex_js 20000 ''u'' ex_fetch ?d ex_signer = Inr payload"
    by (rule pay_offer_payload(1) [OF pay [unfolded send402_accepts_def]])
      (use ex_signer_found in \<open>simp add: buildPaymentDetails_def\<close>)
  from payment_checked [OF refl ex_libraries ex_signer_key ex_same_request this ex_thirty(2), where
      now_ns = 20000000000 and vault_config = "replicate 32 10"]
  obtain h where h: "check_payment ex_ax (\<lambda>v. []) 20000000000 (replicate 32 10)
      (verify_call_body ex_js ex_seller ''30'' ex_express payload) (details_json ?d) = Inr (ex_client, h, 30, 60)"
    by (simp add: ex_seller_def ex_ax_def PAYMENT_LIFETIME_MS_def)
  have "sc_maxPaymentPerRequest ex_buyer = Some ''$1''" by (simp add: ex_buyer_def)
  from buyer_budget_kept [OF pay this h] h show ?thesis
    by (auto simp: verify_call_body_def Let_def)
qed

theorem budget_set_by_seller_witness:
  "\<exists>d. pd_amount d = ''2000000'' \<and> assertBudget ex_buyer (d\<lparr>pd_asset_decimals := 6\<rparr>) = Inl PaymentExceedsPolicy \<and>
    assertBudget ex_buyer (d\<lparr>pd_asset_decimals := 20\<rparr>) = Inr ()"
proof -
  let ?d = "buildPaymentDetails ex_js ex_seller ''2000000'' (buildRequestContext ex_js ex_express)"
  have "sc_maxPaymentPerRequest ex_buyer = Some ''$1''" "pd_amount ?d = ''2000000''"
    by (simp_all add: ex_buyer_def buildPaymentDetails_def)
  moreover have "all_digits ''2000000''" "digits_value ''2000000'' = 2000000"
    by (simp_all add: all_digits_def is_digit_def digits_value_def)
  ultimately show ?thesis
    using budget_set_by_seller [of ex_buyer ?d] by auto
qed


end
