(* ===== verification/Asc_Seller.thy ===== *)
theory Asc_Seller
  imports Payment_Flow Asc_Protocol
begin

text \<open>
  The provider's side of a service channel, \<^verbatim>\<open>src/middleware/src/asc.ts\<close>: the payment message, the
  adaptor pre-signature and the encryption of a result, and the call that delivers them.

  Big integers modulo the order of the curve are the scalars of the curve library, points and keys
  are as in \<open>Adaptor_Sig\<close>.  \<open>unhex\<close> is \<^verbatim>\<open>hexToBytes\<close> of the noble libraries; random bytes are arguments.
\<close>

section \<open>Inputs\<close>

text \<open>A value of type \<^verbatim>\<open>Uint8Array | string | undefined\<close>.\<close>
datatype ByteInput = NoInput | HexInput string | BytesInput bytes

datatype asc_error = NotHex | Not32Bytes | NotABigInt | ScalarOutOfRange

definition normalizeHex32 :: "(string \<Rightarrow> bytes option) \<Rightarrow> string \<Rightarrow> (asc_error, bytes) result" where
  "normalizeHex32 unhex text =
    ok_or (unhex (js_lower text)) NotHex (\<lambda>bs.
    require (length bs = 32) Not32Bytes (Inr bs))"

fun normalizeSecretBytes :: "(string \<Rightarrow> bytes option) \<Rightarrow> bytes \<Rightarrow> ByteInput \<Rightarrow> (asc_error, bytes) result" where
  "normalizeSecretBytes unhex random NoInput = Inr random"
| "normalizeSecretBytes unhex random (HexInput text) =
    (if text = [] then Inr random else normalizeHex32 unhex text)"
| "normalizeSecretBytes unhex random (BytesInput bs) = require (length bs = 32) Not32Bytes (Inr bs)"

definition canonicalScalarBytes ::
  "('p::ab_group_add, 's::comm_ring_1) curve \<Rightarrow> (string \<Rightarrow> bytes option) \<Rightarrow> bytes \<Rightarrow> ByteInput \<Rightarrow>
    (asc_error, 's \<times> bytes) result" where
  "canonicalScalarBytes C unhex random source =
    rbind (normalizeSecretBytes unhex random source) (\<lambda>raw.
    let scalar = from_bytes_mod_order C raw;
        scalar1 = (if scalar = 0 then 1 else scalar) in
    Inr (scalar1, scalar_to_bytes C scalar1))"

section \<open>Messages and encryption\<close>

text \<open>The loop over the blocks of a text; the counter is the low eight bytes of the block's index.\<close>
function keystream_blocks :: "(bytes \<Rightarrow> bytes) \<Rightarrow> bytes \<Rightarrow> nat \<Rightarrow> bytes \<Rightarrow> bytes" where
  "keystream_blocks sha256 keyBytes blockIndex data =
    (if data = [] then []
     else map2 (\<lambda>x y. x XOR y) (take 32 data)
            (sha256 (str_bytes ''subly402-asc-enc-v1'' @ keyBytes @ to_le_bytes (word_of_nat blockIndex :: u64)))
          @ keystream_blocks sha256 keyBytes (Suc blockIndex) (drop 32 data))"
  by pat_completeness auto
termination by (relation "measure (\<lambda>(_, _, _, data). length data)") auto

declare keystream_blocks.simps [simp del]

definition keystreamXor :: "(bytes \<Rightarrow> bytes) \<Rightarrow> bytes \<Rightarrow> bytes \<Rightarrow> bytes" where
  "keystreamXor sha256 data keyBytes = keystream_blocks sha256 keyBytes 0 data"

definition hashAscIdentifier :: "js_env \<Rightarrow> string \<Rightarrow> string" where
  "hashAscIdentifier js text = sha256hex js (str_bytes text)"

text \<open>The amount is given as text; its low eight bytes are used.\<close>
definition buildAscPaymentMessage ::
  "js_env \<Rightarrow> (string \<Rightarrow> bytes option) \<Rightarrow> string \<Rightarrow> string \<Rightarrow> string \<Rightarrow> string \<Rightarrow> (asc_error, bytes) result" where
  "buildAscPaymentMessage js unhex channelId requestId amount requestHash =
    rbind (normalizeHex32 unhex requestHash) (\<lambda>hashBytes.
    ok_or (unhex (hashAscIdentifier js channelId)) NotHex (\<lambda>channelIdHash.
    ok_or (unhex (hashAscIdentifier js requestId)) NotHex (\<lambda>requestIdHash.
    ok_or (BigInt amount) NotABigInt (\<lambda>current.
    Inr (str_bytes ''subly402-asc-pay-v1'' @ channelIdHash @ requestIdHash @
      to_le_bytes (word_of_int current :: u64) @ hashBytes)))))"

section \<open>Delivery\<close>

record AscDeliveryInput =
  ai_channelId :: string
  ai_requestId :: string
  ai_amount :: string
  ai_requestHash :: string
  ai_result :: bytes
  ai_providerSecretKey :: ByteInput
  ai_adaptorSecret :: ByteInput

record AscDeliveryArtifact =
  aa_adaptorPoint :: string
  aa_preSigRPrime :: string
  aa_preSigSPrime :: string
  aa_encryptedResult :: string
  aa_resultHash :: string
  aa_providerPubkey :: string
  aa_adaptorSecret :: string

text \<open>\<^verbatim>\<open>Point.BASE.multiply\<close> throws for the scalar zero.\<close>
definition base_multiply ::
  "('p::ab_group_add, 's::comm_ring_1) curve \<Rightarrow> 's \<Rightarrow> (asc_error, 'p) result" where
  "base_multiply C n = require (n \<noteq> 0) ScalarOutOfRange (Inr (mul_base C n))"

definition generateAscDeliveryArtifact ::
  "js_env \<Rightarrow> ('p::ab_group_add, 's::comm_ring_1) curve \<Rightarrow> (string \<Rightarrow> bytes option) \<Rightarrow> bytes \<times> bytes \<Rightarrow>
    AscDeliveryInput \<Rightarrow> (asc_error, AscDeliveryArtifact) result" where
  "generateAscDeliveryArtifact js C unhex random input =
    rbind (normalizeSecretBytes unhex (fst random) (ai_providerSecretKey input)) (\<lambda>providerSecretKey.
    let (scalar, prefix) = expand_secret_key C providerSecretKey;
        pointBytes = compress C (mul_base C scalar) in
    rbind (canonicalScalarBytes C unhex (snd random) (ai_adaptorSecret input)) (\<lambda>(secret, secret_bytes).
    rbind (base_multiply C secret) (\<lambda>adaptorPoint.
    let adaptorPointBytes = compress C adaptorPoint in
    rbind (buildAscPaymentMessage js unhex (ai_channelId input) (ai_requestId input) (ai_amount input)
      (ai_requestHash input)) (\<lambda>message.
    let nonce = from_bytes_mod_order_wide C (sha512 C (prefix @ adaptorPointBytes @ message)) in
    rbind (base_multiply C nonce) (\<lambda>rPrimePoint.
    let adaptedRBytes = compress C (rPrimePoint + adaptorPoint);
        challenge = from_bytes_mod_order_wide C (sha512 C (adaptedRBytes @ pointBytes @ message));
        sPrime = nonce + challenge * scalar;
        encryptedResult = keystreamXor (js_sha256 js) (ai_result input) secret_bytes in
    Inr \<lparr>aa_adaptorPoint = js_hex js adaptorPointBytes, aa_preSigRPrime = js_hex js (compress C rPrimePoint),
      aa_preSigSPrime = js_hex js (scalar_to_bytes C sPrime), aa_encryptedResult = js_base64 js encryptedResult,
      aa_resultHash = js_hex js (js_sha256 js (ai_result input)), aa_providerPubkey = js_hex js pointBytes,
      aa_adaptorSecret = js_hex js secret_bytes\<rparr>)))))"

text \<open>The body of the call of \<^verbatim>\<open>/v1/channel/deliver\<close>.\<close>
definition submitAscDelivery :: "string \<Rightarrow> AscDeliveryArtifact \<Rightarrow> ChannelDeliverRequest" where
  "submitAscDelivery channelId delivery =
    \<lparr>dq_channel_id = channelId, dq_adaptor_point = aa_adaptorPoint delivery,
     dq_pre_sig_r_prime = aa_preSigRPrime delivery, dq_pre_sig_s_prime = aa_preSigSPrime delivery,
     dq_encrypted_result = aa_encryptedResult delivery, dq_result_hash = aa_resultHash delivery,
     dq_provider_pubkey = aa_providerPubkey delivery\<rparr>"

section \<open>The same formats as in the enclave\<close>

lemma keystream_is_stream: "keystream_blocks sha256 key i data = stream_xor sha256 key (word_of_nat i) data"
proof (induction "length data" arbitrary: i data rule: less_induct)
  case less
  then show ?case
    by (subst keystream_blocks.simps, subst stream_xor.simps) (simp add: xor_bytes_def add.commute)
qed

lemma keystream_encrypts: "keystreamXor sha256 data key = encrypt_with_scalar sha256 data key"
  by (simp add: keystreamXor_def keystream_is_stream encrypt_with_scalar_def decrypt_with_scalar_def)

lemma payment_message_agrees:
  assumes "\<And>bs. unhex (js_hex js bs) = Some bs"
    and "buildAscPaymentMessage js unhex cid rid amount h = Inr m" and "parse_u64 amount = Some a"
  shows "\<exists>hb. normalizeHex32 unhex h = Inr hb \<and> m = build_payment_message (js_sha256 js) cid rid a hb"
  using assms parse_u64_BigInt [OF assms(3)]
  by (auto simp: buildAscPaymentMessage_def rbind_def ok_or_def hashAscIdentifier_def sha256hex_def
      build_payment_message_def build_asc_payment_message_def build_asc_payment_message_from_hashes_def
      hash_identifier_def ASC_PAYMENT_MESSAGE_PREFIX_def split: sum.splits)

text \<open>
  The artifact of a delivery, decoded: the adaptor secret \<open>t\<close>, a verified pre-signature under the
  provider's key, and the result under the key stream of \<open>t\<close>.
\<close>
lemma artifact_decoded:
  fixes C :: "('p::ab_group_add, 's::comm_ring_1) curve"
  assumes laws: "curve_laws C" and unhex: "\<And>bs. unhex (js_hex js bs) = Some bs"
    and gen: "generateAscDeliveryArtifact js C unhex random input = Inr art"
    and amount: "parse_u64 (ai_amount input) = Some amount"
    and hash: "normalizeHex32 unhex (ai_requestHash input) = Inr h"
  obtains t pre pk where "aa_adaptorPoint art = js_hex js (compress C (mul_base C t))"
    "aa_preSigRPrime art = js_hex js (r_prime pre)" "aa_preSigSPrime art = js_hex js (s_prime pre)"
    "aa_encryptedResult art = js_base64 js (encrypt_with_scalar (js_sha256 js) (ai_result input) (scalar_to_bytes C t))"
    "aa_resultHash art = js_hex js (js_sha256 js (ai_result input))" "aa_providerPubkey art = js_hex js pk"
    "aa_adaptorSecret art = js_hex js (scalar_to_bytes C t)"
    "length (r_prime pre) = 32" "length (s_prime pre) = 32" "length pk = 32"
    "pre_verify C pk (build_payment_message (js_sha256 js) (ai_channelId input) (ai_requestId input) amount h)
      (mul_base C t) pre"
proof -
  obtain sk t m where sk: "normalizeSecretBytes unhex (fst random) (ai_providerSecretKey input) = Inr sk"
    and t: "canonicalScalarBytes C unhex (snd random) (ai_adaptorSecret input) = Inr (t, scalar_to_bytes C t)"
    and m: "buildAscPaymentMessage js unhex (ai_channelId input) (ai_requestId input) (ai_amount input)
      (ai_requestHash input) = Inr m"
    using gen by (auto simp: generateAscDeliveryArtifact_def canonicalScalarBytes_def rbind_def Let_def base_multiply_def
        require_def split: sum.splits prod.splits if_splits)
  let ?pk = "compress C (mul_base C (fst (expand_secret_key C sk)))" and ?pre = "pre_sign C sk m (mul_base C t)"
  have msg: "m = build_payment_message (js_sha256 js) (ai_channelId input) (ai_requestId input) amount h"
    using payment_message_agrees [OF unhex m amount] hash by auto
  have "art = \<lparr>aa_adaptorPoint = js_hex js (compress C (mul_base C t)), aa_preSigRPrime = js_hex js (r_prime ?pre),
      aa_preSigSPrime = js_hex js (s_prime ?pre),
      aa_encryptedResult = js_base64 js (keystreamXor (js_sha256 js) (ai_result input) (scalar_to_bytes C t)),
      aa_resultHash = js_hex js (js_sha256 js (ai_result input)), aa_providerPubkey = js_hex js ?pk,
      aa_adaptorSecret = js_hex js (scalar_to_bytes C t)\<rparr>"
    using gen
    by (auto simp: generateAscDeliveryArtifact_def sk t m rbind_def Let_def base_multiply_def require_def pre_sign_def
        derive_nonce_def challenge_hash_def split: if_splits prod.splits)
  moreover have "length (r_prime ?pre) = 32" "length (s_prime ?pre) = 32" "length ?pk = 32"
    by (simp_all add: pre_sign_def Let_def split_beta curve_lawsD [OF laws])
  ultimately show thesis
    using pre_sign_verifies [OF laws, of sk m "mul_base C t"]
    by (intro that [of t ?pre ?pk]) (simp_all add: keystream_encrypts msg [symmetric])
qed

text \<open>C10. A delivery that the provider's middleware prepares is accepted and pays.  For a locked request
  with the channel, request, amount and hash of the input, before its deadline, every field of the
  delivered artifact is decoded by the enclave, the delivery is accepted, and the adaptor secret that
  the artifact keeps then finalizes the request: the client gets the provider's result and the amount of
  the request is paid.
\<close>
theorem middleware_delivery_pays:
  fixes C :: "('p::ab_group_add, 's::comm_ring_1) curve"
  assumes laws: "curve_laws C" and lib: "libraries_agree js ax scalar"
    and unhex: "\<And>bs. unhex (js_hex js bs) = Some bs"
    and gen: "generateAscDeliveryArtifact js C unhex random input = Inr art"
    and amount: "parse_u64 (ai_amount input) = Some (cr_amount r)"
    and hash: "normalizeHex32 unhex (ai_requestHash input) = Inr (cr_request_hash r)"
    and ch: "aget (es_active_channels st) (ai_channelId input) = Some ch"
      "channel_wf C (ax_sha256 ax) (ai_channelId input) ch" "ch_status ch = Locked"
    and r: "ch_active_request ch = Some r" "cr_request_id r = ai_requestId input" "now \<le> cr_expires_at r"
    and nonce: "unat (ch_nonce ch) < 2 ^ 64 - 2"
  shows "let q = submitAscDelivery (ai_channelId input) art in
    \<exists>tb rp sp enc rh pk secret st1 out st2.
      hex_array32 ax (dq_adaptor_point q) = Some tb \<and> hex_array32 ax (dq_pre_sig_r_prime q) = Some rp \<and>
      hex_array32 ax (dq_pre_sig_s_prime q) = Some sp \<and> ax_base64_decode ax (dq_encrypted_result q) = Some enc \<and>
      hex_array32 ax (dq_result_hash q) = Some rh \<and> hex_array32 ax (dq_provider_pubkey q) = Some pk \<and>
      hex_array32 ax (aa_adaptorSecret art) = Some secret \<and>
      deliver_adaptor C (ax_sha256 ax) (dq_channel_id q) tb \<lparr>r_prime = rp, s_prime = sp\<rparr> enc rh pk now st =
        (Inr (), st1) \<and>
      finalize_offchain C (ax_sha256 ax) (dq_channel_id q) secret later st1 = (Inr out, st2) \<and>
      fo_result_bytes out = ai_result input \<and> fo_amount out = cr_amount r"
proof -
  let ?sha = "ax_sha256 ax" and ?cid = "ai_channelId input"
  note agree = libraries_agreeD [OF lib]
  obtain t pre pk where art: "aa_adaptorPoint art = js_hex js (compress C (mul_base C t))"
    "aa_preSigRPrime art = js_hex js (r_prime pre)" "aa_preSigSPrime art = js_hex js (s_prime pre)"
    "aa_encryptedResult art = js_base64 js (encrypt_with_scalar (js_sha256 js) (ai_result input) (scalar_to_bytes C t))"
    "aa_resultHash art = js_hex js (js_sha256 js (ai_result input))" "aa_providerPubkey art = js_hex js pk"
    "aa_adaptorSecret art = js_hex js (scalar_to_bytes C t)"
    and len: "length (r_prime pre) = 32" "length (s_prime pre) = 32" "length pk = 32"
    and verified: "pre_verify C pk (build_payment_message (js_sha256 js) ?cid (ai_requestId input) (cr_amount r)
      (cr_request_hash r)) (mul_base C t) pre"
    by (rule artifact_decoded [OF laws unhex gen amount hash])
  have "ch_channel_id ch = ?cid" using ch(2) by (simp add: channel_wf_def)
  moreover have "checked_add (ch_nonce ch) 1 = Some (ch_nonce ch + 1)"
    using nonce by (intro checked_add_SomeI) simp
  ultimately obtain st1 where st1: "deliver_adaptor C ?sha ?cid (compress C (mul_base C t)) pre
      (encrypt_with_scalar ?sha (ai_result input) (scalar_to_bytes C t)) (?sha (ai_result input)) pk now st = (Inr (), st1)"
    using ch r verified by (auto simp: deliver_adaptor_ok decompress_compress [OF laws] agree(1))
  have "client_locked (ch_balance ch) = cr_amount r"
    using ch(2,3) r(1) by (auto simp: channel_wf_def request_locked_def)
  then obtain out st2 where out: "finalize_offchain C ?sha ?cid (scalar_to_bytes C t) later st1 = (Inr out, st2)"
    "fo_result_bytes out = ai_result input" "fo_amount out = cr_amount r"
    using delivered_request_pays [OF laws agree(2) ch(1,2) nonce st1, of later] by auto
  have pre: "\<lparr>r_prime = r_prime pre, s_prime = s_prime pre\<rparr> = pre" by simp
  show ?thesis
    unfolding Let_def submitAscDelivery_def
    using st1 out len
    by (simp add: art hex_array32_def agree(1-5) curve_lawsD [OF laws] pre)
qed

end
