(* ===== verification/Middleware.thy ===== *)
theory Middleware
  imports Seller "HOL-Library.Multiset"
begin

text \<open>
  The life of a paid request in \<^verbatim>\<open>src/middleware/src/middleware.ts\<close> after its payment was verified: the
  execution cache, the run of the route's handler, the settlement and the responses.

  Node runs one callback at a time.  The state changes at three kinds of events, each of which runs to
  the next \<^verbatim>\<open>await\<close>: the answer of \<^verbatim>\<open>/v1/verify\<close> for a request, the end of a route handler (its response, or
  the timeout), and the answer of \<^verbatim>\<open>/v1/settle\<close>.
\<close>

section \<open>State\<close>

datatype ExecutionStatus = Executing | ServedSuccess | ServedError

text \<open>A waiter is the number of its request.\<close>
record ExecutionEntry =
  en_status :: ExecutionStatus
  en_statusCode :: "nat option"
  en_body :: "json option"
  en_paymentResponse :: "string option"
  en_waiters :: "nat list"

record http_response =
  hr_status :: nat
  hr_body :: "json option"
  hr_paymentResponse :: "string option"

text \<open>The request that executes: its number, its payment, and what the handler left.\<close>
record execution =
  ex_request :: nat
  ex_paymentId :: string
  ex_captured :: "(nat option \<times> json option) option"

text \<open>\<open>mw_started\<close> lists the calls of \<^verbatim>\<open>next()\<close>, \<open>mw_settles\<close> the calls of \<^verbatim>\<open>/v1/settle\<close> with status and hash,
  \<open>mw_responses\<close> what was sent: request, verification and response.\<close>
record middleware =
  mw_cache :: "(string, ExecutionEntry) amap"
  mw_running :: "(string, execution) amap"
  mw_started :: "string list"
  mw_settles :: "(string \<times> nat \<times> string) list"
  mw_responses :: "(nat \<times> string \<times> http_response) list"

definition new_middleware :: middleware where
  "new_middleware = \<lparr>mw_cache = [], mw_running = [], mw_started = [], mw_settles = [], mw_responses = []\<rparr>"

text \<open>The fields of a settlement that are read: \<^verbatim>\<open>settlementId\<close>, \<^verbatim>\<open>batchId\<close> and \<^verbatim>\<open>participantReceipt\<close>.\<close>
record settle_result =
  st_settlementId :: string
  st_batchId :: "u64 option"
  st_participantReceipt :: string

section \<open>Steps\<close>

definition status_or_200 :: "nat option \<Rightarrow> nat" where
  "status_or_200 s = (case s of None \<Rightarrow> 200 | Some n \<Rightarrow> n)"

definition buildResultHash :: "js_env \<Rightarrow> string \<Rightarrow> nat \<Rightarrow> json option \<Rightarrow> string" where
  "buildResultHash js verificationId statusCode body =
    sha256hex js (str_bytes (''SUBLY402-SVM-V1-RESULT'' @ newline @ verificationId @ newline @
      show_nat statusCode @ newline @ (case body of None \<Rightarrow> [] | Some b \<Rightarrow> js_stringify js b)))"

definition encodeJsonHeader :: "js_env \<Rightarrow> json \<Rightarrow> string" where
  "encodeJsonHeader js v = js_base64 js (str_bytes (js_stringify js v))"

text \<open>The response of a served entry, to a waiter or to a repeated request.\<close>
definition cached_response :: "ExecutionEntry \<Rightarrow> http_response" where
  "cached_response e =
    \<lparr>hr_status = status_or_200 (en_statusCode e), hr_body = en_body e, hr_paymentResponse = en_paymentResponse e\<rparr>"

definition on_verified :: "nat \<Rightarrow> string \<Rightarrow> string \<Rightarrow> middleware \<Rightarrow> middleware" where
  "on_verified rid verificationId paymentId s = (case aget (mw_cache s) verificationId of
      Some existing \<Rightarrow>
        if en_status existing = Executing then
          s\<lparr>mw_cache := aput verificationId (existing\<lparr>en_waiters := en_waiters existing @ [rid]\<rparr>) (mw_cache s)\<rparr>
        else s\<lparr>mw_responses := mw_responses s @ [(rid, verificationId, cached_response existing)]\<rparr>
    | None \<Rightarrow>
        s\<lparr>mw_cache := aput verificationId \<lparr>en_status = Executing, en_statusCode = None, en_body = None,
            en_paymentResponse = None, en_waiters = []\<rparr> (mw_cache s),
          mw_running := aput verificationId \<lparr>ex_request = rid, ex_paymentId = paymentId, ex_captured = None\<rparr>
            (mw_running s),
          mw_started := mw_started s @ [verificationId]\<rparr>)"

text \<open>\<^verbatim>\<open>finishHandler\<close>: the first call resumes the middleware, which calls \<^verbatim>\<open>/v1/settle\<close>.\<close>
definition on_handler_finished ::
  "js_env \<Rightarrow> string \<Rightarrow> nat option \<Rightarrow> json option \<Rightarrow> middleware \<Rightarrow> middleware" where
  "on_handler_finished js verificationId capturedStatus capturedBody s =
    (case aget (mw_running s) verificationId of
       None \<Rightarrow> s
     | Some x \<Rightarrow>
         if ex_captured x \<noteq> None then s
         else
           let statusCode = status_or_200 capturedStatus in
           s\<lparr>mw_running := aput verificationId (x\<lparr>ex_captured := Some (capturedStatus, capturedBody)\<rparr>) (mw_running s),
             mw_settles := mw_settles s @
               [(verificationId, statusCode, buildResultHash js verificationId statusCode capturedBody)]\<rparr>)"

text \<open>The entry is filled in, the request itself and its waiters are answered.\<close>
definition serve ::
  "string \<Rightarrow> execution \<Rightarrow> ExecutionEntry \<Rightarrow> middleware \<Rightarrow> middleware" where
  "serve verificationId x entry s =
    (let waiters = (case aget (mw_cache s) verificationId of None \<Rightarrow> [] | Some e \<Rightarrow> en_waiters e);
         response = cached_response entry in
     s\<lparr>mw_cache := aput verificationId (entry\<lparr>en_waiters := []\<rparr>) (mw_cache s),
       mw_running := adel verificationId (mw_running s),
       mw_responses := mw_responses s @ map (\<lambda>rid. (rid, verificationId, response)) (ex_request x # waiters)\<rparr>)"

definition failureBody :: "string \<Rightarrow> json" where
  "failureBody message = JObject [(''error'', JString ''payment_settlement_failed''), (''message'', JString message)]"

definition failurePaymentResponse :: "js_env \<Rightarrow> string \<Rightarrow> string \<Rightarrow> string" where
  "failurePaymentResponse js paymentId verificationId = encodeJsonHeader js (JObject
    [(''scheme'', JString ''subly402-svm-v1''), (''paymentId'', JString paymentId),
     (''verificationId'', JString verificationId), (''settlementId'', JNull), (''batchId'', JNull),
     (''txSignature'', JNull), (''participantReceipt'', JNull), (''error'', JString ''payment_settlement_failed'')])"

definition paymentResponse :: "js_env \<Rightarrow> string \<Rightarrow> string \<Rightarrow> settle_result \<Rightarrow> string" where
  "paymentResponse js paymentId verificationId settled = encodeJsonHeader js (JObject
    [(''scheme'', JString ''subly402-svm-v1''), (''paymentId'', JString paymentId),
     (''verificationId'', JString verificationId), (''settlementId'', JString (st_settlementId settled)),
     (''batchId'', case st_batchId settled of None \<Rightarrow> JNull | Some b \<Rightarrow> JNumber (PosInt b)),
     (''txSignature'', JNull), (''participantReceipt'', JString (st_participantReceipt settled))])"

text \<open>\<open>Inl\<close> is a failed call, with its message.\<close>
definition on_settled :: "js_env \<Rightarrow> string \<Rightarrow> (string, settle_result) result \<Rightarrow> middleware \<Rightarrow> middleware" where
  "on_settled js verificationId answer s = (case aget (mw_running s) verificationId of
      None \<Rightarrow> s
    | Some x \<Rightarrow> (case ex_captured x of
        None \<Rightarrow> s
      | Some (capturedStatus, capturedBody) \<Rightarrow> (case answer of
          Inl message \<Rightarrow>
            serve verificationId x \<lparr>en_status = ServedError, en_statusCode = Some 502,
              en_body = Some (failureBody (if message = [] then ''Payment settlement failed'' else message)),
              en_paymentResponse = Some (failurePaymentResponse js (ex_paymentId x) verificationId),
              en_waiters = []\<rparr> s
        | Inr settled \<Rightarrow>
            serve verificationId x
              \<lparr>en_status = (if status_or_200 capturedStatus < 400 then ServedSuccess else ServedError),
               en_statusCode = Some (status_or_200 capturedStatus), en_body = capturedBody,
               en_paymentResponse = Some (paymentResponse js (ex_paymentId x) verificationId settled),
               en_waiters = []\<rparr> s)))"

datatype mw_event =
    Verified nat string string
  | HandlerFinished string "nat option" "json option"
  | SettleAnswered string "(string, settle_result) result"

fun mw_step :: "js_env \<Rightarrow> mw_event \<Rightarrow> middleware \<Rightarrow> middleware" where
  "mw_step js (Verified rid vid pid) s = on_verified rid vid pid s"
| "mw_step js (HandlerFinished vid status body) s = on_handler_finished js vid status body s"
| "mw_step js (SettleAnswered vid answer) s = on_settled js vid answer s"

definition mw_run :: "js_env \<Rightarrow> mw_event list \<Rightarrow> middleware" where
  "mw_run js es = foldl (\<lambda>s e. mw_step js e s) new_middleware es"

text \<open>The requests whose payments were verified, with their verification.\<close>
fun arrival :: "mw_event \<Rightarrow> (nat \<times> string) list" where
  "arrival (Verified rid vid pid) = [(rid, vid)]"
| "arrival _ = []"

definition arrivals :: "mw_event list \<Rightarrow> (nat \<times> string) list" where
  "arrivals es = concat (map arrival es)"

section \<open>The invariant\<close>

definition in_progress :: "middleware \<Rightarrow> string \<Rightarrow> bool" where
  "in_progress s vid = (aget (mw_running s) vid \<noteq> None)"

text \<open>Per verification: the requests that arrived, those answered, and those that wait.\<close>
definition arrived :: "(nat \<times> string) list \<Rightarrow> string \<Rightarrow> nat multiset" where
  "arrived as vid = mset (map fst (filter (\<lambda>a. snd a = vid) as))"

definition answered :: "middleware \<Rightarrow> string \<Rightarrow> nat multiset" where
  "answered s vid = mset (map fst (filter (\<lambda>a. fst (snd a) = vid) (mw_responses s)))"

definition pending_requests :: "middleware \<Rightarrow> string \<Rightarrow> nat multiset" where
  "pending_requests s vid = (case aget (mw_running s) vid of
      None \<Rightarrow> {#}
    | Some x \<Rightarrow> add_mset (ex_request x)
        (case aget (mw_cache s) vid of None \<Rightarrow> {#} | Some e \<Rightarrow> mset (en_waiters e)))"

text \<open>The state of one verification: unknown, executing, or served.\<close>
definition mw_ok :: "(nat \<times> string) list \<Rightarrow> middleware \<Rightarrow> string \<Rightarrow> bool" where
  "mw_ok as s vid \<longleftrightarrow>
    (vid \<in> set (mw_started s) \<longleftrightarrow> aget (mw_cache s) vid \<noteq> None) \<and>
    (case aget (mw_cache s) vid of
       None \<Rightarrow> aget (mw_running s) vid = None \<and> vid \<notin> fst ` set (mw_settles s) \<and>
         (\<forall>rid resp. (rid, vid, resp) \<notin> set (mw_responses s))
     | Some e \<Rightarrow>
         if en_status e = Executing
         then (\<exists>x. aget (mw_running s) vid = Some x \<and> (vid \<in> fst ` set (mw_settles s) \<longleftrightarrow> ex_captured x \<noteq> None)) \<and>
           (\<forall>rid resp. (rid, vid, resp) \<notin> set (mw_responses s))
         else aget (mw_running s) vid = None \<and> vid \<in> fst ` set (mw_settles s) \<and>
           (\<forall>rid resp. (rid, vid, resp) \<in> set (mw_responses s) \<longrightarrow> resp = cached_response e)) \<and>
    arrived as vid = answered s vid + pending_requests s vid"

definition mw_inv :: "(nat \<times> string) list \<Rightarrow> middleware \<Rightarrow> bool" where
  "mw_inv as s \<longleftrightarrow> distinct (mw_started s) \<and> distinct (map fst (mw_settles s)) \<and> (\<forall>vid. mw_ok as s vid)"

lemmas mw_counts = arrived_def answered_def pending_requests_def

lemma mw_inv_new: "mw_inv [] new_middleware"
  by (simp add: mw_inv_def mw_ok_def new_middleware_def mw_counts)

lemma mw_inv_verified:
  assumes inv: "mw_inv as s"
  shows "mw_inv (as @ [(rid, vid)]) (on_verified rid vid pid s)"
proof -
  have ok: "mw_ok as s v" for v using inv by (simp add: mw_inv_def)
  have "mw_ok (as @ [(rid, vid)]) (on_verified rid vid pid s) v" for v
  proof (cases "v = vid")
    case True
    then show ?thesis
      using ok [of vid]
      by (auto simp: mw_ok_def on_verified_def mw_counts split: option.splits if_splits)
  next
    case False
    then show ?thesis
      using ok [of v]
      by (auto simp: mw_ok_def on_verified_def mw_counts split: option.splits if_splits)
  qed
  moreover have "vid \<notin> set (mw_started s)" if "aget (mw_cache s) vid = None"
    using ok [of vid] that by (simp add: mw_ok_def)
  ultimately show ?thesis
    using inv by (auto simp: mw_inv_def on_verified_def split: option.splits)
qed

lemma mw_inv_finished:
  assumes inv: "mw_inv as s"
  shows "mw_inv as (on_handler_finished js vid status body s)"
proof -
  have ok: "mw_ok as s v" for v using inv by (simp add: mw_inv_def)
  have "mw_ok as (on_handler_finished js vid status body s) v" for v
    using ok [of v]
    by (cases "v = vid")
      (auto simp: mw_ok_def on_handler_finished_def Let_def mw_counts split: option.splits if_splits)
  moreover have "vid \<notin> fst ` set (mw_settles s)" if "aget (mw_running s) vid = Some x" "ex_captured x = None" for x
    using ok [of vid] that by (auto simp: mw_ok_def split: option.splits if_splits)
  then have "distinct (map fst (mw_settles (on_handler_finished js vid status body s)))"
    using inv by (cases "aget (mw_running s) vid"; cases "ex_captured (the (aget (mw_running s) vid))")
      (simp_all add: mw_inv_def on_handler_finished_def Let_def)
  moreover have "mw_started (on_handler_finished js vid status body s) = mw_started s"
    by (simp add: on_handler_finished_def Let_def split: option.splits)
  ultimately show ?thesis
    using inv by (simp add: mw_inv_def)
qed

lemma mw_inv_serve:
  assumes inv: "mw_inv as s" and x: "aget (mw_running s) vid = Some x" "ex_captured x \<noteq> None"
    and e: "en_status e \<noteq> Executing"
  shows "mw_inv as (serve vid x e s)"
proof -
  have ok: "mw_ok as s v" for v using inv by (simp add: mw_inv_def)
  have "mw_ok as (serve vid x e s) v" for v
    using ok [of v] x e
    by (cases "v = vid")
      (auto simp: mw_ok_def serve_def Let_def mw_counts cached_response_def comp_def split: option.splits if_splits)
  then show ?thesis using inv by (simp add: mw_inv_def serve_def Let_def)
qed

lemma mw_inv_settled:
  assumes "mw_inv as s"
  shows "mw_inv as (on_settled js vid answer s)"
  using assms
  by (auto simp: on_settled_def intro!: mw_inv_serve split: option.splits sum.splits)

lemma mw_inv_step: "mw_inv as s \<Longrightarrow> mw_inv (as @ arrival e) (mw_step js e s)"
  by (cases e) (simp_all add: mw_inv_verified mw_inv_finished mw_inv_settled)

lemma mw_inv_run: "mw_inv (arrivals es) (mw_run js es)"
proof (induction es rule: rev_induct)
  case Nil
  then show ?case by (simp add: arrivals_def mw_run_def mw_inv_new)
next
  case (snoc e es)
  then show ?case using mw_inv_step [of "arrivals es" "mw_run js es" e js] by (simp add: arrivals_def mw_run_def)
qed

section \<open>Single execution\<close>


end
