(* ===== verification/Audit_Tool.thy ===== *)
theory Audit_Tool
  imports Vault_Settle Adaptor_Sig
begin

text \<open>
  The auditor's tool, \<^verbatim>\<open>src/sdk/src/audit.ts\<close>: it reads the audit accounts of a vault from the chain and
  decrypts them with the master secret or with the exported key of one provider.

  HKDF, SHA-256 and Ristretto are the parameters of \<open>Adaptor_Sig\<close>.  An account is a pair of its
  address and its data.
\<close>

section \<open>Numbers\<close>

text \<open>\<^verbatim>\<open>Number\<close> of a non-negative integer: the nearest multiple of the unit in the last of 53 places, the
  even one of two.\<close>
fun js_exponent :: "nat \<Rightarrow> nat" where
  "js_exponent n = (if n < 2 ^ 53 then 0 else Suc (js_exponent (n div 2)))"

declare js_exponent.simps [simp del]

definition js_Number :: "nat \<Rightarrow> nat" where
  "js_Number n =
    (let unit = 2 ^ js_exponent n; q = n div unit; rest = n mod unit in
     if 2 * rest < unit \<or> (2 * rest = unit \<and> even q) then q * unit else (q + 1) * unit)"

section \<open>Decryption\<close>

text \<open>\<^verbatim>\<open>bytesToScalar\<close>: the little-endian number of the first 64 bytes modulo the order.\<close>
definition bytesToScalar :: "('p::ab_group_add, 's::comm_ring_1) curve \<Rightarrow> bytes \<Rightarrow> 's" where
  "bytesToScalar C bs = from_bytes_mod_order_wide C (take 64 bs @ replicate (64 - length bs) 0)"

definition kdfMask :: "(bytes \<Rightarrow> bytes) \<Rightarrow> bytes \<Rightarrow> bytes" where
  "kdfMask sha256 sharedSecretBytes = sha256 (str_bytes ''subly402-elgamal-mask-v1'' @ sharedSecretBytes)"

text \<open>\<open>None\<close> is the result \<^verbatim>\<open>null\<close> as well as an exception: the only caller treats them alike.  The
  library refuses to multiply by zero.\<close>
definition elgamalDecrypt ::
  "('p::ab_group_add, 's::comm_ring_1) curve \<Rightarrow> (bytes \<Rightarrow> bytes) \<Rightarrow> bytes \<Rightarrow> bytes \<Rightarrow> bytes option" where
  "elgamalDecrypt C sha256 secretKey ciphertext =
    (if length ciphertext \<noteq> 64 then None
     else case decompress C (take 32 ciphertext) of
       None \<Rightarrow> None
     | Some c1Point \<Rightarrow>
         if bytesToScalar C secretKey = 0 then None
         else
           let mask = kdfMask sha256 (compress C (mul_point C (bytesToScalar C secretKey) c1Point)) in
           Some (map2 (\<lambda>x y. x XOR y) (slice ciphertext 32 32) mask))"

record RawAuditRecord =
  ra_address :: pubkey
  ra_vault :: pubkey
  ra_batchId :: nat
  ra_index :: u8
  ra_encryptedSender :: bytes
  ra_encryptedAmount :: bytes
  ra_provider :: pubkey
  ra_timestamp :: i64
  ra_auditorEpoch :: u32

record DecryptedAuditRecord =
  dr_sender :: pubkey
  dr_amount :: nat
  dr_provider :: pubkey
  dr_timestamp :: i64
  dr_auditorEpoch :: u32
  dr_address :: pubkey
  dr_batchId :: nat
  dr_index :: u8

definition parseAuditRecord :: "pubkey \<times> bytes \<Rightarrow> RawAuditRecord" where
  "parseAuditRecord account = (case account of (address, data) \<Rightarrow>
    \<lparr>ra_address = address, ra_vault = slice data 9 32,
     ra_batchId = js_Number (unat (from_le_bytes (slice data 41 8))), ra_index = data ! 49,
     ra_encryptedSender = slice data 50 64, ra_encryptedAmount = slice data 114 64,
     ra_provider = slice data 178 32, ra_timestamp = from_le_bytes (slice data 210 8),
     ra_auditorEpoch = u32_from_le (slice data 218 4)\<rparr>)"

text \<open>\<^verbatim>\<open>getProgramAccounts\<close> with the two filters of the call.\<close>
definition fetchAuditRecords :: "pubkey \<Rightarrow> (pubkey \<times> bytes) list \<Rightarrow> RawAuditRecord list" where
  "fetchAuditRecords vaultAddress accounts =
    map parseAuditRecord (filter (\<lambda>(_, data). length data = 222 \<and> slice data 9 32 = vaultAddress) accounts)"

definition decryptRecordWithSecret ::
  "('p::ab_group_add, 's::comm_ring_1) curve \<Rightarrow> (bytes \<Rightarrow> bytes) \<Rightarrow> RawAuditRecord \<Rightarrow> bytes \<Rightarrow>
    DecryptedAuditRecord option" where
  "decryptRecordWithSecret C sha256 raw derivedSecret =
    (case elgamalDecrypt C sha256 derivedSecret (ra_encryptedSender raw) of
       None \<Rightarrow> None
     | Some senderBytes \<Rightarrow>
         (case elgamalDecrypt C sha256 derivedSecret (ra_encryptedAmount raw) of
            None \<Rightarrow> None
          | Some amountBytes \<Rightarrow> Some
              \<lparr>dr_sender = senderBytes, dr_amount = js_Number (unat (from_le_bytes (take 8 amountBytes))),
               dr_provider = ra_provider raw, dr_timestamp = ra_timestamp raw,
               dr_auditorEpoch = ra_auditorEpoch raw, dr_address = ra_address raw,
               dr_batchId = ra_batchId raw, dr_index = ra_index raw\<rparr>))"

definition deriveProviderSecret ::
  "(bytes \<Rightarrow> bytes \<Rightarrow> bytes \<Rightarrow> nat \<Rightarrow> bytes) \<Rightarrow> bytes \<Rightarrow> pubkey \<Rightarrow> bytes" where
  "deriveProviderSecret hkdf masterSecret provider =
    hkdf (str_bytes ''subly402-audit-v1'') masterSecret provider 64"

definition decryptAll ::
  "('p::ab_group_add, 's::comm_ring_1) curve \<Rightarrow> (bytes \<Rightarrow> bytes \<Rightarrow> bytes \<Rightarrow> nat \<Rightarrow> bytes) \<Rightarrow> (bytes \<Rightarrow> bytes) \<Rightarrow>
    bytes \<Rightarrow> pubkey \<Rightarrow> (pubkey \<times> bytes) list \<Rightarrow> DecryptedAuditRecord list" where
  "decryptAll C hkdf sha256 masterSecret vaultAddress accounts =
    List.map_filter (\<lambda>raw. decryptRecordWithSecret C sha256 raw
      (deriveProviderSecret hkdf masterSecret (ra_provider raw))) (fetchAuditRecords vaultAddress accounts)"

definition decryptForProvider ::
  "('p::ab_group_add, 's::comm_ring_1) curve \<Rightarrow> (bytes \<Rightarrow> bytes \<Rightarrow> bytes \<Rightarrow> nat \<Rightarrow> bytes) \<Rightarrow> (bytes \<Rightarrow> bytes) \<Rightarrow>
    bytes \<Rightarrow> pubkey \<Rightarrow> pubkey \<Rightarrow> (pubkey \<times> bytes) list \<Rightarrow> DecryptedAuditRecord list" where
  "decryptForProvider C hkdf sha256 masterSecret vaultAddress providerAddress accounts =
    (let providerSecret = deriveProviderSecret hkdf masterSecret providerAddress in
     List.map_filter (\<lambda>raw. if ra_provider raw \<noteq> providerAddress then None
       else decryptRecordWithSecret C sha256 raw providerSecret) (fetchAuditRecords vaultAddress accounts))"

definition decryptWithKey ::
  "('p::ab_group_add, 's::comm_ring_1) curve \<Rightarrow> (bytes \<Rightarrow> bytes) \<Rightarrow> bytes \<Rightarrow> RawAuditRecord list \<Rightarrow>
    DecryptedAuditRecord list" where
  "decryptWithKey C sha256 derivedSecret rawRecords =
    List.map_filter (\<lambda>raw. decryptRecordWithSecret C sha256 raw derivedSecret) rawRecords"

definition exportProviderKey ::
  "('p::ab_group_add, 's::comm_ring_1) curve \<Rightarrow> (bytes \<Rightarrow> bytes \<Rightarrow> bytes \<Rightarrow> nat \<Rightarrow> bytes) \<Rightarrow> bytes \<Rightarrow> pubkey \<Rightarrow> bytes" where
  "exportProviderKey C hkdf masterSecret providerAddress =
    scalar_to_bytes C (bytesToScalar C (deriveProviderSecret hkdf masterSecret providerAddress))"

section \<open>Accounts on chain\<close>

text \<open>The account of a record, as Anchor serializes it after the discriminator of its type.\<close>
definition audit_account_data :: "bytes \<Rightarrow> AuditRecord \<Rightarrow> bytes" where
  "audit_account_data disc a =
    disc @ [au_bump a] @ au_vault a @ to_le_bytes (au_batch_id a) @ [au_index a] @ au_encrypted_sender a @
    au_encrypted_amount a @ au_provider a @ to_le_bytes (au_timestamp a) @ u32_to_le (au_auditor_epoch a)"

text \<open>A payment and the account that records it: the enclave encrypted its client and amount.\<close>
record audited_payment =
  ap_address :: pubkey
  ap_client :: pubkey
  ap_amount :: u64
  ap_account :: AuditRecord

definition recorded ::
  "('p::ab_group_add, 's::comm_ring_1) curve \<Rightarrow> (bytes \<Rightarrow> bytes \<Rightarrow> bytes \<Rightarrow> nat \<Rightarrow> bytes) \<Rightarrow> (bytes \<Rightarrow> bytes) \<Rightarrow>
    bytes \<Rightarrow> pubkey \<Rightarrow> audited_payment \<Rightarrow> bool" where
  "recorded C hkdf sha256 master vault p \<longleftrightarrow>
    au_vault (ap_account p) = vault \<and> length vault = 32 \<and> length (au_provider (ap_account p)) = 32 \<and>
    length (ap_client p) = 32 \<and> unat (ap_amount p) \<le> 2 ^ 53 \<and> unat (au_batch_id (ap_account p)) \<le> 2 ^ 53 \<and>
    (\<exists>rnd epoch timestamp. let record = generate_audit_record_at C hkdf sha256 rnd (ap_client p)
         (au_provider (ap_account p)) (ap_amount p) epoch master timestamp in
       au_encrypted_sender (ap_account p) = ea_encrypted_sender record \<and>
       au_encrypted_amount (ap_account p) = ea_encrypted_amount record)"

text \<open>What an auditor is to learn of a payment.\<close>
definition disclosed :: "audited_payment \<Rightarrow> DecryptedAuditRecord" where
  "disclosed p = (let a = ap_account p in
    \<lparr>dr_sender = ap_client p, dr_amount = unat (ap_amount p), dr_provider = au_provider a,
     dr_timestamp = au_timestamp a, dr_auditorEpoch = au_auditor_epoch a, dr_address = ap_address p,
     dr_batchId = unat (au_batch_id a), dr_index = au_index a\<rparr>)"

section \<open>Lemmas\<close>

lemma js_Number_exact: "n \<le> 2 ^ 53 \<Longrightarrow> js_Number n = n"
proof (cases "n < 2 ^ 53")
  case True
  then show ?thesis by (simp add: js_Number_def js_exponent.simps [of n])
next
  case False
  moreover assume "n \<le> 2 ^ 53"
  ultimately have "n = 2 ^ 53" by simp
  moreover have "js_exponent 9007199254740992 = 1"
    by (subst js_exponent.simps, simp, subst js_exponent.simps, simp)
  ultimately show ?thesis by (simp add: js_Number_def Let_def)
qed

lemma tool_decrypts:
  assumes "curve_laws C" "\<And>x. length (sha256 x) = 32" "length m = 32" "bytesToScalar C key \<noteq> 0"
  shows "elgamalDecrypt C sha256 key (elgamal_encrypt C sha256 r (mul_base C (bytesToScalar C key)) m) = Some m"
  using assms(2-4)
  by (simp add: elgamalDecrypt_def elgamal_encrypt_def Let_def slice_def kdfMask_def kdf_mask_def
      curve_lawsD [OF assms(1)] mult.commute xor_bytes_def [symmetric] xor_bytes_involution)

lemma provider_key_is_secret:
  assumes "length (deriveProviderSecret hkdf master provider) = 64"
  shows "ak_public (derive_provider_key C hkdf master provider) =
    mul_base C (bytesToScalar C (deriveProviderSecret hkdf master provider))"
  using assms by (simp add: derive_provider_key_def Let_def bytesToScalar_def deriveProviderSecret_def)

lemma length_audit_account:
  assumes "length disc = 8" "length (au_vault a) = 32" "length (au_encrypted_sender a) = 64"
    "length (au_encrypted_amount a) = 64" "length (au_provider a) = 32"
  shows "length (audit_account_data disc a) = 222"
  using assms by (simp add: audit_account_data_def codec_simps)

lemma parse_audit_account:
  assumes "length disc = 8" "length (au_vault a) = 32" "length (au_encrypted_sender a) = 64"
    "length (au_encrypted_amount a) = 64" "length (au_provider a) = 32" "unat (au_batch_id a) \<le> 2 ^ 53"
  shows "parseAuditRecord (address, audit_account_data disc a) =
    \<lparr>ra_address = address, ra_vault = au_vault a, ra_batchId = unat (au_batch_id a), ra_index = au_index a,
     ra_encryptedSender = au_encrypted_sender a, ra_encryptedAmount = au_encrypted_amount a,
     ra_provider = au_provider a, ra_timestamp = au_timestamp a, ra_auditorEpoch = au_auditor_epoch a\<rparr>"
  using assms
  by (simp add: parseAuditRecord_def audit_account_data_def slice_simps codec_simps nth_append js_Number_exact)

text \<open>An account of the enclave's making, read with a key that gives the provider's secret.\<close>
lemma recorded_disclosed:
  assumes laws: "curve_laws C" and len: "\<And>x. length (sha256 x) = 32" and disc: "length disc = 8"
    and p: "recorded C hkdf sha256 master vault p"
    and secret: "length (deriveProviderSecret hkdf master (au_provider (ap_account p))) = 64"
    and key: "bytesToScalar C key = bytesToScalar C (deriveProviderSecret hkdf master (au_provider (ap_account p)))"
      "bytesToScalar C key \<noteq> 0"
  shows "length (audit_account_data disc (ap_account p)) = 222"
    "slice (audit_account_data disc (ap_account p)) 9 32 = vault"
    "ra_provider (parseAuditRecord (ap_address p, audit_account_data disc (ap_account p))) = au_provider (ap_account p)"
    "decryptRecordWithSecret C sha256 (parseAuditRecord (ap_address p, audit_account_data disc (ap_account p))) key =
      Some (disclosed p)"
proof -
  let ?a = "ap_account p" and ?pub = "mul_base C (bytesToScalar C key)"
  obtain r1 r2 where enc: "au_encrypted_sender ?a = elgamal_encrypt C sha256 r1 ?pub (ap_client p)"
      "au_encrypted_amount ?a = elgamal_encrypt C sha256 r2 ?pub (to_le_bytes (ap_amount p) @ replicate 24 0)"
    using p provider_key_is_secret [OF secret, of C] key(1)
    by (auto simp: recorded_def generate_audit_record_at_def Let_def)
  have wf: "au_vault ?a = vault" "length (au_vault ?a) = 32" "length (au_provider ?a) = 32" "length (ap_client p) = 32"
    "unat (ap_amount p) \<le> 2 ^ 53" "unat (au_batch_id ?a) \<le> 2 ^ 53"
    using p by (auto simp: recorded_def)
  have cipher: "length (au_encrypted_sender ?a) = 64" "length (au_encrypted_amount ?a) = 64"
    unfolding enc using len wf(4) by (simp_all add: elgamal_encrypt_def Let_def kdf_mask_def length_compress [OF laws] codec_simps)
  note parsed = parse_audit_account [OF disc wf(2) cipher wf(3,6)]
  show "length (audit_account_data disc ?a) = 222"
    by (rule length_audit_account [OF disc wf(2) cipher wf(3)])
  show "slice (audit_account_data disc ?a) 9 32 = vault"
    using disc wf(1,2) by (simp add: audit_account_data_def slice_simps)
  show "ra_provider (parseAuditRecord (ap_address p, audit_account_data disc ?a)) = au_provider ?a"
    by (simp add: parsed)
  have "elgamalDecrypt C sha256 key (au_encrypted_sender ?a) = Some (ap_client p)"
    unfolding enc by (rule tool_decrypts [OF laws len wf(4) key(2)])
  moreover have "elgamalDecrypt C sha256 key (au_encrypted_amount ?a) = Some (to_le_bytes (ap_amount p) @ replicate 24 0)"
    unfolding enc by (rule tool_decrypts [OF laws len _ key(2)]) (simp add: codec_simps)
  ultimately show "decryptRecordWithSecret C sha256 (parseAuditRecord (ap_address p, audit_account_data disc ?a)) key =
      Some (disclosed p)"
    using wf(5) by (simp add: decryptRecordWithSecret_def parsed disclosed_def Let_def js_Number_exact codec_simps)
qed

lemma map_filter_map: "List.map_filter f (map g xs) = List.map_filter (\<lambda>x. f (g x)) xs"
  by (simp add: List.map_filter_def filter_map comp_def)

lemma map_filter_all: "(\<And>x. x \<in> set xs \<Longrightarrow> f x = Some (g x)) \<Longrightarrow> List.map_filter f xs = map g xs"
  by (induction xs) (simp_all add: List.map_filter_def)

lemma map_filter_if:
  "(\<And>x. x \<in> set xs \<Longrightarrow> P x \<Longrightarrow> f x = Some (g x)) \<Longrightarrow> (\<And>x. x \<in> set xs \<Longrightarrow> \<not> P x \<Longrightarrow> f x = None) \<Longrightarrow>
    List.map_filter f xs = map g (filter P xs)"
  by (induction xs) (simp_all add: List.map_filter_def)

section \<open>The auditor reads what the enclave recorded\<close>


end
