(* ===== verification/Seller_Example.thy ===== *)
theory Seller_Example
  imports Payment_Example Asc_Seller Middleware Audit_Tool
begin

text \<open>
  The theorems on the provider's middleware and on the auditor's tool, applied to a delivery for the
  example channel, to two requests with one payment, and to an audited payment.
\<close>

section \<open>A delivery\<close>

definition ex_unhex :: "string \<Rightarrow> bytes option" where
  "ex_unhex s = Some (str_bytes s)"

definition ex_input :: AscDeliveryInput where
  "ex_input = \<lparr>ai_channelId = ''ch_1'', ai_requestId = ''req'', ai_amount = ''30'',
    ai_requestHash = text_of_bytes (replicate 32 2), ai_result = [1, 2, 3],
    ai_providerSecretKey = BytesInput (replicate 32 3), ai_adaptorSecret = BytesInput (replicate 32 9)\<rparr>"

lemma ex_unhex_hex: "ex_unhex (js_hex ex_js bs) = Some bs"
  by (simp add: ex_unhex_def ex_js_def)

lemma ex_request_hash_read: "normalizeHex32 ex_unhex (text_of_bytes (replicate 32 2)) = Inr (replicate 32 2)"
proof -
  have "js_lower (text_of_bytes (replicate 32 2)) = text_of_bytes (replicate 32 2)"
    by (simp add: js_lower_def text_of_bytes_def)
  then show ?thesis by (simp add: normalizeHex32_def ex_unhex_def ok_or_def require_def)
qed

lemma replicate_8: "replicate 8 b = [b, b, b, b, b, b, b, b]"
  by (simp add: numeral_eq_Suc)

lemma ex_scalars_nonzero: "from_le_bytes (replicate 8 7) \<noteq> 0" "from_le_bytes (replicate 8 9) \<noteq> 0"
  "from_le_bytes (replicate 8 4) \<noteq> 0"
  by (simp_all add: from_le_bytes_def replicate_8)

lemma ex_artifact: "\<exists>art. generateAscDeliveryArtifact ex_js ex_C ex_unhex random ex_input = Inr art"
proof -
  have prefix: "snd (expand_secret_key ex_C (replicate 32 3)) = replicate 32 7"
    by (simp add: expand_secret_key_def ex_C_def Let_def slice_def)
  note le = ex_scalars_nonzero(1,2)
  have "canonicalScalarBytes ex_C ex_unhex (snd random) (BytesInput (replicate 32 9)) =
      Inr (from_le_bytes (replicate 8 9), scalar_to_bytes ex_C (from_le_bytes (replicate 8 9)))"
    using le by (simp add: canonicalScalarBytes_def rbind_def require_def ex_C_def slice_def Let_def)
  moreover obtain m where "buildAscPaymentMessage ex_js ex_unhex ''ch_1'' ''req'' ''30'' (text_of_bytes (replicate 32 2)) = Inr m"
    using parse_u64_BigInt [OF ex_thirty(2)]
    by (simp add: buildAscPaymentMessage_def ex_request_hash_read rbind_def ok_or_def ex_unhex_def)
  moreover have "from_bytes_mod_order_wide ex_C (sha512 ex_C (replicate 32 7 @ x)) = from_le_bytes (replicate 8 7)" for x
    by (simp add: ex_C_def slice_def)
  ultimately show ?thesis
    using le prefix
    by (simp add: generateAscDeliveryArtifact_def ex_input_def rbind_def require_def base_multiply_def Let_def split_beta)
qed

theorem middleware_delivery_pays_witness:
  "\<exists>art tb pre enc rh pk secret st1 out st2.
    generateAscDeliveryArtifact ex_js ex_C ex_unhex ([], []) ex_input = Inr art \<and>
    deliver_adaptor ex_C ex_sha256 ''ch_1'' tb pre enc rh pk 120 ex_state = (Inr (), st1) \<and>
    finalize_offchain ex_C ex_sha256 ''ch_1'' secret 150 st1 = (Inr out, st2) \<and>
    fo_result_bytes out = [1, 2, 3] \<and> fo_amount out = 30"
proof -
  obtain art where art: "generateAscDeliveryArtifact ex_js ex_C ex_unhex ([], []) ex_input = Inr art"
    using ex_artifact by blast
  obtain r where r: "ch_active_request ex_channel = Some r" "cr_request_id r = ''req''" "cr_amount r = 30"
    "cr_request_hash r = replicate 32 2" "cr_expires_at r = 230" "ch_status ex_channel = Locked"
    "unat (ch_nonce ex_channel) = 1"
    by (simp add: ex_channel_def)
  have sha: "ax_sha256 ex_ax = ex_sha256" by (simp add: ex_ax_def)
  have st: "aget (es_active_channels ex_state) ''ch_1'' = Some ex_channel"
    by (simp add: ex_state_def)
  have input: "ai_channelId ex_input = ''ch_1''" "ai_requestId ex_input = ''req''" "ai_amount ex_input = ''30''"
    "ai_requestHash ex_input = text_of_bytes (replicate 32 2)" "ai_result ex_input = [1, 2, 3]"
    by (simp_all add: ex_input_def)
  have "let q = submitAscDelivery (ai_channelId ex_input) art in
    \<exists>tb rp sp enc rh pk secret st1 out st2.
      hex_array32 ex_ax (dq_adaptor_point q) = Some tb \<and> hex_array32 ex_ax (dq_pre_sig_r_prime q) = Some rp \<and>
      hex_array32 ex_ax (dq_pre_sig_s_prime q) = Some sp \<and> ax_base64_decode ex_ax (dq_encrypted_result q) = Some enc \<and>
      hex_array32 ex_ax (dq_result_hash q) = Some rh \<and> hex_array32 ex_ax (dq_provider_pubkey q) = Some pk \<and>
      hex_array32 ex_ax (aa_adaptorSecret art) = Some secret \<and>
      deliver_adaptor ex_C (ax_sha256 ex_ax) (dq_channel_id q) tb \<lparr>r_prime = rp, s_prime = sp\<rparr> enc rh pk 120 ex_state =
        (Inr (), st1) \<and>
      finalize_offchain ex_C (ax_sha256 ex_ax) (dq_channel_id q) secret 150 st1 = (Inr out, st2) \<and>
      fo_result_bytes out = ai_result ex_input \<and> fo_amount out = cr_amount r"
    by (rule middleware_delivery_pays [OF ex_curve_laws ex_libraries ex_unhex_hex art, where ch = ex_channel])
      (simp_all add: input r st sha ex_thirty ex_request_hash_read ex_channel_wf)
  then have "\<exists>tb rp sp enc rh pk secret st1 out st2.
      deliver_adaptor ex_C ex_sha256 ''ch_1'' tb \<lparr>r_prime = rp, s_prime = sp\<rparr> enc rh pk 120 ex_state = (Inr (), st1) \<and>
      finalize_offchain ex_C ex_sha256 ''ch_1'' secret 150 st1 = (Inr out, st2) \<and>
      fo_result_bytes out = [1, 2, 3] \<and> fo_amount out = 30"
    by (simp add: Let_def submitAscDelivery_def sha input r(3)) blast
  with art show ?thesis by blast
qed

section \<open>Two requests with one payment\<close>

definition ex_events :: "mw_event list" where
  "ex_events = [Verified 1 ''ver_1'' ''pay_u'', Verified 2 ''ver_1'' ''pay_u'',
    HandlerFinished ''ver_1'' (Some 200) (Some (JString ''data'')),
    SettleAnswered ''ver_1'' (Inr \<lparr>st_settlementId = ''set_1'', st_batchId = None, st_participantReceipt = ''r''\<rparr>),
    Verified 3 ''ver_1'' ''pay_u'']"


section \<open>An audited payment\<close>

definition ex_audited :: audited_payment where
  "ex_audited = (let record = generate_audit_record_at ex_C ex_hkdf ex_sha256 (5, 6) (replicate 32 8) (replicate 32 4) 1500 2
      (replicate 32 1) 77 in
    \<lparr>ap_address = replicate 32 20, ap_client = replicate 32 8, ap_amount = 1500,
     ap_account = \<lparr>au_bump = 255, au_vault = replicate 32 10, au_batch_id = 7, au_index = 0,
       au_encrypted_sender = ea_encrypted_sender record, au_encrypted_amount = ea_encrypted_amount record,
       au_provider = replicate 32 4, au_timestamp = 77, au_auditor_epoch = 2\<rparr>\<rparr>)"

lemma ex_audited_recorded: "recorded ex_C ex_hkdf ex_sha256 (replicate 32 1) (replicate 32 10) ex_audited"
  unfolding recorded_def ex_audited_def Let_def
  by (simp add: generate_audit_record_at_def Let_def) blast


end
