(* ===== verification/Spec2Isabelle.thy ===== *)
theory Spec2Isabelle
  imports Restart_Example Batch_Example Watchtower_Example Requests_Example Seller_Example
begin

text \<open>
  A verification library for the Subly402 privacy vault: a payment system in which clients deposit
  tokens into a vault on Solana, an enclave keeps the balances and the payments private off chain, and
  providers are paid from the vault in batches.

  \<^bold>\<open>The parts and how they interact.\<close>

  \<^item> The vault program (\<^verbatim>\<open>src/programs/subly402_vault/src\<close>) holds the tokens.  It takes deposits, pays
    withdrawals that the enclave has signed, pays batches of settlements together with their encrypted
    audit records, and lets a participant leave without the enclave from the last signed receipt.
  \<^item> The enclave (\<^verbatim>\<open>src/enclave/src\<close>) keeps balances, reservations, channels and credits.  It reserves a
    payment at \<^verbatim>\<open>/v1/verify\<close>, settles it at \<^verbatim>\<open>/v1/settle\<close>, runs service channels with adaptor
    signatures, writes every change to a log before it answers, and submits batches to the program.
  \<^item> The watchtower (\<^verbatim>\<open>src/watchtower/src\<close>) stores the newest receipt of every participant and
    challenges exits on chain that use an older one.
  \<^item> The buyer's client and the auditor's tool (\<^verbatim>\<open>src/sdk/src\<close>) and the seller's middleware
    (\<^verbatim>\<open>src/middleware/src\<close>) are the two ends of a payment.

  \<^bold>\<open>Conventions.\<close>  \<^verbatim>\<open>Subly_Prelude\<close> has the integers of Rust as words with checked operations (the workspace
  is built with overflow checks, so plain arithmetic is exact or an error), results with the error on
  the left, byte strings, association lists for maps, and the locale \<open>fixed_codec\<close> of encodings of fixed
  length; it is interpreted on receipts, vouchers, settlements and audit records.  A transaction on
  chain is a function from the chain to an error or the new chain.  An operation of the enclave is a
  function from the state to a result and the state it leaves, also when it fails.  Panics are a fault of
  their own.  Clocks, random values, fresh identifiers and the success of each write are arguments.
  SHA-256, Ed25519, the curve, HKDF, base58, base64 and the Solana runtime are parameters; what is
  relied on are hypotheses such as \<open>curve_laws\<close> and the locale \<open>token_program\<close>, which
  the examples show to hold for concrete functions.

  \<^bold>\<open>The vault program.\<close>

  \<^item> \<^verbatim>\<open>Vault_Types\<close>: accounts (\<^verbatim>\<open>state/\<close>), constants, errors and the runtime.
  \<^item> \<^verbatim>\<open>Messages\<close>: \<^verbatim>\<open>ed25519_utils.rs\<close> and \<^verbatim>\<open>asc_claim.rs\<close>, with the builders of the enclave.  The inspection of the
    Ed25519 instruction is sound, the formats are unambiguous and disjoint.
  \<^item> \<^verbatim>\<open>Vault_Funds\<close>, \<^verbatim>\<open>Vault_Settle\<close>, \<^verbatim>\<open>Force_Settle\<close>: the instructions, one definition for each handler with the
    constraints of its accounts.  Settlements pay exactly their entries and only next to their audit
    records; exits open only from signed receipts, are replaced only by newer ones and complete.
  \<^item> \<^verbatim>\<open>Vault_System\<close>: the dispatch of \<^verbatim>\<open>lib.rs\<close> as a step relation.  The vault stays backed, withdrawals are
    authorized and never repeated, requests and the life cycle only move forward, in every run.

  \<^bold>\<open>The enclave.\<close>

  \<^item> \<^verbatim>\<open>Enclave_State\<close> (\<^verbatim>\<open>state.rs\<close>), \<^verbatim>\<open>Adaptor_Sig\<close> (\<^verbatim>\<open>adaptor_sig.rs\<close>, \<^verbatim>\<open>audit.rs\<close>), \<^verbatim>\<open>Asc_Manager\<close>
    (\<^verbatim>\<open>asc_manager.rs\<close>) and \<^verbatim>\<open>Wal\<close> (\<^verbatim>\<open>wal.rs\<close>): data and operations.  \<^verbatim>\<open>Asc_Protocol\<close>: a delivered request is paid
    and answered, off chain or from a claim on chain.
  \<^item> \<^verbatim>\<open>Enclave_Handlers\<close>: the critical sections under the persistence lock of \<^verbatim>\<open>handlers.rs\<close>,
    \<^verbatim>\<open>deposit_detector.rs\<close> and \<^verbatim>\<open>batch.rs\<close>, with every rollback.
  \<^item> \<^verbatim>\<open>Ledger\<close>, \<^verbatim>\<open>Ledger_Inv\<close>, \<^verbatim>\<open>Ledger_Refine\<close>, \<^verbatim>\<open>Ledger_Sections\<close>, \<^verbatim>\<open>Ledger_Channels\<close>: the abstract ledger, a
    function of the entries of the log, its invariant, and that every section refines it.
  \<^item> \<^verbatim>\<open>Enclave_System\<close>: histories of sections with any failures.  The enclave is solvent, locked balances
    are exactly what is held, and the log explains the ledger.
  \<^item> \<^verbatim>\<open>Section_Writes\<close>, \<^verbatim>\<open>Requests\<close>, \<^verbatim>\<open>Requests_Safe\<close>: the handlers of \<^verbatim>\<open>handlers.rs\<close> with all their checks; a
    request changes the ledger only by entries it is authorized for.
  \<^item> \<^verbatim>\<open>Wal_Replay\<close>, \<^verbatim>\<open>Snapshot\<close>: the replay of \<^verbatim>\<open>wal.rs\<close> and the snapshots of \<^verbatim>\<open>snapshot.rs\<close>; a restart rebuilds the
    ledger, and what was persisted is recovered.
  \<^item> \<^verbatim>\<open>Batch\<close>, \<^verbatim>\<open>Batch_Correct\<close>: \<^verbatim>\<open>batch.rs\<close>; fair selection, lossless chunks, transactions that the program's
    checks accept, and the privacy rules.

  \<^bold>\<open>The ends of a payment.\<close>

  \<^item> \<^verbatim>\<open>Watchtower\<close>: \<^verbatim>\<open>receipt_store.rs\<close>, \<^verbatim>\<open>main.rs\<close>, \<^verbatim>\<open>challenger.rs\<close>; the newest receipt is kept, and the challenge
    it sends is executed by the program.
  \<^item> \<^verbatim>\<open>Buyer\<close> (\<^verbatim>\<open>crypto.ts\<close>, \<^verbatim>\<open>subly402.ts\<close> of the SDK), \<^verbatim>\<open>Seller\<close> (\<^verbatim>\<open>subly402.ts\<close>, \<^verbatim>\<open>middleware.ts\<close>,
    \<^verbatim>\<open>facilitator.ts\<close> of the middleware) and \<^verbatim>\<open>Payment_Flow\<close>: a payment built for an offer passes every
    check of the enclave's \<^verbatim>\<open>post_verify\<close>; what the budget and the attestation of a buyer guarantee.
  \<^item> \<^verbatim>\<open>Middleware\<close>: the execution cache of \<^verbatim>\<open>middleware.ts\<close>; one execution, one settlement and one answer for a
    verified payment.
  \<^item> \<^verbatim>\<open>Asc_Seller\<close> (\<^verbatim>\<open>asc.ts\<close>) and \<^verbatim>\<open>Audit_Tool\<close> (\<^verbatim>\<open>audit.ts\<close>): deliveries are accepted and paid, and audit
    records are disclosed as recorded.

  The theories \<^verbatim>\<open>Vault_Example\<close>, \<^verbatim>\<open>Enclave_Example\<close>, \<^verbatim>\<open>System_Example\<close>, \<^verbatim>\<open>Restart_Example\<close>, \<^verbatim>\<open>Batch_Example\<close>,
  \<^verbatim>\<open>Watchtower_Example\<close>, \<^verbatim>\<open>Requests_Example\<close>, \<^verbatim>\<open>Payment_Example\<close> and \<^verbatim>\<open>Seller_Example\<close> apply the theorems to
  concrete inputs, with the parameters instantiated by executable functions.

  \<^bold>\<open>Bounds.\<close>  No model uses fuel: loops are structural recursions or functions with a termination proof,
  among them the selection loop of a batch, the key streams and canonical JSON.  Sequences of writes,
  requests and events are arbitrary lists.

  \<^bold>\<open>Limits of the models.\<close>  A request is handled at one instant of the clock and with one answer of the RPC
  node; its critical sections are atomic because of the persistence lock, and what a handler reads before
  it takes the lock is read at the same moment.  The histories of the enclave contain the sections of
  clients, providers, the detector, the expiry and the confirmation of batches.  They do not contain the
  administrative seeding of a balance, the pruning and reconstruction of settlement records while a batch is collected,
  the removal of old records and the recovery of channel claims from the chain, which are modelled as
  operations in \<^verbatim>\<open>Enclave_Handlers\<close> and \<^verbatim>\<open>Batch\<close>.  Strings of TypeScript are sequences of UTF-8 bytes with the
  case and white space of ASCII.

  \<^bold>\<open>Not modelled.\<close>  Attestation documents, KMS, certificates and TLS (\<^verbatim>\<open>attestation.rs\<close>, \<^verbatim>\<open>kms_bootstrap.rs\<close>,
  \<^verbatim>\<open>provider_attestation.rs\<close>, \<^verbatim>\<open>tls.rs\<close>, \<^verbatim>\<open>attestation.ts\<close>, \<^verbatim>\<open>tls.ts\<close>): formats of third-party libraries around
  I/O.  Transport (\<^verbatim>\<open>outbound.rs\<close>, \<^verbatim>\<open>interconnect.rs\<close>, \<^verbatim>\<open>snapshot_store.rs\<close>, \<^verbatim>\<open>src/parent\<close>): relays of bytes.
  The authentication of administrators and the administrative handlers around their sections.  The RPC
  polling and the parsing of transactions in \<^verbatim>\<open>deposit_detector.rs\<close>.  The encryption and the JSON encoding of
  log records and snapshots.  In the SDK \<^verbatim>\<open>client.ts\<close>, automatic deposits and signers other than a secret
  key; in the middleware prices given as numbers, the adaptation of a signature and the submission of a
  close claim.  Scripts, tests and infrastructure.
\<close>

end
